(* ===== verification/Prelude.thy ===== *)
theory Prelude imports Main "HOL-Library.Word" "HOL-Library.AList" begin

text \<open>
  Shared vocabulary of the development: the machine integers and byte strings of the
  Rust code, the outcome of a Rust function (\<open>Ok\<close>, \<open>Err\<close> or a panic), big-endian
  byte strings, and the operations of \<open>HashMap\<close> on association lists.

  \<^item> Machine integers are words; \<open>+\<close>, \<open>-\<close> and \<open>*\<close> wrap, as they do in a release
    build. \<open>usize\<close> (64 bits on the supported targets) is \<open>nat\<close>.
  \<^item> A function that may panic (a slice or an index out of range, \<open>expect\<close> on an error)
    has an outcome in \<open>('e, 'a) res\<close>, where \<open>Panic\<close> is that branch.
  \<^item> \<open>debug_assert!\<close> is compiled out of a release build. Where the profile changes what a
    function computes, the definition takes the flag \<open>dbg\<close> (\<open>cfg(debug_assertions)\<close>).
  \<^item> A \<open>HashMap\<close> is an association list with distinct keys; its order stands for the
    unspecified iteration order of the table, and no property depends on it.
\<close>

unbundle bit_operations_syntax

type_synonym u8 = "8 word"
type_synonym u16 = "16 word"
type_synonym u32 = "32 word"
type_synonym u64 = "64 word"
type_synonym u128 = "128 word"
type_synonym bytes = "u8 list"

section \<open>Outcomes\<close>

datatype ('e, 'a) res = Ok 'a | Err 'e | Panic

text \<open>\<open>Result<T, ()>\<close>, the result type of the \<open>Serialize\<close> trait.\<close>

type_synonym 'a ures = "(unit, 'a) res"

fun and_then :: "('e, 'a) res \<Rightarrow> ('a \<Rightarrow> ('e, 'b) res) \<Rightarrow> ('e, 'b) res" where
  "and_then (Ok x) k = k x"
| "and_then (Err e) k = Err e"
| "and_then Panic k = Panic"

fun map_res :: "('a \<Rightarrow> 'b) \<Rightarrow> ('e, 'a) res \<Rightarrow> ('e, 'b) res" where
  "map_res f (Ok x) = Ok (f x)"
| "map_res f (Err e) = Err e"
| "map_res f Panic = Panic"

fun is_ok :: "('e, 'a) res \<Rightarrow> bool" where
  "is_ok (Ok x) = True"
| "is_ok (Err e) = False"
| "is_ok Panic = False"

lemma and_then_Ok_iff: "and_then m k = Ok y \<longleftrightarrow> (\<exists>x. m = Ok x \<and> k x = Ok y)"
  by (cases m) auto

lemma map_res_Ok_iff: "map_res f m = Ok y \<longleftrightarrow> (\<exists>x. m = Ok x \<and> y = f x)"
  by (cases m) auto

lemma map_res_Err_iff [simp]: "map_res f m = Err e \<longleftrightarrow> m = Err e"
  by (cases m) auto

lemma map_res_Panic_iff [simp]: "map_res f m = Panic \<longleftrightarrow> m = Panic"
  by (cases m) auto

section \<open>Rust arithmetic on words\<close>

definition saturating_sub :: "'a::len word \<Rightarrow> 'a word \<Rightarrow> 'a word" where
  "saturating_sub a b = (if a < b then 0 else a - b)"

definition checked_add :: "'a::len word \<Rightarrow> 'a word \<Rightarrow> 'a word option" where
  "checked_add a b = (if unat a + unat b < 2 ^ LENGTH('a) then Some (a + b) else None)"

lemma unat_saturating_sub: "unat (saturating_sub a b) = unat a - unat b"
  by (auto simp: saturating_sub_def unat_sub word_less_nat_alt word_le_nat_alt not_less)

lemma checked_add_SomeD: "checked_add a b = Some c \<Longrightarrow> unat c = unat a + unat b"
  by (auto simp: checked_add_def unat_word_ariths split: if_splits)

lemma unat_add_small:
  "unat a + unat b < 2 ^ LENGTH('a) \<Longrightarrow> unat (a + b :: 'a::len word) = unat a + unat b"
  by (simp add: unat_word_ariths)

lemma unat_u8_less: "unat (w :: u8) < 256"
  using unsigned_less [of w] by simp

section \<open>Chunks and collected results\<close>

text \<open>\<open>bytes.chunks(n)\<close> for a positive \<open>n\<close>: the last chunk may be short.\<close>

fun chunks :: "nat \<Rightarrow> 'a list \<Rightarrow> 'a list list" where
  "chunks n bs = (if n = 0 \<or> bs = [] then [] else take n bs # chunks n (drop n bs))"

declare chunks.simps [simp del]

lemma chunks_Nil [simp]: "chunks n [] = []"
  by (simp add: chunks.simps)

lemma chunks_append:
  "\<lbrakk> 0 < n; length b = n \<rbrakk> \<Longrightarrow> chunks n (b @ bs) = b # chunks n bs"
  by (subst chunks.simps) auto

lemma chunks_concat:
  "\<lbrakk> 0 < n; \<forall>b \<in> set bss. length b = n \<rbrakk> \<Longrightarrow> chunks n (concat bss) = bss"
  by (induction bss) (simp_all add: chunks_append)

text \<open>\<open>iter.collect::<Result<Vec<_>, _>>()\<close>: the first error ends the iteration.\<close>

fun collect_res :: "('e, 'a) res list \<Rightarrow> ('e, 'a list) res" where
  "collect_res [] = Ok []"
| "collect_res (r # rs) = and_then r (\<lambda>x. map_res (\<lambda>xs. x # xs) (collect_res rs))"

lemma collect_res_all_Ok: "collect_res (map (\<lambda>x. Ok (f x)) xs) = Ok (map f xs)"
  by (induction xs) auto

section \<open>Big-endian byte strings\<close>

text \<open>
  \<open>be_digits n m\<close> is the \<open>n\<close>-byte big-endian representation of \<open>m\<close>;
  \<open>be_value\<close> reads one back.
\<close>

fun be_digits :: "nat \<Rightarrow> nat \<Rightarrow> bytes" where
  "be_digits 0 m = []"
| "be_digits (Suc n) m = be_digits n (m div 256) @ [word_of_nat (m mod 256)]"

definition be_value :: "bytes \<Rightarrow> nat" where
  "be_value bs = foldl (\<lambda>acc b. acc * 256 + unat b) 0 bs"

lemma length_be_digits [simp]: "length (be_digits n m) = n"
  by (induction n arbitrary: m) auto

lemma be_value_snoc [simp]: "be_value (bs @ [b]) = be_value bs * 256 + unat b"
  by (simp add: be_value_def)

lemma be_value_Nil [simp]: "be_value [] = 0"
  by (simp add: be_value_def)

lemma be_value_digits: "be_value (be_digits n m) = m mod 256 ^ n"
proof (induction n arbitrary: m)
  case (Suc n)
  have "unat (word_of_nat (m mod 256) :: u8) = m mod 256"
    by (simp add: unat_of_nat)
  moreover have "m div 256 mod 256 ^ n * 256 + m mod 256 = m mod 256 ^ Suc n"
    by (metis mod_mult2_eq mult.commute power_Suc add.commute)
  ultimately show ?case by (simp add: Suc.IH)
qed simp

lemma be_digits_value: "be_digits (length bs) (be_value bs) = bs"
proof (induction bs rule: rev_induct)
  case (snoc b bs)
  have b: "unat b < 256" using unsigned_less [of b] by simp
  then have "(be_value bs * 256 + unat b) div 256 = be_value bs"
    and "(be_value bs * 256 + unat b) mod 256 = unat b" by simp_all
  then show ?case using snoc.IH by simp
qed simp

section \<open>Tables\<close>

text \<open>
  The operations of \<open>HashMap\<close> the code uses, on association lists. \<open>hm_insert\<close> replaces
  the value of a present key and appends a new key; \<open>hm_entry_or\<close> is
  \<open>entry(k).or_insert(v)\<close>; \<open>hm_modify_or\<close> is \<open>entry(k).and_modify(f).or_insert(v)\<close>.
\<close>

type_synonym ('k, 'v) table = "('k \<times> 'v) list"

definition hm_get :: "('k, 'v) table \<Rightarrow> 'k \<Rightarrow> 'v option" where
  "hm_get t k = map_of t k"

definition hm_contains :: "('k, 'v) table \<Rightarrow> 'k \<Rightarrow> bool" where
  "hm_contains t k = (hm_get t k \<noteq> None)"

definition hm_insert :: "'k \<Rightarrow> 'v \<Rightarrow> ('k, 'v) table \<Rightarrow> ('k, 'v) table" where
  "hm_insert k v t = AList.update k v t"

definition hm_remove :: "'k \<Rightarrow> ('k, 'v) table \<Rightarrow> ('k, 'v) table" where
  "hm_remove k t = AList.delete k t"

definition hm_retain :: "('k \<Rightarrow> 'v \<Rightarrow> bool) \<Rightarrow> ('k, 'v) table \<Rightarrow> ('k, 'v) table" where
  "hm_retain p t = filter (\<lambda>(k, v). p k v) t"

definition hm_modify_or :: "'k \<Rightarrow> ('v \<Rightarrow> 'v) \<Rightarrow> 'v \<Rightarrow> ('k, 'v) table \<Rightarrow> ('k, 'v) table" where
  "hm_modify_or k f v t = hm_insert k (case hm_get t k of Some old \<Rightarrow> f old | None \<Rightarrow> v) t"

definition hm_wf :: "('k, 'v) table \<Rightarrow> bool" where
  "hm_wf t = distinct (map fst t)"

lemma hm_get_Nil [simp]: "hm_get [] k = None"
  by (simp add: hm_get_def)

lemma hm_get_insert [simp]:
  "hm_get (hm_insert k v t) k' = (if k' = k then Some v else hm_get t k')"
  by (simp add: hm_get_def hm_insert_def update_conv)

lemma hm_get_remove [simp]:
  "hm_get (hm_remove k t) k' = (if k' = k then None else hm_get t k')"
  by (simp add: hm_get_def hm_remove_def delete_conv)

lemma hm_wf_Nil [simp]: "hm_wf []"
  by (simp add: hm_wf_def)

lemma hm_wf_insert [simp]: "hm_wf t \<Longrightarrow> hm_wf (hm_insert k v t)"
  by (simp add: hm_wf_def hm_insert_def distinct_update)

lemma hm_wf_remove [simp]: "hm_wf t \<Longrightarrow> hm_wf (hm_remove k t)"
  by (simp add: hm_wf_def hm_remove_def distinct_delete)

lemma hm_wf_retain [simp]: "hm_wf t \<Longrightarrow> hm_wf (hm_retain p t)"
  by (simp add: hm_wf_def hm_retain_def distinct_map_filter)

lemma hm_get_retain:
  "hm_wf t \<Longrightarrow> hm_get (hm_retain p t) k =
     (case hm_get t k of Some v \<Rightarrow> if p k v then Some v else None | None \<Rightarrow> None)"
proof (induction t)
  case (Cons kv t)
  then show ?case
    by (cases kv) (auto simp: hm_wf_def hm_get_def hm_retain_def map_of_eq_None_iff
        split: option.splits dest: map_of_SomeD)
qed (simp add: hm_retain_def)

lemma hm_get_modify_or [simp]:
  "hm_get (hm_modify_or k f v t) k' =
     (if k' = k then Some (case hm_get t k of Some old \<Rightarrow> f old | None \<Rightarrow> v) else hm_get t k')"
  by (simp add: hm_modify_or_def)

lemma hm_wf_modify_or [simp]: "hm_wf t \<Longrightarrow> hm_wf (hm_modify_or k f v t)"
  by (simp add: hm_modify_or_def)

lemma hm_contains_iff: "hm_contains t k \<longleftrightarrow> k \<in> fst ` set t"
  by (auto simp: hm_contains_def hm_get_def map_of_eq_None_iff)

text \<open>
  What a client of a table relies on. The state tables of the manager and the batch tables
  of the error correction are clients of these laws.
\<close>

locale table_ops =
  fixes get :: "'t \<Rightarrow> 'k \<Rightarrow> 'v option"
    and ins :: "'k \<Rightarrow> 'v \<Rightarrow> 't \<Rightarrow> 't"
    and del :: "'k \<Rightarrow> 't \<Rightarrow> 't"
    and wf :: "'t \<Rightarrow> bool"
  assumes get_ins: "get (ins k v t) k' = (if k' = k then Some v else get t k')"
    and get_del: "get (del k t) k' = (if k' = k then None else get t k')"
    and wf_ins: "wf t \<Longrightarrow> wf (ins k v t)"
    and wf_del: "wf t \<Longrightarrow> wf (del k t)"
begin

lemma get_ins_del: "get (ins k v (del k t)) k' = get (ins k v t) k'"
  by (simp add: get_ins get_del)

lemma all_values_ins:
  "\<lbrakk> \<And>k' v'. get t k' = Some v' \<Longrightarrow> P k' v'; P k v; get (ins k v t) k' = Some v' \<rbrakk> \<Longrightarrow> P k' v'"
  by (auto simp: get_ins split: if_splits)

lemma all_values_del:
  "\<lbrakk> \<And>k' v'. get t k' = Some v' \<Longrightarrow> P k' v'; get (del k t) k' = Some v' \<rbrakk> \<Longrightarrow> P k' v'"
  by (auto simp: get_del split: if_splits)

end

interpretation hm: table_ops hm_get hm_insert hm_remove hm_wf
  by unfold_locales simp_all

end
