(* ===== verification/Serialize.thy ===== *)
theory Serialize imports Prelude begin

text \<open>
  The \<open>Serialize\<close> trait (\<open>src/src/packet_processor/serialize.rs\<close>): its implementations for
  integers, byte vectors, byte arrays, socket addresses and pairs, and the code the derive
  macros generate (\<open>src/ubass_macros/src/lib.rs\<close>) for structs, enums, packet headers and
  flag sets. \<open>serialize\<close> writes into the front of a buffer and returns the buffer;
  slicing past the end of a buffer is a panic.

  The locale \<open>wire\<close> states what a user of a serialisable type relies on, \<open>wire_prefix\<close> what
  the derived struct code relies on for every field but the last.
\<close>

section \<open>The interface\<close>

type_synonym writer = "bytes \<Rightarrow> bytes ures"

definition writes :: "writer \<Rightarrow> bytes \<Rightarrow> bool" where
  "writes w e \<longleftrightarrow> (\<forall>buf. length e \<le> length buf \<longrightarrow> w buf = Ok (e @ drop (length e) buf))"

definition writes_exact :: "writer \<Rightarrow> bytes \<Rightarrow> bool" where
  "writes_exact w e \<longleftrightarrow> (\<forall>buf. length buf = length e \<longrightarrow> w buf = Ok e)"

lemma writes_imp_exact: "writes w e \<Longrightarrow> writes_exact w e"
  by (simp add: writes_def writes_exact_def)

locale wire =
  fixes ser :: "'a \<Rightarrow> writer"
    and de :: "bytes \<Rightarrow> 'a ures"
    and sized :: "'a \<Rightarrow> nat"
    and enc :: "'a \<Rightarrow> bytes"
    and valid :: "'a \<Rightarrow> bool"
  assumes len_enc: "valid x \<Longrightarrow> length (enc x) = sized x"
    and ser_exact: "\<lbrakk> valid x; length buf = sized x \<rbrakk> \<Longrightarrow> ser x buf = Ok (enc x)"
    and ser_short: "length buf < sized x \<Longrightarrow> ser x buf = Err ()"
    and de_enc: "valid x \<Longrightarrow> de (enc x) = Ok x"
begin

lemma roundtrip: "valid x \<Longrightarrow> and_then (ser x (replicate (sized x) 0)) de = Ok x"
  by (simp add: ser_exact de_enc)

lemma enc_inj: "\<lbrakk> valid x; valid y; enc x = enc y \<rbrakk> \<Longrightarrow> x = y"
  using de_enc by (metis res.inject(1))

lemma exact: "valid x \<Longrightarrow> writes_exact (ser x) (enc x)"
  by (simp add: writes_exact_def ser_exact len_enc)

end

locale wire_prefix = wire +
  assumes ser_long: "\<lbrakk> valid x; sized x \<le> length buf \<rbrakk> \<Longrightarrow> ser x buf = Ok (enc x @ drop (sized x) buf)"
    and de_prefix: "valid x \<Longrightarrow> de (enc x @ rest) = Ok x"
begin

lemma fits: "valid x \<Longrightarrow> writes (ser x) (enc x)"
  by (simp add: writes_def ser_long len_enc)

lemma enc_prefix_inj:
  "\<lbrakk> valid x; valid y; enc x @ r = enc y @ r' \<rbrakk> \<Longrightarrow> x = y \<and> r = r'"
  using de_prefix by (metis res.inject(1) append_eq_append_conv)

end

section \<open>Integers\<close>

text \<open>
  \<open>impl_packet_serialization_ints!\<close>: the big-endian bytes of the integer in the first
  \<open>size_of::<T>()\<close> bytes of the buffer.
\<close>

definition int_sized :: "'a::len word \<Rightarrow> nat" where
  "int_sized w = LENGTH('a) div 8"

definition int_bytes :: "'a::len word \<Rightarrow> bytes" where
  "int_bytes w = be_digits (LENGTH('a) div 8) (unat w)"

definition int_serialize :: "'a::len word \<Rightarrow> writer" where
  "int_serialize w buf =
     (if length buf < int_sized w then Err ()
      else Ok (int_bytes w @ drop (int_sized w) buf))"

definition int_deserialize :: "bytes \<Rightarrow> ('a::len word) ures" where
  "int_deserialize bs =
     (if length bs < LENGTH('a) div 8 then Err ()
      else Ok (word_of_nat (be_value (take (LENGTH('a) div 8) bs))))"

lemma length_int_bytes [simp]: "length (int_bytes (w :: 'a::len word)) = LENGTH('a) div 8"
  by (simp add: int_bytes_def)

lemma be_value_int_bytes:
  "8 dvd LENGTH('a) \<Longrightarrow> be_value (int_bytes (w :: 'a::len word)) = unat w"
proof -
  assume "8 dvd LENGTH('a)"
  then obtain k where k: "LENGTH('a) = 8 * k" ..
  have "unat w < 256 ^ k" using unsigned_less [of w] by (simp add: k power_mult)
  then show ?thesis by (simp add: int_bytes_def be_value_digits k)
qed

lemma int_wire_prefix:
  "8 dvd LENGTH('a) \<Longrightarrow>
   wire_prefix (int_serialize :: 'a::len word \<Rightarrow> writer) int_deserialize int_sized int_bytes (\<lambda>_. True)"
  by unfold_locales
    (simp_all add: int_serialize_def int_deserialize_def int_sized_def be_value_int_bytes)

interpretation u8w: wire_prefix "int_serialize :: u8 \<Rightarrow> writer" int_deserialize int_sized int_bytes "\<lambda>_. True"
  by (rule int_wire_prefix) simp

interpretation u16w: wire_prefix "int_serialize :: u16 \<Rightarrow> writer" int_deserialize int_sized int_bytes "\<lambda>_. True"
  by (rule int_wire_prefix) simp

interpretation u32w: wire_prefix "int_serialize :: u32 \<Rightarrow> writer" int_deserialize int_sized int_bytes "\<lambda>_. True"
  by (rule int_wire_prefix) simp

interpretation u64w: wire_prefix "int_serialize :: u64 \<Rightarrow> writer" int_deserialize int_sized int_bytes "\<lambda>_. True"
  by (rule int_wire_prefix) simp

lemma int_deserialize_prefix [simp]:
  "8 dvd LENGTH('a) \<Longrightarrow> int_deserialize (int_bytes (w :: 'a::len word) @ rest) = Ok w"
  by (simp add: int_deserialize_def be_value_int_bytes)

lemma int_deserialize_exact [simp]:
  "8 dvd LENGTH('a) \<Longrightarrow> int_deserialize (int_bytes (w :: 'a::len word)) = Ok w"
  using int_deserialize_prefix [of w "[]"] by simp

section \<open>Byte vectors and byte arrays\<close>

definition vec_serialize :: "bytes \<Rightarrow> writer" where
  "vec_serialize v buf =
     (if length buf < length v then Err () else Ok (v @ drop (length v) buf))"

definition vec_deserialize :: "bytes \<Rightarrow> bytes ures" where
  "vec_deserialize bs = Ok bs"

definition vec_sized :: "bytes \<Rightarrow> nat" where
  "vec_sized v = length v"

interpretation vecw: wire vec_serialize vec_deserialize vec_sized "\<lambda>v. v" "\<lambda>_. True"
  by unfold_locales (simp_all add: vec_serialize_def vec_deserialize_def vec_sized_def)

text \<open>\<open>[u8; N]\<close> and \<open>Box<[u8; N]>\<close>; an array is a byte list of length \<open>N\<close>.\<close>

definition arr_serialize :: "nat \<Rightarrow> bytes \<Rightarrow> writer" where
  "arr_serialize n a buf = (if length buf < n then Err () else Ok (a @ drop n buf))"

definition arr_deserialize :: "nat \<Rightarrow> bytes \<Rightarrow> bytes ures" where
  "arr_deserialize n bs = (if length bs < n then Err () else Ok (take n bs))"

definition arr_sized :: "nat \<Rightarrow> bytes \<Rightarrow> nat" where
  "arr_sized n a = n"

lemma arr_wire_prefix:
  "wire_prefix (arr_serialize n) (arr_deserialize n) (arr_sized n) (\<lambda>a. a) (\<lambda>a. length a = n)"
  by unfold_locales (simp_all add: arr_serialize_def arr_deserialize_def arr_sized_def)

interpretation arr4w: wire_prefix "arr_serialize 4" "arr_deserialize 4" "arr_sized 4" "\<lambda>a. a" "\<lambda>a. length a = 4"
  by (rule arr_wire_prefix)

interpretation arr16w: wire_prefix "arr_serialize 16" "arr_deserialize 16" "arr_sized 16" "\<lambda>a. a" "\<lambda>a. length a = 16"
  by (rule arr_wire_prefix)

interpretation arr32w: wire_prefix "arr_serialize 32" "arr_deserialize 32" "arr_sized 32" "\<lambda>a. a" "\<lambda>a. length a = 32"
  by (rule arr_wire_prefix)

lemma arr_deserialize_prefix [simp]: "length a = n \<Longrightarrow> arr_deserialize n (a @ rest) = Ok a"
  by (simp add: arr_deserialize_def)

lemma arr_deserialize_exact [simp]: "length a = n \<Longrightarrow> arr_deserialize n a = Ok a"
  by (simp add: arr_deserialize_def)

section \<open>Socket addresses and pairs\<close>

text \<open>A \<open>SocketAddrV4\<close>: four octets and a port.\<close>

record sock_v4 =
  sa_ip :: bytes
  sa_port :: u16

definition sock_v4_serialize :: "sock_v4 \<Rightarrow> writer" where
  "sock_v4_serialize a buf =
     (if length buf < 6 then Err ()
      else and_then (arr_serialize 4 (sa_ip a) buf) (\<lambda>buf.
             if length buf < 4 then Panic
             else map_res (\<lambda>b. take 4 buf @ b) (int_serialize (sa_port a) (drop 4 buf))))"

definition sock_v4_deserialize :: "bytes \<Rightarrow> sock_v4 ures" where
  "sock_v4_deserialize bs =
     (if length bs < 6 then Err ()
      else and_then (arr_deserialize 4 bs) (\<lambda>octets.
             map_res (\<lambda>port. \<lparr>sa_ip = octets, sa_port = port\<rparr>) (int_deserialize (drop 4 bs))))"

definition sock_v4_sized :: "sock_v4 \<Rightarrow> nat" where
  "sock_v4_sized a = 6"

interpretation sockw: wire_prefix sock_v4_serialize sock_v4_deserialize sock_v4_sized
    "\<lambda>a. sa_ip a @ int_bytes (sa_port a)" "\<lambda>a. length (sa_ip a) = 4"
  by unfold_locales
    (simp_all add: sock_v4_serialize_def sock_v4_deserialize_def sock_v4_sized_def
      arr_serialize_def int_serialize_def int_sized_def)

text \<open>The implementation for pairs, over the operations of the two components.\<close>

definition pair_sized :: "('a \<Rightarrow> nat) \<Rightarrow> ('b \<Rightarrow> nat) \<Rightarrow> 'a \<times> 'b \<Rightarrow> nat" where
  "pair_sized sz1 sz2 p = sz1 (fst p) + sz2 (snd p)"

definition pair_serialize ::
  "('a \<Rightarrow> writer) \<Rightarrow> ('a \<Rightarrow> nat) \<Rightarrow> ('b \<Rightarrow> writer) \<Rightarrow> ('b \<Rightarrow> nat) \<Rightarrow> 'a \<times> 'b \<Rightarrow> writer" where
  "pair_serialize s1 sz1 s2 sz2 p buf =
     (if length buf < pair_sized sz1 sz2 p then Err ()
      else and_then (s1 (fst p) buf) (\<lambda>buf.
             if length buf < sz1 (fst p) then Panic
             else map_res (\<lambda>b. take (sz1 (fst p)) buf @ b) (s2 (snd p) (drop (sz1 (fst p)) buf))))"

definition pair_deserialize ::
  "(bytes \<Rightarrow> 'a ures) \<Rightarrow> ('a \<Rightarrow> nat) \<Rightarrow> (bytes \<Rightarrow> 'b ures) \<Rightarrow> bytes \<Rightarrow> ('a \<times> 'b) ures" where
  "pair_deserialize d1 sz1 d2 bs =
     and_then (d1 bs) (\<lambda>f1.
       if length bs < sz1 f1 then Panic
       else map_res (\<lambda>f2. (f1, f2)) (d2 (drop (sz1 f1) bs)))"

lemma pair_wire:
  assumes a: "wire_prefix s1 d1 sz1 e1 v1" and b: "wire s2 d2 sz2 e2 v2"
  shows "wire (pair_serialize s1 sz1 s2 sz2) (pair_deserialize d1 sz1 d2) (pair_sized sz1 sz2)
           (\<lambda>p. e1 (fst p) @ e2 (snd p)) (\<lambda>p. v1 (fst p) \<and> v2 (snd p))"
proof -
  note laws1 = wire.len_enc [OF wire_prefix.axioms(1) [OF a]] wire_prefix.ser_long [OF a]
    wire_prefix.de_prefix [OF a]
  note laws2 = wire.len_enc [OF b] wire.ser_exact [OF b] wire.de_enc [OF b]
  show ?thesis
    by unfold_locales
      (auto simp: pair_serialize_def pair_deserialize_def pair_sized_def laws1 laws2)
qed

end
