(* ===== verification/Derive.thy ===== *)
theory Derive imports Serialize begin

text \<open>
  The code generated by the derive macros of \<open>src/ubass_macros/src/lib.rs\<close>:
  \<open>#[derive(Serialize)]\<close> on structs (fields written one after the other at running
  offsets, read back the same way) and on enums (the discriminant as an integer),
  \<open>#[derive(Headers)]\<close> (all fields but \<open>payload\<close>), \<open>#[derive(Flags)]\<close> (bit sets) and
  \<open>variants_array\<close>.

  The struct lemmas reduce the offset arithmetic of the generated code to a concatenation
  of the fields' encodings; the enum lemmas compare the discriminants the macro computes
  with those the compiler assigns.
\<close>

section \<open>Structs\<close>

text \<open>
  A field of a named struct as the generated code sees it: its name, the \<open>sized()\<close> of
  its value and its \<open>serialize\<close>.
\<close>

type_synonym field = "string \<times> nat \<times> writer"

fun struct_sized :: "field list \<Rightarrow> nat" where
  "struct_sized [] = 0"
| "struct_sized ((nm, n, w) # fs) = n + struct_sized fs"

fun struct_write :: "nat \<Rightarrow> field list \<Rightarrow> writer" where
  "struct_write off [] buf = Ok buf"
| "struct_write off ((nm, n, w) # fs) buf =
     (if length buf < off then Panic
      else and_then (w (drop off buf)) (\<lambda>b. struct_write (off + n) fs (take off buf @ b)))"

definition struct_serialize :: "field list \<Rightarrow> writer" where
  "struct_serialize fs buf =
     (if length buf < struct_sized fs then Err () else struct_write 0 fs buf)"

text \<open>
  Reading one field: \<open>let f = T::deserialize(&bytes[offset..])?; offset += f.sized();\<close>
  and then the rest of the generated body.
\<close>

definition de_field ::
  "(bytes \<Rightarrow> 'a ures) \<Rightarrow> ('a \<Rightarrow> nat) \<Rightarrow> bytes \<Rightarrow> nat \<Rightarrow> ('a \<Rightarrow> nat \<Rightarrow> 'b ures) \<Rightarrow> 'b ures" where
  "de_field d sz bs off k =
     (if length bs < off then Panic
      else and_then (d (drop off bs)) (\<lambda>x. k x (off + sz x)))"

text \<open>
  \<open>encodes fs es\<close>: each field but the last writes its encoding in front of whatever the
  buffer holds; the last one may need a buffer of exactly its size (\<open>AppId\<close> does).
\<close>

fun encodes :: "field list \<Rightarrow> bytes list \<Rightarrow> bool" where
  "encodes [] [] = True"
| "encodes [(nm, n, w)] [e] = (n = length e \<and> writes_exact w e)"
| "encodes ((nm, n, w) # f # fs) (e # es) = (n = length e \<and> writes w e \<and> encodes (f # fs) es)"
| "encodes fs es = False"

lemma encodes_sized: "encodes fs es \<Longrightarrow> struct_sized fs = length (concat es)"
  by (induction fs es rule: encodes.induct) auto

lemma struct_write_concat:
  "\<lbrakk> encodes fs es; length rest = length (concat es) \<rbrakk> \<Longrightarrow>
   struct_write (length pre) fs (pre @ rest) = Ok (pre @ concat es)"
proof (induction fs es arbitrary: pre rest rule: encodes.induct)
  case (2 nm n w e)
  then show ?case by (simp add: writes_exact_def)
next
  case (3 nm n w f fs e es)
  have "struct_write (length pre + length e) (f # fs) ((pre @ e) @ drop (length e) rest)
          = Ok ((pre @ e) @ concat es)"
    using "3.IH" [of "drop (length e) rest" "pre @ e"] "3.prems" by simp
  then show ?case using "3.prems" by (simp add: writes_def)
qed simp_all

theorem struct_serialize_concat:
  "\<lbrakk> encodes fs es; length buf = struct_sized fs \<rbrakk> \<Longrightarrow> struct_serialize fs buf = Ok (concat es)"
  using struct_write_concat [of fs es buf "[]"]
  by (simp add: struct_serialize_def encodes_sized)

text \<open>A struct whose fields all write a prefix is itself written as a prefix of a longer buffer.\<close>

definition encodes_all :: "field list \<Rightarrow> bytes list \<Rightarrow> bool" where
  "encodes_all fs es \<longleftrightarrow> list_all2 (\<lambda>(nm, n, w) e. n = length e \<and> writes w e) fs es"

lemma struct_write_writes:
  "\<lbrakk> encodes_all fs es; length (concat es) \<le> length rest \<rbrakk> \<Longrightarrow>
   struct_write (length pre) fs (pre @ rest) = Ok (pre @ concat es @ drop (length (concat es)) rest)"
proof (induction fs arbitrary: es pre rest)
  case (Cons f fs)
  obtain nm n w where f: "f = (nm, n, w)" by (cases f)
  obtain e es' where es: "es = e # es'" and e: "n = length e" "writes w e"
      and tl: "encodes_all fs es'"
    using Cons.prems(1) by (auto simp: encodes_all_def list_all2_Cons1 f)
  have "struct_write (length (pre @ e)) fs ((pre @ e) @ drop (length e) rest)
          = Ok ((pre @ e) @ concat es' @ drop (length (concat es')) (drop (length e) rest))"
    using Cons.IH [OF tl, of "drop (length e) rest" "pre @ e"] Cons.prems(2) es by simp
  then show ?case using Cons.prems(2) e
    by (simp add: f es writes_def add.commute)
qed (simp add: encodes_all_def)

lemma encodes_all_sized: "encodes_all fs es \<Longrightarrow> struct_sized fs = length (concat es)"
  by (induction fs arbitrary: es) (auto simp: encodes_all_def list_all2_Cons1)

lemma struct_serialize_writes: "encodes_all fs es \<Longrightarrow> writes (struct_serialize fs) (concat es)"
  using struct_write_writes [of fs es _ "[]"]
  by (auto simp: writes_def struct_serialize_def encodes_all_sized)

lemma de_field_Ok [simp]:
  "\<lbrakk> off \<le> length bs; d (drop off bs) = Ok x \<rbrakk> \<Longrightarrow> de_field d sz bs off k = k x (off + sz x)"
  by (simp add: de_field_def)

lemma de_field_Err [simp]:
  "\<lbrakk> off \<le> length bs; d (drop off bs) = Err e \<rbrakk> \<Longrightarrow> de_field d sz bs off k = Err e"
  by (simp add: de_field_def)

section \<open>Headers\<close>

text \<open>
  \<open>headers()\<close>: a zeroed buffer of the size of all fields not named \<open>payload\<close>, into which
  those fields are written; a field that fails to serialize leaves its bytes alone.
\<close>

fun headers_write :: "nat \<Rightarrow> field list \<Rightarrow> writer" where
  "headers_write off [] buf = Ok buf"
| "headers_write off ((nm, n, w) # fs) buf =
     (if length buf < off then Panic
      else case w (drop off buf) of
             Ok b \<Rightarrow> headers_write (off + n) fs (take off buf @ b)
           | Err e \<Rightarrow> headers_write (off + n) fs buf
           | Panic \<Rightarrow> Panic)"

definition header_fields :: "field list \<Rightarrow> field list" where
  "header_fields fs = filter (\<lambda>(nm, n, w). nm \<noteq> ''payload'') fs"

definition headers :: "field list \<Rightarrow> bytes ures" where
  "headers fs = headers_write 0 (header_fields fs) (replicate (struct_sized (header_fields fs)) 0)"

lemma headers_write_concat:
  "\<lbrakk> encodes fs es; length rest = length (concat es) \<rbrakk> \<Longrightarrow>
   headers_write (length pre) fs (pre @ rest) = Ok (pre @ concat es)"
proof (induction fs es arbitrary: pre rest rule: encodes.induct)
  case (2 nm n w e)
  then show ?case by (simp add: writes_exact_def)
next
  case (3 nm n w f fs e es)
  have "headers_write (length pre + length e) (f # fs) ((pre @ e) @ drop (length e) rest)
          = Ok ((pre @ e) @ concat es)"
    using "3.IH" [of "drop (length e) rest" "pre @ e"] "3.prems" by simp
  then show ?case using "3.prems" by (simp add: writes_def)
qed simp_all

lemma headers_concat: "encodes (header_fields fs) es \<Longrightarrow> headers fs = Ok (concat es)"
  using headers_write_concat [of "header_fields fs" es "replicate (struct_sized (header_fields fs)) 0" "[]"]
  by (simp add: headers_def encodes_sized)

section \<open>Enums\<close>

text \<open>
  \<open>enum_variants\<close> computes the value of each variant. An explicit discriminant is taken
  as written and sets the counter to 1; an implicit one is the last explicit value plus the
  counter, and the counter is not advanced.
\<close>

fun enum_variants_from :: "int \<Rightarrow> int \<Rightarrow> ('v \<times> int option) list \<Rightarrow> ('v \<times> int) list" where
  "enum_variants_from counter last_expr [] = []"
| "enum_variants_from counter last_expr ((v, Some d) # vs) = (v, d) # enum_variants_from 1 d vs"
| "enum_variants_from counter last_expr ((v, None) # vs) =
     (v, last_expr + counter) # enum_variants_from counter last_expr vs"

definition enum_variants :: "('v \<times> int option) list \<Rightarrow> ('v \<times> int) list" where
  "enum_variants vs = enum_variants_from 0 0 vs"

text \<open>The language's rule, which \<open>*self as u8\<close> uses: an implicit discriminant is the previous one plus 1.\<close>

fun discriminants_from :: "int \<Rightarrow> ('v \<times> int option) list \<Rightarrow> ('v \<times> int) list" where
  "discriminants_from next_d [] = []"
| "discriminants_from next_d ((v, Some d) # vs) = (v, d) # discriminants_from (d + 1) vs"
| "discriminants_from next_d ((v, None) # vs) = (v, next_d) # discriminants_from (next_d + 1) vs"

definition discriminants :: "('v \<times> int option) list \<Rightarrow> ('v \<times> int) list" where
  "discriminants vs = discriminants_from 0 vs"

text \<open>\<open>*self as u8\<close>.\<close>

definition as_u8 :: "('v \<times> int option) list \<Rightarrow> 'v \<Rightarrow> u8" where
  "as_u8 vs v = (case map_of (discriminants vs) v of Some d \<Rightarrow> word_of_int d | None \<Rightarrow> 0)"

text \<open>The generated impl; the crate derives it for \<open>repr(u8)\<close> enums only.\<close>

definition enum_sized :: "'v \<Rightarrow> nat" where
  "enum_sized v = 1"

definition enum_serialize :: "('v \<times> int option) list \<Rightarrow> 'v \<Rightarrow> writer" where
  "enum_serialize vs v buf =
     (if length buf < enum_sized v then Err () else int_serialize (as_u8 vs v) buf)"

fun enum_match :: "('v \<times> int) list \<Rightarrow> u8 \<Rightarrow> 'v ures" where
  "enum_match [] tmp = Err ()"
| "enum_match ((v, e) # vs) tmp = (if tmp = word_of_int e then Ok v else enum_match vs tmp)"

definition enum_deserialize :: "('v \<times> int option) list \<Rightarrow> bytes \<Rightarrow> 'v ures" where
  "enum_deserialize vs bs = and_then (int_deserialize bs) (enum_match (enum_variants vs))"

text \<open>The values a derived enum reads back as themselves.\<close>

definition enum_ok :: "('v \<times> int option) list \<Rightarrow> 'v \<Rightarrow> bool" where
  "enum_ok vs v \<longleftrightarrow> enum_match (enum_variants vs) (as_u8 vs v) = Ok v"

lemma length_u8_bytes [simp]: "length (int_bytes (w :: u8)) = Suc 0"
  by simp

lemma enum_wire_prefix:
  "wire_prefix (enum_serialize vs) (enum_deserialize vs) enum_sized
     (\<lambda>v. int_bytes (as_u8 vs v)) (enum_ok vs)"
  by unfold_locales
    (auto simp: enum_serialize_def enum_deserialize_def enum_sized_def enum_ok_def
      int_serialize_def int_sized_def)

text \<open>
  Where every discriminant is written out, the macro and the compiler agree.
\<close>

lemma enum_variants_explicit:
  "\<forall>p \<in> set vs. snd p \<noteq> None \<Longrightarrow> enum_variants_from c l vs = discriminants_from n vs"
  by (induction c l vs arbitrary: n rule: enum_variants_from.induct) auto

section \<open>Flag sets\<close>

text \<open>
  \<open>#[derive(Flags)]\<close> over a table \<open>vs\<close> of the flag type's variants and their bits.
\<close>

type_synonym 'v flag_table = "('v \<times> u16) list"

definition flag_bit :: "'v flag_table \<Rightarrow> 'v \<Rightarrow> u16" where
  "flag_bit vs f = (case map_of vs f of Some b \<Rightarrow> b | None \<Rightarrow> 0)"

definition flags_construct :: "'v flag_table \<Rightarrow> 'v list \<Rightarrow> u16" where
  "flags_construct vs fs = foldl (\<lambda>acc f2. acc OR f2) 0 (map (flag_bit vs) fs)"

definition flags_none :: u16 where
  "flags_none = 0"

definition flags_set :: "'v flag_table \<Rightarrow> u16 \<Rightarrow> 'v \<Rightarrow> u16" where
  "flags_set vs x f = x OR flag_bit vs f"

definition flags_unset :: "'v flag_table \<Rightarrow> u16 \<Rightarrow> 'v \<Rightarrow> u16" where
  "flags_unset vs x f = x AND NOT (flag_bit vs f)"

definition flags_contains :: "'v flag_table \<Rightarrow> u16 \<Rightarrow> 'v \<Rightarrow> bool" where
  "flags_contains vs x f \<longleftrightarrow> x AND flag_bit vs f \<noteq> 0"

definition flags_deconstruct :: "'v flag_table \<Rightarrow> u16 \<Rightarrow> 'v list" where
  "flags_deconstruct vs x = filter (flags_contains vs x) (map fst vs)"

definition flags_valid :: "'v flag_table \<Rightarrow> u16 \<Rightarrow> bool" where
  "flags_valid vs x \<longleftrightarrow> x AND NOT (flags_construct vs (map fst vs)) = 0"

text \<open>The contract of the \<open>Flags\<close> trait: a set of flags behind an integer.\<close>

locale flag_set =
  fixes cons :: "'v list \<Rightarrow> 'o"
    and none :: 'o
    and set_f :: "'o \<Rightarrow> 'v \<Rightarrow> 'o"
    and unset_f :: "'o \<Rightarrow> 'v \<Rightarrow> 'o"
    and has :: "'o \<Rightarrow> 'v \<Rightarrow> bool"
    and known :: "'v \<Rightarrow> bool"
  assumes has_none: "\<not> has none f"
    and has_set: "\<lbrakk> known f; known g \<rbrakk> \<Longrightarrow> has (set_f x g) f \<longleftrightarrow> f = g \<or> has x f"
    and has_unset: "\<lbrakk> known f; known g \<rbrakk> \<Longrightarrow> has (unset_f x g) f \<longleftrightarrow> f \<noteq> g \<and> has x f"
    and cons_foldl: "cons fs = foldl set_f none fs"
begin

lemma has_foldl_set:
  "\<lbrakk> known f; \<forall>g \<in> set fs. known g \<rbrakk> \<Longrightarrow> has (foldl set_f acc fs) f \<longleftrightarrow> f \<in> set fs \<or> has acc f"
  by (induction fs arbitrary: acc) (auto simp: has_set)

lemma has_cons: "\<lbrakk> known f; \<forall>g \<in> set fs. known g \<rbrakk> \<Longrightarrow> has (cons fs) f \<longleftrightarrow> f \<in> set fs"
  by (simp add: cons_foldl has_foldl_set has_none)

lemma unset_set_other: "\<lbrakk> known f; known g; f \<noteq> g \<rbrakk> \<Longrightarrow> has (unset_f (set_f x g) f) g"
  by (simp add: has_unset has_set)

end

end
