(* ===== verification/Wire_Types.thy ===== *)
theory Wire_Types imports Derive begin

text \<open>
  The small types of the wire format (\<open>src/src/manager/packets.rs\<close>, lines 949 to 1563, and
  \<open>AppId\<close> of \<open>src/src/manager/state.rs\<close>): protocol version, packet and control types,
  option flags, FEC information, byte positions and byte ranges, payload fields.

  A transparent newtype over an integer (\<open>SessionId(u64)\<close>, \<open>BatchID(u16)\<close>,
  \<open>BytePosition(u32)\<close>, \<open>Timestamp(u64)\<close>, \<open>HandshakeId(u32)\<close>, \<open>Version(u16)\<close>,
  \<open>Options(u16)\<close>, \<open>SecondaryType(u16)\<close>, \<open>BufferId(u16)\<close>, \<open>BufferSize(u32)\<close>) is that
  word, one over a byte array or vector (\<open>PublicKey\<close>, \<open>PacketFingerprint\<close>,
  \<open>PayloadField\<close>, \<open>ParityPayload\<close>) that list: \<open>newtype_serialize\<close> and
  \<open>newtype_deserialize\<close> show that the derived code is the wrapped type's.

  Every type comes with the interpretation of \<open>wire\<close> or \<open>wire_prefix\<close> it satisfies; the
  two that satisfy neither on all their values are \<open>ErrorType\<close> and the empty list of
  byte ranges.
\<close>

type_synonym session_id = u64
type_synonym batch_id = u16
type_synonym byte_position = u32
type_synonym handshake_id = u32
type_synonym timestamp = u64
type_synonym version = u16
type_synonym options = u16
type_synonym secondary_type = u16
type_synonym buffer_id = u16
type_synonym buffer_size = u32
type_synonym fingerprint = bytes

lemma newtype_serialize:
  "\<lbrakk> length buf < n \<longrightarrow> w buf = Err () \<rbrakk> \<Longrightarrow> struct_serialize [(nm, n, w)] buf = w buf"
  by (cases "w buf") (auto simp: struct_serialize_def)

lemma newtype_deserialize: "de_field d sz bs 0 (\<lambda>x off. Ok x) = d bs"
  by (cases "d bs") (auto simp: de_field_def)

text \<open>What a constructor with a \<open>debug_assert!\<close> returns: a panic in a debug build only.\<close>

definition debug_assert :: "bool \<Rightarrow> bool \<Rightarrow> 'a \<Rightarrow> ('e, 'a) res" where
  "debug_assert dbg p x = (if dbg \<and> \<not> p then Panic else Ok x)"

lemma debug_assert_release [simp]: "debug_assert False p x = Ok x"
  by (simp add: debug_assert_def)

lemma debug_assert_holds [simp]: "p \<Longrightarrow> debug_assert dbg p x = Ok x"
  by (simp add: debug_assert_def)

definition MAX_PAYLOAD_LENGTH :: nat where
  "MAX_PAYLOAD_LENGTH = 1368"

section \<open>Version\<close>

definition version_new :: "u8 \<Rightarrow> u8 \<Rightarrow> u8 \<Rightarrow> version" where
  "version_new major minor patch =
     push_bit 12 (ucast major) OR push_bit 8 (ucast minor) OR ucast patch"

definition version_parse :: "version \<Rightarrow> u8 \<times> u8 \<times> u8" where
  "version_parse v = (ucast (drop_bit 12 v), ucast (drop_bit 8 v AND 0xF), ucast (v AND 0xFF))"

definition CURRENT_VERSION :: version where
  "CURRENT_VERSION = version_new 0 0 1"

definition MIN_COMPATIBLE_VERSION :: version where
  "MIN_COMPATIBLE_VERSION = version_new 0 0 1"

definition version_is_compatible :: "version \<Rightarrow> bool" where
  "version_is_compatible v \<longleftrightarrow> v \<ge> MIN_COMPATIBLE_VERSION"

definition version_is_zero :: "version \<Rightarrow> bool" where
  "version_is_zero v \<longleftrightarrow> v = 0"

lemma CURRENT_VERSION_eq [simp]: "CURRENT_VERSION = 1"
  by (simp add: CURRENT_VERSION_def version_new_def)

lemma MIN_COMPATIBLE_VERSION_eq [simp]: "MIN_COMPATIBLE_VERSION = 1"
  by (simp add: MIN_COMPATIBLE_VERSION_def version_new_def)

lemma version_compatible_iff: "version_is_compatible v \<longleftrightarrow> \<not> version_is_zero v"
  by (auto simp: version_is_compatible_def version_is_zero_def word_le_nat_alt unat_gt_0 Suc_le_eq)

lemma bit_less_16: "\<lbrakk> (m :: u8) < 16; bit m n \<rbrakk> \<Longrightarrow> n < 4"
proof -
  assume "m < 16" "bit m n"
  then have "take_bit 4 m = m"
    by (simp add: take_bit_eq_self_iff_drop_bit_eq_0 drop_bit_eq_div word_less_nat_alt
        word_arith_nat_div unat_div div_less)
  then show "n < 4" using \<open>bit m n\<close> by (metis bit_take_bit_iff)
qed

lemma version_masks: "(0xF :: u16) = mask 4" "(0xFF :: u16) = mask 8"
  by (simp_all add: mask_eq_exp_minus_1)

lemma version_parse_fields:
  assumes "major < 16" "minor < 16"
  shows "version_parse (version_new major minor patch) = (major, minor, patch)"
  unfolding version_parse_def version_masks
  using bit_less_16 [OF assms(1)] bit_less_16 [OF assms(2)]
  by (auto simp: version_new_def intro!: bit_word_eqI)
    (auto simp: bit_simps dest: bit_imp_le_length)

section \<open>Packet, control and error types\<close>

datatype packet_type = PT_Data | PT_Metadata | PT_Parity | PT_Ack | PT_HandshakeAck | PT_Host
  | PT_Session | PT_Playback | PT_Error | PT_KeepAlive

datatype host_control_type = Host_Hello | Host_HandshakeReject

datatype session_control_type = Sess_Retransmit | Sess_TrackRequest | Sess_MetadataRequest
  | Sess_TrackReject | Sess_Close

datatype playback_control_type = Play | Pause | Play_Close | Play_Done | Seek

datatype error_type = UnexpectedPacket | IncomprehensiblePacket | SessionDoesNotExist

datatype rejection_reason = Reject_App | Reject_IdCollision

text \<open>The variants in the order they are declared, with the discriminants that are written out.\<close>

definition packet_type_variants :: "(packet_type \<times> int option) list" where
  "packet_type_variants =
     [(PT_Data, Some 1), (PT_Metadata, Some 2), (PT_Parity, Some 3), (PT_Ack, Some 4),
      (PT_HandshakeAck, Some 5), (PT_Host, Some 7), (PT_Session, Some 8), (PT_Playback, Some 9),
      (PT_Error, Some 10), (PT_KeepAlive, Some 11)]"

definition host_variants :: "(host_control_type \<times> int option) list" where
  "host_variants = [(Host_Hello, Some 201), (Host_HandshakeReject, Some 202)]"

definition session_variants :: "(session_control_type \<times> int option) list" where
  "session_variants =
     [(Sess_Retransmit, Some 1), (Sess_TrackRequest, Some 2), (Sess_MetadataRequest, Some 3),
      (Sess_TrackReject, Some 4), (Sess_Close, Some 5)]"

definition playback_variants :: "(playback_control_type \<times> int option) list" where
  "playback_variants =
     [(Play, Some 101), (Pause, Some 102), (Play_Close, Some 103), (Play_Done, Some 104),
      (Seek, Some 105)]"

definition error_type_variants :: "(error_type \<times> int option) list" where
  "error_type_variants =
     [(UnexpectedPacket, Some 1), (IncomprehensiblePacket, None), (SessionDoesNotExist, None)]"

definition rejection_variants :: "(rejection_reason \<times> int option) list" where
  "rejection_variants = [(Reject_App, Some 1), (Reject_IdCollision, Some 2)]"

named_theorems variants "the variant tables and the operations of derived enums"

lemmas [variants] = packet_type_variants_def host_variants_def session_variants_def
  playback_variants_def error_type_variants_def rejection_variants_def
  enum_variants_def discriminants_def as_u8_def enum_ok_def

lemma packet_type_ok [simp]: "enum_ok packet_type_variants v"
  by (cases v) (simp_all add: variants)

lemma host_ok [simp]: "enum_ok host_variants v"
  by (cases v) (simp_all add: variants)

lemma session_ok [simp]: "enum_ok session_variants v"
  by (cases v) (simp_all add: variants)

lemma playback_ok [simp]: "enum_ok playback_variants v"
  by (cases v) (simp_all add: variants)

lemma rejection_ok [simp]: "enum_ok rejection_variants v"
  by (cases v) (simp_all add: variants)

lemma error_type_ok: "enum_ok error_type_variants v \<longleftrightarrow> v \<noteq> SessionDoesNotExist"
  by (cases v) (simp_all add: variants)

interpretation packet_type_w: wire_prefix "enum_serialize packet_type_variants"
    "enum_deserialize packet_type_variants" enum_sized
    "\<lambda>v. int_bytes (as_u8 packet_type_variants v)" "enum_ok packet_type_variants"
  by (rule enum_wire_prefix)

interpretation rejection_w: wire_prefix "enum_serialize rejection_variants"
    "enum_deserialize rejection_variants" enum_sized
    "\<lambda>v. int_bytes (as_u8 rejection_variants v)" "enum_ok rejection_variants"
  by (rule enum_wire_prefix)

interpretation playback_w: wire_prefix "enum_serialize playback_variants"
    "enum_deserialize playback_variants" enum_sized
    "\<lambda>v. int_bytes (as_u8 playback_variants v)" "enum_ok playback_variants"
  by (rule enum_wire_prefix)

interpretation error_type_w: wire_prefix "enum_serialize error_type_variants"
    "enum_deserialize error_type_variants" enum_sized
    "\<lambda>v. int_bytes (as_u8 error_type_variants v)" "enum_ok error_type_variants"
  by (rule enum_wire_prefix)

text \<open>\<open>ControlType\<close>: one byte, tried as a host, a session and a playback type in that order.\<close>

datatype control_type = Host host_control_type | Session session_control_type
  | Playback playback_control_type

fun control_serialize :: "control_type \<Rightarrow> writer" where
  "control_serialize (Host p) buf = enum_serialize host_variants p buf"
| "control_serialize (Session p) buf = enum_serialize session_variants p buf"
| "control_serialize (Playback p) buf = enum_serialize playback_variants p buf"

definition control_deserialize :: "bytes \<Rightarrow> control_type ures" where
  "control_deserialize bs =
     (case enum_deserialize host_variants bs of
        Ok t \<Rightarrow> Ok (Host t)
      | _ \<Rightarrow> (case enum_deserialize session_variants bs of
                Ok t \<Rightarrow> Ok (Session t)
              | _ \<Rightarrow> map_res Playback (enum_deserialize playback_variants bs)))"

definition control_sized :: "control_type \<Rightarrow> nat" where
  "control_sized c = 1"

fun control_u8 :: "control_type \<Rightarrow> u8" where
  "control_u8 (Host p) = as_u8 host_variants p"
| "control_u8 (Session p) = as_u8 session_variants p"
| "control_u8 (Playback p) = as_u8 playback_variants p"

lemma enum_deserialize_u8 [simp]:
  "enum_deserialize vs (int_bytes (b :: u8) @ rest) = enum_match (enum_variants vs) b"
  "enum_deserialize vs (int_bytes (b :: u8)) = enum_match (enum_variants vs) b"
  by (simp_all add: enum_deserialize_def)

lemma control_deserialize_u8:
  "control_deserialize (int_bytes (control_u8 c) @ rest) = Ok c"
proof (cases c)
  case (Host p)
  then show ?thesis by (cases p) (simp_all add: control_deserialize_def variants)
next
  case (Session p)
  then show ?thesis by (cases p) (simp_all add: control_deserialize_def variants)
next
  case (Playback p)
  then show ?thesis by (cases p) (simp_all add: control_deserialize_def variants)
qed

lemma control_serialize_u8:
  "control_serialize c buf =
     (if buf = [] then Err () else Ok (int_bytes (control_u8 c) @ drop 1 buf))"
  by (cases c) (auto simp: enum_serialize_def enum_sized_def int_serialize_def int_sized_def)

interpretation control_w: wire_prefix control_serialize control_deserialize control_sized
    "\<lambda>c. int_bytes (control_u8 c)" "\<lambda>_. True"
  using control_deserialize_u8 [where rest = "[]"]
  by unfold_locales
    (auto simp: control_serialize_u8 control_deserialize_u8 control_sized_def length_Suc_conv)

section \<open>Option flags\<close>

datatype option_flag = RequireAck | Metadata | Resend

definition OPTION_FLAGS :: "option_flag flag_table" where
  "OPTION_FLAGS = [(RequireAck, push_bit 0 1), (Metadata, push_bit 1 1), (Resend, push_bit 2 1)]"

abbreviation opt_construct :: "option_flag list \<Rightarrow> options" where
  "opt_construct \<equiv> flags_construct OPTION_FLAGS"

abbreviation opt_none :: options where
  "opt_none \<equiv> flags_none"

abbreviation opt_set :: "options \<Rightarrow> option_flag \<Rightarrow> options" where
  "opt_set \<equiv> flags_set OPTION_FLAGS"

abbreviation opt_unset :: "options \<Rightarrow> option_flag \<Rightarrow> options" where
  "opt_unset \<equiv> flags_unset OPTION_FLAGS"

abbreviation opt_contains :: "options \<Rightarrow> option_flag \<Rightarrow> bool" where
  "opt_contains \<equiv> flags_contains OPTION_FLAGS"

abbreviation opt_valid :: "options \<Rightarrow> bool" where
  "opt_valid \<equiv> flags_valid OPTION_FLAGS"

fun flag_pos :: "option_flag \<Rightarrow> nat" where
  "flag_pos RequireAck = 0"
| "flag_pos Metadata = 1"
| "flag_pos Resend = 2"

lemma flag_bit_pos: "flag_bit OPTION_FLAGS f = 2 ^ flag_pos f"
  by (cases f) (simp_all add: flag_bit_def OPTION_FLAGS_def push_bit_eq_mult)

lemma flag_pos_inj [simp]: "flag_pos f = flag_pos g \<longleftrightarrow> f = g"
  by (cases f; cases g) simp_all

lemma flag_pos_less: "flag_pos f < 16"
  by (cases f) simp_all

lemma opt_contains_bit: "opt_contains x f \<longleftrightarrow> bit x (flag_pos f)"
  by (simp add: flags_contains_def flag_bit_pos and_exp_eq_0_iff_not_bit)

interpretation opts: flag_set opt_construct opt_none opt_set opt_unset opt_contains "\<lambda>_. True"
proof unfold_locales
  show "opt_construct fs = foldl opt_set opt_none fs" for fs
    by (simp add: flags_construct_def flags_none_def flags_set_def [abs_def] foldl_map)
qed (auto simp: opt_contains_bit flags_none_def flags_set_def flags_unset_def flag_bit_pos
      bit_simps flag_pos_less)

lemma opt_contains_set [simp]: "opt_contains (opt_set x g) f \<longleftrightarrow> f = g \<or> opt_contains x f"
  by (rule opts.has_set) simp_all

lemma opt_contains_unset [simp]: "opt_contains (opt_unset x g) f \<longleftrightarrow> f \<noteq> g \<and> opt_contains x f"
  by (rule opts.has_unset) simp_all

lemma opt_contains_none [simp]: "\<not> opt_contains opt_none f"
  by (rule opts.has_none)

section \<open>Checked newtypes\<close>

definition batch_id_new :: "bool \<Rightarrow> u16 \<Rightarrow> ('e, batch_id) res" where
  "batch_id_new dbg i = debug_assert dbg (i \<noteq> 0) i"

definition buffer_id_new :: "bool \<Rightarrow> u16 \<Rightarrow> ('e, buffer_id) res" where
  "buffer_id_new dbg i = debug_assert dbg (i \<noteq> 0) i"

definition MAX_BUFFER_SIZE :: nat where
  "MAX_BUFFER_SIZE = 10 * 1024 * 1024"

definition buffer_size_new :: "bool \<Rightarrow> u32 \<Rightarrow> ('e, buffer_size) res" where
  "buffer_size_new dbg n = debug_assert dbg (unat n < MAX_BUFFER_SIZE) n"

definition payload_new :: "bool \<Rightarrow> bytes \<Rightarrow> ('e, bytes) res" where
  "payload_new dbg v = debug_assert dbg (length v \<le> MAX_PAYLOAD_LENGTH) v"

definition payload_empty :: bytes where
  "payload_empty = [0]"

definition PARITY_MAX_PAYLOAD_LENGTH :: nat where
  "PARITY_MAX_PAYLOAD_LENGTH = MAX_PAYLOAD_LENGTH + 4 + 2"

definition parity_payload_new :: "bool \<Rightarrow> bytes \<Rightarrow> ('e, bytes) res" where
  "parity_payload_new dbg v = debug_assert dbg (length v \<le> PARITY_MAX_PAYLOAD_LENGTH) v"

text \<open>\<open>From<usize> for BytePosition\<close> truncates to 32 bits.\<close>

definition byte_position_of :: "nat \<Rightarrow> byte_position" where
  "byte_position_of n = word_of_nat n"

lemma unat_byte_position_of: "n < 2 ^ 32 \<Longrightarrow> unat (byte_position_of n) = n"
  by (simp add: byte_position_of_def unat_of_nat)

text \<open>\<open>Option<BufferId>\<close>: zero is \<open>None\<close>, so \<open>Some\<close> of a zero id reads back as \<open>None\<close>.\<close>

definition opt_buffer_id_serialize :: "buffer_id option \<Rightarrow> writer" where
  "opt_buffer_id_serialize b buf =
     (if length buf < 2 then Err ()
      else case b of
             None \<Rightarrow> Ok (buf[0 := 0, 1 := 0])
           | Some i \<Rightarrow> int_serialize i buf)"

definition opt_buffer_id_deserialize :: "bytes \<Rightarrow> buffer_id option ures" where
  "opt_buffer_id_deserialize bs =
     and_then (int_deserialize bs) (\<lambda>rep. if rep = 0 then Ok None else Ok (Some rep))"

definition opt_buffer_id_sized :: "buffer_id option \<Rightarrow> nat" where
  "opt_buffer_id_sized b = 2"

definition opt_buffer_id_rep :: "buffer_id option \<Rightarrow> u16" where
  "opt_buffer_id_rep b = (case b of None \<Rightarrow> 0 | Some i \<Rightarrow> i)"

lemma opt_buffer_id_writes:
  "opt_buffer_id_serialize b buf = int_serialize (opt_buffer_id_rep b) buf"
proof (cases "length buf < 2")
  case False
  then obtain x y r where "buf = x # y # r"
    by (cases buf; cases "tl buf") auto
  then show ?thesis
    by (auto simp: opt_buffer_id_serialize_def opt_buffer_id_rep_def int_serialize_def
        int_sized_def int_bytes_def numeral_2_eq_2 split: option.splits)
qed (simp add: opt_buffer_id_serialize_def int_serialize_def int_sized_def)

interpretation opt_buffer_id_w: wire_prefix opt_buffer_id_serialize opt_buffer_id_deserialize
    opt_buffer_id_sized "\<lambda>b. int_bytes (opt_buffer_id_rep b)" "\<lambda>b. b \<noteq> Some 0"
  by unfold_locales
    (auto simp: opt_buffer_id_writes opt_buffer_id_deserialize_def opt_buffer_id_sized_def
      opt_buffer_id_rep_def int_serialize_def int_sized_def split: option.splits)

section \<open>Reserved bytes\<close>

definition reserved_serialize :: "nat \<Rightarrow> unit \<Rightarrow> writer" where
  "reserved_serialize n r buf = (if length buf < n then Err () else Ok (replicate n 0 @ drop n buf))"

definition reserved_deserialize :: "nat \<Rightarrow> bytes \<Rightarrow> unit ures" where
  "reserved_deserialize n bs = (if length bs < n then Err () else Ok ())"

definition reserved_sized :: "nat \<Rightarrow> unit \<Rightarrow> nat" where
  "reserved_sized n r = n"

lemma reserved_wire_prefix:
  "wire_prefix (reserved_serialize n) (reserved_deserialize n) (reserved_sized n)
     (\<lambda>_. replicate n 0) (\<lambda>_. True)"
  by unfold_locales (simp_all add: reserved_serialize_def reserved_deserialize_def reserved_sized_def)

interpretation reserved2w: wire_prefix "reserved_serialize 2" "reserved_deserialize 2"
    "reserved_sized 2" "\<lambda>_. replicate 2 0" "\<lambda>_. True"
  by (rule reserved_wire_prefix)

interpretation reserved3w: wire_prefix "reserved_serialize 3" "reserved_deserialize 3"
    "reserved_sized 3" "\<lambda>_. replicate 3 0" "\<lambda>_. True"
  by (rule reserved_wire_prefix)

lemma reserved_deserialize_prefix [simp]: "reserved_deserialize n (replicate n 0 @ rest) = Ok ()"
  by (simp add: reserved_deserialize_def)

section \<open>FEC information\<close>

record fec_info =
  batch_size :: u8
  batch_pos :: u8
  recovery_count :: u8

text \<open>
  \<open>FECInfo::new\<close>; in a debug build the addition of the first assertion panics on overflow.
\<close>

definition fec_info_new :: "bool \<Rightarrow> u8 \<Rightarrow> u8 \<Rightarrow> u8 \<Rightarrow> ('e, fec_info) res" where
  "fec_info_new dbg bsize pos rec_count =
     debug_assert dbg
       (unat bsize + unat rec_count < 256 \<and> pos < bsize + rec_count \<and> rec_count \<le> bsize)
       \<lparr>batch_size = bsize, batch_pos = pos, recovery_count = rec_count\<rparr>"

definition fec_info_fields :: "fec_info \<Rightarrow> field list" where
  "fec_info_fields i =
     [(''batch_size'', int_sized (batch_size i), int_serialize (batch_size i)),
      (''batch_pos'', int_sized (batch_pos i), int_serialize (batch_pos i)),
      (''recovery_count'', int_sized (recovery_count i), int_serialize (recovery_count i))]"

definition fec_info_serialize :: "fec_info \<Rightarrow> writer" where
  "fec_info_serialize i = struct_serialize (fec_info_fields i)"

definition fec_info_deserialize :: "bytes \<Rightarrow> fec_info ures" where
  "fec_info_deserialize bs =
     de_field int_deserialize int_sized bs 0 (\<lambda>s off.
     de_field int_deserialize int_sized bs off (\<lambda>p off.
     de_field int_deserialize int_sized bs off (\<lambda>r off.
       Ok \<lparr>batch_size = s, batch_pos = p, recovery_count = r\<rparr>)))"

definition fec_info_sized :: "fec_info \<Rightarrow> nat" where
  "fec_info_sized i = struct_sized (fec_info_fields i)"

definition fec_info_bytes :: "fec_info \<Rightarrow> bytes" where
  "fec_info_bytes i = [batch_size i, batch_pos i, recovery_count i]"

text \<open>The encodings of the fields a struct is made of.\<close>

lemma writes_int [simp]: "writes (int_serialize w) (int_bytes w)"
  by (simp add: writes_def int_serialize_def int_sized_def)

lemma writes_arr [simp]: "length a = n \<Longrightarrow> writes (arr_serialize n a) a"
  by (simp add: writes_def arr_serialize_def)

lemma writes_reserved [simp]: "writes (reserved_serialize n ()) (replicate n 0)"
  by (simp add: writes_def reserved_serialize_def)

lemma writes_enum [simp]: "writes (enum_serialize vs v) (int_bytes (as_u8 vs v))"
  by (simp add: writes_def enum_serialize_def enum_sized_def int_serialize_def int_sized_def)

lemma writes_control [simp]: "writes (control_serialize c) (int_bytes (control_u8 c))"
  by (rule control_w.fits) simp

lemma writes_opt_buffer_id [simp]:
  "writes (opt_buffer_id_serialize b) (int_bytes (opt_buffer_id_rep b))"
  by (simp add: writes_def opt_buffer_id_writes int_serialize_def int_sized_def)

lemma int_bytes_u8: "int_bytes (w :: u8) = [w]"
proof -
  have "unat w < 256" using unsigned_less [of w] by simp
  then have "unat w mod 256 = unat w" by simp
  then show ?thesis by (simp add: int_bytes_def)
qed

lemma fec_info_encodes:
  "encodes_all (fec_info_fields i)
     [int_bytes (batch_size i), int_bytes (batch_pos i), int_bytes (recovery_count i)]"
  by (simp add: encodes_all_def fec_info_fields_def int_sized_def)

lemma fec_info_sized_3 [simp]: "fec_info_sized i = 3"
  by (simp add: fec_info_sized_def fec_info_fields_def int_sized_def)

lemma writes_fec_info [simp]: "writes (fec_info_serialize i) (fec_info_bytes i)"
  using struct_serialize_writes [OF fec_info_encodes, of i]
  by (simp add: fec_info_serialize_def fec_info_bytes_def int_bytes_u8)

lemma fec_info_deserialize_bytes [simp]:
  "fec_info_deserialize (fec_info_bytes i @ rest) = Ok i"
  by (simp add: fec_info_deserialize_def fec_info_bytes_def de_field_def int_deserialize_def
      int_sized_def be_value_def)

interpretation fec_info_w: wire_prefix fec_info_serialize fec_info_deserialize fec_info_sized
    fec_info_bytes "\<lambda>_. True"
proof unfold_locales
  show "fec_info_deserialize (fec_info_bytes x) = Ok x" for x
    using fec_info_deserialize_bytes [of x "[]"] by simp
next
  show "fec_info_serialize x buf = Ok (fec_info_bytes x)"
    if "length buf = fec_info_sized x" for x buf
    using that writes_fec_info [of x] by (simp add: writes_def fec_info_bytes_def)
next
  show "fec_info_serialize x buf = Err ()" if "length buf < fec_info_sized x" for x buf
    using that by (simp add: fec_info_serialize_def struct_serialize_def fec_info_sized_def
        del: fec_info_sized_3)
next
  show "fec_info_serialize x buf = Ok (fec_info_bytes x @ drop (fec_info_sized x) buf)"
    if "fec_info_sized x \<le> length buf" for x buf
    using that writes_fec_info [of x]
    by (simp add: writes_def fec_info_bytes_def eval_nat_numeral)
next
  show "fec_info_deserialize (fec_info_bytes x @ rest) = Ok x" for x rest
    by (rule fec_info_deserialize_bytes)
qed (simp_all add: fec_info_bytes_def)

section \<open>Byte ranges\<close>

record byte_range =
  br_start :: byte_position
  br_length :: u16

definition byte_range_new :: "bool \<Rightarrow> byte_position \<Rightarrow> u16 \<Rightarrow> ('e, byte_range) res" where
  "byte_range_new dbg s n =
     debug_assert dbg (unat n \<le> MAX_PAYLOAD_LENGTH) \<lparr>br_start = s, br_length = n\<rparr>"

definition byte_range_fields :: "byte_range \<Rightarrow> field list" where
  "byte_range_fields r =
     [(''start'', int_sized (br_start r), int_serialize (br_start r)),
      (''length'', int_sized (br_length r), int_serialize (br_length r))]"

definition byte_range_serialize :: "byte_range \<Rightarrow> writer" where
  "byte_range_serialize r = struct_serialize (byte_range_fields r)"

definition byte_range_deserialize :: "bytes \<Rightarrow> byte_range ures" where
  "byte_range_deserialize bs =
     de_field int_deserialize int_sized bs 0 (\<lambda>s off.
     de_field int_deserialize int_sized bs off (\<lambda>n off.
       Ok \<lparr>br_start = s, br_length = n\<rparr>))"

definition byte_range_sized :: "byte_range \<Rightarrow> nat" where
  "byte_range_sized r = struct_sized (byte_range_fields r)"

text \<open>\<open>elem_size\<close>: the size of a sample range.\<close>

definition byte_range_elem_size :: nat where
  "byte_range_elem_size = byte_range_sized \<lparr>br_start = 0, br_length = 0\<rparr>"

text \<open>\<open>concat\<close>: the flag and the range afterwards.\<close>

definition byte_range_concat :: "byte_range \<Rightarrow> byte_range \<Rightarrow> bool \<times> byte_range" where
  "byte_range_concat self other =
     (if br_start self + ucast (br_length self) = br_start other
         \<or> br_start other + ucast (br_length other) = br_start self
      then case checked_add (br_length self) (br_length other) of
             Some res \<Rightarrow>
               (let self' = self\<lparr>br_length := res\<rparr> in
                if br_start other + ucast (br_length other) = br_start self'
                then (True, self'\<lparr>br_start := br_start other\<rparr>)
                else (True, self'))
           | None \<Rightarrow> (False, self)
      else (False, self))"

text \<open>\<open>impl Serialize for Vec<ByteRange>\<close>.\<close>

fun ranges_write :: "nat \<Rightarrow> byte_range list \<Rightarrow> writer" where
  "ranges_write i [] buf = Ok buf"
| "ranges_write i (e # es) buf =
     (if length buf < i * byte_range_elem_size then Panic
      else and_then (byte_range_serialize e (drop (i * byte_range_elem_size) buf)) (\<lambda>b.
             ranges_write (i + 1) es (take (i * byte_range_elem_size) buf @ b)))"

definition ranges_sized :: "byte_range list \<Rightarrow> nat" where
  "ranges_sized rs = length rs * byte_range_elem_size"

definition ranges_serialize :: "byte_range list \<Rightarrow> writer" where
  "ranges_serialize rs buf =
     (if length buf < length rs * byte_range_elem_size then Err () else ranges_write 0 rs buf)"

definition ranges_deserialize :: "bytes \<Rightarrow> byte_range list ures" where
  "ranges_deserialize bs =
     (if length bs < byte_range_elem_size then Err ()
      else collect_res (map byte_range_deserialize
             (filter (\<lambda>c. length c = byte_range_elem_size) (chunks byte_range_elem_size bs))))"

definition byte_range_bytes :: "byte_range \<Rightarrow> bytes" where
  "byte_range_bytes r = int_bytes (br_start r) @ int_bytes (br_length r)"

definition ranges_bytes :: "byte_range list \<Rightarrow> bytes" where
  "ranges_bytes rs = concat (map byte_range_bytes rs)"

lemma byte_range_sized_6 [simp]: "byte_range_sized r = 6"
  by (simp add: byte_range_sized_def byte_range_fields_def int_sized_def)

lemma elem_size_6 [simp]: "byte_range_elem_size = 6"
  by (simp add: byte_range_elem_size_def)

lemma length_byte_range_bytes [simp]: "length (byte_range_bytes r) = 6"
  by (simp add: byte_range_bytes_def)

lemma writes_byte_range [simp]: "writes (byte_range_serialize r) (byte_range_bytes r)"
  using struct_serialize_writes [of "byte_range_fields r" "[int_bytes (br_start r), int_bytes (br_length r)]"]
  by (simp add: byte_range_serialize_def byte_range_bytes_def encodes_all_def byte_range_fields_def
      int_sized_def)

lemma byte_range_deserialize_bytes [simp]: "byte_range_deserialize (byte_range_bytes r) = Ok r"
  by (simp add: byte_range_deserialize_def byte_range_bytes_def de_field_def int_sized_def)

lemma length_ranges_bytes [simp]: "length (ranges_bytes rs) = 6 * length rs"
  by (induction rs) (simp_all add: ranges_bytes_def)

lemma ranges_write_struct:
  "ranges_write i rs buf = struct_write (i * 6) (map (\<lambda>r. ([], 6, byte_range_serialize r)) rs) buf"
  by (induction rs arbitrary: i buf) (simp_all add: add.commute)

lemma ranges_fields_encode:
  "encodes_all (map (\<lambda>r. ([], 6, byte_range_serialize r)) rs) (map byte_range_bytes rs)"
  by (simp add: encodes_all_def list_all2_map1 list_all2_map2 list_all2_same)

lemma writes_ranges [simp]: "writes (ranges_serialize rs) (ranges_bytes rs)"
  using struct_write_writes [OF ranges_fields_encode, of rs _ "[]"]
  by (simp add: writes_def ranges_serialize_def ranges_write_struct ranges_bytes_def [symmetric])

lemma ranges_deserialize_bytes:
  "rs \<noteq> [] \<Longrightarrow> ranges_deserialize (ranges_bytes rs) = Ok rs"
proof -
  assume "rs \<noteq> []"
  then have "6 \<le> length (ranges_bytes rs)" by (cases rs) simp_all
  moreover have "chunks 6 (ranges_bytes rs) = map byte_range_bytes rs"
    by (simp add: ranges_bytes_def chunks_concat)
  moreover have "filter (\<lambda>c. length c = 6) (map byte_range_bytes rs) = map byte_range_bytes rs"
    by (simp add: filter_id_conv)
  ultimately show ?thesis
    using collect_res_all_Ok [of "\<lambda>r. r" rs] \<open>rs \<noteq> []\<close>
    by (simp add: ranges_deserialize_def comp_def)
qed

interpretation ranges_w: wire ranges_serialize ranges_deserialize ranges_sized ranges_bytes
    "\<lambda>rs. rs \<noteq> []"
proof unfold_locales
  show "ranges_serialize rs buf = Ok (ranges_bytes rs)" if "length buf = ranges_sized rs" for rs buf
    using that writes_ranges [of rs] by (simp add: writes_def ranges_sized_def mult.commute)
qed (simp_all add: ranges_deserialize_bytes ranges_sized_def ranges_serialize_def)

lemma byte_range_concat_extends:
  assumes "byte_range_concat self other = (True, r)"
  shows "unat (br_length r) = unat (br_length self) + unat (br_length other)"
    and "br_start r = br_start self \<or> br_start r = br_start other"
  using assms
  by (auto simp: byte_range_concat_def Let_def split: if_splits option.splits dest: checked_add_SomeD)

section \<open>Application ids\<close>

text \<open>\<open>AppId(String)\<close>, as the bytes of the string. \<open>serialize\<close> fills the whole buffer it is given.\<close>

definition APP_ID_MAX_LENGTH :: nat where
  "APP_ID_MAX_LENGTH = 512"

definition is_ascii :: "bytes \<Rightarrow> bool" where
  "is_ascii s \<longleftrightarrow> (\<forall>b \<in> set s. b < 128)"

definition app_id_new :: "bool \<Rightarrow> bytes \<Rightarrow> ('e, bytes) res" where
  "app_id_new dbg s = debug_assert dbg (is_ascii s \<and> length s < APP_ID_MAX_LENGTH) s"

definition app_id_serialize :: "bytes \<Rightarrow> writer" where
  "app_id_serialize s buf =
     (if length buf < length s then Err ()
      else if length buf = length s then Ok s else Panic)"

definition app_id_deserialize :: "bool \<Rightarrow> bytes \<Rightarrow> bytes ures" where
  "app_id_deserialize dbg bs = (if is_ascii bs then app_id_new dbg bs else Err ())"

definition app_id_sized :: "bytes \<Rightarrow> nat" where
  "app_id_sized s = length s"

interpretation app_id_w: wire app_id_serialize "app_id_deserialize dbg" app_id_sized "\<lambda>s. s"
    "\<lambda>s. is_ascii s \<and> (dbg \<longrightarrow> length s < APP_ID_MAX_LENGTH)" for dbg
  by unfold_locales
    (simp_all add: app_id_serialize_def app_id_deserialize_def app_id_sized_def app_id_new_def
      debug_assert_def)

section \<open>Secondary types\<close>

definition secondary_none :: secondary_type where
  "secondary_none = 0"

definition variant_u16s :: "('v \<times> int option) list \<Rightarrow> u16 list" where
  "variant_u16s vs = map (\<lambda>(v, d). ucast (as_u8 vs v)) vs"

definition valid_secondary_type :: "secondary_type \<Rightarrow> bool" where
  "valid_secondary_type st \<longleftrightarrow>
     st \<in> set (variant_u16s host_variants) \<or> st \<in> set (variant_u16s session_variants)
     \<or> st \<in> set (variant_u16s playback_variants) \<or> st \<in> set (variant_u16s error_type_variants)
     \<or> st = 0"

definition secondary_of_control :: "control_type \<Rightarrow> secondary_type" where
  "secondary_of_control c = ucast (control_u8 c)"

definition secondary_of_error :: "error_type \<Rightarrow> secondary_type" where
  "secondary_of_error e = ucast (as_u8 error_type_variants e)"

lemma valid_secondary_of_control: "valid_secondary_type (secondary_of_control c)"
proof (cases c)
  case (Host p)
  then show ?thesis
    by (cases p) (simp_all add: valid_secondary_type_def secondary_of_control_def variant_u16s_def variants)
next
  case (Session p)
  then show ?thesis
    by (cases p) (simp_all add: valid_secondary_type_def secondary_of_control_def variant_u16s_def variants)
next
  case (Playback p)
  then show ?thesis
    by (cases p) (simp_all add: valid_secondary_type_def secondary_of_control_def variant_u16s_def variants)
qed

section \<open>Properties\<close>

text \<open>A version with a major and a minor part below 16 is parsed back into its three parts.\<close>

theorem version_parse_new:
  assumes "major < 16" "minor < 16"
  shows "version_parse (version_new major minor patch) = (major, minor, patch)"
  using assms by (rule version_parse_fields)

theorem version_parse_new_witness: "version_parse (version_new 3 15 255) = (3, 15, 255)"
  by (rule version_parse_new) simp_all

text \<open>The bytes a range covers.\<close>

definition covered :: "byte_range \<Rightarrow> nat set" where
  "covered r = {unat (br_start r) ..< unat (br_start r) + unat (br_length r)}"

definition no_overflow :: "byte_range \<Rightarrow> bool" where
  "no_overflow r \<longleftrightarrow> unat (br_start r) + unat (br_length r) < 2 ^ 32"

lemma unat_ucast_u16 [simp]: "unat (ucast (n :: u16) :: u32) = unat n"
proof -
  have "unat n < 2 ^ 16" using unsigned_less [of n] by simp
  then show ?thesis by (simp add: unsigned_ucast_eq take_bit_nat_eq_self)
qed

lemma range_end:
  "no_overflow r \<Longrightarrow> unat (br_start r + ucast (br_length r)) = unat (br_start r) + unat (br_length r)"
  by (simp add: no_overflow_def unat_add_small)

lemma concat_ends:
  assumes "no_overflow a" "no_overflow b" "byte_range_concat a b = (True, r)"
  shows "unat (br_length r) = unat (br_length a) + unat (br_length b)
    \<and> (br_start r = br_start a \<and> unat (br_start a) + unat (br_length a) = unat (br_start b)
      \<or> br_start r = br_start b \<and> unat (br_start b) + unat (br_length b) = unat (br_start a))"
proof -
  have len: "unat (br_length r) = unat (br_length a) + unat (br_length b)"
    using assms(3) by (intro byte_range_concat_extends(1)) simp
  have "br_start a + ucast (br_length a) = br_start b \<and> br_start r = br_start a
      \<or> br_start b + ucast (br_length b) = br_start a \<and> br_start r = br_start b"
    using assms(3) by (auto simp: byte_range_concat_def Let_def split: if_splits option.splits)
  then show ?thesis
    using len range_end [OF assms(1)] range_end [OF assms(2)] by metis
qed

lemma concat_covered:
  assumes "no_overflow a" "no_overflow b" "byte_range_concat a b = (ok, r)"
  shows "if ok then covered r = covered a \<union> covered b \<and> covered a \<inter> covered b = {} else r = a"
proof (cases ok)
  case False
  then show ?thesis using assms(3)
    by (auto simp: byte_range_concat_def Let_def split: if_splits option.splits)
next
  case True
  then show ?thesis using concat_ends [of a b r] assms by (auto simp: covered_def)
qed

text \<open>\<open>concat\<close> joins two ranges exactly. For ranges that end within the address space, a
  successful call leaves a range that covers the bytes of both, and no byte is covered by
  both; a failed call leaves the range as it was.\<close>

theorem concat_joins:
  assumes "no_overflow a" "no_overflow b" "byte_range_concat a b = (ok, r)"
  shows "if ok then covered r = covered a \<union> covered b \<and> covered a \<inter> covered b = {} else r = a"
  using assms by (rule concat_covered)

theorem concat_joins_witness:
  "if fst (byte_range_concat \<lparr>br_start = 0, br_length = 1368\<rparr> \<lparr>br_start = 1368, br_length = 5\<rparr>)
   then covered (snd (byte_range_concat \<lparr>br_start = 0, br_length = 1368\<rparr> \<lparr>br_start = 1368, br_length = 5\<rparr>))
       = covered \<lparr>br_start = 0, br_length = 1368\<rparr> \<union> covered \<lparr>br_start = 1368, br_length = 5\<rparr>
     \<and> covered \<lparr>br_start = 0, br_length = 1368\<rparr> \<inter> covered \<lparr>br_start = 1368, br_length = 5\<rparr> = {}
   else snd (byte_range_concat \<lparr>br_start = 0, br_length = 1368\<rparr> \<lparr>br_start = 1368, br_length = 5\<rparr>)
       = \<lparr>br_start = 0, br_length = 1368\<rparr>"
  by (rule concat_joins) (simp_all add: no_overflow_def)

text \<open>A list of byte ranges is read back whole. Serialized into a buffer of any sufficient
  size and followed by fewer than six further bytes, a non-empty list is recovered, the last
  range included; the empty list is not readable at all.\<close>

theorem ranges_roundtrip:
  "length junk < 6 \<Longrightarrow>
   and_then (ranges_serialize rs (replicate (ranges_sized rs) 0 @ junk)) ranges_deserialize
     = (if rs = [] then Err () else Ok rs)"
proof -
  assume junk: "length junk < 6"
  have ser: "ranges_serialize rs (replicate (ranges_sized rs) 0 @ junk) = Ok (ranges_bytes rs @ junk)"
    using writes_ranges [of rs] by (simp add: writes_def ranges_sized_def mult.commute)
  have "chunks 6 (concat (map byte_range_bytes qs) @ junk)
      = map byte_range_bytes qs @ (if junk = [] then [] else [junk])" for qs
    using junk by (induction qs) (simp_all add: chunks_append chunks.simps [of 6 junk])
  then have "filter (\<lambda>c. length c = 6) (chunks 6 (ranges_bytes rs @ junk)) = map byte_range_bytes rs"
    using junk by (simp add: ranges_bytes_def filter_id_conv)
  moreover have "6 \<le> length (ranges_bytes rs @ junk) \<longleftrightarrow> rs \<noteq> []"
    using junk by (cases rs) auto
  ultimately show ?thesis
    using collect_res_all_Ok [of "\<lambda>r. r" rs] junk
    by (auto simp: ser ranges_deserialize_def comp_def not_less)
qed

theorem ranges_roundtrip_witness:
  "and_then (ranges_serialize [\<lparr>br_start = 5, br_length = 6\<rparr>]
      (replicate (ranges_sized [\<lparr>br_start = 5, br_length = 6\<rparr>]) 0 @ [1, 2])) ranges_deserialize
     = (if [\<lparr>br_start = 5, br_length = 6\<rparr>] = [] then Err () else Ok [\<lparr>br_start = 5, br_length = 6\<rparr>])"
  by (rule ranges_roundtrip) simp

text \<open>The discriminants of \<open>ErrorType\<close> computed by the derive macro are not those of the
  compiler: \<open>SessionDoesNotExist\<close> is written as 3, the generated reader knows 1, 2 and 2, so
  that one error type is never read back, and it is the only one.\<close>

theorem error_type_not_readable:
  "enum_deserialize error_type_variants (int_bytes (as_u8 error_type_variants v))
     = (if v = SessionDoesNotExist then Err () else Ok v)"
  by (cases v) (simp_all add: variants)

end
