(* ===== verification/Buffers.thy ===== *)
theory Buffers imports Wire_Types Complex_Main "HOL-Library.Multiset" begin

text \<open>
  The buffers of a stream (\<open>src/src/api/types.rs\<close>, lines 14 to 429): \<open>WriteableBuffer\<close>, the
  receiver's memory with its map of filled chunks and the list of invalid areas, and
  \<open>ReadableBuffer\<close>, the sender's data.

  The memory behind the raw pointer of \<open>Buffer\<close> is a byte list, and the pointer is not
  null. Scores are computed in \<open>f64\<close> by the code and in exact rationals here. Positions are
  32-bit words, as in the code; the properties are about buffers shorter than 4 GiB.
\<close>

section \<open>Areas and scores\<close>

text \<open>\<open>Area(Range<usize>)\<close>: the chunks from \<open>start\<close> to before \<open>end\<close>.\<close>

type_synonym area = "nat \<times> nat"

definition area_contains :: "area \<Rightarrow> nat \<Rightarrow> bool" where
  "area_contains a i \<longleftrightarrow> fst a \<le> i \<and> i < snd a"

definition URGENCY_DECAY_CHUNKS :: rat where
  "URGENCY_DECAY_CHUNKS = 4"

definition BEFORE_HEAD_SIZE_DENOM :: rat where
  "BEFORE_HEAD_SIZE_DENOM = 8"

definition BEFORE_HEAD_URGENCY_CAP :: rat where
  "BEFORE_HEAD_URGENCY_CAP = 9 / 10"

definition CONFIDENCE_HALF_SAT_CHUNKS :: rat where
  "CONFIDENCE_HALF_SAT_CHUNKS = 4"

definition urgency :: "area \<Rightarrow> nat \<Rightarrow> rat" where
  "urgency a head_chunk =
     (if area_contains a head_chunk then 0
      else if fst a > head_chunk
      then 1 / (of_nat (fst a - head_chunk) / URGENCY_DECAY_CHUNKS)
      else min (of_nat (snd a - fst a) / BEFORE_HEAD_SIZE_DENOM) BEFORE_HEAD_URGENCY_CAP)"

definition confidence_lost :: "area \<Rightarrow> nat \<Rightarrow> nat \<Rightarrow> rat" where
  "confidence_lost a total_chunks later_invalid =
     (let valid_past = of_nat (total_chunks - snd a - later_invalid)
      in valid_past / (valid_past + CONFIDENCE_HALF_SAT_CHUNKS))"

section \<open>WriteableBuffer\<close>

record wbuffer =
  wb_data :: bytes
  wb_head :: byte_position
  wb_map :: "bool list"
  wb_invalid :: "area list"

definition wb_from :: "bytes \<Rightarrow> wbuffer" where
  "wb_from mem =
     (let num_chunks = length mem div MAX_PAYLOAD_LENGTH + 1
      in \<lparr>wb_data = mem, wb_head = 0, wb_map = replicate num_chunks False,
          wb_invalid = [(0, num_chunks)]\<rparr>)"

definition wb_len :: "wbuffer \<Rightarrow> nat" where
  "wb_len b = length (wb_data b)"

definition wb_head_at_end :: "wbuffer \<Rightarrow> bool" where
  "wb_head_at_end b \<longleftrightarrow> unat (wb_head b) \<ge> wb_len b"

definition wb_is_done :: "wbuffer \<Rightarrow> bool" where
  "wb_is_done b \<longleftrightarrow> wb_head_at_end b \<and> list_all (\<lambda>filled. filled) (wb_map b)"

definition position_to_index :: "wbuffer \<Rightarrow> byte_position \<Rightarrow> nat option" where
  "position_to_index b pos =
     (if wb_len b < unat pos then None else Some (unat pos div MAX_PAYLOAD_LENGTH))"

definition position_occupied :: "wbuffer \<Rightarrow> byte_position \<Rightarrow> bool option" where
  "position_occupied b pos = map_option (\<lambda>i. wb_map b ! i) (position_to_index b pos)"

text \<open>The loop of \<open>advance_head\<close>: the index and the head where it stops.\<close>

function advance_loop :: "bool list \<Rightarrow> nat \<Rightarrow> byte_position \<Rightarrow> nat \<times> byte_position" where
  "advance_loop m i head =
     (if i < length m \<and> m ! i then advance_loop m (i + 1) (head + word_of_nat MAX_PAYLOAD_LENGTH)
      else (i, head))"
  by auto
termination by (relation "measure (\<lambda>(m, i, head). length m - i)") auto

declare advance_loop.simps [simp del]

definition advance_head :: "wbuffer \<Rightarrow> wbuffer" where
  "advance_head b =
     (case position_to_index b (wb_head b) of
        None \<Rightarrow> b
      | Some i \<Rightarrow>
          (let (i, head) = advance_loop (wb_map b) i (wb_head b)
           in b\<lparr>wb_head := (if i = length (wb_map b) then word_of_nat (wb_len b) else head)\<rparr>))"

definition seek_head :: "byte_position \<Rightarrow> wbuffer \<Rightarrow> bool option \<times> wbuffer" where
  "seek_head pos b =
     (case position_to_index b pos of
        None \<Rightarrow> (None, b)
      | Some _ \<Rightarrow>
          if pos > wb_head b
          then (let aligned = (pos div word_of_nat MAX_PAYLOAD_LENGTH) * word_of_nat MAX_PAYLOAD_LENGTH
                in (Some True, advance_head (b\<lparr>wb_head := aligned\<rparr>)))
          else (Some False, b))"

text \<open>The loop of \<open>last_occupied_pos\<close>: down to the chunk after a filled one, or to 0.\<close>

fun last_unfilled :: "bool list \<Rightarrow> nat \<Rightarrow> nat" where
  "last_unfilled m 0 = 0"
| "last_unfilled m (Suc prev) = (if \<not> m ! prev then last_unfilled m prev else Suc prev)"

definition last_occupied_pos :: "wbuffer \<Rightarrow> byte_position \<Rightarrow> byte_position option" where
  "last_occupied_pos b from_pos =
     map_option (\<lambda>i. word_of_nat (last_unfilled (wb_map b) i * MAX_PAYLOAD_LENGTH))
       (position_to_index b from_pos)"

text \<open>Splitting the first area that contains a chunk.\<close>

fun split_areas :: "nat \<Rightarrow> area list \<Rightarrow> area list" where
  "split_areas i [] = []"
| "split_areas i (a # as) =
     (if area_contains a i
      then if fst a = i
           then if snd a = i + 1 then as else (i + 1, snd a) # as
           else if snd a - 1 \<noteq> i then (fst a, i) # (i + 1, snd a) # as else (fst a, i) # as
      else a # split_areas i as)"

definition occupy :: "bool \<Rightarrow> byte_position \<Rightarrow> wbuffer \<Rightarrow> (unit, wbuffer) res" where
  "occupy dbg pos b =
     (case position_to_index b pos of
        None \<Rightarrow> (if dbg then Panic else Ok b)
      | Some i \<Rightarrow>
          if dbg \<and> wb_map b ! i then Panic
          else Ok (b\<lparr>wb_map := (wb_map b)[i := True], wb_invalid := split_areas i (wb_invalid b)\<rparr>))"

definition find_holes :: "byte_position \<Rightarrow> wbuffer \<Rightarrow> (unit, byte_position list) res" where
  "find_holes until b =
     (case position_to_index b (min until (byte_position_of (wb_len b))) of
        None \<Rightarrow> Panic
      | Some end_idx \<Rightarrow>
          Ok (map (\<lambda>i. word_of_nat (i * MAX_PAYLOAD_LENGTH))
                (filter (\<lambda>i. \<not> wb_map b ! i) [0..<end_idx])))"

definition SCORE_THRESHOLD :: rat where
  "SCORE_THRESHOLD = 3 / 10"

definition MAX_REQUESTS_PER_TICK :: nat where
  "MAX_REQUESTS_PER_TICK = 2"

text \<open>The areas with the number of invalid chunks in the areas after each.\<close>

fun suffix_invalid :: "area list \<Rightarrow> nat" where
  "suffix_invalid [] = 0"
| "suffix_invalid (a # as) = suffix_invalid as + (snd a - fst a)"

fun score_from :: "nat \<Rightarrow> nat \<Rightarrow> area list \<Rightarrow> (area \<times> rat) list" where
  "score_from head_chunk n_chunks [] = []"
| "score_from head_chunk n_chunks (a # as) =
     (a, urgency a head_chunk * confidence_lost a n_chunks (suffix_invalid as))
       # score_from head_chunk n_chunks as"

definition score_areas :: "wbuffer \<Rightarrow> (area \<times> rat) list" where
  "score_areas b =
     score_from (unat (wb_head b) div MAX_PAYLOAD_LENGTH) (length (wb_map b)) (wb_invalid b)"

definition requestable_areas :: "wbuffer \<Rightarrow> area list" where
  "requestable_areas b =
     (let scored = filter (\<lambda>(a, s). s \<ge> SCORE_THRESHOLD) (score_areas b);
          scored = sort_key (\<lambda>(a, s). - s) scored
      in map fst (take MAX_REQUESTS_PER_TICK scored))"

definition all_invalid_areas :: "wbuffer \<Rightarrow> area list" where
  "all_invalid_areas b = wb_invalid b"

datatype buffer_error = Occupied | NotValid | WrongSize | FailedToDeref

definition wb_write ::
  "bool \<Rightarrow> byte_position \<Rightarrow> bytes \<Rightarrow> wbuffer \<Rightarrow> (buffer_error, nat \<times> nat) res \<times> wbuffer" where
  "wb_write dbg pos to_write b =
     (case position_occupied b pos of
        None \<Rightarrow> (Err NotValid, b)
      | Some True \<Rightarrow> (Err Occupied, b)
      | Some False \<Rightarrow>
          if length to_write \<noteq> MAX_PAYLOAD_LENGTH
               \<and> position_to_index b pos \<noteq> Some (length (wb_map b) - 1)
             \<or> unat pos + length to_write > wb_len b
          then (Err WrongSize, b)
          else case occupy dbg pos b of
                 Ok b \<Rightarrow>
                   (let p = unat pos;
                        data = take p (wb_data b) @ to_write @ drop (p + length to_write) (wb_data b)
                    in (Ok (p, p + length to_write), advance_head (b\<lparr>wb_data := data\<rparr>)))
               | _ \<Rightarrow> (Panic, b))"

section \<open>ReadableBuffer\<close>

record rbuffer =
  rb_buffer :: bytes
  rb_head :: nat

definition rb_from :: "bytes \<Rightarrow> rbuffer" where
  "rb_from d = \<lparr>rb_buffer = d, rb_head = 0\<rparr>"

definition rb_is_done :: "rbuffer \<Rightarrow> bool" where
  "rb_is_done r \<longleftrightarrow> length (rb_buffer r) \<le> rb_head r"

definition rb_next :: "rbuffer \<Rightarrow> (byte_position \<times> bytes) option \<times> rbuffer" where
  "rb_next r =
     (if rb_is_done r then (None, r)
      else let curr = rb_head r;
               head = min (length (rb_buffer r)) (rb_head r + MAX_PAYLOAD_LENGTH)
           in (Some (word_of_nat curr, take (head - curr) (drop curr (rb_buffer r))),
               r\<lparr>rb_head := head\<rparr>))"

definition rb_seek :: "byte_position \<Rightarrow> rbuffer \<Rightarrow> byte_position \<times> rbuffer" where
  "rb_seek pos r =
     (let exact = min (unat pos) (length (rb_buffer r))
      in (word_of_nat (rb_head r), r\<lparr>rb_head := exact - exact mod MAX_PAYLOAD_LENGTH\<rparr>))"

definition rb_read :: "nat \<times> nat \<Rightarrow> rbuffer \<Rightarrow> bytes option" where
  "rb_read rng r =
     (let e = min (snd rng) (length (rb_buffer r))
      in if fst rng \<le> e then Some (take (e - fst rng) (drop (fst rng) (rb_buffer r))) else None)"

text \<open>Iterating until \<open>None\<close>.\<close>

function rb_drain :: "rbuffer \<Rightarrow> (byte_position \<times> bytes) list" where
  "rb_drain r = (case rb_next r of (None, r') \<Rightarrow> [] | (Some c, r') \<Rightarrow> c # rb_drain r')"
  by auto
termination
  by (relation "measure (\<lambda>r. length (rb_buffer r) - rb_head r)")
    (auto simp: rb_next_def rb_is_done_def Let_def MAX_PAYLOAD_LENGTH_def split: if_splits)

declare rb_drain.simps [simp del]

section \<open>The map and the areas\<close>

text \<open>
  The areas are ordered, non-empty, separated and inside the map, and a chunk is unfilled
  exactly if an area contains it.
\<close>

fun areas_wf :: "nat \<Rightarrow> area list \<Rightarrow> nat \<Rightarrow> bool" where
  "areas_wf lo [] n = True"
| "areas_wf lo (a # as) n \<longleftrightarrow> lo \<le> fst a \<and> fst a < snd a \<and> snd a \<le> n \<and> areas_wf (snd a + 1) as n"

definition in_areas :: "area list \<Rightarrow> nat \<Rightarrow> bool" where
  "in_areas as i \<longleftrightarrow> (\<exists>a \<in> set as. area_contains a i)"

definition wb_inv :: "wbuffer \<Rightarrow> bool" where
  "wb_inv b \<longleftrightarrow>
     length (wb_map b) = wb_len b div MAX_PAYLOAD_LENGTH + 1
     \<and> areas_wf 0 (wb_invalid b) (length (wb_map b))
     \<and> (\<forall>i < length (wb_map b). wb_map b ! i \<longleftrightarrow> \<not> in_areas (wb_invalid b) i)"

lemma in_areas_simps [simp]:
  "\<not> in_areas [] i" "in_areas (a # as) i \<longleftrightarrow> area_contains a i \<or> in_areas as i"
  by (auto simp: in_areas_def)

lemma areas_wf_mono: "\<lbrakk> areas_wf lo as n; lo' \<le> lo \<rbrakk> \<Longrightarrow> areas_wf lo' as n"
  by (cases as) auto

lemma areas_wf_above: "\<lbrakk> areas_wf lo as n; in_areas as i \<rbrakk> \<Longrightarrow> lo \<le> i \<and> i < n"
  by (induction lo as n rule: areas_wf.induct) (auto simp: area_contains_def)

lemma split_areas_wf: "areas_wf lo as n \<Longrightarrow> areas_wf lo (split_areas i as) n"
  by (induction i as arbitrary: lo rule: split_areas.induct)
    (auto simp: area_contains_def intro: areas_wf_mono)

lemma in_split_areas:
  "areas_wf lo as n \<Longrightarrow> in_areas (split_areas i as) j \<longleftrightarrow> j \<noteq> i \<and> in_areas as j"
proof (induction i as arbitrary: lo rule: split_areas.induct)
  case (2 i a as)
  show ?case
  proof (cases "area_contains a i")
    case True
    then have "\<not> in_areas as i"
      using "2.prems" areas_wf_above [of "snd a + 1" as n i] by (auto simp: area_contains_def)
    then show ?thesis using True by (auto simp: area_contains_def)
  next
    case False
    then show ?thesis using "2.IH" "2.prems" by auto
  qed
qed simp

lemma wb_inv_from: "wb_inv (wb_from mem)"
  by (auto simp: wb_inv_def wb_from_def wb_len_def Let_def area_contains_def nth_Cons split: nat.splits)

lemma position_index_less:
  "\<lbrakk> wb_inv b; position_to_index b pos = Some i \<rbrakk> \<Longrightarrow> i < length (wb_map b)"
  by (auto simp: wb_inv_def position_to_index_def less_Suc_eq_le div_le_mono split: if_splits)

lemma wb_len_simps [simp]:
  "wb_len (b\<lparr>wb_head := h\<rparr>) = wb_len b" "wb_len (b\<lparr>wb_map := m\<rparr>) = wb_len b"
  "wb_len (b\<lparr>wb_invalid := v\<rparr>) = wb_len b" "wb_len (b\<lparr>wb_data := d\<rparr>) = length d"
  by (simp_all add: wb_len_def)

lemma wb_inv_fill:
  assumes "wb_inv b"
  shows "wb_inv (b\<lparr>wb_map := (wb_map b)[k := True], wb_invalid := split_areas k (wb_invalid b)\<rparr>)"
proof -
  have wf: "areas_wf 0 (wb_invalid b) (length (wb_map b))"
    using assms unfolding wb_inv_def by blast
  have "(wb_map b)[k := True] ! i \<longleftrightarrow> \<not> in_areas (split_areas k (wb_invalid b)) i"
    if "i < length (wb_map b)" for i
    using assms that in_split_areas [OF wf, of k i]
    by (cases "i = k") (simp_all add: wb_inv_def)
  then show ?thesis using assms split_areas_wf [OF wf, of k] unfolding wb_inv_def by simp
qed

lemma wb_inv_occupy: "\<lbrakk> wb_inv b; occupy dbg pos b = Ok b' \<rbrakk> \<Longrightarrow> wb_inv b'"
  by (auto simp: occupy_def wb_inv_fill split: option.splits if_splits)

lemma advance_head_simps [simp]:
  "wb_map (advance_head b) = wb_map b" "wb_data (advance_head b) = wb_data b"
  "wb_invalid (advance_head b) = wb_invalid b" "wb_len (advance_head b) = wb_len b"
  by (auto simp: advance_head_def wb_len_def split: option.splits prod.splits)

lemma wb_inv_advance [simp]: "wb_inv (advance_head b) \<longleftrightarrow> wb_inv b"
  by (simp add: wb_inv_def)

lemma wb_inv_head [simp]: "wb_inv (b\<lparr>wb_head := h\<rparr>) \<longleftrightarrow> wb_inv b"
  by (simp add: wb_inv_def)

lemma wb_inv_data: "length d = wb_len b \<Longrightarrow> wb_inv (b\<lparr>wb_data := d\<rparr>) \<longleftrightarrow> wb_inv b"
  by (simp add: wb_inv_def)

lemma wb_inv_seek: "wb_inv b \<Longrightarrow> wb_inv (snd (seek_head pos b))"
  by (auto simp: seek_head_def Let_def split: option.splits)

text \<open>A successful write, step by step.\<close>

lemma wb_write_Ok:
  assumes "position_occupied b pos = Some False"
    and "length d = MAX_PAYLOAD_LENGTH \<or> position_to_index b pos = Some (length (wb_map b) - 1)"
    and "unat pos + length d \<le> wb_len b"
  shows "wb_write dbg pos d b = (Ok (unat pos, unat pos + length d),
    advance_head (b\<lparr>wb_map := (wb_map b)[unat pos div MAX_PAYLOAD_LENGTH := True],
      wb_invalid := split_areas (unat pos div MAX_PAYLOAD_LENGTH) (wb_invalid b),
      wb_data := take (unat pos) (wb_data b) @ d @ drop (unat pos + length d) (wb_data b)\<rparr>))"
proof -
  have i: "position_to_index b pos = Some (unat pos div MAX_PAYLOAD_LENGTH)"
    and m: "\<not> wb_map b ! (unat pos div MAX_PAYLOAD_LENGTH)"
    using assms(1) by (auto simp: position_occupied_def position_to_index_def split: if_splits)
  then show ?thesis using assms by (auto simp: wb_write_def occupy_def Let_def)
qed

lemma wb_write_cases:
  assumes "wb_inv b"
  obtains (rejected) e where "wb_write dbg pos d b = (Err e, b)"
  | (written) "wb_write dbg pos d b = (Ok (unat pos, unat pos + length d),
      advance_head (b\<lparr>wb_map := (wb_map b)[unat pos div MAX_PAYLOAD_LENGTH := True],
        wb_invalid := split_areas (unat pos div MAX_PAYLOAD_LENGTH) (wb_invalid b),
        wb_data := take (unat pos) (wb_data b) @ d @ drop (unat pos + length d) (wb_data b)\<rparr>))"
    "unat pos + length d \<le> wb_len b" "position_occupied b pos = Some False"
proof (cases "position_occupied b pos = Some False
    \<and> (length d = MAX_PAYLOAD_LENGTH \<or> position_to_index b pos = Some (length (wb_map b) - 1))
    \<and> unat pos + length d \<le> wb_len b")
  case True
  then show thesis using wb_write_Ok [of b pos d dbg] written by blast
next
  case False
  then have "\<exists>e. wb_write dbg pos d b = (Err e, b)"
    by (auto simp: wb_write_def split: option.splits bool.splits)
  then show thesis using rejected by blast
qed

lemma wb_inv_write:
  assumes "wb_inv b"
  shows "wb_inv (snd (wb_write dbg pos d b))"
  using assms
proof (cases rule: wb_write_cases [where dbg = dbg and pos = pos and d = d])
  case (rejected e)
  then show ?thesis using assms by simp
next
  case written
  let ?b = "b\<lparr>wb_map := (wb_map b)[unat pos div MAX_PAYLOAD_LENGTH := True],
        wb_invalid := split_areas (unat pos div MAX_PAYLOAD_LENGTH) (wb_invalid b)\<rparr>"
  have "wb_inv ?b"
    using assms by (rule wb_inv_fill)
  moreover have "length (take (unat pos) (wb_data b) @ d @ drop (unat pos + length d) (wb_data b)) = wb_len ?b"
    using written(2) by (simp add: wb_len_def)
  ultimately have "wb_inv (?b\<lparr>wb_data :=
      take (unat pos) (wb_data b) @ d @ drop (unat pos + length d) (wb_data b)\<rparr>)"
    by (simp only: wb_inv_data)
  then show ?thesis unfolding written(1) snd_conv wb_inv_advance by simp
qed

section \<open>The chunks of a source\<close>

definition chunk_count :: "bytes \<Rightarrow> nat" where
  "chunk_count src = (length src + MAX_PAYLOAD_LENGTH - 1) div MAX_PAYLOAD_LENGTH"

definition chunk_of :: "bytes \<Rightarrow> nat \<Rightarrow> byte_position \<times> bytes" where
  "chunk_of src k =
     (word_of_nat (k * MAX_PAYLOAD_LENGTH), take MAX_PAYLOAD_LENGTH (drop (k * MAX_PAYLOAD_LENGTH) src))"

lemma chunk_count_less: "k < chunk_count src \<longleftrightarrow> k * MAX_PAYLOAD_LENGTH < length src"
proof -
  have "k < (n + 1368 - 1) div 1368 \<longleftrightarrow> k * 1368 < n" for n :: nat
    using less_eq_div_iff_mult_less_eq [of 1368 "Suc k" "n + 1368 - 1"] by (simp add: Suc_le_eq)
  then show ?thesis by (simp add: chunk_count_def MAX_PAYLOAD_LENGTH_def)
qed

lemma rb_drain_from:
  "rb_drain \<lparr>rb_buffer = src, rb_head = min (length src) (k * MAX_PAYLOAD_LENGTH)\<rparr>
    = map (chunk_of src) [k..<chunk_count src]"
proof (induction "chunk_count src - k" arbitrary: k)
  case 0
  then have "\<not> k * MAX_PAYLOAD_LENGTH < length src" by (simp flip: chunk_count_less)
  then show ?case using 0
    by (subst rb_drain.simps) (simp add: rb_next_def rb_is_done_def)
next
  case (Suc n)
  then have k: "k < chunk_count src" by simp
  then have lt: "k * MAX_PAYLOAD_LENGTH < length src" by (simp add: chunk_count_less)
  have "min (length src) (min (length src) (k * MAX_PAYLOAD_LENGTH) + MAX_PAYLOAD_LENGTH)
      = min (length src) (Suc k * MAX_PAYLOAD_LENGTH)" by simp
  moreover have "take (min (length src) (Suc k * MAX_PAYLOAD_LENGTH) - k * MAX_PAYLOAD_LENGTH)
        (drop (k * MAX_PAYLOAD_LENGTH) src)
      = take MAX_PAYLOAD_LENGTH (drop (k * MAX_PAYLOAD_LENGTH) src)"
    using lt by (cases "length src \<le> Suc k * MAX_PAYLOAD_LENGTH") (simp_all add: min_def)
  ultimately have "rb_drain \<lparr>rb_buffer = src, rb_head = min (length src) (k * MAX_PAYLOAD_LENGTH)\<rparr>
      = chunk_of src k # rb_drain \<lparr>rb_buffer = src, rb_head = min (length src) (Suc k * MAX_PAYLOAD_LENGTH)\<rparr>"
    using lt by (subst rb_drain.simps) (simp add: rb_next_def rb_is_done_def Let_def chunk_of_def)
  also have "\<dots> = chunk_of src k # map (chunk_of src) [Suc k..<chunk_count src]"
    using Suc.hyps(1) [of "Suc k"] Suc.hyps(2) by (simp only:)
  finally show ?case using k by (simp add: upt_conv_Cons)
qed

lemma rb_drain_chunks: "rb_drain (rb_from src) = map (chunk_of src) [0..<chunk_count src]"
  using rb_drain_from [of src 0] by (simp add: rb_from_def)

section \<open>The head\<close>

lemma advance_loop_props:
  assumes "advance_loop m i h = (j, h')" "i \<le> length m"
  shows "i \<le> j \<and> j \<le> length m \<and> (\<forall>k. i \<le> k \<and> k < j \<longrightarrow> m ! k)
    \<and> (j < length m \<longrightarrow> \<not> m ! j) \<and> h' = h + word_of_nat ((j - i) * MAX_PAYLOAD_LENGTH)"
  using assms
proof (induction m i h arbitrary: j h' rule: advance_loop.induct)
  case (1 m i h)
  show ?case
  proof (cases "i < length m \<and> m ! i")
    case True
    then have "advance_loop m (i + 1) (h + word_of_nat MAX_PAYLOAD_LENGTH) = (j, h')"
      using "1.prems"(1) by (subst (asm) advance_loop.simps) simp
    then have ih: "i + 1 \<le> j \<and> j \<le> length m \<and> (\<forall>k. i + 1 \<le> k \<and> k < j \<longrightarrow> m ! k)
      \<and> (j < length m \<longrightarrow> \<not> m ! j)
      \<and> h' = h + word_of_nat MAX_PAYLOAD_LENGTH + word_of_nat ((j - (i + 1)) * MAX_PAYLOAD_LENGTH)"
      using "1.IH" True by simp
    then have "j - i = Suc (j - (i + 1))" by arith
    then have "h' = h + word_of_nat ((j - i) * MAX_PAYLOAD_LENGTH)"
      using ih by (simp add: algebra_simps)
    moreover have "m ! k" if "i \<le> k \<and> k < j" for k
      using ih that True by (cases "k = i") auto
    ultimately show ?thesis using ih by auto
  next
    case False
    then have "j = i" "h' = h" using "1.prems"(1) by (subst (asm) advance_loop.simps; auto)+
    then show ?thesis using False "1.prems"(2) by auto
  qed
qed

lemma unat_chunk_position [simp]:
  "k * MAX_PAYLOAD_LENGTH < 2 ^ 32 \<Longrightarrow>
    unat (word_of_nat k * word_of_nat MAX_PAYLOAD_LENGTH :: byte_position) = k * MAX_PAYLOAD_LENGTH"
  using unat_byte_position_of [of "k * MAX_PAYLOAD_LENGTH"] by (simp add: byte_position_of_def)

text \<open>
  A head is at rest: on a chunk boundary with an unfilled chunk, or at the end of the memory.
\<close>

definition head_rest :: "wbuffer \<Rightarrow> nat \<Rightarrow> bool" where
  "head_rest b f \<longleftrightarrow> f \<le> length (wb_map b) \<and> (f < length (wb_map b) \<longrightarrow> \<not> wb_map b ! f)
     \<and> (f = length (wb_map b) \<longrightarrow> wb_map b ! (f - 1))
     \<and> unat (wb_head b) = (if f = length (wb_map b) then wb_len b else f * MAX_PAYLOAD_LENGTH)"

definition fits_u32 :: "wbuffer \<Rightarrow> bool" where
  "fits_u32 b \<longleftrightarrow> wb_len b + MAX_PAYLOAD_LENGTH < 2 ^ 32"

lemma MPL_pos: "0 < MAX_PAYLOAD_LENGTH"
  by (simp add: MAX_PAYLOAD_LENGTH_def)

lemma fits_simps [simp]:
  "fits_u32 (advance_head b) = fits_u32 b" "fits_u32 (b\<lparr>wb_head := h\<rparr>) = fits_u32 b"
  "fits_u32 (b\<lparr>wb_map := m\<rparr>) = fits_u32 b" "fits_u32 (b\<lparr>wb_invalid := v\<rparr>) = fits_u32 b"
  by (simp_all add: fits_u32_def)

lemma advance_head_rest:
  assumes b: "wb_inv b" "fits_u32 b" and k: "k < length (wb_map b)"
    and h: "unat (wb_head b) = k * MAX_PAYLOAD_LENGTH"
  obtains f where "k \<le> f" "head_rest (advance_head b) f" "\<forall>i. k \<le> i \<and> i < f \<longrightarrow> wb_map b ! i"
proof -
  have m: "length (wb_map b) = wb_len b div MAX_PAYLOAD_LENGTH + 1" using b by (simp add: wb_inv_def)
  then have "k \<le> wb_len b div MAX_PAYLOAD_LENGTH" using k by simp
  then have kl: "k * MAX_PAYLOAD_LENGTH \<le> wb_len b"
    by (meson MPL_pos less_eq_div_iff_mult_less_eq)
  then have i: "position_to_index b (wb_head b) = Some k"
    using h MPL_pos by (simp add: position_to_index_def)
  obtain f h' where l: "advance_loop (wb_map b) k (wb_head b) = (f, h')" by fastforce
  note p = advance_loop_props [OF l less_imp_le [OF k]]
  then have f: "f \<le> length (wb_map b)" "k \<le> f" by auto
  have "unat h' = f * MAX_PAYLOAD_LENGTH"
  proof -
    have "f * MAX_PAYLOAD_LENGTH \<le> (wb_len b div MAX_PAYLOAD_LENGTH + 1) * MAX_PAYLOAD_LENGTH"
      using f m by (metis mult_le_mono1)
    also have "\<dots> \<le> wb_len b + MAX_PAYLOAD_LENGTH"
      by (metis add_le_cancel_right add_mult_distrib div_times_less_eq_dividend mult_1)
    finally have "f * MAX_PAYLOAD_LENGTH < 2 ^ 32" using b by (simp add: fits_u32_def)
    moreover have "k * MAX_PAYLOAD_LENGTH + (f - k) * MAX_PAYLOAD_LENGTH = f * MAX_PAYLOAD_LENGTH"
      using f by (simp flip: add_mult_distrib)
    moreover have "h' = word_of_nat (k * MAX_PAYLOAD_LENGTH + (f - k) * MAX_PAYLOAD_LENGTH)"
      using p unfolding of_nat_add h [symmetric] by simp
    ultimately show ?thesis using unat_chunk_position by simp
  qed
  moreover have "unat (word_of_nat (wb_len b) :: byte_position) = wb_len b"
    using b by (simp add: fits_u32_def unat_of_nat take_bit_nat_eq_self)
  moreover have "wb_map b ! (f - 1)" if "f = length (wb_map b)"
    using p k that by (metis Suc_diff_1 Suc_leI diff_less diff_Suc_1 gr_implies_not0 less_Suc_eq_le zero_less_one neq0_conv)
  ultimately have "head_rest (advance_head b) f"
    using p f unfolding head_rest_def by (simp add: advance_head_def i l)
  then show thesis using that f p by blast
qed


section \<open>Receiving the chunks of a source\<close>

lemma unat_chunk_of:
  "k * MAX_PAYLOAD_LENGTH < 2 ^ 32 \<Longrightarrow> unat (fst (chunk_of src k)) = k * MAX_PAYLOAD_LENGTH"
  by (simp add: chunk_of_def)

definition write_chunks :: "bool \<Rightarrow> (byte_position \<times> bytes) list \<Rightarrow> wbuffer \<Rightarrow> wbuffer" where
  "write_chunks dbg cs b = fold (\<lambda>(p, d) b. snd (wb_write dbg p d b)) cs b"

text \<open>What a memory holds of a source once the chunks of a set have been written.\<close>

definition tr_inv :: "bytes \<Rightarrow> nat set \<Rightarrow> wbuffer \<Rightarrow> bool" where
  "tr_inv src ks b \<longleftrightarrow> wb_inv b \<and> wb_len b = length src
     \<and> (\<forall>k < length (wb_map b). wb_map b ! k \<longleftrightarrow> k \<in> ks)
     \<and> (\<forall>i < length src. i div MAX_PAYLOAD_LENGTH \<in> ks \<longrightarrow> wb_data b ! i = src ! i)
     \<and> (\<exists>f. head_rest b f \<and> (\<forall>k < f. k \<in> ks))"

lemma tr_inv_init: "length mem = length src \<Longrightarrow> tr_inv src {} (wb_from mem)"
  using wb_inv_from [of mem]
  by (auto simp: tr_inv_def wb_from_def wb_len_def head_rest_def Let_def
      simp del: replicate_Suc intro!: exI [of _ 0])

lemma div_MPL_iff:
  "(i :: nat) div MAX_PAYLOAD_LENGTH = k \<longleftrightarrow> k * MAX_PAYLOAD_LENGTH \<le> i \<and> i < k * MAX_PAYLOAD_LENGTH + MAX_PAYLOAD_LENGTH"
  unfolding MAX_PAYLOAD_LENGTH_def by arith

lemma tr_inv_write:
  assumes b: "tr_inv src ks b" and k: "k < chunk_count src" and len: "length src + MAX_PAYLOAD_LENGTH < 2 ^ 32"
  shows "tr_inv src (insert k ks) (snd (wb_write dbg (fst (chunk_of src k)) (snd (chunk_of src k)) b))"
proof -
  let ?p = "fst (chunk_of src k)" and ?d = "snd (chunk_of src k)"
  have inv: "wb_inv b" and bl: "wb_len b = length src"
    and mk: "\<forall>k < length (wb_map b). wb_map b ! k \<longleftrightarrow> k \<in> ks"
    and dk: "\<forall>i < length src. i div MAX_PAYLOAD_LENGTH \<in> ks \<longrightarrow> wb_data b ! i = src ! i"
    and hd: "\<exists>f. head_rest b f \<and> (\<forall>k < f. k \<in> ks)"
    using b by (auto simp: tr_inv_def)
  have ml: "length (wb_map b) = length src div MAX_PAYLOAD_LENGTH + 1" using inv bl by (simp add: wb_inv_def)
  have kl: "k * MAX_PAYLOAD_LENGTH < length src" using k by (simp add: chunk_count_less)
  have p: "unat ?p = k * MAX_PAYLOAD_LENGTH" using kl len by (simp add: unat_chunk_of)
  have km: "k < length (wb_map b)"
    using kl ml by (simp add: less_Suc_eq_le less_eq_div_iff_mult_less_eq MPL_pos)
  have ix: "position_to_index b ?p = Some k"
    using p kl bl MPL_pos by (simp add: position_to_index_def)
  have dl: "length ?d = min (length src - k * MAX_PAYLOAD_LENGTH) MAX_PAYLOAD_LENGTH"
    by (simp add: chunk_of_def)
  show ?thesis
  proof (cases "k \<in> ks")
    case True
    then have "wb_write dbg ?p ?d b = (Err Occupied, b)"
      using mk km ix by (simp add: wb_write_def position_occupied_def)
    then show ?thesis using b True by (simp add: insert_absorb)
  next
    case False
    have "length ?d = MAX_PAYLOAD_LENGTH \<or> position_to_index b ?p = Some (length (wb_map b) - 1)"
    proof (cases "length src - k * MAX_PAYLOAD_LENGTH < MAX_PAYLOAD_LENGTH")
      case True
      then have "length src div MAX_PAYLOAD_LENGTH = k" using kl by (simp add: div_MPL_iff)
      then show ?thesis using ix ml by simp
    qed (simp add: dl)
    moreover have "position_occupied b ?p = Some False"
      using False mk km ix by (simp add: position_occupied_def)
    moreover have fit: "unat ?p + length ?d \<le> wb_len b" using p kl bl dl by simp
    moreover have "unat ?p div MAX_PAYLOAD_LENGTH = k" using p MPL_pos by simp
    ultimately have w: "snd (wb_write dbg ?p ?d b) =
        advance_head (b\<lparr>wb_map := (wb_map b)[k := True], wb_invalid := split_areas k (wb_invalid b),
          wb_data := take (unat ?p) (wb_data b) @ ?d @ drop (unat ?p + length ?d) (wb_data b)\<rparr>)"
      (is "_ = advance_head ?b") using wb_write_Ok [of b ?p ?d dbg] by simp
    have inv': "wb_inv ?b" using wb_inv_write [OF inv, of dbg ?p ?d] by (simp add: w)
    have len': "length (wb_data ?b) = length src" using fit bl by (simp add: wb_len_def)
    have data: "wb_data ?b ! i = (if i div MAX_PAYLOAD_LENGTH = k then src ! i else wb_data b ! i)"
      if "i < length src" for i
    proof -
      have "length (wb_data b) = length src" using bl by (simp add: wb_len_def)
      then show ?thesis using that kl fit dl unfolding p div_MPL_iff
        by (auto simp: nth_append chunk_of_def min_def)
    qed
    have rest: "\<exists>f. head_rest (advance_head ?b) f \<and> (\<forall>j < f. j \<in> insert k ks)"
    proof -
      obtain f where f: "head_rest b f" "\<forall>j < f. j \<in> ks" using hd by blast
      then have "f \<le> k" using False by (meson not_less)
      then have fm: "f < length (wb_map b)" and "unat (wb_head b) = f * MAX_PAYLOAD_LENGTH"
        using f km by (auto simp: head_rest_def)
      moreover have "fits_u32 ?b" using len len' by (simp add: fits_u32_def)
      ultimately obtain g where "head_rest (advance_head ?b) g"
        and g: "\<forall>i. f \<le> i \<and> i < g \<longrightarrow> wb_map ?b ! i" "g \<le> length (wb_map b)"
        using advance_head_rest [OF inv', of f] by (auto simp: head_rest_def)
      moreover have "j \<in> insert k ks" if "j < g" for j
      proof (cases "j < f")
        case False
        then have "(wb_map b)[k := True] ! j" "j < length (wb_map b)" using g that by auto
        then show ?thesis using mk by (cases "j = k") auto
      qed (simp add: f)
      ultimately show ?thesis by blast
    qed
    have map': "wb_map ?b ! j \<longleftrightarrow> j \<in> insert k ks" if "j < length (wb_map ?b)" for j
      using that mk by (cases "j = k") auto
    have "wb_data ?b ! i = src ! i"
      if "i < length src" "i div MAX_PAYLOAD_LENGTH \<in> insert k ks" for i
      unfolding data [OF that(1)] using that dk by auto
    then have "tr_inv src (insert k ks) (advance_head ?b)"
      unfolding tr_inv_def wb_inv_advance advance_head_simps wb_len_def [of ?b]
      using inv' len' map' rest by blast
    then show ?thesis by (simp only: w)
  qed
qed


lemma tr_inv_write_chunks:
  assumes "tr_inv src ks b" "length src + MAX_PAYLOAD_LENGTH < 2 ^ 32"
  shows "set ns \<subseteq> {..<chunk_count src} \<Longrightarrow>
    tr_inv src (set ns \<union> ks) (write_chunks dbg (map (chunk_of src) ns) b)"
  using assms(1)
proof (induction ns arbitrary: b ks)
  case Nil
  then show ?case by (simp add: write_chunks_def)
next
  case (Cons n ns)
  let ?b = "snd (wb_write dbg (fst (chunk_of src n)) (snd (chunk_of src n)) b)"
  have "tr_inv src (insert n ks) ?b" using Cons.prems assms(2) by (simp add: tr_inv_write)
  from Cons.IH [OF _ this] Cons.prems have
    "tr_inv src (set ns \<union> insert n ks) (write_chunks dbg (map (chunk_of src) ns) ?b)" by simp
  then show ?case by (simp add: write_chunks_def case_prod_beta)
qed

lemma tr_inv_complete:
  assumes b: "tr_inv src {..<chunk_count src} b"
  shows "wb_data b = src \<and> wb_head_at_end b
    \<and> (wb_is_done b \<longleftrightarrow> length src mod MAX_PAYLOAD_LENGTH \<noteq> 0)"
proof -
  let ?n = "length src div MAX_PAYLOAD_LENGTH"
  have len: "length (wb_data b) = length src" and ml: "length (wb_map b) = ?n + 1"
    and mk: "\<forall>k < length (wb_map b). wb_map b ! k \<longleftrightarrow> k < chunk_count src"
    using b by (auto simp: tr_inv_def wb_inv_def wb_len_def)
  have "wb_data b ! i = src ! i" if "i < length src" for i
  proof -
    have "i div MAX_PAYLOAD_LENGTH * MAX_PAYLOAD_LENGTH < length src"
      using that by (meson div_times_less_eq_dividend le_less_trans)
    then show ?thesis using b that by (simp add: tr_inv_def chunk_count_less)
  qed
  then have data: "wb_data b = src" using len by (simp add: nth_equalityI)
  have cc: "?n < chunk_count src \<longleftrightarrow> length src mod MAX_PAYLOAD_LENGTH \<noteq> 0"
    unfolding chunk_count_less using div_mult_mod_eq [of "length src" MAX_PAYLOAD_LENGTH] by arith
  have below: "k < chunk_count src" if "k < ?n" for k
  proof -
    have "Suc k * MAX_PAYLOAD_LENGTH \<le> length src"
      using that MPL_pos by (simp only: Suc_le_eq flip: less_eq_div_iff_mult_less_eq)
    then show ?thesis unfolding chunk_count_less using MPL_pos by simp
  qed
  obtain f where f: "head_rest b f" "\<forall>k < f. k < chunk_count src"
    using b by (auto simp: tr_inv_def)
  have fge: "?n \<le> f" using f ml mk below by (auto simp: head_rest_def not_less [symmetric])
  have "f = ?n + 1 \<or> f = ?n" using fge f(1) ml by (auto simp: head_rest_def)
  then have at_end: "wb_head_at_end b"
  proof
    assume "f = ?n"
    moreover from this have "length src mod MAX_PAYLOAD_LENGTH = 0"
      using f(1) mk ml cc by (auto simp: head_rest_def)
    ultimately show ?thesis
      using f(1) ml len by (simp add: head_rest_def wb_head_at_end_def wb_len_def) (simp add: mult.commute mod_0_imp_dvd)
  qed (use f(1) ml in \<open>simp add: head_rest_def wb_head_at_end_def\<close>)
  have "list_all (\<lambda>filled. filled) (wb_map b) \<longleftrightarrow> ?n < chunk_count src"
    using mk ml below unfolding list_all_length by (metis less_Suc_eq Suc_eq_plus1)
  then show ?thesis using data at_end cc by (simp add: wb_is_done_def)
qed


section \<open>Properties\<close>

lemma chunk_order:
  assumes "set cs = set (rb_drain (rb_from src))" and len: "length src + MAX_PAYLOAD_LENGTH < 2 ^ 32"
  obtains ns where "cs = map (chunk_of src) ns" "set ns = {..<chunk_count src}"
proof -
  have "cs \<in> lists (chunk_of src ` {..<chunk_count src})"
    using assms by (auto simp: rb_drain_chunks)
  then obtain ns where "cs = map (chunk_of src) ns" "ns \<in> lists {..<chunk_count src}"
    unfolding lists_image by blast
  then have ns: "cs = map (chunk_of src) ns" "set ns \<subseteq> {..<chunk_count src}" by auto
  have inj: "inj_on (chunk_of src) {..<chunk_count src}"
  proof (rule inj_onI)
    fix i j assume "i \<in> {..<chunk_count src}" "j \<in> {..<chunk_count src}" "chunk_of src i = chunk_of src j"
    moreover from this have "i * MAX_PAYLOAD_LENGTH < 2 ^ 32" "j * MAX_PAYLOAD_LENGTH < 2 ^ 32"
      using len by (simp_all add: chunk_count_less)
    ultimately have "i * MAX_PAYLOAD_LENGTH = j * MAX_PAYLOAD_LENGTH" by (metis unat_chunk_of)
    then show "i = j" using MPL_pos by simp
  qed
  have "chunk_of src ` set ns = chunk_of src ` {..<chunk_count src}"
    using assms ns by (simp add: rb_drain_chunks lessThan_atLeast0)
  then have "set ns = {..<chunk_count src}" using inj ns(2) inj_on_image_eq_iff by blast
  then show thesis using that ns by blast
qed

text \<open>C26: Transfer of a buffer. If a receiver's memory has the length of the sender's data (below
  4 GiB by a chunk) and the chunks the sender's iterator yields are written to it in any order
  and any number of times, then the memory holds exactly the sender's data and the head is at
  the end. The buffer declares itself done exactly if the length is not a multiple of the chunk
  size: \<open>From\<close> always adds one chunk to the map, and for a multiple no datagram carries it.\<close>

theorem transfer_complete:
  assumes "length mem = length src" and "length src + MAX_PAYLOAD_LENGTH < 2 ^ 32"
    and "set cs = set (rb_drain (rb_from src))"
  shows "wb_data (write_chunks dbg cs (wb_from mem)) = src
    \<and> wb_head_at_end (write_chunks dbg cs (wb_from mem))
    \<and> (wb_is_done (write_chunks dbg cs (wb_from mem)) \<longleftrightarrow> length src mod MAX_PAYLOAD_LENGTH \<noteq> 0)"
proof -
  obtain ns where ns: "cs = map (chunk_of src) ns" "set ns = {..<chunk_count src}"
    using chunk_order [OF assms(3) assms(2)] by blast
  have "tr_inv src (set ns \<union> {}) (write_chunks dbg cs (wb_from mem))"
    unfolding ns(1) using assms ns by (intro tr_inv_write_chunks tr_inv_init) simp_all
  then show ?thesis using tr_inv_complete ns(2) by simp
qed

theorem transfer_complete_witness:
  "wb_data (write_chunks False (rb_drain (rb_from [7, 8, 9])) (wb_from [0, 0, 0])) = [7, 8, 9]
    \<and> wb_is_done (write_chunks False (rb_drain (rb_from [7, 8, 9])) (wb_from [0, 0, 0]))"
  using transfer_complete [of "[0, 0, 0]" "[7, 8, 9]" "rb_drain (rb_from [7, 8, 9])" False]
  by (simp add: MAX_PAYLOAD_LENGTH_def)

text \<open>C36: The map of filled chunks and the list of invalid areas of a receiving buffer agree at
  all times. In a new buffer, and after any write, occupation or seek, the areas are ordered,
  non-empty, separated by at least one chunk and inside the map, and a chunk is unfilled exactly
  if an area contains it.\<close>

theorem buffer_invariant:
  assumes "wb_inv b"
  shows "wb_inv (wb_from mem) \<and> wb_inv (snd (wb_write dbg pos d b))
    \<and> (\<forall>b'. occupy dbg pos b = Ok b' \<longrightarrow> wb_inv b') \<and> wb_inv (snd (seek_head pos b))"
  using assms by (simp add: wb_inv_from wb_inv_write wb_inv_seek) (blast intro: wb_inv_occupy)

theorem buffer_invariant_witness:
  "wb_inv (snd (wb_write False 0 [1, 2, 3] (wb_from [0, 0, 0])))"
  using buffer_invariant [OF wb_inv_from [of "[0, 0, 0]"], of "[]" False 0 "[1, 2, 3]"] by simp

text \<open>A rejected write leaves the buffer as it is, and an accepted one changes only the bytes
  from its position on: the length of the memory is kept and every byte outside the returned
  range is unchanged.\<close>

theorem write_frame:
  assumes "wb_inv b"
  shows "(\<exists>e. wb_write dbg pos d b = (Err e, b))
    \<or> (\<exists>b'. wb_write dbg pos d b = (Ok (unat pos, unat pos + length d), b')
        \<and> take (unat pos) (wb_data b') = take (unat pos) (wb_data b)
        \<and> take (length d) (drop (unat pos) (wb_data b')) = d
        \<and> drop (unat pos + length d) (wb_data b') = drop (unat pos + length d) (wb_data b)
        \<and> position_occupied b pos = Some False \<and> position_occupied b' pos = Some True)"
  using assms
proof (cases rule: wb_write_cases [where dbg = dbg and pos = pos and d = d])
  case written
  have "unat pos div MAX_PAYLOAD_LENGTH < length (wb_map b)"
    using position_index_less [OF assms, of pos] written by (auto simp: position_occupied_def position_to_index_def split: if_splits)
  then show ?thesis using written
    by (auto simp: wb_len_def position_occupied_def position_to_index_def split: if_splits)
qed blast

theorem write_frame_witness:
  "position_occupied (snd (wb_write False 0 [1, 2, 3] (wb_from [0, 0, 0]))) 0 = Some True"
proof -
  have "\<nexists>e. wb_write False 0 [1, 2, 3] (wb_from [0, 0, 0]) = (Err e, wb_from [0, 0, 0])"
    by (subst wb_write_Ok) (simp_all add: position_occupied_def position_to_index_def wb_from_def wb_len_def Let_def MAX_PAYLOAD_LENGTH_def)
  then show ?thesis using write_frame [OF wb_inv_from, of False 0 "[1, 2, 3]" "[0, 0, 0]"] by auto
qed


text \<open>\<open>find_holes\<close> returns the positions of the unfilled chunks below the limit, clipped to
  the memory, and no other. The chunk that contains the limit is excluded, so the last chunk of
  the map is never reported, even when the limit is the whole memory.\<close>

theorem find_holes_exact:
  assumes "wb_inv b" and "wb_len b < 2 ^ 32"
  shows "\<exists>hs. find_holes until b = Ok hs
    \<and> hs = map (\<lambda>i. word_of_nat (i * MAX_PAYLOAD_LENGTH))
        (filter (in_areas (wb_invalid b)) [0..<min (unat until) (wb_len b) div MAX_PAYLOAD_LENGTH])
    \<and> min (unat until) (wb_len b) div MAX_PAYLOAD_LENGTH \<le> length (wb_map b) - 1"
proof -
  let ?n = "min (unat until) (wb_len b) div MAX_PAYLOAD_LENGTH"
  have m: "length (wb_map b) = wb_len b div MAX_PAYLOAD_LENGTH + 1"
    and v: "\<forall>i < length (wb_map b). wb_map b ! i \<longleftrightarrow> \<not> in_areas (wb_invalid b) i"
    using assms by (auto simp: wb_inv_def)
  have n: "?n \<le> wb_len b div MAX_PAYLOAD_LENGTH" by (simp add: div_le_mono)
  have u: "unat (min until (byte_position_of (wb_len b))) = min (unat until) (wb_len b)"
    using assms(2) by (auto simp: min_def word_le_nat_alt unat_byte_position_of)
  have "filter (\<lambda>i. \<not> wb_map b ! i) [0..<?n] = filter (in_areas (wb_invalid b)) [0..<?n]"
    by (rule filter_cong) (use v m n in auto)
  then show ?thesis using u n m by (simp add: find_holes_def position_to_index_def)
qed

theorem find_holes_exact_witness:
  "\<exists>hs. find_holes 3 (wb_from [0, 0, 0]) = Ok hs \<and> hs = []"
  using find_holes_exact [OF wb_inv_from [of "[0, 0, 0]"], of 3]
  by (simp add: wb_from_def wb_len_def Let_def MAX_PAYLOAD_LENGTH_def)

lemma last_unfilled_props:
  "last_unfilled m i \<le> i \<and> (\<forall>k. last_unfilled m i \<le> k \<and> k < i \<longrightarrow> \<not> m ! k)
    \<and> (last_unfilled m i = 0 \<or> m ! (last_unfilled m i - 1))"
  by (induction m i rule: last_unfilled.induct) (auto simp: less_Suc_eq)

text \<open>\<open>last_occupied_pos\<close> walks back to the end of the nearest filled chunk: every chunk
  from the returned one up to the queried one is unfilled, and the chunk before it is filled
  unless it is the first.\<close>

theorem last_occupied_exact:
  assumes "wb_inv b" and "wb_len b < 2 ^ 32" and "unat pos \<le> wb_len b"
  shows "\<exists>i. last_occupied_pos b pos = Some (word_of_nat (i * MAX_PAYLOAD_LENGTH))
    \<and> i \<le> unat pos div MAX_PAYLOAD_LENGTH
    \<and> (\<forall>k. i \<le> k \<and> k < unat pos div MAX_PAYLOAD_LENGTH \<longrightarrow> in_areas (wb_invalid b) k)
    \<and> (i = 0 \<or> \<not> in_areas (wb_invalid b) (i - 1))"
proof -
  let ?n = "unat pos div MAX_PAYLOAD_LENGTH"
  let ?i = "last_unfilled (wb_map b) ?n"
  have n: "position_to_index b pos = Some ?n" using assms(3) by (simp add: position_to_index_def)
  then have "?n < length (wb_map b)" using position_index_less assms(1) by blast
  moreover have "\<forall>i < length (wb_map b). wb_map b ! i \<longleftrightarrow> \<not> in_areas (wb_invalid b) i"
    using assms by (auto simp: wb_inv_def)
  moreover note last_unfilled_props [of "wb_map b" ?n]
  ultimately have "?i \<le> ?n \<and> (\<forall>k. ?i \<le> k \<and> k < ?n \<longrightarrow> in_areas (wb_invalid b) k)
    \<and> (?i = 0 \<or> \<not> in_areas (wb_invalid b) (?i - 1))" by fastforce
  then show ?thesis using n unfolding last_occupied_pos_def by auto
qed

theorem last_occupied_exact_witness:
  "last_occupied_pos (wb_from [0, 0, 0]) 2 = Some 0"
  using last_occupied_exact [OF wb_inv_from [of "[0, 0, 0]"], of 2]
  by (simp add: wb_from_def wb_len_def Let_def MAX_PAYLOAD_LENGTH_def)

lemma seek_head_cases:
  "(position_to_index b pos = None \<and> seek_head pos b = (None, b))
    \<or> (position_to_index b pos \<noteq> None \<and> pos \<le> wb_head b \<and> seek_head pos b = (Some False, b))
    \<or> (position_to_index b pos \<noteq> None \<and> wb_head b < pos \<and> seek_head pos b = (Some True,
        advance_head (b\<lparr>wb_head := (pos div word_of_nat MAX_PAYLOAD_LENGTH) * word_of_nat MAX_PAYLOAD_LENGTH\<rparr>)))"
  by (cases "position_to_index b pos") (simp_all add: seek_head_def Let_def not_less not_le)


lemma advance_head_at_end:
  assumes "wb_inv b" "fits_u32 b" "unat (wb_head b) = wb_len b" "wb_map b ! (length (wb_map b) - 1)"
  shows "head_rest (advance_head b) (length (wb_map b)) \<and> wb_head (advance_head b) = wb_head b"
proof -
  let ?n = "wb_len b div MAX_PAYLOAD_LENGTH"
  have m: "length (wb_map b) = ?n + 1" using assms by (simp add: wb_inv_def)
  have i: "position_to_index b (wb_head b) = Some ?n" using assms by (simp add: position_to_index_def)
  obtain f h' where l: "advance_loop (wb_map b) ?n (wb_head b) = (f, h')" by fastforce
  have "f = length (wb_map b)" using advance_loop_props [OF l] assms(4) m by (cases "f = ?n") auto
  moreover have "word_of_nat (wb_len b) = wb_head b" using assms(3) [symmetric] by simp
  ultimately show ?thesis using assms m by (simp add: head_rest_def advance_head_def i l)
qed

text \<open>Filling chunks and then advancing moves the head forward to the next place of rest.\<close>

lemma head_rest_advance:
  assumes b: "wb_inv b'" "fits_u32 b'" "head_rest b f"
    and eq: "wb_len b' = wb_len b" "wb_head b' = wb_head b" "length (wb_map b') = length (wb_map b)"
    and filled: "\<forall>k < length (wb_map b). wb_map b ! k \<longrightarrow> wb_map b' ! k"
  shows "\<exists>g. head_rest (advance_head b') g \<and> wb_head b \<le> wb_head (advance_head b')"
proof (cases "f = length (wb_map b)")
  case True
  have "length (wb_map b) > 0" using b(1) eq by (auto simp: wb_inv_def)
  then have "wb_map b' ! (length (wb_map b') - 1)" "unat (wb_head b') = wb_len b'"
    using True b(3) eq filled by (auto simp: head_rest_def)
  then show ?thesis using advance_head_at_end [OF b(1,2)] eq by auto
next
  case False
  then have f: "f < length (wb_map b')" "unat (wb_head b') = f * MAX_PAYLOAD_LENGTH"
    using b(3) eq by (auto simp: head_rest_def)
  then obtain g where g: "f \<le> g" "head_rest (advance_head b') g" by (rule advance_head_rest [OF b(1,2)])
  have "f * MAX_PAYLOAD_LENGTH \<le> unat (wb_head (advance_head b'))"
  proof (cases "g = length (wb_map b')")
    case True
    have "f \<le> wb_len b' div MAX_PAYLOAD_LENGTH" using f(1) b(1) by (simp add: wb_inv_def)
    then have "f * MAX_PAYLOAD_LENGTH \<le> wb_len b'" by (simp add: less_eq_div_iff_mult_less_eq MPL_pos)
    then show ?thesis using g True by (simp add: head_rest_def)
  qed (use g in \<open>auto simp: head_rest_def\<close>)
  then show ?thesis using g f eq by (auto simp: word_le_nat_alt)
qed

lemma seek_head_rest:
  assumes b: "wb_inv b" "fits_u32 b" "head_rest b f" and pos: "unat pos \<le> wb_len b" "wb_head b < pos"
  shows "\<exists>g. head_rest (snd (seek_head pos b)) g \<and> wb_head b \<le> wb_head (snd (seek_head pos b))
    \<and> unat pos < unat (wb_head (snd (seek_head pos b))) + MAX_PAYLOAD_LENGTH"
proof -
  let ?k = "unat pos div MAX_PAYLOAD_LENGTH"
  let ?h = "(pos div word_of_nat MAX_PAYLOAD_LENGTH) * word_of_nat MAX_PAYLOAD_LENGTH :: byte_position"
  let ?b = "b\<lparr>wb_head := ?h\<rparr>"
  have h: "unat ?h = ?k * MAX_PAYLOAD_LENGTH"
  proof -
    have "?h = word_of_nat (?k * MAX_PAYLOAD_LENGTH)"
      by (simp add: MAX_PAYLOAD_LENGTH_def word_arith_nat_div)
    moreover have "?k * MAX_PAYLOAD_LENGTH < 2 ^ 32"
      using pos b(2) unfolding fits_u32_def
      by (intro le_less_trans [OF div_times_less_eq_dividend]) linarith
    ultimately show ?thesis by simp
  qed
  have k: "?k < length (wb_map ?b)"
    using pos b(1) by (simp add: wb_inv_def div_le_mono less_Suc_eq_le)
  obtain g where g: "?k \<le> g" "head_rest (advance_head ?b) g"
    using advance_head_rest [of ?b ?k] b k h by auto
  have s: "snd (seek_head pos b) = advance_head ?b"
    using pos by (simp add: seek_head_def position_to_index_def Let_def)
  have at: "unat (wb_head (advance_head ?b)) \<ge> ?k * MAX_PAYLOAD_LENGTH"
  proof (cases "g = length (wb_map b)")
    case True
    then have "unat (wb_head (advance_head ?b)) = wb_len b" using g by (simp add: head_rest_def)
    then show ?thesis using pos div_times_less_eq_dividend [of "unat pos" MAX_PAYLOAD_LENGTH] by linarith
  qed (use g in \<open>simp add: head_rest_def\<close>)
  moreover have "unat pos < ?k * MAX_PAYLOAD_LENGTH + MAX_PAYLOAD_LENGTH"
    using div_MPL_iff [of "unat pos" ?k] by simp
  moreover have "unat (wb_head b) \<le> ?k * MAX_PAYLOAD_LENGTH"
  proof -
    have "f \<noteq> length (wb_map b)" using b(3) pos by (auto simp: head_rest_def word_less_nat_alt)
    then have "unat (wb_head b) = f * MAX_PAYLOAD_LENGTH" using b(3) by (simp add: head_rest_def)
    moreover from this have "f \<le> ?k"
      using pos by (simp add: word_less_nat_alt less_eq_div_iff_mult_less_eq MPL_pos)
    ultimately show ?thesis by simp
  qed
  ultimately show ?thesis using g unfolding s by (auto simp: word_le_nat_alt)
qed

lemma nth_fill: "m ! i \<Longrightarrow> m[k := True] ! i"
  by (cases "i = k"; cases "k < length m") (simp_all add: list_update_beyond)

text \<open>The head of a receiving buffer never retreats. In a buffer whose head is at rest (on the
  boundary of an unfilled chunk, or at the end of the memory) a seek and a write, whatever
  their arguments, leave a head that is at rest again and not lower; a seek inside the memory
  leaves the head less than one chunk below the wanted position, or above it.\<close>

theorem head_never_retreats:
  assumes "wb_inv b" and "fits_u32 b" and "head_rest b f"
  shows "(\<exists>g. head_rest (snd (seek_head pos b)) g) \<and> wb_head b \<le> wb_head (snd (seek_head pos b))
    \<and> (unat pos \<le> wb_len b \<longrightarrow> unat pos < unat (wb_head (snd (seek_head pos b))) + MAX_PAYLOAD_LENGTH)
    \<and> (\<exists>g. head_rest (snd (wb_write dbg p d b)) g) \<and> wb_head b \<le> wb_head (snd (wb_write dbg p d b))"
proof -
  have "(\<exists>g. head_rest (snd (seek_head pos b)) g) \<and> wb_head b \<le> wb_head (snd (seek_head pos b))
    \<and> (unat pos \<le> wb_len b \<longrightarrow> unat pos < unat (wb_head (snd (seek_head pos b))) + MAX_PAYLOAD_LENGTH)"
  proof (cases "unat pos \<le> wb_len b \<and> wb_head b < pos")
    case True
    then show ?thesis using seek_head_rest [OF assms] by blast
  next
    case False
    then have "snd (seek_head pos b) = b"
      by (auto simp: seek_head_def position_to_index_def)
    then show ?thesis using False assms(3) MPL_pos by (auto simp: word_less_nat_alt)
  qed
  moreover have "(\<exists>g. head_rest (snd (wb_write dbg p d b)) g) \<and> wb_head b \<le> wb_head (snd (wb_write dbg p d b))"
    using assms(1)
  proof (cases rule: wb_write_cases [where dbg = dbg and pos = p and d = d])
    case (rejected e)
    then show ?thesis using assms(3) by auto
  next
    case written
    let ?b = "b\<lparr>wb_map := (wb_map b)[unat p div MAX_PAYLOAD_LENGTH := True],
        wb_invalid := split_areas (unat p div MAX_PAYLOAD_LENGTH) (wb_invalid b),
        wb_data := take (unat p) (wb_data b) @ d @ drop (unat p + length d) (wb_data b)\<rparr>"
    have len: "wb_len ?b = wb_len b" using written(2) by (simp add: wb_len_def)
    moreover have "wb_inv ?b" using wb_inv_write [OF assms(1), of dbg p d] by (simp add: written(1))
    ultimately have "\<exists>g. head_rest (advance_head ?b) g \<and> wb_head b \<le> wb_head (advance_head ?b)"
      using assms by (intro head_rest_advance [where f = f]) (auto simp: fits_u32_def nth_fill)
    then show ?thesis by (auto simp: written(1))
  qed
  ultimately show ?thesis by blast
qed

theorem head_never_retreats_witness:
  "\<exists>g. head_rest (snd (seek_head 2 (wb_from [0, 0, 0]))) g"
proof -
  have "fits_u32 (wb_from [0, 0, 0])" "head_rest (wb_from [0, 0, 0]) 0"
    by (simp_all add: fits_u32_def head_rest_def wb_from_def wb_len_def Let_def MAX_PAYLOAD_LENGTH_def)
  then show ?thesis using head_never_retreats [OF wb_inv_from, of "[0, 0, 0]" 0 2] by blast
qed


lemma score_from_fst: "map fst (score_from h n as) = as"
  by (induction as) auto

lemma top_requests:
  fixes xs :: "('a \<times> rat) list"
  shows "\<exists>ys. mset xs = mset (sort_key (\<lambda>(a, s). - s) xs)
    \<and> ys = take n (sort_key (\<lambda>(a, s). - s) xs) \<and> length ys = min n (length xs) \<and> set ys \<subseteq> set xs
    \<and> (\<forall>(a, s) \<in> set ys. \<forall>(a', s') \<in> set (drop n (sort_key (\<lambda>(a, s). - s) xs)). s \<ge> s')"
proof -
  let ?s = "sort_key (\<lambda>(a, s). - s) xs"
  have "sorted (map (\<lambda>(a, s). - s) ?s)" by (rule sorted_sort_key)
  then have "sorted (map (\<lambda>(a, s). - s) (take n ?s @ drop n ?s))" by simp
  then have "\<forall>(a, s) \<in> set (take n ?s). \<forall>(a', s') \<in> set (drop n ?s). s \<ge> s'"
    unfolding map_append sorted_append by fastforce
  moreover have "set (take n ?s) \<subseteq> set xs" using set_take_subset [of n ?s] by simp
  ultimately show ?thesis by simp
qed

text \<open>The request policy asks for at most two areas, each a tracked invalid area with a score
  of at least the threshold; an area with such a score that is not asked for gives way to two
  areas that are, none of which scores less.\<close>

theorem requestable_sound:
  "\<exists>chosen. requestable_areas b = map fst chosen \<and> length chosen \<le> 2
    \<and> set chosen \<subseteq> set (score_areas b) \<and> set (requestable_areas b) \<subseteq> set (wb_invalid b)
    \<and> (\<forall>(a, s) \<in> set chosen. s \<ge> 3 / 10)
    \<and> (\<forall>(a, s) \<in> set (score_areas b). s \<ge> 3 / 10 \<longrightarrow> (a, s) \<notin> set chosen \<longrightarrow>
        length chosen = 2 \<and> (\<forall>(a', s') \<in> set chosen. s' \<ge> s))"
proof -
  let ?f = "filter (\<lambda>(a, s). s \<ge> SCORE_THRESHOLD) (score_areas b)"
  let ?s = "sort_key (\<lambda>(a, s). - s) ?f"
  let ?c = "take 2 ?s"
  have r: "requestable_areas b = map fst ?c"
    by (simp add: requestable_areas_def Let_def MAX_REQUESTS_PER_TICK_def)
  have c: "length ?c = min 2 (length ?f)" "set ?c \<subseteq> set ?f"
    "\<forall>(a, s) \<in> set ?c. \<forall>(a', s') \<in> set (drop 2 ?s). s \<ge> s'"
    using top_requests [of ?f 2] by auto
  have "set (map fst (score_areas b)) = set (wb_invalid b)" by (simp only: score_areas_def score_from_fst)
  then have sub: "set (requestable_areas b) \<subseteq> set (wb_invalid b)"
    using c(2) unfolding r by auto
  have left: "length ?c = 2 \<and> (\<forall>(a', s') \<in> set ?c. s' \<ge> s)"
    if "(a, s) \<in> set (score_areas b)" "s \<ge> 3 / 10" "(a, s) \<notin> set ?c" for a s
  proof -
    have "(a, s) \<in> set ?f" using that by (simp add: SCORE_THRESHOLD_def)
    then have "(a, s) \<in> set (?c @ drop 2 ?s)" by simp
    then have d: "(a, s) \<in> set (drop 2 ?s)" using that(3) by (simp only: set_append Un_iff) simp
    then have "length (drop 2 ?s) > 0" by (rule length_pos_if_in_set)
    then have "length ?c = 2" by simp
    then show ?thesis using c(3) d by fastforce
  qed
  have "length ?c \<le> 2" by simp
  moreover have "set ?c \<subseteq> set (score_areas b)" using c(2) by auto
  moreover have "\<forall>(a, s) \<in> set ?c. s \<ge> 3 / 10" using c(2) by (auto simp: SCORE_THRESHOLD_def)
  moreover have "\<forall>(a, s) \<in> set (score_areas b). s \<ge> 3 / 10 \<longrightarrow> (a, s) \<notin> set ?c \<longrightarrow>
      length ?c = 2 \<and> (\<forall>(a', s') \<in> set ?c. s' \<ge> s)"
    using left by (intro ballI) (simp only: split_paired_all prod.case, blast)
  ultimately show ?thesis using r sub by (intro exI [of _ ?c] conjI)
qed

theorem requestable_sound_witness:
  "length (requestable_areas (wb_from [0, 0, 0])) \<le> 2"
  using requestable_sound [of "wb_from [0, 0, 0]"] by auto

text \<open>The urgency of an area is not what the comment above it says. An area that contains the
  head has urgency 0, where the comment and the test \<open>urgency_decays_continuously_with_distance\<close>
  expect the peak 1, and the area right after the head has urgency 4.\<close>

theorem urgency_peak:
  "(area_contains a h \<longrightarrow> urgency a h = 0) \<and> (fst a = h + 1 \<longrightarrow> urgency a h = 4)
    \<and> (fst a > h \<longrightarrow> urgency a h = 4 / of_nat (fst a - h))"
  by (auto simp: urgency_def area_contains_def URGENCY_DECAY_CHUNKS_def)

theorem urgency_peak_witness:
  "urgency (0, 1) 0 = 0 \<and> urgency (1, 2) 0 = 4"
  using urgency_peak [of "(0, 1)" 0] urgency_peak [of "(1, 2)" 0] by (simp add: area_contains_def)

end
