(* ===== verification/Packets.thy ===== *)
theory Packets imports Wire_Types begin

text \<open>
  The packets of the protocol (\<open>src/src/manager/packets.rs\<close>, lines 17 to 947): one record
  per struct, with the fields in the order they travel, its derived serialisation, and its
  constructors. A \<open>Reserved<N>\<close> field holds no value and is a field of the wire format
  only. \<open>SocketAddr\<close> is an IPv4 address, the family the sockets are bound to.

  \<open>X_fields\<close> is what \<open>#[derive(Serialize)]\<close> and \<open>#[derive(Headers)]\<close> see of a struct;
  \<open>serialize\<close> is \<open>struct_serialize (X_fields p)\<close> and \<open>X_deserialize\<close> the generated
  reader. The interpretation \<open>X_w\<close> of \<open>wire\<close> proves that a valid packet is read back as
  itself; \<open>X_valid\<close> says which are valid.
\<close>

type_synonym address = sock_v4

section \<open>Fields\<close>

definition f_int :: "string \<Rightarrow> 'a::len word \<Rightarrow> field" where
  "f_int nm w = (nm, int_sized w, int_serialize w)"

definition f_enum :: "string \<Rightarrow> ('v \<times> int option) list \<Rightarrow> 'v \<Rightarrow> field" where
  "f_enum nm vs v = (nm, enum_sized v, enum_serialize vs v)"

definition f_control :: "string \<Rightarrow> control_type \<Rightarrow> field" where
  "f_control nm c = (nm, control_sized c, control_serialize c)"

definition f_reserved :: "string \<Rightarrow> nat \<Rightarrow> field" where
  "f_reserved nm n = (nm, reserved_sized n (), reserved_serialize n ())"

definition f_arr :: "string \<Rightarrow> nat \<Rightarrow> bytes \<Rightarrow> field" where
  "f_arr nm n a = (nm, arr_sized n a, arr_serialize n a)"

definition f_vec :: "string \<Rightarrow> bytes \<Rightarrow> field" where
  "f_vec nm v = (nm, vec_sized v, vec_serialize v)"

definition f_fec :: "string \<Rightarrow> fec_info \<Rightarrow> field" where
  "f_fec nm i = (nm, fec_info_sized i, fec_info_serialize i)"

definition f_app_id :: "string \<Rightarrow> bytes \<Rightarrow> field" where
  "f_app_id nm a = (nm, app_id_sized a, app_id_serialize a)"

definition f_opt_buffer_id :: "string \<Rightarrow> buffer_id option \<Rightarrow> field" where
  "f_opt_buffer_id nm b = (nm, opt_buffer_id_sized b, opt_buffer_id_serialize b)"

definition f_ranges :: "string \<Rightarrow> byte_range list \<Rightarrow> field" where
  "f_ranges nm rs = (nm, ranges_sized rs, ranges_serialize rs)"

text \<open>
  \<open>impl Serialize for Option<SocketAddr>\<close>: nothing is written, and \<open>None\<close> is read.
\<close>

definition address_serialize :: "address option \<Rightarrow> writer" where
  "address_serialize a buf = Ok buf"

definition address_deserialize :: "bytes \<Rightarrow> address option ures" where
  "address_deserialize bs = Ok None"

definition address_sized :: "address option \<Rightarrow> nat" where
  "address_sized a = 0"

definition f_address :: "string \<Rightarrow> address option \<Rightarrow> field" where
  "f_address nm a = (nm, address_sized a, address_serialize a)"

abbreviation "de_int \<equiv> de_field int_deserialize int_sized"
abbreviation "de_enum vs \<equiv> de_field (enum_deserialize vs) enum_sized"
abbreviation "de_control \<equiv> de_field control_deserialize control_sized"
abbreviation "de_reserved n \<equiv> de_field (reserved_deserialize n) (reserved_sized n)"
abbreviation "de_arr n \<equiv> de_field (arr_deserialize n) (arr_sized n)"
abbreviation "de_vec \<equiv> de_field vec_deserialize vec_sized"
abbreviation "de_fec \<equiv> de_field fec_info_deserialize fec_info_sized"
abbreviation "de_app_id dbg \<equiv> de_field (app_id_deserialize dbg) app_id_sized"
abbreviation "de_opt_buffer_id \<equiv> de_field opt_buffer_id_deserialize opt_buffer_id_sized"
abbreviation "de_ranges \<equiv> de_field ranges_deserialize ranges_sized"
abbreviation "de_address \<equiv> de_field address_deserialize address_sized"

lemma struct_wire:
  assumes "\<And>p. valid p \<Longrightarrow> encodes (flds p) (encs p)"
    and "\<And>p. valid p \<Longrightarrow> de (concat (encs p)) = Ok p"
  shows "wire (\<lambda>p. struct_serialize (flds p)) de (\<lambda>p. struct_sized (flds p))
           (\<lambda>p. concat (encs p)) valid"
proof unfold_locales
  show "length (concat (encs x)) = struct_sized (flds x)" if "valid x" for x
    using assms(1) [OF that] by (simp only: encodes_sized)
  show "struct_serialize (flds x) buf = Ok (concat (encs x))"
    if "valid x" "length buf = struct_sized (flds x)" for x buf
    using assms(1) [OF that(1)] that(2) by (rule struct_serialize_concat)
qed (simp_all add: assms(2) struct_serialize_def)

text \<open>What the interpretations below need of the fields.\<close>

named_theorems packet "the fields of a packet struct"

lemmas [packet] = f_int_def f_enum_def f_control_def f_reserved_def f_arr_def f_vec_def f_fec_def
  f_app_id_def f_opt_buffer_id_def f_ranges_def f_address_def
  enum_sized_def control_sized_def reserved_sized_def arr_sized_def vec_sized_def app_id_sized_def
  opt_buffer_id_sized_def ranges_sized_def address_sized_def int_sized_def
  address_deserialize_def vec_deserialize_def

lemma writes_address [packet]: "writes (address_serialize a) []"
  by (simp add: writes_def address_serialize_def)

lemma writes_exact_last [packet]:
  "writes_exact (vec_serialize v) v"
  "writes_exact (app_id_serialize s) s"
  "writes_exact (int_serialize w) (int_bytes w)"
  "writes_exact (ranges_serialize rs) (ranges_bytes rs)"
  "writes_exact (address_serialize a) []"
  "writes_exact (enum_serialize vs x) (int_bytes (as_u8 vs x))"
  "length a' = n \<Longrightarrow> writes_exact (arr_serialize n a') a'"
  by (simp_all add: writes_imp_exact writes_address)
    (simp_all add: writes_exact_def vec_serialize_def app_id_serialize_def)

lemma de_enum_match [packet]: "enum_ok vs v \<Longrightarrow> enum_match (enum_variants vs) (as_u8 vs v) = Ok v"
  by (simp add: enum_ok_def)

lemmas [packet] = error_type_ok control_deserialize_u8 ranges_deserialize_bytes app_id_w.de_enc

lemma control_deserialize_exact [packet]: "control_deserialize (int_bytes (control_u8 c)) = Ok c"
  by (rule control_w.de_enc) simp

lemma opt_buffer_id_deserialize_bytes [packet]:
  "b \<noteq> Some 0 \<Longrightarrow> opt_buffer_id_deserialize (int_bytes (opt_buffer_id_rep b) @ rest) = Ok b"
  by (rule opt_buffer_id_w.de_prefix)

lemma length_fec_info_bytes [packet]: "length (fec_info_bytes i) = 3"
  by (simp add: fec_info_bytes_def)

section \<open>The packet structs\<close>

subsection \<open>\<open>HelloPacket\<close>\<close>

record hello =
  he_version :: version
  he_opts :: options
  he_packet_type :: packet_type
  he_control_type :: control_type
  he_proposed_session_id :: session_id
  he_handshake_id :: handshake_id
  he_timestamp :: timestamp
  he_public_key :: bytes
  he_app_id :: bytes

definition hello_fields :: "hello \<Rightarrow> field list" where
  "hello_fields p =
     [f_int ''version'' (he_version p),
      f_int ''opts'' (he_opts p),
      f_enum ''packet_type'' packet_type_variants (he_packet_type p),
      f_control ''control_type'' (he_control_type p),
      f_reserved ''reserved'' 2,
      f_int ''proposed_session_id'' (he_proposed_session_id p),
      f_int ''handshake_id'' (he_handshake_id p),
      f_int ''timestamp'' (he_timestamp p),
      f_arr ''public_key'' 32 (he_public_key p),
      f_app_id ''app_id'' (he_app_id p)]"

definition hello_deserialize :: "bool \<Rightarrow> bytes \<Rightarrow> hello ures" where
  "hello_deserialize dbg bs =
     de_int bs 0 (\<lambda>v0 off.
     de_int bs off (\<lambda>v1 off.
     (de_enum packet_type_variants) bs off (\<lambda>v2 off.
     de_control bs off (\<lambda>v3 off.
     (de_reserved 2) bs off (\<lambda>_ off.
     de_int bs off (\<lambda>v5 off.
     de_int bs off (\<lambda>v6 off.
     de_int bs off (\<lambda>v7 off.
     (de_arr 32) bs off (\<lambda>v8 off.
     (de_app_id dbg) bs off (\<lambda>v9 off.
       Ok \<lparr>he_version = v0, he_opts = v1, he_packet_type = v2, he_control_type = v3,
           he_proposed_session_id = v5, he_handshake_id = v6, he_timestamp = v7, he_public_key = v8,
           he_app_id = v9\<rparr>))))))))))"

definition hello_encs :: "hello \<Rightarrow> bytes list" where
  "hello_encs p =
     [int_bytes (he_version p),
      int_bytes (he_opts p),
      int_bytes (as_u8 packet_type_variants (he_packet_type p)),
      int_bytes (control_u8 (he_control_type p)),
      replicate 2 0,
      int_bytes (he_proposed_session_id p),
      int_bytes (he_handshake_id p),
      int_bytes (he_timestamp p),
      he_public_key p,
      he_app_id p]"

definition hello_valid :: "bool \<Rightarrow> hello \<Rightarrow> bool" where
  "hello_valid dbg p \<longleftrightarrow> length (he_public_key p) = 32 \<and> is_ascii (he_app_id p) \<and> (dbg \<longrightarrow> length (he_app_id p) < APP_ID_MAX_LENGTH)"

interpretation hello_w: wire "\<lambda>p. struct_serialize (hello_fields p)" "hello_deserialize dbg"
    "\<lambda>p. struct_sized (hello_fields p)" "\<lambda>p. concat (hello_encs p)" "hello_valid dbg" for dbg
  by (rule struct_wire)
    (simp_all add: hello_fields_def hello_encs_def hello_valid_def hello_deserialize_def packet)

subsection \<open>\<open>TrackRequestPacket\<close>\<close>

record track_request =
  tr_version :: version
  tr_opts :: options
  tr_packet_type :: packet_type
  tr_control_type :: control_type
  tr_session_id :: session_id
  tr_timestamp :: timestamp
  tr_payload :: bytes

definition track_request_fields :: "track_request \<Rightarrow> field list" where
  "track_request_fields p =
     [f_int ''version'' (tr_version p),
      f_int ''opts'' (tr_opts p),
      f_enum ''packet_type'' packet_type_variants (tr_packet_type p),
      f_control ''control_type'' (tr_control_type p),
      f_reserved ''reserved'' 2,
      f_int ''session_id'' (tr_session_id p),
      f_int ''timestamp'' (tr_timestamp p),
      f_vec ''payload'' (tr_payload p)]"

definition track_request_deserialize :: "bytes \<Rightarrow> track_request ures" where
  "track_request_deserialize bs =
     de_int bs 0 (\<lambda>v0 off.
     de_int bs off (\<lambda>v1 off.
     (de_enum packet_type_variants) bs off (\<lambda>v2 off.
     de_control bs off (\<lambda>v3 off.
     (de_reserved 2) bs off (\<lambda>_ off.
     de_int bs off (\<lambda>v5 off.
     de_int bs off (\<lambda>v6 off.
     de_vec bs off (\<lambda>v7 off.
       Ok \<lparr>tr_version = v0, tr_opts = v1, tr_packet_type = v2, tr_control_type = v3,
           tr_session_id = v5, tr_timestamp = v6, tr_payload = v7\<rparr>))))))))"

definition track_request_encs :: "track_request \<Rightarrow> bytes list" where
  "track_request_encs p =
     [int_bytes (tr_version p),
      int_bytes (tr_opts p),
      int_bytes (as_u8 packet_type_variants (tr_packet_type p)),
      int_bytes (control_u8 (tr_control_type p)),
      replicate 2 0,
      int_bytes (tr_session_id p),
      int_bytes (tr_timestamp p),
      tr_payload p]"

definition track_request_valid :: "track_request \<Rightarrow> bool" where
  "track_request_valid p \<longleftrightarrow> True"

interpretation track_request_w: wire "\<lambda>p. struct_serialize (track_request_fields p)" track_request_deserialize
    "\<lambda>p. struct_sized (track_request_fields p)" "\<lambda>p. concat (track_request_encs p)" track_request_valid
  by (rule struct_wire)
    (simp_all add: track_request_fields_def track_request_encs_def track_request_valid_def track_request_deserialize_def packet)

subsection \<open>\<open>DataPacket\<close>\<close>

record data_packet =
  da_version :: version
  da_opts :: options
  da_packet_type :: packet_type
  da_batch_id :: batch_id
  da_fec_info :: fec_info
  da_session_id :: session_id
  da_timestamp :: timestamp
  da_byte_range_start :: byte_position
  da_payload :: bytes

definition data_packet_fields :: "data_packet \<Rightarrow> field list" where
  "data_packet_fields p =
     [f_int ''version'' (da_version p),
      f_int ''opts'' (da_opts p),
      f_enum ''packet_type'' packet_type_variants (da_packet_type p),
      f_int ''batch_id'' (da_batch_id p),
      f_fec ''fec_info'' (da_fec_info p),
      f_int ''session_id'' (da_session_id p),
      f_int ''timestamp'' (da_timestamp p),
      f_int ''byte_range_start'' (da_byte_range_start p),
      f_vec ''payload'' (da_payload p)]"

definition data_packet_deserialize :: "bytes \<Rightarrow> data_packet ures" where
  "data_packet_deserialize bs =
     de_int bs 0 (\<lambda>v0 off.
     de_int bs off (\<lambda>v1 off.
     (de_enum packet_type_variants) bs off (\<lambda>v2 off.
     de_int bs off (\<lambda>v3 off.
     de_fec bs off (\<lambda>v4 off.
     de_int bs off (\<lambda>v5 off.
     de_int bs off (\<lambda>v6 off.
     de_int bs off (\<lambda>v7 off.
     de_vec bs off (\<lambda>v8 off.
       Ok \<lparr>da_version = v0, da_opts = v1, da_packet_type = v2, da_batch_id = v3,
           da_fec_info = v4, da_session_id = v5, da_timestamp = v6, da_byte_range_start = v7,
           da_payload = v8\<rparr>)))))))))"

definition data_packet_encs :: "data_packet \<Rightarrow> bytes list" where
  "data_packet_encs p =
     [int_bytes (da_version p),
      int_bytes (da_opts p),
      int_bytes (as_u8 packet_type_variants (da_packet_type p)),
      int_bytes (da_batch_id p),
      fec_info_bytes (da_fec_info p),
      int_bytes (da_session_id p),
      int_bytes (da_timestamp p),
      int_bytes (da_byte_range_start p),
      da_payload p]"

definition data_packet_valid :: "data_packet \<Rightarrow> bool" where
  "data_packet_valid p \<longleftrightarrow> True"

interpretation data_packet_w: wire "\<lambda>p. struct_serialize (data_packet_fields p)" data_packet_deserialize
    "\<lambda>p. struct_sized (data_packet_fields p)" "\<lambda>p. concat (data_packet_encs p)" data_packet_valid
  by (rule struct_wire)
    (simp_all add: data_packet_fields_def data_packet_encs_def data_packet_valid_def data_packet_deserialize_def packet)

subsection \<open>\<open>MetadataPacket\<close>\<close>

record metadata_packet =
  me_version :: version
  me_opts :: options
  me_packet_type :: packet_type
  me_batch_id :: batch_id
  me_fec_info :: fec_info
  me_session_id :: session_id
  me_timestamp :: timestamp
  me_buffer_id :: buffer_id
  me_buffer_size :: buffer_size
  me_position :: byte_position
  me_payload :: bytes

definition metadata_packet_fields :: "metadata_packet \<Rightarrow> field list" where
  "metadata_packet_fields p =
     [f_int ''version'' (me_version p),
      f_int ''opts'' (me_opts p),
      f_enum ''packet_type'' packet_type_variants (me_packet_type p),
      f_int ''batch_id'' (me_batch_id p),
      f_fec ''fec_info'' (me_fec_info p),
      f_int ''session_id'' (me_session_id p),
      f_int ''timestamp'' (me_timestamp p),
      f_int ''buffer_id'' (me_buffer_id p),
      f_int ''buffer_size'' (me_buffer_size p),
      f_int ''position'' (me_position p),
      f_vec ''payload'' (me_payload p)]"

definition metadata_packet_deserialize :: "bytes \<Rightarrow> metadata_packet ures" where
  "metadata_packet_deserialize bs =
     de_int bs 0 (\<lambda>v0 off.
     de_int bs off (\<lambda>v1 off.
     (de_enum packet_type_variants) bs off (\<lambda>v2 off.
     de_int bs off (\<lambda>v3 off.
     de_fec bs off (\<lambda>v4 off.
     de_int bs off (\<lambda>v5 off.
     de_int bs off (\<lambda>v6 off.
     de_int bs off (\<lambda>v7 off.
     de_int bs off (\<lambda>v8 off.
     de_int bs off (\<lambda>v9 off.
     de_vec bs off (\<lambda>v10 off.
       Ok \<lparr>me_version = v0, me_opts = v1, me_packet_type = v2, me_batch_id = v3,
           me_fec_info = v4, me_session_id = v5, me_timestamp = v6, me_buffer_id = v7,
           me_buffer_size = v8, me_position = v9, me_payload = v10\<rparr>)))))))))))"

definition metadata_packet_encs :: "metadata_packet \<Rightarrow> bytes list" where
  "metadata_packet_encs p =
     [int_bytes (me_version p),
      int_bytes (me_opts p),
      int_bytes (as_u8 packet_type_variants (me_packet_type p)),
      int_bytes (me_batch_id p),
      fec_info_bytes (me_fec_info p),
      int_bytes (me_session_id p),
      int_bytes (me_timestamp p),
      int_bytes (me_buffer_id p),
      int_bytes (me_buffer_size p),
      int_bytes (me_position p),
      me_payload p]"

definition metadata_packet_valid :: "metadata_packet \<Rightarrow> bool" where
  "metadata_packet_valid p \<longleftrightarrow> True"

interpretation metadata_packet_w: wire "\<lambda>p. struct_serialize (metadata_packet_fields p)" metadata_packet_deserialize
    "\<lambda>p. struct_sized (metadata_packet_fields p)" "\<lambda>p. concat (metadata_packet_encs p)" metadata_packet_valid
  by (rule struct_wire)
    (simp_all add: metadata_packet_fields_def metadata_packet_encs_def metadata_packet_valid_def metadata_packet_deserialize_def packet)

subsection \<open>\<open>ParityPacket\<close>\<close>

record parity_packet =
  pa_version :: version
  pa_opts :: options
  pa_packet_type :: packet_type
  pa_batch_id :: batch_id
  pa_fec_info :: fec_info
  pa_session_id :: session_id
  pa_timestamp :: timestamp
  pa_payload :: bytes

definition parity_packet_fields :: "parity_packet \<Rightarrow> field list" where
  "parity_packet_fields p =
     [f_int ''version'' (pa_version p),
      f_int ''opts'' (pa_opts p),
      f_enum ''packet_type'' packet_type_variants (pa_packet_type p),
      f_int ''batch_id'' (pa_batch_id p),
      f_fec ''fec_info'' (pa_fec_info p),
      f_int ''session_id'' (pa_session_id p),
      f_int ''timestamp'' (pa_timestamp p),
      f_vec ''payload'' (pa_payload p)]"

definition parity_packet_deserialize :: "bytes \<Rightarrow> parity_packet ures" where
  "parity_packet_deserialize bs =
     de_int bs 0 (\<lambda>v0 off.
     de_int bs off (\<lambda>v1 off.
     (de_enum packet_type_variants) bs off (\<lambda>v2 off.
     de_int bs off (\<lambda>v3 off.
     de_fec bs off (\<lambda>v4 off.
     de_int bs off (\<lambda>v5 off.
     de_int bs off (\<lambda>v6 off.
     de_vec bs off (\<lambda>v7 off.
       Ok \<lparr>pa_version = v0, pa_opts = v1, pa_packet_type = v2, pa_batch_id = v3,
           pa_fec_info = v4, pa_session_id = v5, pa_timestamp = v6, pa_payload = v7\<rparr>))))))))"

definition parity_packet_encs :: "parity_packet \<Rightarrow> bytes list" where
  "parity_packet_encs p =
     [int_bytes (pa_version p),
      int_bytes (pa_opts p),
      int_bytes (as_u8 packet_type_variants (pa_packet_type p)),
      int_bytes (pa_batch_id p),
      fec_info_bytes (pa_fec_info p),
      int_bytes (pa_session_id p),
      int_bytes (pa_timestamp p),
      pa_payload p]"

definition parity_packet_valid :: "parity_packet \<Rightarrow> bool" where
  "parity_packet_valid p \<longleftrightarrow> True"

interpretation parity_packet_w: wire "\<lambda>p. struct_serialize (parity_packet_fields p)" parity_packet_deserialize
    "\<lambda>p. struct_sized (parity_packet_fields p)" "\<lambda>p. concat (parity_packet_encs p)" parity_packet_valid
  by (rule struct_wire)
    (simp_all add: parity_packet_fields_def parity_packet_encs_def parity_packet_valid_def parity_packet_deserialize_def packet)

subsection \<open>\<open>PlaybackControlPacket\<close>\<close>

record playback_control =
  pc_version :: version
  pc_opts :: options
  pc_packet_type :: packet_type
  pc_control_type :: playback_control_type
  pc_session_id :: session_id
  pc_timestamp :: timestamp
  pc_seek_position :: byte_position

definition playback_control_fields :: "playback_control \<Rightarrow> field list" where
  "playback_control_fields p =
     [f_int ''version'' (pc_version p),
      f_int ''opts'' (pc_opts p),
      f_enum ''packet_type'' packet_type_variants (pc_packet_type p),
      f_enum ''control_type'' playback_variants (pc_control_type p),
      f_reserved ''reserved'' 2,
      f_int ''session_id'' (pc_session_id p),
      f_int ''timestamp'' (pc_timestamp p),
      f_int ''seek_position'' (pc_seek_position p)]"

definition playback_control_deserialize :: "bytes \<Rightarrow> playback_control ures" where
  "playback_control_deserialize bs =
     de_int bs 0 (\<lambda>v0 off.
     de_int bs off (\<lambda>v1 off.
     (de_enum packet_type_variants) bs off (\<lambda>v2 off.
     (de_enum playback_variants) bs off (\<lambda>v3 off.
     (de_reserved 2) bs off (\<lambda>_ off.
     de_int bs off (\<lambda>v5 off.
     de_int bs off (\<lambda>v6 off.
     de_int bs off (\<lambda>v7 off.
       Ok \<lparr>pc_version = v0, pc_opts = v1, pc_packet_type = v2, pc_control_type = v3,
           pc_session_id = v5, pc_timestamp = v6, pc_seek_position = v7\<rparr>))))))))"

definition playback_control_encs :: "playback_control \<Rightarrow> bytes list" where
  "playback_control_encs p =
     [int_bytes (pc_version p),
      int_bytes (pc_opts p),
      int_bytes (as_u8 packet_type_variants (pc_packet_type p)),
      int_bytes (as_u8 playback_variants (pc_control_type p)),
      replicate 2 0,
      int_bytes (pc_session_id p),
      int_bytes (pc_timestamp p),
      int_bytes (pc_seek_position p)]"

definition playback_control_valid :: "playback_control \<Rightarrow> bool" where
  "playback_control_valid p \<longleftrightarrow> True"

interpretation playback_control_w: wire "\<lambda>p. struct_serialize (playback_control_fields p)" playback_control_deserialize
    "\<lambda>p. struct_sized (playback_control_fields p)" "\<lambda>p. concat (playback_control_encs p)" playback_control_valid
  by (rule struct_wire)
    (simp_all add: playback_control_fields_def playback_control_encs_def playback_control_valid_def playback_control_deserialize_def packet)

subsection \<open>\<open>AckPacket\<close>\<close>

record ack_packet =
  ak_version :: version
  ak_opts :: options
  ak_packet_type :: packet_type
  ak_session_id :: session_id
  ak_timestamp :: timestamp
  ak_fingerprint :: fingerprint

definition ack_packet_fields :: "ack_packet \<Rightarrow> field list" where
  "ack_packet_fields p =
     [f_int ''version'' (ak_version p),
      f_int ''opts'' (ak_opts p),
      f_enum ''packet_type'' packet_type_variants (ak_packet_type p),
      f_reserved ''reserved'' 3,
      f_int ''session_id'' (ak_session_id p),
      f_int ''timestamp'' (ak_timestamp p),
      f_arr ''fingerprint'' 16 (ak_fingerprint p)]"

definition ack_packet_deserialize :: "bytes \<Rightarrow> ack_packet ures" where
  "ack_packet_deserialize bs =
     de_int bs 0 (\<lambda>v0 off.
     de_int bs off (\<lambda>v1 off.
     (de_enum packet_type_variants) bs off (\<lambda>v2 off.
     (de_reserved 3) bs off (\<lambda>_ off.
     de_int bs off (\<lambda>v4 off.
     de_int bs off (\<lambda>v5 off.
     (de_arr 16) bs off (\<lambda>v6 off.
       Ok \<lparr>ak_version = v0, ak_opts = v1, ak_packet_type = v2, ak_session_id = v4,
           ak_timestamp = v5, ak_fingerprint = v6\<rparr>)))))))"

definition ack_packet_encs :: "ack_packet \<Rightarrow> bytes list" where
  "ack_packet_encs p =
     [int_bytes (ak_version p),
      int_bytes (ak_opts p),
      int_bytes (as_u8 packet_type_variants (ak_packet_type p)),
      replicate 3 0,
      int_bytes (ak_session_id p),
      int_bytes (ak_timestamp p),
      ak_fingerprint p]"

definition ack_packet_valid :: "ack_packet \<Rightarrow> bool" where
  "ack_packet_valid p \<longleftrightarrow> length (ak_fingerprint p) = 16"

interpretation ack_packet_w: wire "\<lambda>p. struct_serialize (ack_packet_fields p)" ack_packet_deserialize
    "\<lambda>p. struct_sized (ack_packet_fields p)" "\<lambda>p. concat (ack_packet_encs p)" ack_packet_valid
  by (rule struct_wire)
    (simp_all add: ack_packet_fields_def ack_packet_encs_def ack_packet_valid_def ack_packet_deserialize_def packet)

subsection \<open>\<open>KeepAlivePacket\<close>\<close>

record keep_alive =
  ka_version :: version
  ka_opts :: options
  ka_packet_type :: packet_type
  ka_session_id :: session_id
  ka_timestamp :: timestamp
  ka_address :: "address option"

definition keep_alive_fields :: "keep_alive \<Rightarrow> field list" where
  "keep_alive_fields p =
     [f_int ''version'' (ka_version p),
      f_int ''opts'' (ka_opts p),
      f_enum ''packet_type'' packet_type_variants (ka_packet_type p),
      f_reserved ''reserved'' 3,
      f_int ''session_id'' (ka_session_id p),
      f_int ''timestamp'' (ka_timestamp p),
      f_address ''address'' (ka_address p)]"

definition keep_alive_deserialize :: "bytes \<Rightarrow> keep_alive ures" where
  "keep_alive_deserialize bs =
     de_int bs 0 (\<lambda>v0 off.
     de_int bs off (\<lambda>v1 off.
     (de_enum packet_type_variants) bs off (\<lambda>v2 off.
     (de_reserved 3) bs off (\<lambda>_ off.
     de_int bs off (\<lambda>v4 off.
     de_int bs off (\<lambda>v5 off.
     de_address bs off (\<lambda>v6 off.
       Ok \<lparr>ka_version = v0, ka_opts = v1, ka_packet_type = v2, ka_session_id = v4,
           ka_timestamp = v5, ka_address = v6\<rparr>)))))))"

definition keep_alive_encs :: "keep_alive \<Rightarrow> bytes list" where
  "keep_alive_encs p =
     [int_bytes (ka_version p),
      int_bytes (ka_opts p),
      int_bytes (as_u8 packet_type_variants (ka_packet_type p)),
      replicate 3 0,
      int_bytes (ka_session_id p),
      int_bytes (ka_timestamp p),
      []]"

definition keep_alive_valid :: "keep_alive \<Rightarrow> bool" where
  "keep_alive_valid p \<longleftrightarrow> ka_address p = None"

interpretation keep_alive_w: wire "\<lambda>p. struct_serialize (keep_alive_fields p)" keep_alive_deserialize
    "\<lambda>p. struct_sized (keep_alive_fields p)" "\<lambda>p. concat (keep_alive_encs p)" keep_alive_valid
  by (rule struct_wire)
    (simp_all add: keep_alive_fields_def keep_alive_encs_def keep_alive_valid_def keep_alive_deserialize_def packet)

subsection \<open>\<open>HandshakeAckPacket\<close>\<close>

record handshake_ack =
  ha_version :: version
  ha_opts :: options
  ha_packet_type :: packet_type
  ha_session_id :: session_id
  ha_timestamp :: timestamp
  ha_handshake_id :: handshake_id

definition handshake_ack_fields :: "handshake_ack \<Rightarrow> field list" where
  "handshake_ack_fields p =
     [f_int ''version'' (ha_version p),
      f_int ''opts'' (ha_opts p),
      f_enum ''packet_type'' packet_type_variants (ha_packet_type p),
      f_reserved ''reserved'' 3,
      f_int ''session_id'' (ha_session_id p),
      f_int ''timestamp'' (ha_timestamp p),
      f_int ''handshake_id'' (ha_handshake_id p)]"

definition handshake_ack_deserialize :: "bytes \<Rightarrow> handshake_ack ures" where
  "handshake_ack_deserialize bs =
     de_int bs 0 (\<lambda>v0 off.
     de_int bs off (\<lambda>v1 off.
     (de_enum packet_type_variants) bs off (\<lambda>v2 off.
     (de_reserved 3) bs off (\<lambda>_ off.
     de_int bs off (\<lambda>v4 off.
     de_int bs off (\<lambda>v5 off.
     de_int bs off (\<lambda>v6 off.
       Ok \<lparr>ha_version = v0, ha_opts = v1, ha_packet_type = v2, ha_session_id = v4,
           ha_timestamp = v5, ha_handshake_id = v6\<rparr>)))))))"

definition handshake_ack_encs :: "handshake_ack \<Rightarrow> bytes list" where
  "handshake_ack_encs p =
     [int_bytes (ha_version p),
      int_bytes (ha_opts p),
      int_bytes (as_u8 packet_type_variants (ha_packet_type p)),
      replicate 3 0,
      int_bytes (ha_session_id p),
      int_bytes (ha_timestamp p),
      int_bytes (ha_handshake_id p)]"

definition handshake_ack_valid :: "handshake_ack \<Rightarrow> bool" where
  "handshake_ack_valid p \<longleftrightarrow> True"

interpretation handshake_ack_w: wire "\<lambda>p. struct_serialize (handshake_ack_fields p)" handshake_ack_deserialize
    "\<lambda>p. struct_sized (handshake_ack_fields p)" "\<lambda>p. concat (handshake_ack_encs p)" handshake_ack_valid
  by (rule struct_wire)
    (simp_all add: handshake_ack_fields_def handshake_ack_encs_def handshake_ack_valid_def handshake_ack_deserialize_def packet)

subsection \<open>\<open>RetransmitPacket\<close>\<close>

record retransmit =
  re_version :: version
  re_opts :: options
  re_packet_type :: packet_type
  re_control_type :: control_type
  re_buffer_id :: "buffer_id option"
  re_session_id :: session_id
  re_timestamp :: timestamp
  re_payload :: "byte_range list"

definition retransmit_fields :: "retransmit \<Rightarrow> field list" where
  "retransmit_fields p =
     [f_int ''version'' (re_version p),
      f_int ''opts'' (re_opts p),
      f_enum ''packet_type'' packet_type_variants (re_packet_type p),
      f_control ''control_type'' (re_control_type p),
      f_opt_buffer_id ''buffer_id'' (re_buffer_id p),
      f_int ''session_id'' (re_session_id p),
      f_int ''timestamp'' (re_timestamp p),
      f_ranges ''payload'' (re_payload p)]"

definition retransmit_deserialize :: "bytes \<Rightarrow> retransmit ures" where
  "retransmit_deserialize bs =
     de_int bs 0 (\<lambda>v0 off.
     de_int bs off (\<lambda>v1 off.
     (de_enum packet_type_variants) bs off (\<lambda>v2 off.
     de_control bs off (\<lambda>v3 off.
     de_opt_buffer_id bs off (\<lambda>v4 off.
     de_int bs off (\<lambda>v5 off.
     de_int bs off (\<lambda>v6 off.
     de_ranges bs off (\<lambda>v7 off.
       Ok \<lparr>re_version = v0, re_opts = v1, re_packet_type = v2, re_control_type = v3,
           re_buffer_id = v4, re_session_id = v5, re_timestamp = v6, re_payload = v7\<rparr>))))))))"

definition retransmit_encs :: "retransmit \<Rightarrow> bytes list" where
  "retransmit_encs p =
     [int_bytes (re_version p),
      int_bytes (re_opts p),
      int_bytes (as_u8 packet_type_variants (re_packet_type p)),
      int_bytes (control_u8 (re_control_type p)),
      int_bytes (opt_buffer_id_rep (re_buffer_id p)),
      int_bytes (re_session_id p),
      int_bytes (re_timestamp p),
      ranges_bytes (re_payload p)]"

definition retransmit_valid :: "retransmit \<Rightarrow> bool" where
  "retransmit_valid p \<longleftrightarrow> re_buffer_id p \<noteq> Some 0 \<and> re_payload p \<noteq> []"

interpretation retransmit_w: wire "\<lambda>p. struct_serialize (retransmit_fields p)" retransmit_deserialize
    "\<lambda>p. struct_sized (retransmit_fields p)" "\<lambda>p. concat (retransmit_encs p)" retransmit_valid
  by (rule struct_wire)
    (simp_all add: retransmit_fields_def retransmit_encs_def retransmit_valid_def retransmit_deserialize_def packet)

subsection \<open>\<open>CloseSessionPacket\<close>\<close>

record close_session =
  cs_version :: version
  cs_opts :: options
  cs_packet_type :: packet_type
  cs_control_type :: control_type
  cs_session_id :: session_id
  cs_timestamp :: timestamp

definition close_session_fields :: "close_session \<Rightarrow> field list" where
  "close_session_fields p =
     [f_int ''version'' (cs_version p),
      f_int ''opts'' (cs_opts p),
      f_enum ''packet_type'' packet_type_variants (cs_packet_type p),
      f_control ''control_type'' (cs_control_type p),
      f_reserved ''reserved'' 2,
      f_int ''session_id'' (cs_session_id p),
      f_int ''timestamp'' (cs_timestamp p)]"

definition close_session_deserialize :: "bytes \<Rightarrow> close_session ures" where
  "close_session_deserialize bs =
     de_int bs 0 (\<lambda>v0 off.
     de_int bs off (\<lambda>v1 off.
     (de_enum packet_type_variants) bs off (\<lambda>v2 off.
     de_control bs off (\<lambda>v3 off.
     (de_reserved 2) bs off (\<lambda>_ off.
     de_int bs off (\<lambda>v5 off.
     de_int bs off (\<lambda>v6 off.
       Ok \<lparr>cs_version = v0, cs_opts = v1, cs_packet_type = v2, cs_control_type = v3,
           cs_session_id = v5, cs_timestamp = v6\<rparr>)))))))"

definition close_session_encs :: "close_session \<Rightarrow> bytes list" where
  "close_session_encs p =
     [int_bytes (cs_version p),
      int_bytes (cs_opts p),
      int_bytes (as_u8 packet_type_variants (cs_packet_type p)),
      int_bytes (control_u8 (cs_control_type p)),
      replicate 2 0,
      int_bytes (cs_session_id p),
      int_bytes (cs_timestamp p)]"

definition close_session_valid :: "close_session \<Rightarrow> bool" where
  "close_session_valid p \<longleftrightarrow> True"

interpretation close_session_w: wire "\<lambda>p. struct_serialize (close_session_fields p)" close_session_deserialize
    "\<lambda>p. struct_sized (close_session_fields p)" "\<lambda>p. concat (close_session_encs p)" close_session_valid
  by (rule struct_wire)
    (simp_all add: close_session_fields_def close_session_encs_def close_session_valid_def close_session_deserialize_def packet)

subsection \<open>\<open>HandshakeRejection\<close>\<close>

record handshake_rejection =
  hr_version :: version
  hr_opts :: options
  hr_packet_type :: packet_type
  hr_control_type :: control_type
  hr_session_id :: session_id
  hr_timestamp :: timestamp
  hr_handshake_id :: handshake_id
  hr_reason :: rejection_reason

definition handshake_rejection_fields :: "handshake_rejection \<Rightarrow> field list" where
  "handshake_rejection_fields p =
     [f_int ''version'' (hr_version p),
      f_int ''opts'' (hr_opts p),
      f_enum ''packet_type'' packet_type_variants (hr_packet_type p),
      f_control ''control_type'' (hr_control_type p),
      f_reserved ''reserved'' 2,
      f_int ''session_id'' (hr_session_id p),
      f_int ''timestamp'' (hr_timestamp p),
      f_int ''handshake_id'' (hr_handshake_id p),
      f_enum ''reason'' rejection_variants (hr_reason p)]"

definition handshake_rejection_deserialize :: "bytes \<Rightarrow> handshake_rejection ures" where
  "handshake_rejection_deserialize bs =
     de_int bs 0 (\<lambda>v0 off.
     de_int bs off (\<lambda>v1 off.
     (de_enum packet_type_variants) bs off (\<lambda>v2 off.
     de_control bs off (\<lambda>v3 off.
     (de_reserved 2) bs off (\<lambda>_ off.
     de_int bs off (\<lambda>v5 off.
     de_int bs off (\<lambda>v6 off.
     de_int bs off (\<lambda>v7 off.
     (de_enum rejection_variants) bs off (\<lambda>v8 off.
       Ok \<lparr>hr_version = v0, hr_opts = v1, hr_packet_type = v2, hr_control_type = v3,
           hr_session_id = v5, hr_timestamp = v6, hr_handshake_id = v7, hr_reason = v8\<rparr>)))))))))"

definition handshake_rejection_encs :: "handshake_rejection \<Rightarrow> bytes list" where
  "handshake_rejection_encs p =
     [int_bytes (hr_version p),
      int_bytes (hr_opts p),
      int_bytes (as_u8 packet_type_variants (hr_packet_type p)),
      int_bytes (control_u8 (hr_control_type p)),
      replicate 2 0,
      int_bytes (hr_session_id p),
      int_bytes (hr_timestamp p),
      int_bytes (hr_handshake_id p),
      int_bytes (as_u8 rejection_variants (hr_reason p))]"

definition handshake_rejection_valid :: "handshake_rejection \<Rightarrow> bool" where
  "handshake_rejection_valid p \<longleftrightarrow> True"

interpretation handshake_rejection_w: wire "\<lambda>p. struct_serialize (handshake_rejection_fields p)" handshake_rejection_deserialize
    "\<lambda>p. struct_sized (handshake_rejection_fields p)" "\<lambda>p. concat (handshake_rejection_encs p)" handshake_rejection_valid
  by (rule struct_wire)
    (simp_all add: handshake_rejection_fields_def handshake_rejection_encs_def handshake_rejection_valid_def handshake_rejection_deserialize_def packet)

subsection \<open>\<open>SessionDoesNotExistErrorPacket\<close>\<close>

record session_does_not_exist =
  sd_version :: version
  sd_opts :: options
  sd_packet_type :: packet_type
  sd_error_type :: error_type
  sd_session_id :: session_id
  sd_timestamp :: timestamp

definition session_does_not_exist_fields :: "session_does_not_exist \<Rightarrow> field list" where
  "session_does_not_exist_fields p =
     [f_int ''version'' (sd_version p),
      f_int ''opts'' (sd_opts p),
      f_enum ''packet_type'' packet_type_variants (sd_packet_type p),
      f_enum ''error_type'' error_type_variants (sd_error_type p),
      f_reserved ''reserved'' 2,
      f_int ''session_id'' (sd_session_id p),
      f_int ''timestamp'' (sd_timestamp p)]"

definition session_does_not_exist_deserialize :: "bytes \<Rightarrow> session_does_not_exist ures" where
  "session_does_not_exist_deserialize bs =
     de_int bs 0 (\<lambda>v0 off.
     de_int bs off (\<lambda>v1 off.
     (de_enum packet_type_variants) bs off (\<lambda>v2 off.
     (de_enum error_type_variants) bs off (\<lambda>v3 off.
     (de_reserved 2) bs off (\<lambda>_ off.
     de_int bs off (\<lambda>v5 off.
     de_int bs off (\<lambda>v6 off.
       Ok \<lparr>sd_version = v0, sd_opts = v1, sd_packet_type = v2, sd_error_type = v3,
           sd_session_id = v5, sd_timestamp = v6\<rparr>)))))))"

definition session_does_not_exist_encs :: "session_does_not_exist \<Rightarrow> bytes list" where
  "session_does_not_exist_encs p =
     [int_bytes (sd_version p),
      int_bytes (sd_opts p),
      int_bytes (as_u8 packet_type_variants (sd_packet_type p)),
      int_bytes (as_u8 error_type_variants (sd_error_type p)),
      replicate 2 0,
      int_bytes (sd_session_id p),
      int_bytes (sd_timestamp p)]"

definition session_does_not_exist_valid :: "session_does_not_exist \<Rightarrow> bool" where
  "session_does_not_exist_valid p \<longleftrightarrow> sd_error_type p \<noteq> SessionDoesNotExist"

interpretation session_does_not_exist_w: wire "\<lambda>p. struct_serialize (session_does_not_exist_fields p)" session_does_not_exist_deserialize
    "\<lambda>p. struct_sized (session_does_not_exist_fields p)" "\<lambda>p. concat (session_does_not_exist_encs p)" session_does_not_exist_valid
  by (rule struct_wire)
    (simp_all add: session_does_not_exist_fields_def session_does_not_exist_encs_def session_does_not_exist_valid_def session_does_not_exist_deserialize_def packet)

subsection \<open>\<open>UnexpectedPacketErrorPacket\<close>\<close>

record unexpected_packet =
  up_version :: version
  up_opts :: options
  up_packet_type :: packet_type
  up_error_type :: error_type
  up_session_id :: session_id
  up_timestamp :: timestamp
  up_received_packet_type :: packet_type
  up_received_secondary_type :: secondary_type
  up_received_fingerprint :: fingerprint

definition unexpected_packet_fields :: "unexpected_packet \<Rightarrow> field list" where
  "unexpected_packet_fields p =
     [f_int ''version'' (up_version p),
      f_int ''opts'' (up_opts p),
      f_enum ''packet_type'' packet_type_variants (up_packet_type p),
      f_enum ''error_type'' error_type_variants (up_error_type p),
      f_reserved ''reserved'' 2,
      f_int ''session_id'' (up_session_id p),
      f_int ''timestamp'' (up_timestamp p),
      f_enum ''received_packet_type'' packet_type_variants (up_received_packet_type p),
      f_int ''received_secondary_type'' (up_received_secondary_type p),
      f_arr ''received_fingerprint'' 16 (up_received_fingerprint p)]"

definition unexpected_packet_deserialize :: "bytes \<Rightarrow> unexpected_packet ures" where
  "unexpected_packet_deserialize bs =
     de_int bs 0 (\<lambda>v0 off.
     de_int bs off (\<lambda>v1 off.
     (de_enum packet_type_variants) bs off (\<lambda>v2 off.
     (de_enum error_type_variants) bs off (\<lambda>v3 off.
     (de_reserved 2) bs off (\<lambda>_ off.
     de_int bs off (\<lambda>v5 off.
     de_int bs off (\<lambda>v6 off.
     (de_enum packet_type_variants) bs off (\<lambda>v7 off.
     de_int bs off (\<lambda>v8 off.
     (de_arr 16) bs off (\<lambda>v9 off.
       Ok \<lparr>up_version = v0, up_opts = v1, up_packet_type = v2, up_error_type = v3,
           up_session_id = v5, up_timestamp = v6, up_received_packet_type = v7, up_received_secondary_type = v8,
           up_received_fingerprint = v9\<rparr>))))))))))"

definition unexpected_packet_encs :: "unexpected_packet \<Rightarrow> bytes list" where
  "unexpected_packet_encs p =
     [int_bytes (up_version p),
      int_bytes (up_opts p),
      int_bytes (as_u8 packet_type_variants (up_packet_type p)),
      int_bytes (as_u8 error_type_variants (up_error_type p)),
      replicate 2 0,
      int_bytes (up_session_id p),
      int_bytes (up_timestamp p),
      int_bytes (as_u8 packet_type_variants (up_received_packet_type p)),
      int_bytes (up_received_secondary_type p),
      up_received_fingerprint p]"

definition unexpected_packet_valid :: "unexpected_packet \<Rightarrow> bool" where
  "unexpected_packet_valid p \<longleftrightarrow> up_error_type p \<noteq> SessionDoesNotExist \<and> length (up_received_fingerprint p) = 16"

interpretation unexpected_packet_w: wire "\<lambda>p. struct_serialize (unexpected_packet_fields p)" unexpected_packet_deserialize
    "\<lambda>p. struct_sized (unexpected_packet_fields p)" "\<lambda>p. concat (unexpected_packet_encs p)" unexpected_packet_valid
  by (rule struct_wire)
    (simp_all add: unexpected_packet_fields_def unexpected_packet_encs_def unexpected_packet_valid_def unexpected_packet_deserialize_def packet)

subsection \<open>\<open>TrackRejectionPacket\<close>\<close>

record track_rejection =
  tj_version :: version
  tj_opts :: options
  tj_packet_type :: packet_type
  tj_control_type :: control_type
  tj_session_id :: session_id
  tj_timestamp :: timestamp
  tj_payload :: bytes

definition track_rejection_fields :: "track_rejection \<Rightarrow> field list" where
  "track_rejection_fields p =
     [f_int ''version'' (tj_version p),
      f_int ''opts'' (tj_opts p),
      f_enum ''packet_type'' packet_type_variants (tj_packet_type p),
      f_control ''control_type'' (tj_control_type p),
      f_reserved ''reserved'' 2,
      f_int ''session_id'' (tj_session_id p),
      f_int ''timestamp'' (tj_timestamp p),
      f_vec ''payload'' (tj_payload p)]"

definition track_rejection_deserialize :: "bytes \<Rightarrow> track_rejection ures" where
  "track_rejection_deserialize bs =
     de_int bs 0 (\<lambda>v0 off.
     de_int bs off (\<lambda>v1 off.
     (de_enum packet_type_variants) bs off (\<lambda>v2 off.
     de_control bs off (\<lambda>v3 off.
     (de_reserved 2) bs off (\<lambda>_ off.
     de_int bs off (\<lambda>v5 off.
     de_int bs off (\<lambda>v6 off.
     de_vec bs off (\<lambda>v7 off.
       Ok \<lparr>tj_version = v0, tj_opts = v1, tj_packet_type = v2, tj_control_type = v3,
           tj_session_id = v5, tj_timestamp = v6, tj_payload = v7\<rparr>))))))))"

definition track_rejection_encs :: "track_rejection \<Rightarrow> bytes list" where
  "track_rejection_encs p =
     [int_bytes (tj_version p),
      int_bytes (tj_opts p),
      int_bytes (as_u8 packet_type_variants (tj_packet_type p)),
      int_bytes (control_u8 (tj_control_type p)),
      replicate 2 0,
      int_bytes (tj_session_id p),
      int_bytes (tj_timestamp p),
      tj_payload p]"

definition track_rejection_valid :: "track_rejection \<Rightarrow> bool" where
  "track_rejection_valid p \<longleftrightarrow> True"

interpretation track_rejection_w: wire "\<lambda>p. struct_serialize (track_rejection_fields p)" track_rejection_deserialize
    "\<lambda>p. struct_sized (track_rejection_fields p)" "\<lambda>p. concat (track_rejection_encs p)" track_rejection_valid
  by (rule struct_wire)
    (simp_all add: track_rejection_fields_def track_rejection_encs_def track_rejection_valid_def track_rejection_deserialize_def packet)

subsection \<open>\<open>IncompatibleVersionPacket\<close>\<close>

record incompatible_version =
  iv_zero_version :: version
  iv_min_version :: version

definition incompatible_version_fields :: "incompatible_version \<Rightarrow> field list" where
  "incompatible_version_fields p =
     [f_int ''zero_version'' (iv_zero_version p),
      f_int ''min_version'' (iv_min_version p)]"

definition incompatible_version_deserialize :: "bytes \<Rightarrow> incompatible_version ures" where
  "incompatible_version_deserialize bs =
     de_int bs 0 (\<lambda>v0 off.
     de_int bs off (\<lambda>v1 off.
       Ok \<lparr>iv_zero_version = v0, iv_min_version = v1\<rparr>))"

definition incompatible_version_encs :: "incompatible_version \<Rightarrow> bytes list" where
  "incompatible_version_encs p =
     [int_bytes (iv_zero_version p),
      int_bytes (iv_min_version p)]"

definition incompatible_version_valid :: "incompatible_version \<Rightarrow> bool" where
  "incompatible_version_valid p \<longleftrightarrow> True"

interpretation incompatible_version_w: wire "\<lambda>p. struct_serialize (incompatible_version_fields p)" incompatible_version_deserialize
    "\<lambda>p. struct_sized (incompatible_version_fields p)" "\<lambda>p. concat (incompatible_version_encs p)" incompatible_version_valid
  by (rule struct_wire)
    (simp_all add: incompatible_version_fields_def incompatible_version_encs_def incompatible_version_valid_def incompatible_version_deserialize_def packet)

end
