(* ===== verification/Packet_Ops.thy ===== *)
theory Packet_Ops imports Packets begin

text \<open>
  The constructors of the packet structs and the operations of the \<open>Packet\<close> enum
  (\<open>src/src/manager/packets.rs\<close>, lines 20 to 182, and the \<open>impl\<close> block of each struct):
  \<open>session_id\<close>, \<open>mark_resend\<close>, \<open>wrap\<close> and the fingerprint of a packet.

  A constructor takes the current time, which the code reads from \<open>Timestamp::now()\<close>, as
  \<open>now\<close>, and the build profile as \<open>dbg\<close>; its outcome is \<open>Panic\<close> where a
  \<open>debug_assert!\<close> of a debug build fails. The hash \<open>xxh3_128\<close> (a third-party crate) is the
  parameter \<open>xxh\<close>, with its 16 big-endian bytes as result.
\<close>

section \<open>Constructors\<close>

definition assert_opts_valid :: "bool \<Rightarrow> options \<Rightarrow> 'a \<Rightarrow> (unit, 'a) res" where
  "assert_opts_valid dbg opts x = debug_assert dbg (opt_valid opts) x"

lemma opt_construct_Nil [simp]: "opt_construct [] = opt_none"
  by (simp add: flags_construct_def flags_none_def)

lemma opt_valid_none [simp]: "opt_valid opt_none"
  by (simp add: flags_valid_def flags_none_def)

lemma opt_valid_ack [simp]: "opt_valid (opt_set opt_none RequireAck)"
  by (simp add: flags_valid_def flags_set_def flags_none_def flag_bit_def OPTION_FLAGS_def
      flags_construct_def)

definition hello_new ::
  "bool \<Rightarrow> timestamp \<Rightarrow> options \<Rightarrow> session_id \<Rightarrow> handshake_id \<Rightarrow> bytes \<Rightarrow> bytes \<Rightarrow> hello ures" where
  "hello_new dbg now opts proposed hs_id public_key app_id =
     assert_opts_valid dbg opts
       \<lparr>he_version = CURRENT_VERSION, he_opts = opts, he_packet_type = PT_Host,
        he_control_type = Host Host_Hello, he_proposed_session_id = proposed,
        he_handshake_id = hs_id, he_timestamp = now, he_public_key = public_key,
        he_app_id = app_id\<rparr>"

definition request_track ::
  "bool \<Rightarrow> timestamp \<Rightarrow> options \<Rightarrow> session_id \<Rightarrow> bytes \<Rightarrow> track_request ures" where
  "request_track dbg now opts sid payload =
     (let opts = opt_set opts RequireAck in
      assert_opts_valid dbg opts
        \<lparr>tr_version = CURRENT_VERSION, tr_opts = opts, tr_packet_type = PT_Session,
         tr_control_type = Session Sess_TrackRequest, tr_session_id = sid,
         tr_timestamp = now, tr_payload = payload\<rparr>)"

definition request_metadata ::
  "bool \<Rightarrow> timestamp \<Rightarrow> options \<Rightarrow> session_id \<Rightarrow> bytes \<Rightarrow> track_request ures" where
  "request_metadata dbg now opts sid payload =
     and_then (payload_new dbg payload) (\<lambda>payload.
     and_then (debug_assert dbg (length payload < MAX_PAYLOAD_LENGTH) ()) (\<lambda>_.
       let opts = opt_set opts RequireAck in
       assert_opts_valid dbg opts
         \<lparr>tr_version = CURRENT_VERSION, tr_opts = opts, tr_packet_type = PT_Session,
          tr_control_type = Session Sess_MetadataRequest, tr_session_id = sid,
          tr_timestamp = now, tr_payload = payload\<rparr>))"

definition data_packet_new ::
  "bool \<Rightarrow> timestamp \<Rightarrow> options \<Rightarrow> batch_id \<Rightarrow> fec_info \<Rightarrow> session_id \<Rightarrow> byte_position \<Rightarrow> bytes
     \<Rightarrow> data_packet ures" where
  "data_packet_new dbg now opts batch fec sid pos payload =
     and_then (assert_opts_valid dbg opts ()) (\<lambda>_.
     map_res (\<lambda>payload.
       \<lparr>da_version = CURRENT_VERSION, da_opts = opts, da_packet_type = PT_Data,
        da_batch_id = batch, da_fec_info = fec, da_session_id = sid, da_timestamp = now,
        da_byte_range_start = pos, da_payload = payload\<rparr>)
       (payload_new dbg payload))"

definition metadata_packet_new ::
  "bool \<Rightarrow> timestamp \<Rightarrow> options \<Rightarrow> batch_id \<Rightarrow> fec_info \<Rightarrow> session_id \<Rightarrow> buffer_id \<Rightarrow> buffer_size
     \<Rightarrow> byte_position \<Rightarrow> bytes \<Rightarrow> metadata_packet ures" where
  "metadata_packet_new dbg now opts batch fec sid bid bsize pos payload =
     and_then (debug_assert dbg (pos < bsize) ()) (\<lambda>_.
     and_then (assert_opts_valid dbg opts ()) (\<lambda>_.
     map_res (\<lambda>payload.
       \<lparr>me_version = CURRENT_VERSION, me_opts = opts, me_packet_type = PT_Metadata,
        me_batch_id = batch, me_fec_info = fec, me_session_id = sid, me_timestamp = now,
        me_buffer_id = bid, me_buffer_size = bsize, me_position = pos, me_payload = payload\<rparr>)
       (payload_new dbg payload)))"

definition parity_packet_new ::
  "bool \<Rightarrow> timestamp \<Rightarrow> options \<Rightarrow> batch_id \<Rightarrow> fec_info \<Rightarrow> session_id \<Rightarrow> bytes \<Rightarrow> parity_packet ures" where
  "parity_packet_new dbg now opts batch fec sid payload =
     and_then (assert_opts_valid dbg opts ()) (\<lambda>_.
     map_res (\<lambda>payload.
       \<lparr>pa_version = CURRENT_VERSION, pa_opts = opts, pa_packet_type = PT_Parity,
        pa_batch_id = batch, pa_fec_info = fec, pa_session_id = sid, pa_timestamp = now,
        pa_payload = payload\<rparr>)
       (parity_payload_new dbg payload))"

definition playback_new ::
  "bool \<Rightarrow> timestamp \<Rightarrow> options \<Rightarrow> session_id \<Rightarrow> playback_control_type \<Rightarrow> byte_position option
     \<Rightarrow> playback_control ures" where
  "playback_new dbg now opts sid ctype seek_pos =
     (let opts = opt_set opts RequireAck in
      assert_opts_valid dbg opts
        \<lparr>pc_version = CURRENT_VERSION, pc_opts = opts, pc_packet_type = PT_Playback,
         pc_control_type = ctype, pc_session_id = sid, pc_timestamp = now,
         pc_seek_position = (case seek_pos of Some p \<Rightarrow> p | None \<Rightarrow> 0)\<rparr>)"

definition playback_close :: "bool \<Rightarrow> timestamp \<Rightarrow> options \<Rightarrow> session_id \<Rightarrow> playback_control ures" where
  "playback_close dbg now opts sid = playback_new dbg now opts sid Play_Close None"

definition playback_done :: "bool \<Rightarrow> timestamp \<Rightarrow> options \<Rightarrow> session_id \<Rightarrow> playback_control ures" where
  "playback_done dbg now opts sid = playback_new dbg now opts sid Play_Done None"

definition ack_new :: "bool \<Rightarrow> timestamp \<Rightarrow> options \<Rightarrow> session_id \<Rightarrow> fingerprint \<Rightarrow> ack_packet ures" where
  "ack_new dbg now opts sid fp =
     and_then (debug_assert dbg (\<not> opt_contains opts RequireAck) ()) (\<lambda>_.
     assert_opts_valid dbg opts
       \<lparr>ak_version = CURRENT_VERSION, ak_opts = opts, ak_packet_type = PT_Ack,
        ak_session_id = sid, ak_timestamp = now, ak_fingerprint = fp\<rparr>)"

definition keep_alive_new :: "timestamp \<Rightarrow> options \<Rightarrow> session_id \<Rightarrow> keep_alive" where
  "keep_alive_new now opts sid =
     \<lparr>ka_version = CURRENT_VERSION, ka_opts = opt_unset opts RequireAck,
      ka_packet_type = PT_KeepAlive, ka_session_id = sid, ka_timestamp = now, ka_address = None\<rparr>"

definition handshake_ack_new :: "timestamp \<Rightarrow> session_id \<Rightarrow> handshake_id \<Rightarrow> handshake_ack" where
  "handshake_ack_new now sid hs_id =
     \<lparr>ha_version = CURRENT_VERSION, ha_opts = opt_none, ha_packet_type = PT_HandshakeAck,
      ha_session_id = sid, ha_timestamp = now, ha_handshake_id = hs_id\<rparr>"

definition RETRANSMIT_MAX_PAYLOAD_LENGTH :: nat where
  "RETRANSMIT_MAX_PAYLOAD_LENGTH = MAX_PAYLOAD_LENGTH - MAX_PAYLOAD_LENGTH mod 6"

definition retransmit_data ::
  "bool \<Rightarrow> timestamp \<Rightarrow> options \<Rightarrow> session_id \<Rightarrow> byte_range list \<Rightarrow> retransmit ures" where
  "retransmit_data dbg now opts sid payload =
     and_then (debug_assert dbg
        (length payload \<le> RETRANSMIT_MAX_PAYLOAD_LENGTH div byte_range_elem_size) ()) (\<lambda>_.
     let opts = opt_set opts RequireAck in
     assert_opts_valid dbg opts
       \<lparr>re_version = CURRENT_VERSION, re_opts = opts, re_packet_type = PT_Session,
        re_control_type = Session Sess_Retransmit, re_buffer_id = None, re_session_id = sid,
        re_timestamp = now, re_payload = payload\<rparr>)"

definition retransmit_metadata ::
  "bool \<Rightarrow> timestamp \<Rightarrow> options \<Rightarrow> session_id \<Rightarrow> buffer_id \<Rightarrow> byte_range list \<Rightarrow> retransmit ures" where
  "retransmit_metadata dbg now opts sid bid payload =
     and_then (debug_assert dbg
        (length payload \<le> RETRANSMIT_MAX_PAYLOAD_LENGTH div byte_range_elem_size) ()) (\<lambda>_.
     let opts = opt_set opts RequireAck in
     let opts = opt_set opts Metadata in
     assert_opts_valid dbg opts
       \<lparr>re_version = CURRENT_VERSION, re_opts = opts, re_packet_type = PT_Session,
        re_control_type = Session Sess_Retransmit, re_buffer_id = Some bid, re_session_id = sid,
        re_timestamp = now, re_payload = payload\<rparr>)"

definition close_session_new :: "timestamp \<Rightarrow> options \<Rightarrow> session_id \<Rightarrow> close_session" where
  "close_session_new now opts sid =
     \<lparr>cs_version = CURRENT_VERSION, cs_opts = opt_set opts RequireAck,
      cs_packet_type = PT_Session, cs_control_type = Session Sess_Close, cs_session_id = sid,
      cs_timestamp = now\<rparr>"

definition handshake_rejection_new ::
  "timestamp \<Rightarrow> options \<Rightarrow> session_id \<Rightarrow> rejection_reason \<Rightarrow> handshake_id \<Rightarrow> handshake_rejection" where
  "handshake_rejection_new now opts sid reason hs_id =
     \<lparr>hr_version = CURRENT_VERSION, hr_opts = opt_unset opts RequireAck,
      hr_packet_type = PT_Host, hr_control_type = Host Host_HandshakeReject, hr_session_id = sid,
      hr_timestamp = now, hr_handshake_id = hs_id, hr_reason = reason\<rparr>"

definition session_does_not_exist_new ::
  "bool \<Rightarrow> timestamp \<Rightarrow> options \<Rightarrow> session_id \<Rightarrow> session_does_not_exist ures" where
  "session_does_not_exist_new dbg now opts sid =
     assert_opts_valid dbg opts
       \<lparr>sd_version = CURRENT_VERSION, sd_opts = opts, sd_packet_type = PT_Error,
        sd_error_type = SessionDoesNotExist, sd_session_id = sid, sd_timestamp = now\<rparr>"

definition unexpected_packet_new ::
  "bool \<Rightarrow> timestamp \<Rightarrow> options \<Rightarrow> session_id \<Rightarrow> packet_type \<Rightarrow> secondary_type \<Rightarrow> fingerprint
     \<Rightarrow> unexpected_packet ures" where
  "unexpected_packet_new dbg now opts sid ptype st fp =
     and_then (debug_assert dbg (valid_secondary_type st) ()) (\<lambda>_.
     assert_opts_valid dbg opts
       \<lparr>up_version = CURRENT_VERSION, up_opts = opts, up_packet_type = PT_Error,
        up_error_type = UnexpectedPacket, up_session_id = sid, up_timestamp = now,
        up_received_packet_type = ptype, up_received_secondary_type = st,
        up_received_fingerprint = fp\<rparr>)"

definition track_rejection_new ::
  "bool \<Rightarrow> timestamp \<Rightarrow> options \<Rightarrow> session_id \<Rightarrow> bytes \<Rightarrow> track_rejection ures" where
  "track_rejection_new dbg now opts sid track_id =
     and_then (assert_opts_valid dbg opts ()) (\<lambda>_.
     map_res (\<lambda>payload.
       \<lparr>tj_version = CURRENT_VERSION, tj_opts = opt_set opts RequireAck,
        tj_packet_type = PT_Session, tj_control_type = Session Sess_TrackReject,
        tj_session_id = sid, tj_timestamp = now, tj_payload = payload\<rparr>)
       (payload_new dbg track_id))"

definition incompatible_version_packet :: incompatible_version where
  "incompatible_version_packet =
     \<lparr>iv_zero_version = version_new 0 0 0, iv_min_version = MIN_COMPATIBLE_VERSION\<rparr>"

section \<open>The packet enum\<close>

datatype packet =
    HelloPacket hello
  | TrackRequestPacket track_request
  | DataPacket data_packet
  | MetadataPacket metadata_packet
  | ParityPacket parity_packet
  | AckPacket ack_packet
  | KeepAlivePacket keep_alive
  | HandshakeAckPacket handshake_ack
  | RetransmitPacket retransmit
  | PlaybackControlPacket playback_control
  | IncompatibleVersionPacket incompatible_version
  | SessionDoesNotExistErrorPacket session_does_not_exist
  | UnexpectedPacketErrorPacket unexpected_packet
  | TrackRejectionPacket track_rejection
  | CloseSessionPacket close_session
  | HandshakeRejection handshake_rejection

record packet_wrapper =
  pw_addr :: address
  pw_packet :: packet

definition wrap :: "packet \<Rightarrow> address \<Rightarrow> packet_wrapper" where
  "wrap p a = \<lparr>pw_addr = a, pw_packet = p\<rparr>"

fun packet_session_id :: "bool \<Rightarrow> packet \<Rightarrow> (unit, session_id option) res" where
  "packet_session_id dbg (HelloPacket p) = Ok (Some (he_proposed_session_id p))"
| "packet_session_id dbg (TrackRequestPacket p) = Ok (Some (tr_session_id p))"
| "packet_session_id dbg (DataPacket p) = Ok (Some (da_session_id p))"
| "packet_session_id dbg (MetadataPacket p) = Ok (Some (me_session_id p))"
| "packet_session_id dbg (ParityPacket p) = Ok (Some (pa_session_id p))"
| "packet_session_id dbg (AckPacket p) = Ok (Some (ak_session_id p))"
| "packet_session_id dbg (RetransmitPacket p) = Ok (Some (re_session_id p))"
| "packet_session_id dbg (PlaybackControlPacket p) = Ok (Some (pc_session_id p))"
| "packet_session_id dbg (SessionDoesNotExistErrorPacket p) = Ok (Some (sd_session_id p))"
| "packet_session_id dbg (UnexpectedPacketErrorPacket p) = Ok (Some (up_session_id p))"
| "packet_session_id dbg (TrackRejectionPacket p) = Ok (Some (tj_session_id p))"
| "packet_session_id dbg (CloseSessionPacket p) = Ok (Some (cs_session_id p))"
| "packet_session_id dbg (HandshakeRejection p) = Ok (Some (hr_session_id p))"
| "packet_session_id dbg (KeepAlivePacket p) = Ok (Some (ka_session_id p))"
| "packet_session_id dbg (IncompatibleVersionPacket p) = debug_assert dbg False None"
| "packet_session_id dbg (HandshakeAckPacket p) = debug_assert dbg False None"

fun mark_resend :: "packet \<Rightarrow> packet" where
  "mark_resend (HelloPacket p) = HelloPacket (p\<lparr>he_opts := opt_set (he_opts p) Resend\<rparr>)"
| "mark_resend (TrackRequestPacket p) = TrackRequestPacket (p\<lparr>tr_opts := opt_set (tr_opts p) Resend\<rparr>)"
| "mark_resend (DataPacket p) = DataPacket (p\<lparr>da_opts := opt_set (da_opts p) Resend\<rparr>)"
| "mark_resend (MetadataPacket p) = MetadataPacket (p\<lparr>me_opts := opt_set (me_opts p) Resend\<rparr>)"
| "mark_resend (ParityPacket p) = ParityPacket (p\<lparr>pa_opts := opt_set (pa_opts p) Resend\<rparr>)"
| "mark_resend (AckPacket p) = AckPacket (p\<lparr>ak_opts := opt_set (ak_opts p) Resend\<rparr>)"
| "mark_resend (KeepAlivePacket p) = KeepAlivePacket (p\<lparr>ka_opts := opt_set (ka_opts p) Resend\<rparr>)"
| "mark_resend (HandshakeAckPacket p) = HandshakeAckPacket (p\<lparr>ha_opts := opt_set (ha_opts p) Resend\<rparr>)"
| "mark_resend (RetransmitPacket p) = RetransmitPacket (p\<lparr>re_opts := opt_set (re_opts p) Resend\<rparr>)"
| "mark_resend (PlaybackControlPacket p) = PlaybackControlPacket (p\<lparr>pc_opts := opt_set (pc_opts p) Resend\<rparr>)"
| "mark_resend (SessionDoesNotExistErrorPacket p) =
     SessionDoesNotExistErrorPacket (p\<lparr>sd_opts := opt_set (sd_opts p) Resend\<rparr>)"
| "mark_resend (UnexpectedPacketErrorPacket p) =
     UnexpectedPacketErrorPacket (p\<lparr>up_opts := opt_set (up_opts p) Resend\<rparr>)"
| "mark_resend (TrackRejectionPacket p) = TrackRejectionPacket (p\<lparr>tj_opts := opt_set (tj_opts p) Resend\<rparr>)"
| "mark_resend (CloseSessionPacket p) = CloseSessionPacket (p\<lparr>cs_opts := opt_set (cs_opts p) Resend\<rparr>)"
| "mark_resend (HandshakeRejection p) = HandshakeRejection (p\<lparr>hr_opts := opt_set (hr_opts p) Resend\<rparr>)"
| "mark_resend (IncompatibleVersionPacket p) = IncompatibleVersionPacket p"

text \<open>The options of a packet; \<open>IncompatibleVersionPacket\<close> is the only one without.\<close>

fun packet_opts :: "packet \<Rightarrow> options option" where
  "packet_opts (HelloPacket p) = Some (he_opts p)"
| "packet_opts (TrackRequestPacket p) = Some (tr_opts p)"
| "packet_opts (DataPacket p) = Some (da_opts p)"
| "packet_opts (MetadataPacket p) = Some (me_opts p)"
| "packet_opts (ParityPacket p) = Some (pa_opts p)"
| "packet_opts (AckPacket p) = Some (ak_opts p)"
| "packet_opts (KeepAlivePacket p) = Some (ka_opts p)"
| "packet_opts (HandshakeAckPacket p) = Some (ha_opts p)"
| "packet_opts (RetransmitPacket p) = Some (re_opts p)"
| "packet_opts (PlaybackControlPacket p) = Some (pc_opts p)"
| "packet_opts (IncompatibleVersionPacket p) = None"
| "packet_opts (SessionDoesNotExistErrorPacket p) = Some (sd_opts p)"
| "packet_opts (UnexpectedPacketErrorPacket p) = Some (up_opts p)"
| "packet_opts (TrackRejectionPacket p) = Some (tj_opts p)"
| "packet_opts (CloseSessionPacket p) = Some (cs_opts p)"
| "packet_opts (HandshakeRejection p) = Some (hr_opts p)"

section \<open>Fingerprints\<close>

text \<open>
  \<open>impl<T: Headers> Fingerprint for T\<close>, \<open>impl Fingerprint for Vec<u8>\<close> and
  \<open>TryFrom<&Packet> for PacketFingerprint\<close>.
\<close>

definition fingerprint_headers :: "(bytes \<Rightarrow> fingerprint) \<Rightarrow> field list \<Rightarrow> fingerprint ures" where
  "fingerprint_headers xxh fs = map_res xxh (headers fs)"

definition fingerprint_bytes :: "(bytes \<Rightarrow> fingerprint) \<Rightarrow> bytes \<Rightarrow> fingerprint" where
  "fingerprint_bytes xxh v = xxh v"

fun packet_fingerprint :: "(bytes \<Rightarrow> fingerprint) \<Rightarrow> packet \<Rightarrow> fingerprint ures" where
  "packet_fingerprint xxh (HelloPacket p) = fingerprint_headers xxh (hello_fields p)"
| "packet_fingerprint xxh (TrackRequestPacket p) = fingerprint_headers xxh (track_request_fields p)"
| "packet_fingerprint xxh (DataPacket p) = fingerprint_headers xxh (data_packet_fields p)"
| "packet_fingerprint xxh (MetadataPacket p) = fingerprint_headers xxh (metadata_packet_fields p)"
| "packet_fingerprint xxh (ParityPacket p) = fingerprint_headers xxh (parity_packet_fields p)"
| "packet_fingerprint xxh (RetransmitPacket p) = fingerprint_headers xxh (retransmit_fields p)"
| "packet_fingerprint xxh (PlaybackControlPacket p) = fingerprint_headers xxh (playback_control_fields p)"
| "packet_fingerprint xxh (UnexpectedPacketErrorPacket p) = fingerprint_headers xxh (unexpected_packet_fields p)"
| "packet_fingerprint xxh (TrackRejectionPacket p) = fingerprint_headers xxh (track_rejection_fields p)"
| "packet_fingerprint xxh (CloseSessionPacket p) = fingerprint_headers xxh (close_session_fields p)"
| "packet_fingerprint xxh (AckPacket p) = Err ()"
| "packet_fingerprint xxh (IncompatibleVersionPacket p) = Err ()"
| "packet_fingerprint xxh (KeepAlivePacket p) = Err ()"
| "packet_fingerprint xxh (SessionDoesNotExistErrorPacket p) = Err ()"
| "packet_fingerprint xxh (HandshakeAckPacket p) = Err ()"
| "packet_fingerprint xxh (HandshakeRejection p) = Err ()"

end
