(* ===== verification/Fec.thy ===== *)
theory Fec imports Packet_Ops "HOL-Library.Multiset" begin

text \<open>
  Forward error correction: the packet-to-block conversions of
  \<open>src/src/packet_processor/fec/mod.rs\<close>, the XOR strategy of
  \<open>src/src/packet_processor/fec/xor.rs\<close> and the batch sizes of
  \<open>src/src/packet_processor/fec/inference.rs\<close>.

  A block (\<open>FECData\<close>) is a byte list of length \<open>FEC_DATA_SIZE\<close>. The payload of a data
  packet is copied into its block inside a \<open>debug_assert!\<close>, so the conversion takes the
  build profile. The maps of the \<open>Xor\<close> struct are tables, an operation of it one step:
  the code holds the lock of a batch while it works on it.

  The locale \<open>xor_space\<close> states the algebra recovery rests on; blocks are its instance.
\<close>

section \<open>Time\<close>

text \<open>\<open>Timestamp::been_longer_than\<close>, with the current time as parameter.\<close>

definition been_longer_than :: "timestamp \<Rightarrow> timestamp \<Rightarrow> u64 \<Rightarrow> bool" where
  "been_longer_than now ts millis \<longleftrightarrow> now - ts > millis"

definition PACKET_DISCARD_TIME_MS :: u64 where
  "PACKET_DISCARD_TIME_MS = 500"

section \<open>Blocks\<close>

definition FEC_DATA_SIZE :: nat where
  "FEC_DATA_SIZE = PARITY_MAX_PAYLOAD_LENGTH"

definition fec_data_zero :: bytes where
  "fec_data_zero = replicate FEC_DATA_SIZE 0"

text \<open>\<open>From<&DataPacket> for FECData\<close>.\<close>

definition fec_data_of :: "bool \<Rightarrow> data_packet \<Rightarrow> bytes ures" where
  "fec_data_of dbg p =
     (let buf = fec_data_zero;
          buf = (case int_serialize (da_byte_range_start p) buf of Ok b \<Rightarrow> b | _ \<Rightarrow> buf)
      in and_then
           (if dbg then
              (case vec_serialize (da_payload p) (drop 4 buf) of
                 Ok b \<Rightarrow> Ok (take 4 buf @ b)
               | _ \<Rightarrow> Panic)
            else Ok buf)
           (\<lambda>buf.
              (case int_serialize (word_of_nat (length (da_payload p)) :: u16)
                      (drop (FEC_DATA_SIZE - 2) buf) of
                 Ok b \<Rightarrow> Ok (take (FEC_DATA_SIZE - 2) buf @ b)
               | _ \<Rightarrow> Ok buf)))"

text \<open>A recovered packet: the position and the payload.\<close>

record recovered_packet =
  rp_byte_range_start :: byte_position
  rp_payload :: bytes

definition recovered_of :: "bytes \<Rightarrow> recovered_packet ures" where
  "recovered_of buf =
     (case (int_deserialize (take 4 buf), int_deserialize (drop (length buf - 2) buf)) of
        (Ok pos, Ok (n :: u16)) \<Rightarrow>
          Ok \<lparr>rp_byte_range_start = pos,
              rp_payload = take (unat n) (take (length buf - 2 - 4) (drop 4 buf))\<rparr>
      | _ \<Rightarrow> Panic)"

text \<open>The XOR of two blocks.\<close>

definition data_xor :: "bytes \<Rightarrow> bytes \<Rightarrow> bytes" where
  "data_xor a b = map2 (XOR) a b"

record fec_packet =
  fp_is_parity :: bool
  fp_session_id :: session_id
  fp_batch_id :: batch_id
  fp_fec_info :: fec_info
  fp_data :: bytes

definition fec_of_data :: "bool \<Rightarrow> data_packet \<Rightarrow> fec_packet ures" where
  "fec_of_data dbg p =
     map_res (\<lambda>d. \<lparr>fp_is_parity = False, fp_session_id = da_session_id p,
                  fp_batch_id = da_batch_id p, fp_fec_info = da_fec_info p, fp_data = d\<rparr>)
       (fec_data_of dbg p)"

definition fec_of_parity :: "parity_packet \<Rightarrow> fec_packet" where
  "fec_of_parity p =
     \<lparr>fp_is_parity = True, fp_session_id = pa_session_id p, fp_batch_id = pa_batch_id p,
      fp_fec_info = pa_fec_info p,
      fp_data = (case vec_serialize (pa_payload p) fec_data_zero of Ok b \<Rightarrow> b | _ \<Rightarrow> fec_data_zero)\<rparr>"

section \<open>Inbound batches\<close>

record inbound_batch =
  ib_product :: bytes
  ib_parity :: "bytes option"
  ib_batch_size :: u8
  ib_data_received :: u8
  ib_mask :: "u128 list"
  ib_created_at :: timestamp
  ib_base :: "byte_position option"
  ib_contiguous :: bool

definition inbound_new :: "timestamp \<Rightarrow> u8 \<Rightarrow> inbound_batch" where
  "inbound_new now bsize =
     \<lparr>ib_product = fec_data_zero, ib_parity = None, ib_batch_size = bsize, ib_data_received = 0,
      ib_mask = [0, 0], ib_created_at = now, ib_base = None, ib_contiguous = True\<rparr>"

text \<open>\<open>(batch_mask[pos / 128] >> (pos % 128)) & 1 == 0\<close>.\<close>

definition mask_clear :: "u128 list \<Rightarrow> u8 \<Rightarrow> bool" where
  "mask_clear m pos \<longleftrightarrow> drop_bit (unat (pos mod 128)) (m ! unat (pos div 128)) AND 1 = 0"

definition mask_set :: "u128 list \<Rightarrow> u8 \<Rightarrow> u128 list" where
  "mask_set m pos =
     m[unat (pos div 128) := (m ! unat (pos div 128)) OR push_bit (unat (pos mod 128)) 1]"

definition derived_base :: "byte_position \<Rightarrow> u32 \<Rightarrow> byte_position" where
  "derived_base pos idx = saturating_sub pos (idx * word_of_nat MAX_PAYLOAD_LENGTH)"

definition inbound_add :: "fec_packet \<Rightarrow> inbound_batch \<Rightarrow> bool \<times> inbound_batch" where
  "inbound_add p b =
     (let pos = batch_pos (fp_fec_info p) in
      if ib_data_received b < ib_batch_size b \<and> mask_clear (ib_mask b) pos
      then let pkt_pos = (case int_deserialize (take 4 (fp_data p)) of Ok w \<Rightarrow> w | _ \<Rightarrow> 0);
               base = derived_base pkt_pos (ucast pos);
               b = (case ib_base b of
                      None \<Rightarrow> b\<lparr>ib_base := Some base\<rparr>
                    | Some existing \<Rightarrow>
                        if existing \<noteq> base then b\<lparr>ib_contiguous := False\<rparr> else b)
           in (True, b\<lparr>ib_mask := mask_set (ib_mask b) pos,
                       ib_product := data_xor (ib_product b) (fp_data p),
                       ib_data_received := ib_data_received b + 1\<rparr>)
      else (False, b))"

definition inbound_parity :: "bytes \<Rightarrow> inbound_batch \<Rightarrow> bool \<times> inbound_batch" where
  "inbound_parity d b =
     (if ib_parity b \<noteq> None then (False, b) else (True, b\<lparr>ib_parity := Some d\<rparr>))"

definition inbound_missing :: "inbound_batch \<Rightarrow> byte_position list" where
  "inbound_missing b =
     (case ib_base b of
        None \<Rightarrow> []
      | Some base \<Rightarrow>
          if \<not> ib_contiguous b then []
          else map (\<lambda>i. base + ucast i * word_of_nat MAX_PAYLOAD_LENGTH)
                 (filter (mask_clear (ib_mask b)) (map word_of_nat [0..<unat (ib_batch_size b)])))"

definition inbound_recover :: "inbound_batch \<Rightarrow> bytes option" where
  "inbound_recover b =
     (if ib_data_received b = ib_batch_size b - 1
      then map_option (data_xor (ib_product b)) (ib_parity b)
      else None)"

section \<open>Outbound batches\<close>

record outbound_batch =
  ob_product :: bytes
  ob_batch_size :: nat
  ob_current_size :: nat

definition outbound_new :: "u8 \<Rightarrow> outbound_batch" where
  "outbound_new bsize = \<lparr>ob_product = fec_data_zero, ob_batch_size = unat bsize, ob_current_size = 0\<rparr>"

definition outbound_add :: "bytes \<Rightarrow> outbound_batch \<Rightarrow> bool \<times> outbound_batch" where
  "outbound_add d b =
     (let b = b\<lparr>ob_product := data_xor (ob_product b) d, ob_current_size := ob_current_size b + 1\<rparr>
      in (ob_batch_size b = ob_current_size b, b))"

section \<open>The XOR strategy\<close>

type_synonym map_key = "batch_id \<times> session_id"

record xor_state =
  xs_inbound :: "(map_key, inbound_batch) table"
  xs_outbound :: "(map_key, outbound_batch) table"

definition xor_new :: xor_state where
  "xor_new = \<lparr>xs_inbound = [], xs_outbound = []\<rparr>"

definition fec_key :: "fec_packet \<Rightarrow> map_key" where
  "fec_key p = (fp_batch_id p, fp_session_id p)"

definition xor_sent ::
  "bool \<Rightarrow> timestamp \<Rightarrow> fec_packet \<Rightarrow> xor_state \<Rightarrow> parity_packet list option ures \<times> xor_state" where
  "xor_sent dbg now p st =
     (let entry = (case hm_get (xs_outbound st) (fec_key p) of
                     Some e \<Rightarrow> e | None \<Rightarrow> outbound_new (batch_size (fp_fec_info p)));
          (batch_ready, entry) = outbound_add (fp_data p) entry
      in if batch_ready
         then (and_then (fec_info_new dbg (batch_size (fp_fec_info p)) 0 1) (\<lambda>info.
               map_res (\<lambda>pp. Some [pp])
                 (parity_packet_new dbg now (opt_construct []) (fp_batch_id p) info
                    (fp_session_id p) (ob_product entry))),
               st\<lparr>xs_outbound := hm_remove (fec_key p) (xs_outbound st)\<rparr>)
         else (Ok None, st\<lparr>xs_outbound := hm_insert (fec_key p) entry (xs_outbound st)\<rparr>))"

definition xor_received ::
  "bool \<Rightarrow> timestamp \<Rightarrow> fec_packet \<Rightarrow> xor_state \<Rightarrow> (unit, bool) res \<times> xor_state" where
  "xor_received dbg now p st =
     (let entry = (case hm_get (xs_inbound st) (fec_key p) of
                     Some e \<Rightarrow> e | None \<Rightarrow> inbound_new now (batch_size (fp_fec_info p)));
          entry = (if fp_is_parity p then snd (inbound_parity (fp_data p) entry)
                   else snd (inbound_add p entry))
      in (if dbg \<and> ib_batch_size entry = 0 then Panic
          else Ok (ib_data_received entry = ib_batch_size entry - 1 \<and> ib_parity entry \<noteq> None),
          st\<lparr>xs_inbound := hm_insert (fec_key p) entry (xs_inbound st)\<rparr>))"

definition xor_recover ::
  "bool \<Rightarrow> batch_id \<Rightarrow> session_id \<Rightarrow> xor_state \<Rightarrow> recovered_packet list option ures \<times> xor_state" where
  "xor_recover dbg bid sid st =
     (case hm_get (xs_inbound st) (bid, sid) of
        None \<Rightarrow> (Ok None, st)
      | Some entry \<Rightarrow>
          (if dbg \<and> ib_batch_size entry = 0 then Panic
           else case inbound_recover entry of
                  None \<Rightarrow> Ok None
                | Some d \<Rightarrow> map_res (\<lambda>r. Some [r]) (recovered_of d),
           st\<lparr>xs_inbound := hm_remove (bid, sid) (xs_inbound st)\<rparr>))"

definition xor_prune ::
  "timestamp \<Rightarrow> u64 \<Rightarrow> xor_state \<Rightarrow> (session_id \<times> batch_id \<times> byte_position list) list \<times> xor_state" where
  "xor_prune now ttl st =
     (let expired = filter (\<lambda>(k, b). been_longer_than now (ib_created_at b) ttl) (xs_inbound st)
      in (map (\<lambda>(k, b). (snd k, fst k, inbound_missing b)) expired,
          st\<lparr>xs_inbound := fold (\<lambda>(k, b). hm_remove k) expired (xs_inbound st)\<rparr>))"

section \<open>Batch inference\<close>

definition PACKET_COUNT_PER_BATCH :: nat where
  "PACKET_COUNT_PER_BATCH = 28"

record batch_info =
  bi_batch_size :: u8
  bi_recovery_count :: u8

definition create_batch :: "nat \<Rightarrow> batch_info" where
  "create_batch packets_left =
     \<lparr>bi_batch_size = word_of_nat (min packets_left PACKET_COUNT_PER_BATCH), bi_recovery_count = 1\<rparr>"

section \<open>The algebra of blocks\<close>

locale xor_space =
  fixes add :: "'a \<Rightarrow> 'a \<Rightarrow> 'a"
    and zero :: 'a
    and block :: "'a \<Rightarrow> bool"
  assumes zero_block: "block zero"
    and add_block: "\<lbrakk> block a; block b \<rbrakk> \<Longrightarrow> block (add a b)"
    and add_assoc: "\<lbrakk> block a; block b; block c \<rbrakk> \<Longrightarrow> add (add a b) c = add a (add b c)"
    and add_comm: "\<lbrakk> block a; block b \<rbrakk> \<Longrightarrow> add a b = add b a"
    and add_zero: "block a \<Longrightarrow> add zero a = a"
    and add_self: "block a \<Longrightarrow> add a a = zero"
begin

lemma foldl_block: "\<lbrakk> block a; \<forall>b \<in> set bs. block b \<rbrakk> \<Longrightarrow> block (foldl add a bs)"
  by (induction bs arbitrary: a) (auto intro: add_block)

lemma foldl_add: "\<lbrakk> block a; \<forall>b \<in> set bs. block b \<rbrakk> \<Longrightarrow> foldl add a bs = add a (foldl add zero bs)"
proof (induction bs arbitrary: a)
  case Nil
  then show ?case using add_comm add_zero zero_block by simp
next
  case (Cons b bs)
  have bs: "block b" "block (foldl add zero bs)" using Cons.prems zero_block by (auto intro: foldl_block)
  have "foldl add (add a b) bs = add (add a b) (foldl add zero bs)"
    using Cons by (auto intro: add_block)
  also have "\<dots> = add a (add b (foldl add zero bs))"
    using Cons.prems bs by (auto intro: add_assoc)
  also have "add b (foldl add zero bs) = foldl add (add zero b) bs"
    using Cons.IH [of b] Cons.prems by (simp add: add_zero)
  finally show ?case by simp
qed

lemma foldl_remove:
  assumes "e \<in> set bs" "\<forall>b \<in> set bs. block b"
  shows "foldl add zero bs = add e (foldl add zero (remove1 e bs))"
  using assms
proof (induction bs)
  case (Cons b bs)
  have b: "block b" "\<forall>c \<in> set bs. block c" "block e" using Cons.prems by auto
  have hd: "foldl add zero (b # bs) = add b (foldl add zero bs)"
    using b by (simp add: add_zero foldl_add [of b])
  show ?case
  proof (cases "e = b")
    case True
    then show ?thesis using hd by simp
  next
    case False
    have r: "\<forall>c \<in> set (remove1 e bs). block c" using b(2) by (auto dest: notin_set_remove1)
    then have f: "block (foldl add zero (remove1 e bs))" using zero_block by (intro foldl_block)
    have "foldl add zero bs = add e (foldl add zero (remove1 e bs))"
      using Cons False by auto
    then have "foldl add zero (b # bs) = add e (add b (foldl add zero (remove1 e bs)))"
      using hd b f by (metis add_assoc add_comm)
    also have "add b (foldl add zero (remove1 e bs)) = foldl add zero (b # remove1 e bs)"
      using b r by (simp add: add_zero foldl_add [of b])
    finally show ?thesis using False by simp
  qed
qed simp

lemma foldl_mset:
  "\<lbrakk> mset bs = mset cs; \<forall>b \<in> set bs. block b \<rbrakk> \<Longrightarrow> foldl add zero bs = foldl add zero cs"
proof (induction bs arbitrary: cs)
  case (Cons b bs)
  have mem: "b \<in> set cs" using Cons.prems(1) by (metis list.set_intros(1) set_mset_mset)
  have ms: "mset bs = mset (remove1 b cs)" using Cons.prems(1) by (metis add_mset_remove_trivial mset.simps(2) mset_remove1)
  have cs: "\<forall>c \<in> set cs. block c" using Cons.prems by (metis set_mset_mset)
  have "foldl add zero (b # bs) = add b (foldl add zero bs)"
    using Cons.prems(2) by (simp add: add_zero foldl_add [of b])
  also have "foldl add zero bs = foldl add zero (remove1 b cs)"
    using Cons.IH [OF ms] Cons.prems(2) by simp
  also have "add b \<dots> = foldl add zero cs"
    using foldl_remove [OF mem cs] by simp
  finally show ?case .
qed simp

text \<open>The sum of all blocks but one, added to the sum of all, is that one.\<close>

lemma missing_block:
  assumes "mset (e # bs) = mset cs" "\<forall>c \<in> set cs. block c"
  shows "add (foldl add zero bs) (foldl add zero cs) = e"
proof -
  have bl: "block e" "\<forall>b \<in> set bs. block b"
    using assms by (metis insert_iff list.simps(15) set_mset_mset)+
  then have s: "block (foldl add zero bs)" using zero_block by (intro foldl_block)
  have "foldl add zero cs = foldl add zero (e # bs)"
    using assms bl by (intro foldl_mset) auto
  also have "\<dots> = add e (foldl add zero bs)"
    using bl by (simp add: add_zero foldl_add [of e])
  finally show ?thesis
    using bl s by (metis add_assoc add_comm add_self add_zero)
qed

end

abbreviation is_block :: "bytes \<Rightarrow> bool" where
  "is_block b \<equiv> length b = FEC_DATA_SIZE"

lemma nth_data_xor: "\<lbrakk> i < length a; i < length b \<rbrakk> \<Longrightarrow> data_xor a b ! i = (a ! i) XOR (b ! i)"
  by (simp add: data_xor_def)

lemma length_data_xor [simp]: "length (data_xor a b) = min (length a) (length b)"
  by (simp add: data_xor_def)

interpretation blocks: xor_space data_xor fec_data_zero is_block
  by unfold_locales
    (auto simp: fec_data_zero_def nth_data_xor ac_simps intro!: nth_equalityI)

end
