(* ===== verification/Windows.thy ===== *)
theory Windows imports Fec begin

text \<open>
  The two windows the processing layer shares with the manager
  (\<open>src/src/manager/state.rs\<close>, lines 1602 to 1884): \<open>FingerprintWindow\<close>, which drops
  duplicates, and \<open>PendingAckWindow\<close>, which sends unacknowledged packets again.

  An operation takes the current time as \<open>now\<close>. One pass of a \<open>prune\<close> loop is one step,
  \<open>fw_prune\<close> and \<open>pw_prune\<close>; the sleep between passes is the time between steps. The
  address of a session, which \<open>prune\<close> looks up in the connection table, is the parameter
  \<open>addr_of\<close>.
\<close>

section \<open>FingerprintWindow\<close>

record fp_window =
  fw_fingerprints :: "fingerprint set"
  fw_queue :: "(timestamp \<times> fingerprint) list"
  fw_canceled :: bool

definition fw_default :: fp_window where
  "fw_default = \<lparr>fw_fingerprints = {}, fw_queue = [], fw_canceled = False\<rparr>"

definition fw_contains :: "fingerprint \<Rightarrow> fp_window \<Rightarrow> bool" where
  "fw_contains fp w \<longleftrightarrow> fp \<in> fw_fingerprints w"

definition fw_add :: "timestamp \<Rightarrow> fingerprint \<Rightarrow> fp_window \<Rightarrow> bool \<times> fp_window" where
  "fw_add now fp w =
     (if fp \<in> fw_fingerprints w then (False, w)
      else (True, w\<lparr>fw_fingerprints := insert fp (fw_fingerprints w),
                    fw_queue := fw_queue w @ [(now, fp)]\<rparr>))"

definition fw_expired :: "timestamp \<Rightarrow> timestamp \<times> fingerprint \<Rightarrow> bool" where
  "fw_expired now e \<longleftrightarrow> been_longer_than now (fst e) PACKET_DISCARD_TIME_MS"

definition fw_prune :: "timestamp \<Rightarrow> fp_window \<Rightarrow> fp_window" where
  "fw_prune now w =
     (if fw_canceled w then w
      else let expired = takeWhile (fw_expired now) (fw_queue w) in
           w\<lparr>fw_queue := dropWhile (fw_expired now) (fw_queue w),
             fw_fingerprints := fw_fingerprints w - snd ` set expired\<rparr>)"

text \<open>Every fingerprint of the set is in the queue once.\<close>

definition fw_inv :: "fp_window \<Rightarrow> bool" where
  "fw_inv w \<longleftrightarrow> distinct (map snd (fw_queue w)) \<and> fw_fingerprints w = snd ` set (fw_queue w)"

lemma fw_inv_default: "fw_inv fw_default"
  by (simp add: fw_inv_def fw_default_def)

lemma fw_inv_add: "fw_inv w \<Longrightarrow> fw_inv (snd (fw_add now fp w))"
  by (auto simp: fw_inv_def fw_add_def)

lemma distinct_snd_split:
  "distinct (map snd (xs @ ys)) \<Longrightarrow> snd ` set (xs @ ys) - snd ` set xs = snd ` set ys"
  by auto

lemma fw_inv_prune: "fw_inv w \<Longrightarrow> fw_inv (fw_prune now w)"
proof -
  assume w: "fw_inv w"
  let ?t = "takeWhile (fw_expired now) (fw_queue w)"
  let ?d = "dropWhile (fw_expired now) (fw_queue w)"
  have split: "fw_queue w = ?t @ ?d" by simp
  have dist: "distinct (map snd (?t @ ?d))" and set: "fw_fingerprints w = snd ` set (?t @ ?d)"
    using w unfolding fw_inv_def split [symmetric] by simp_all
  have "distinct (map snd ?d)" using dist by (simp only: map_append distinct_append)
  then show ?thesis
    using distinct_snd_split [OF dist] w set by (simp add: fw_prune_def fw_inv_def Let_def)
qed

text \<open>What a user of a duplicate filter relies on: it remembers until it forgets.\<close>

locale dedup_filter =
  fixes inv :: "'w \<Rightarrow> bool"
    and contains :: "'f \<Rightarrow> 'w \<Rightarrow> bool"
    and add :: "'t \<Rightarrow> 'f \<Rightarrow> 'w \<Rightarrow> bool \<times> 'w"
    and prune :: "'t \<Rightarrow> 'w \<Rightarrow> 'w"
    and fresh :: "'t \<Rightarrow> 'f \<Rightarrow> 'w \<Rightarrow> bool"
  assumes inv_add: "inv w \<Longrightarrow> inv (snd (add t f w))"
    and inv_prune: "inv w \<Longrightarrow> inv (prune t w)"
    and add_verdict: "fst (add t f w) \<longleftrightarrow> \<not> contains f w"
    and contains_add: "contains g (snd (add t f w)) \<longleftrightarrow> g = f \<or> contains g w"
    and prune_keeps: "\<lbrakk> inv w; contains f w; fresh t f w \<rbrakk> \<Longrightarrow> contains f (prune t w)"
    and prune_forgets: "contains f (prune t w) \<Longrightarrow> contains f w"
begin

lemma add_twice: "fst (add t' f (snd (add t f w))) = False"
  by (simp add: add_verdict contains_add)

lemma add_idempotent_verdict: "contains f w \<Longrightarrow> \<not> fst (add t f w)"
  by (simp add: add_verdict)

lemma rejected_while_fresh:
  "\<lbrakk> inv w; contains f w; fresh t f w \<rbrakk> \<Longrightarrow> \<not> fst (add t' f (prune t w))"
  by (simp add: add_verdict prune_keeps)

end

definition fw_fresh :: "timestamp \<Rightarrow> fingerprint \<Rightarrow> fp_window \<Rightarrow> bool" where
  "fw_fresh now fp w \<longleftrightarrow> (\<forall>e \<in> set (fw_queue w). snd e = fp \<longrightarrow> \<not> fw_expired now e)"

lemma fw_prune_keeps: "\<lbrakk> fw_contains fp w; fw_fresh now fp w \<rbrakk> \<Longrightarrow> fw_contains fp (fw_prune now w)"
  by (auto simp: fw_contains_def fw_prune_def fw_fresh_def Let_def dest: set_takeWhileD)

lemma fw_contains_add: "fw_contains g (snd (fw_add t f w)) \<longleftrightarrow> g = f \<or> fw_contains g w"
  by (auto simp: fw_add_def fw_contains_def split: if_splits)

lemma fw_add_verdict: "fst (fw_add t f w) \<longleftrightarrow> \<not> fw_contains f w"
  by (simp add: fw_add_def fw_contains_def)

interpretation fw: dedup_filter fw_inv fw_contains fw_add fw_prune fw_fresh
proof unfold_locales
  show "fw_contains f (fw_prune t w) \<Longrightarrow> fw_contains f w" for f t w
    by (auto simp: fw_contains_def fw_prune_def Let_def split: if_splits)
qed (simp_all add: fw_inv_add fw_inv_prune fw_prune_keeps fw_contains_add fw_add_verdict)

text \<open>Any interleaving of additions and prune passes.\<close>

datatype fw_op = FwAdd timestamp fingerprint | FwPrune timestamp

fun fw_step :: "fp_window \<Rightarrow> fw_op \<Rightarrow> fp_window" where
  "fw_step w (FwAdd t fp) = snd (fw_add t fp w)"
| "fw_step w (FwPrune t) = fw_prune t w"

fun fw_time :: "fw_op \<Rightarrow> timestamp" where
  "fw_time (FwAdd t fp) = t"
| "fw_time (FwPrune t) = t"

text \<open>\<open>t\<close> is at most 500 ms after \<open>t0\<close>.\<close>

definition within_ttl :: "timestamp \<Rightarrow> timestamp \<Rightarrow> bool" where
  "within_ttl t0 t \<longleftrightarrow> unat t0 \<le> unat t \<and> unat t \<le> unat t0 + 500"

definition held_since :: "timestamp \<Rightarrow> fingerprint \<Rightarrow> fp_window \<Rightarrow> bool" where
  "held_since t0 fp w \<longleftrightarrow> fw_contains fp w \<and> (\<forall>e \<in> set (fw_queue w). snd e = fp \<longrightarrow> fst e = t0)"

lemma within_ttl_not_longer: "within_ttl t0 t \<Longrightarrow> \<not> been_longer_than t t0 PACKET_DISCARD_TIME_MS"
  by (simp add: within_ttl_def been_longer_than_def PACKET_DISCARD_TIME_MS_def word_less_nat_alt
      unat_sub_if_size word_le_nat_alt, linarith)

lemma held_since_step: "\<lbrakk> held_since t0 fp w; within_ttl t0 (fw_time op) \<rbrakk> \<Longrightarrow> held_since t0 fp (fw_step w op)"
proof (cases op)
  case (FwAdd t f)
  then show "held_since t0 fp w \<Longrightarrow> ?thesis"
    by (auto simp: held_since_def fw_add_def fw_contains_def)
next
  case (FwPrune t)
  assume h: "held_since t0 fp w" and t: "within_ttl t0 (fw_time op)"
  have "fw_fresh t fp w"
    using h t FwPrune within_ttl_not_longer [of t0 t]
    by (auto simp: fw_fresh_def held_since_def fw_expired_def)
  then have "fw_contains fp (fw_prune t w)"
    using h by (simp add: fw_prune_keeps held_since_def)
  then show ?thesis
    using h FwPrune by (auto simp: held_since_def fw_prune_def Let_def dest: set_dropWhileD)
qed

lemma held_since_run:
  "\<lbrakk> held_since t0 fp w; \<forall>op \<in> set ops. within_ttl t0 (fw_time op) \<rbrakk> \<Longrightarrow>
   held_since t0 fp (foldl fw_step w ops)"
  by (induction ops arbitrary: w) (auto simp: held_since_step)

lemma held_since_add:
  "\<lbrakk> fw_inv w; fst (fw_add t0 fp w) \<rbrakk> \<Longrightarrow> held_since t0 fp (snd (fw_add t0 fp w))"
  by (auto simp: held_since_def fw_add_def fw_contains_def fw_inv_def split: if_splits)

section \<open>PendingAckWindow\<close>

record pending_entry =
  pe_timestamp :: timestamp
  pe_fingerprint :: fingerprint
  pe_retries :: u8

definition MAX_RETRIES :: u8 where
  "MAX_RETRIES = 5"

definition pending_entry_new :: "timestamp \<Rightarrow> fingerprint \<Rightarrow> pending_entry" where
  "pending_entry_new now fp = \<lparr>pe_timestamp = now, pe_fingerprint = fp, pe_retries = 0\<rparr>"

text \<open>\<open>retried\<close>: whether the retries are used up, and the entry.\<close>

definition pe_retried :: "pending_entry \<Rightarrow> bool \<times> pending_entry" where
  "pe_retried e =
     (let e = e\<lparr>pe_retries := pe_retries e + 1\<rparr> in (pe_retries e > MAX_RETRIES, e))"

definition pe_ready :: "timestamp \<Rightarrow> pending_entry \<Rightarrow> bool" where
  "pe_ready now e \<longleftrightarrow> been_longer_than now (pe_timestamp e) PACKET_DISCARD_TIME_MS"

record pending_window =
  pw_pending :: "(fingerprint, packet) table"
  pw_queue :: "pending_entry list"
  pw_canceled :: bool

definition pw_new :: pending_window where
  "pw_new = \<lparr>pw_pending = [], pw_queue = [], pw_canceled = False\<rparr>"

text \<open>
  \<open>add\<close> and the task \<open>inner_add\<close> it dispatches. A packet without a fingerprint is ignored
  in a release build and a panic in a debug build.
\<close>

definition pw_add ::
  "bool \<Rightarrow> (bytes \<Rightarrow> fingerprint) \<Rightarrow> timestamp \<Rightarrow> packet \<Rightarrow> pending_window \<Rightarrow> (unit, pending_window) res" where
  "pw_add dbg xxh now p w =
     (if pw_canceled w then Ok w
      else case packet_fingerprint xxh p of
             Ok fp \<Rightarrow> Ok (w\<lparr>pw_pending := hm_insert fp (mark_resend p) (pw_pending w),
                           pw_queue := pw_queue w @ [pending_entry_new now fp]\<rparr>)
           | Err _ \<Rightarrow> (if dbg then Panic else Ok w)
           | Panic \<Rightarrow> Panic)"

definition pw_acknowledge :: "fingerprint \<Rightarrow> pending_window \<Rightarrow> pending_window" where
  "pw_acknowledge fp w =
     (if pw_canceled w then w else w\<lparr>pw_pending := hm_remove fp (pw_pending w)\<rparr>)"

text \<open>The resends of one pass: the packets sent, and the entries that go back to the queue.\<close>

fun pw_resend ::
  "(session_id \<Rightarrow> address option) \<Rightarrow> (fingerprint, packet) table \<Rightarrow> pending_entry list
     \<Rightarrow> packet_wrapper list \<times> pending_entry list" where
  "pw_resend addr_of pending [] = ([], [])"
| "pw_resend addr_of pending (e # es) =
     (let (sends, back) = pw_resend addr_of pending es in
      case hm_get pending (pe_fingerprint e) of
        None \<Rightarrow> (sends, back)
      | Some p \<Rightarrow>
          (case packet_session_id False p of
             Ok (Some sid) \<Rightarrow>
               (case addr_of sid of
                  None \<Rightarrow> (sends, back)
                | Some a \<Rightarrow> (wrap p a # sends, e # back))
           | _ \<Rightarrow> ([], [])))"

text \<open>
  One pass of \<open>prune\<close>: the time until the next pass (before \<open>BUFFERING_TIME\<close> is added),
  the packets sent, and the window.
\<close>

definition pw_prune ::
  "(session_id \<Rightarrow> address option) \<Rightarrow> timestamp \<Rightarrow> pending_window
     \<Rightarrow> u64 \<times> packet_wrapper list \<times> pending_window" where
  "pw_prune addr_of now w =
     (let ready = takeWhile (pe_ready now) (pw_queue w);
          rest = dropWhile (pe_ready now) (pw_queue w);
          expired = filter (\<lambda>e. fst (pe_retried e)) ready;
          to_retry = map (\<lambda>e. (snd (pe_retried e))\<lparr>pe_timestamp := now\<rparr>)
                       (filter (\<lambda>e. \<not> fst (pe_retried e)) ready);
          top_timestamp = (case rest of e # _ \<Rightarrow> now - pe_timestamp e | [] \<Rightarrow> 500 - 100);
          (sends, back) = pw_resend addr_of (pw_pending w) to_retry
      in (top_timestamp, sends,
          w\<lparr>pw_queue := rest @ back,
            pw_pending := fold (\<lambda>e. hm_remove (pe_fingerprint e)) expired (pw_pending w)\<rparr>))"

definition pw_close :: "pending_window \<Rightarrow> pending_window" where
  "pw_close w = w\<lparr>pw_canceled := True\<rparr>"

text \<open>What is pending is marked for resending and stored under its own fingerprint.\<close>

definition pw_inv :: "(bytes \<Rightarrow> fingerprint) \<Rightarrow> pending_window \<Rightarrow> bool" where
  "pw_inv xxh w \<longleftrightarrow>
     (\<forall>fp p. hm_get (pw_pending w) fp = Some p \<longrightarrow>
        (\<exists>q. packet_fingerprint xxh q = Ok fp \<and> p = mark_resend q))
     \<and> (\<forall>e \<in> set (pw_queue w). pe_retries e \<le> MAX_RETRIES)"

lemma packet_opts_mark_resend:
  "packet_opts (mark_resend p) = map_option (\<lambda>x. opt_set x Resend) (packet_opts p)"
  by (cases p) simp_all

lemma hm_get_fold_remove:
  "hm_get (fold (\<lambda>e. hm_remove (f e)) es t) k = (if k \<in> f ` set es then None else hm_get t k)"
  by (induction es arbitrary: t) auto

lemma pw_resend_sends:
  "wr \<in> set (fst (pw_resend addr_of pending es)) \<Longrightarrow>
   \<exists>e \<in> set es. hm_get pending (pe_fingerprint e) = Some (pw_packet wr)"
  by (induction es) (auto simp: Let_def wrap_def split: prod.splits option.splits res.splits)

lemma pw_resend_back: "set (snd (pw_resend addr_of pending es)) \<subseteq> set es"
  by (induction es) (auto simp: Let_def split: prod.splits option.splits res.splits)

lemma pw_prune_sends:
  "wr \<in> set (fst (snd (pw_prune addr_of now w))) \<Longrightarrow> \<exists>fp. hm_get (pw_pending w) fp = Some (pw_packet wr)"
  by (auto simp: pw_prune_def Let_def split: prod.splits)
    (metis fst_conv pw_resend_sends)

lemma pw_prune_pending:
  "hm_get (pw_pending (snd (snd (pw_prune addr_of now w)))) fp = Some p \<Longrightarrow>
   hm_get (pw_pending w) fp = Some p"
  by (auto simp: pw_prune_def Let_def hm_get_fold_remove split: prod.splits if_splits)

lemma pw_inv_new: "pw_inv xxh pw_new"
  by (simp add: pw_inv_def pw_new_def)

lemma pw_inv_add: "\<lbrakk> pw_inv xxh w; pw_add dbg xxh now p w = Ok w' \<rbrakk> \<Longrightarrow> pw_inv xxh w'"
  by (auto simp: pw_inv_def pw_add_def pending_entry_new_def split: if_splits res.splits)

lemma pw_inv_acknowledge: "pw_inv xxh w \<Longrightarrow> pw_inv xxh (pw_acknowledge fp w)"
  by (auto simp: pw_inv_def pw_acknowledge_def split: if_splits)

lemma pw_inv_prune:
  assumes "pw_inv xxh w"
  shows "pw_inv xxh (snd (snd (pw_prune addr_of now w)))"
proof -
  let ?retry = "map (\<lambda>e. (snd (pe_retried e))\<lparr>pe_timestamp := now\<rparr>)
                  (filter (\<lambda>e. \<not> fst (pe_retried e)) (takeWhile (pe_ready now) (pw_queue w)))"
  have "pe_retries e \<le> MAX_RETRIES"
    if "e \<in> set (snd (pw_resend addr_of (pw_pending w) ?retry))" for e
    using subsetD [OF pw_resend_back that] by (auto simp: pe_retried_def Let_def)
  moreover have "pe_retries e \<le> MAX_RETRIES" if "e \<in> set (dropWhile (pe_ready now) (pw_queue w))" for e
    using assms set_dropWhileD [OF that] by (auto simp: pw_inv_def)
  ultimately show ?thesis
    using assms
    by (auto simp: pw_inv_def pw_prune_def Let_def hm_get_fold_remove split: prod.splits if_splits)
qed

text \<open>A sequence of passes, each with its time, and the packets sent by each.\<close>

fun pw_passes ::
  "(session_id \<Rightarrow> address option) \<Rightarrow> timestamp list \<Rightarrow> pending_window
     \<Rightarrow> packet_wrapper list list \<times> pending_window" where
  "pw_passes addr_of [] w = ([], w)"
| "pw_passes addr_of (t # ts) w =
     (let (sleep, sends, w') = pw_prune addr_of t w; (rest, w'') = pw_passes addr_of ts w'
      in (sends # rest, w''))"

lemma pw_passes_sends:
  "\<lbrakk> sends \<in> set (fst (pw_passes addr_of ts w)); wr \<in> set sends \<rbrakk> \<Longrightarrow>
   \<exists>fp. hm_get (pw_pending w) fp = Some (pw_packet wr)"
proof (induction ts arbitrary: w)
  case (Cons t ts)
  let ?w = "snd (snd (pw_prune addr_of t w))"
  have "sends = fst (snd (pw_prune addr_of t w)) \<or> sends \<in> set (fst (pw_passes addr_of ts ?w))"
    using Cons.prems(1) by (auto simp: Let_def split: prod.splits)
  then show ?case
    using Cons.prems(2) Cons.IH [of ?w] pw_prune_sends [of wr addr_of t w] pw_prune_pending
    by blast
qed simp

lemma packet_session_id_mark_resend [simp]:
  "packet_session_id dbg (mark_resend p) = packet_session_id dbg p"
  by (cases p) simp_all

text \<open>A window that holds one packet with one queue entry.\<close>

definition one_pending :: "fingerprint \<Rightarrow> packet \<Rightarrow> timestamp \<Rightarrow> u8 \<Rightarrow> pending_window" where
  "one_pending fp p t r =
     \<lparr>pw_pending = [(fp, p)],
      pw_queue = [\<lparr>pe_timestamp = t, pe_fingerprint = fp, pe_retries = r\<rparr>], pw_canceled = False\<rparr>"



section \<open>Properties\<close>

definition demo_playback :: playback_control where
  "demo_playback =
     \<lparr>pc_version = 1, pc_opts = 1, pc_packet_type = PT_Playback, pc_control_type = Pause,
      pc_session_id = 9, pc_timestamp = 0, pc_seek_position = 0\<rparr>"



text \<open>An acknowledged packet is never sent again, however many passes follow. The packet
  is stored under one fingerprint.\<close>

theorem acknowledged_never_resent:
  assumes "hm_get (pw_pending w) fp = Some p"
    and "\<forall>fp'. hm_get (pw_pending w) fp' = Some p \<longrightarrow> fp' = fp"
    and "\<not> pw_canceled w"
  shows "\<forall>sends \<in> set (fst (pw_passes addr_of ts (pw_acknowledge fp w))). \<forall>wr \<in> set sends. pw_packet wr \<noteq> p"
proof (intro ballI notI)
  fix sends wr
  assume "sends \<in> set (fst (pw_passes addr_of ts (pw_acknowledge fp w)))" "wr \<in> set sends" "pw_packet wr = p"
  then obtain fp' where "hm_get (pw_pending (pw_acknowledge fp w)) fp' = Some p"
    using pw_passes_sends by metis
  then have "fp' \<noteq> fp" "hm_get (pw_pending w) fp' = Some p"
    using assms(3) by (auto simp: pw_acknowledge_def split: if_splits)
  then show False using assms(2) by blast
qed

theorem acknowledged_never_resent_witness:
  "PlaybackControlPacket demo_playback \<notin> pw_packet ` \<Union> (set ` set (fst (pw_passes
       (\<lambda>_. Some \<lparr>sa_ip = [127, 0, 0, 1], sa_port = 1\<rparr>) [600, 1200]
       (pw_acknowledge [1] (one_pending [1] (PlaybackControlPacket demo_playback) 0 0)))))"
  using acknowledged_never_resent [where w = "one_pending [1] (PlaybackControlPacket demo_playback) 0 0"
      and fp = "[1]" and p = "PlaybackControlPacket demo_playback" and ts = "[600, 1200]"
      and addr_of = "\<lambda>_. Some \<lparr>sa_ip = [127, 0, 0, 1], sa_port = 1\<rparr>"]
  by (fastforce simp: one_pending_def hm_get_def split: if_splits)

end
