(* ===== verification/Streams.thy ===== *)
theory Streams imports Buffers Windows begin

text \<open>
  The state of one stream (\<open>src/src/manager/state.rs\<close>, with the messages of
  \<open>src/src/utils/messages.rs\<close> and the event slot \<open>Shared\<close> of \<open>src/src/utils/mod.rs\<close>): the
  sender's half with its batch counter, the receiver's half with its pending requests, the mirror
  of the FEC batches in flight, and the translation between chunks and the byte ranges of
  retransmit requests.

  The \<open>BTreeSet\<close> of extra chunks is an ordered list without repetition. One call reads the clock
  once, and a panic is the result of the whole call. Additions on words wrap as in a release
  build; \<open>dbg\<close> is the profile for \<open>debug_assert!\<close>.
\<close>

section \<open>Messages\<close>

datatype playback_action = Act_Play | Act_Pause | Act_Close | Act_Done | Act_Seek byte_position

datatype stream_event = Playback playback_action | Retransmit_Ranges "byte_range list"

definition stream_event_default :: stream_event where
  "stream_event_default = Playback Act_Play"

text \<open>\<open>From<PlaybackControlPacket>\<close> for \<open>PlaybackControl\<close> and for \<open>StreamEvent\<close>.\<close>

fun playback_of :: "playback_control \<Rightarrow> playback_action" where
  "playback_of p =
     (case pc_control_type p of
        Play \<Rightarrow> Act_Play | Pause \<Rightarrow> Act_Pause | Play_Close \<Rightarrow> Act_Close | Play_Done \<Rightarrow> Act_Done
      | Seek \<Rightarrow> Act_Seek (pc_seek_position p))"

definition stream_event_of :: "playback_control \<Rightarrow> stream_event" where
  "stream_event_of p = Playback (playback_of p)"

record stream_message =
  sm_head :: nat
  sm_paused :: bool
  sm_closed :: bool
  sm_complete :: "bool option"
  sm_approved :: "bool option"
  sm_buffer_closed :: bool

definition stream_message_default :: stream_message where
  "stream_message_default =
     \<lparr>sm_head = 0, sm_paused = False, sm_closed = False, sm_complete = None, sm_approved = None,
      sm_buffer_closed = False\<rparr>"

text \<open>
  \<open>Shared<StreamEvent>\<close>: one slot and the single permit of its \<open>Notify\<close>. The listener of
  \<open>listen_then\<close> takes the ranges out of the slot.
\<close>

record shared_event =
  sh_value :: stream_event
  sh_signal :: bool

definition shared_default :: shared_event where
  "shared_default = \<lparr>sh_value = stream_event_default, sh_signal = False\<rparr>"

definition shared_update :: "stream_event \<Rightarrow> shared_event \<Rightarrow> shared_event" where
  "shared_update e s = \<lparr>sh_value = e, sh_signal = True\<rparr>"

definition shared_listen :: "shared_event \<Rightarrow> stream_event option \<times> shared_event" where
  "shared_listen s =
     (if sh_signal s
      then (case sh_value s of
              Retransmit_Ranges v \<Rightarrow>
                (Some (Retransmit_Ranges v), \<lparr>sh_value = Retransmit_Ranges [], sh_signal = False\<rparr>)
            | e \<Rightarrow> (Some e, s\<lparr>sh_signal := False\<rparr>))
      else (None, s))"

section \<open>Batches in flight\<close>

definition RECOVERY_COUNT :: u8 where
  "RECOVERY_COUNT = 0"

record fec_batch_window =
  fb_batch_size :: u8
  fb_recovery_count :: u8
  fb_created_at :: timestamp
  fb_base_byte_pos :: "byte_position option"
  fb_is_contiguous :: bool

definition fec_batch_new :: "timestamp \<Rightarrow> u8 \<Rightarrow> u8 \<Rightarrow> fec_batch_window" where
  "fec_batch_new now bsize rcount =
     \<lparr>fb_batch_size = bsize, fb_recovery_count = rcount, fb_created_at = now,
      fb_base_byte_pos = None, fb_is_contiguous = True\<rparr>"

definition fec_batch_add :: "nat \<Rightarrow> byte_position \<Rightarrow> fec_batch_window \<Rightarrow> fec_batch_window" where
  "fec_batch_add index start b =
     (let derived = derived_base start (word_of_nat index)
      in case fb_base_byte_pos b of
           None \<Rightarrow> b\<lparr>fb_base_byte_pos := Some derived\<rparr>
         | Some existing \<Rightarrow> if existing \<noteq> derived then b\<lparr>fb_is_contiguous := False\<rparr> else b)"

definition contiguous_byte_range :: "fec_batch_window \<Rightarrow> (nat \<times> nat) option" where
  "contiguous_byte_range b =
     (if \<not> fb_is_contiguous b then None
      else map_option (\<lambda>base. (unat base, unat base + unat (fb_batch_size b) * MAX_PAYLOAD_LENGTH))
             (fb_base_byte_pos b))"

type_synonym session_fec = "(batch_id, fec_batch_window) table"

definition ENTRY_TTL_MS :: u64 where
  "ENTRY_TTL_MS = PACKET_DISCARD_TIME_MS"

definition session_fec_add ::
  "timestamp \<Rightarrow> batch_id \<Rightarrow> fec_info \<Rightarrow> byte_position \<Rightarrow> session_fec \<Rightarrow> session_fec" where
  "session_fec_add now bid info start t =
     (let b = (case hm_get t bid of
                 Some b \<Rightarrow> b
               | None \<Rightarrow> fec_batch_new now (batch_size info) (recovery_count info))
      in hm_insert bid (fec_batch_add (unat (batch_pos info)) start b) t)"

definition session_fec_evict :: "batch_id \<Rightarrow> session_fec \<Rightarrow> session_fec" where
  "session_fec_evict bid t = hm_remove bid t"

definition active_byte_ranges :: "timestamp \<Rightarrow> session_fec \<Rightarrow> (nat \<times> nat) list \<times> session_fec" where
  "active_byte_ranges now t =
     (let t = hm_retain (\<lambda>_ b. \<not> been_longer_than now (fb_created_at b) ENTRY_TTL_MS) t
      in (List.map_filter (\<lambda>(_, b). contiguous_byte_range b) t, t))"

section \<open>Chunks and byte ranges\<close>

fun coalesce_from :: "byte_range \<Rightarrow> byte_range list \<Rightarrow> byte_range list" where
  "coalesce_from current [] = [current]"
| "coalesce_from current (r # rs) =
     (let (joined, current) = byte_range_concat current r
      in if \<not> joined then current # coalesce_from r rs else coalesce_from current rs)"

definition coalesce_byte_positions :: "bool \<Rightarrow> byte_position list \<Rightarrow> byte_range list ures" where
  "coalesce_byte_positions dbg positions =
     map_res (\<lambda>rs. case rs of [] \<Rightarrow> [] | r # rs \<Rightarrow> coalesce_from r rs)
       (collect_res (map (\<lambda>p. byte_range_new dbg p (word_of_nat MAX_PAYLOAD_LENGTH)) positions))"

function split_from :: "u32 \<Rightarrow> u32 \<Rightarrow> byte_range list" where
  "split_from pos e =
     (if pos \<ge> e then []
      else let len = min (e - pos) (word_of_nat MAX_PAYLOAD_LENGTH)
           in \<lparr>br_start = pos, br_length = ucast len\<rparr> # split_from (pos + len) e)"
  by auto
termination
proof (relation "measure (\<lambda>(pos, e). unat e - unat pos)")
  fix pos e len :: u32
  assume lt: "\<not> e \<le> pos" and len: "len = min (e - pos) (word_of_nat MAX_PAYLOAD_LENGTH)"
  have "unat (e - pos) = unat e - unat pos" using lt by (simp add: unat_sub)
  moreover have "unat len \<le> unat (e - pos)" using len by (simp add: word_le_nat_alt [symmetric])
  moreover have "0 < unat len"
    using lt len by (auto simp: min_def MAX_PAYLOAD_LENGTH_def unat_gt_0)
  moreover have "unat (pos + len) = unat pos + unat len"
  proof (rule unat_add_small)
    have "unat e < 2 ^ 32" using unsigned_less [of e] by simp
    then show "unat pos + unat len < 2 ^ LENGTH(32)"
      using calculation lt by (simp add: word_less_nat_alt not_le)
  qed
  ultimately show "((pos + len, e), pos, e) \<in> measure (\<lambda>(pos, e). unat e - unat pos)"
    using lt by (simp add: word_less_nat_alt not_le)
qed simp

declare split_from.simps [simp del]

definition split_range_into_chunks :: "byte_range \<Rightarrow> byte_range list" where
  "split_range_into_chunks r = split_from (br_start r) (br_start r + ucast (br_length r))"

text \<open>Chunks noted for sending after the end of the data.\<close>

type_synonym extras = "nat list"

definition extras_insert :: "nat \<Rightarrow> extras \<Rightarrow> extras" where
  "extras_insert i xs = insort_insert i xs"

definition add_seek_hole_indices :: "byte_position \<Rightarrow> byte_position \<Rightarrow> extras \<Rightarrow> extras" where
  "add_seek_hole_indices last_sent to xs =
     (let (lo, hi) = (if to > last_sent then (unat last_sent, unat to) else (unat to, unat last_sent));
          start_chunk = lo div MAX_PAYLOAD_LENGTH;
          end_chunk = (hi + MAX_PAYLOAD_LENGTH - 1) div MAX_PAYLOAD_LENGTH
      in fold extras_insert [start_chunk..<end_chunk] xs)"

definition add_retransmit_indices :: "byte_range list \<Rightarrow> extras \<Rightarrow> extras" where
  "add_retransmit_indices rs xs =
     fold (\<lambda>r. extras_insert (unat (br_start r) div MAX_PAYLOAD_LENGTH))
       (concat (map split_range_into_chunks rs)) xs"

definition dispatch_retransmit_request ::
  "bool \<Rightarrow> timestamp \<Rightarrow> session_id \<Rightarrow> address \<Rightarrow> byte_range list \<Rightarrow> packet_wrapper list ures" where
  "dispatch_retransmit_request dbg now sid addr ranges =
     (if ranges = [] then Ok []
      else let max_per_packet = RETRANSMIT_MAX_PAYLOAD_LENGTH div byte_range_elem_size
           in collect_res (map (\<lambda>c. map_res (\<lambda>p. wrap (RetransmitPacket p) addr)
                (retransmit_data dbg now (opt_construct []) sid c)) (chunks max_per_packet ranges)))"

section \<open>The two halves of a stream\<close>

text \<open>
  The slot of a sender is shared with its task (\<open>Arc<Shared<StreamEvent>>\<close>): the stream holds a
  reference to it.
\<close>

type_synonym event_ref = nat

record streaming_to =
  to_buffer :: rbuffer
  to_current_batch :: u16
  to_event :: event_ref

definition next_batch_id :: "bool \<Rightarrow> streaming_to \<Rightarrow> batch_id ures \<times> streaming_to" where
  "next_batch_id dbg s =
     (let raw = to_current_batch s + 1
      in (batch_id_new dbg raw, s\<lparr>to_current_batch := raw\<rparr>))"

record streaming_from =
  from_buffer :: wbuffer
  from_pending :: "(nat, timestamp) table"

definition PENDING_TTL_MS :: u64 where
  "PENDING_TTL_MS = PACKET_DISCARD_TIME_MS"

definition streaming_from_new :: "wbuffer \<Rightarrow> streaming_from" where
  "streaming_from_new b = \<lparr>from_buffer = b, from_pending = []\<rparr>"

fun reserve_loop ::
  "timestamp \<Rightarrow> wbuffer \<Rightarrow> byte_position list \<Rightarrow> (nat, timestamp) table
     \<Rightarrow> byte_position list \<times> (nat, timestamp) table" where
  "reserve_loop now b [] pending = ([], pending)"
| "reserve_loop now b (pos # ps) pending =
     (let idx = unat pos div MAX_PAYLOAD_LENGTH
      in if (case position_occupied b pos of None \<Rightarrow> True | Some v \<Rightarrow> v) \<or> hm_contains pending idx
         then reserve_loop now b ps pending
         else (let (accepted, pending) = reserve_loop now b ps (hm_insert idx now pending)
               in (pos # accepted, pending)))"

definition reserve_for_request ::
  "timestamp \<Rightarrow> byte_position list \<Rightarrow> streaming_from \<Rightarrow> byte_position list \<times> streaming_from" where
  "reserve_for_request now positions s =
     (let pending = hm_retain (\<lambda>_ ts. \<not> been_longer_than now ts PENDING_TTL_MS) (from_pending s);
          (accepted, pending) = reserve_loop now (from_buffer s) positions pending
      in (accepted, s\<lparr>from_pending := pending\<rparr>))"

definition clear_pending :: "byte_position \<Rightarrow> streaming_from \<Rightarrow> streaming_from" where
  "clear_pending pos s =
     s\<lparr>from_pending := hm_remove (unat pos div MAX_PAYLOAD_LENGTH) (from_pending s)\<rparr>"

text \<open>\<open>BytePosition((i * MAX_PAYLOAD_LENGTH) as u32)\<close>.\<close>

definition chunk_pos :: "nat \<Rightarrow> byte_position" where
  "chunk_pos i = word_of_nat (i * MAX_PAYLOAD_LENGTH)"

text \<open>The positions of the chunks of some areas, less those inside an active FEC batch.\<close>

definition area_positions :: "(nat \<times> nat) list \<Rightarrow> area list \<Rightarrow> byte_position list" where
  "area_positions fec_active as =
     filter (\<lambda>pos. \<not> list_ex (\<lambda>r. area_contains r (unat pos)) fec_active)
       (concat (map (\<lambda>a. map chunk_pos [fst a..<snd a]) as))"

definition score_policy_pick ::
  "bool \<Rightarrow> timestamp \<Rightarrow> (nat \<times> nat) list \<Rightarrow> streaming_from \<Rightarrow> byte_range list ures \<times> streaming_from" where
  "score_policy_pick dbg now fec_active s =
     (let (accepted, s) = reserve_for_request now
            (area_positions fec_active (requestable_areas (from_buffer s))) s
      in (coalesce_byte_positions dbg accepted, s))"

definition finalize_sweep_pick ::
  "bool \<Rightarrow> timestamp \<Rightarrow> (nat \<times> nat) list \<Rightarrow> streaming_from \<Rightarrow> byte_range list ures \<times> streaming_from" where
  "finalize_sweep_pick dbg now fec_active s =
     (let (accepted, s) = reserve_for_request now
            (area_positions fec_active (all_invalid_areas (from_buffer s))) s
      in (coalesce_byte_positions dbg accepted, s))"

datatype streaming = Streaming_To streaming_to | Streaming_From streaming_from

record stream_state =
  ss_streaming :: streaming
  ss_stream :: stream_message
  ss_fec :: session_fec

text \<open>\<open>iter.take(n).collect()\<close> on the buffer by reference.\<close>

fun rb_take :: "nat \<Rightarrow> rbuffer \<Rightarrow> (byte_position \<times> bytes) list \<times> rbuffer" where
  "rb_take 0 r = ([], r)"
| "rb_take (Suc n) r =
     (case rb_next r of
        (None, r) \<Rightarrow> ([], r)
      | (Some c, r) \<Rightarrow> (let (cs, r) = rb_take n r in (c # cs, r)))"

definition get_chunks ::
  "nat \<Rightarrow> stream_state \<Rightarrow> (byte_position \<times> bytes) list option \<times> stream_state" where
  "get_chunks n s =
     (case ss_streaming s of
        Streaming_To t \<Rightarrow>
          if \<not> sm_paused (ss_stream s) \<and> \<not> sm_closed (ss_stream s)
          then (let (v, r) = rb_take n (to_buffer t)
                in (Some v,
                    s\<lparr>ss_streaming := Streaming_To (t\<lparr>to_buffer := r\<rparr>),
                      ss_stream := (ss_stream s)\<lparr>sm_head :=
                        min (sm_head (ss_stream s) + length v * MAX_PAYLOAD_LENGTH) (length (rb_buffer r))\<rparr>\<rparr>))
          else (None, s)
      | Streaming_From _ \<Rightarrow> (None, s))"

definition retransmit_chunk :: "rbuffer \<Rightarrow> byte_range \<Rightarrow> (byte_position \<times> bytes) option" where
  "retransmit_chunk r rng =
     (let start = unat (br_start rng);
          len = min (unat (br_length rng)) MAX_PAYLOAD_LENGTH;
          e = min (start + len) (length (rb_buffer r))
      in map_option (\<lambda>payload. (br_start rng, payload)) (rb_read (start, e) r))"

definition retransmit_chunks ::
  "byte_range list \<Rightarrow> stream_state \<Rightarrow> (byte_position \<times> bytes) list option" where
  "retransmit_chunks ranges s =
     (case ss_streaming s of
        Streaming_To t \<Rightarrow>
          if \<not> sm_paused (ss_stream s) \<and> \<not> sm_closed (ss_stream s)
          then Some (List.map_filter (retransmit_chunk (to_buffer t)) ranges)
          else None
      | Streaming_From _ \<Rightarrow> None)"


section \<open>Sending\<close>

definition send_data_packets ::
  "bool \<Rightarrow> timestamp \<Rightarrow> session_id \<Rightarrow> address \<Rightarrow> batch_id \<Rightarrow> (byte_position \<times> bytes) list
     \<Rightarrow> packet_wrapper list ures" where
  "send_data_packets dbg now sid addr batch cs =
     (let len = word_of_nat (length cs) :: u8
      in collect_res (map (\<lambda>(i, pos, payload).
           map_res (\<lambda>p. wrap (DataPacket p) addr)
             (data_packet_new dbg now (opt_construct []) batch
                \<lparr>batch_size = len, batch_pos = word_of_nat i, recovery_count = min RECOVERY_COUNT len\<rparr>
                sid pos payload)) (zip [0..<length cs] cs)))"

text \<open>
  \<open>send_stream_action\<close> once the session is found to be streaming: fresh chunks if there are any,
  else up to \<open>n\<close> extra chunks; the packets, the last position sent, the extras left.
\<close>

definition chunk_range :: "bool \<Rightarrow> nat \<Rightarrow> byte_range ures" where
  "chunk_range dbg i =
     byte_range_new dbg (chunk_pos i) (word_of_nat MAX_PAYLOAD_LENGTH)"

definition stream_choose ::
  "bool \<Rightarrow> nat \<Rightarrow> extras \<Rightarrow> stream_state
     \<Rightarrow> (byte_position \<times> bytes) list option ures \<times> extras \<times> stream_state" where
  "stream_choose dbg n xs s =
     (case get_chunks n s of
        (None, s) \<Rightarrow> (Ok None, xs, s)
      | (Some cs, s) \<Rightarrow>
          if cs = [] \<and> xs \<noteq> []
          then (map_res (\<lambda>rs. retransmit_chunks rs s) (collect_res (map (chunk_range dbg) (take n xs))),
                drop n xs, s)
          else (Ok (Some cs), xs, s))"

definition stream_send ::
  "bool \<Rightarrow> timestamp \<Rightarrow> session_id \<Rightarrow> address \<Rightarrow> nat \<Rightarrow> extras \<Rightarrow> stream_state
     \<Rightarrow> (packet_wrapper list \<times> byte_position option) ures \<times> extras \<times> stream_state" where
  "stream_send dbg now sid addr n xs s =
     (case stream_choose dbg n xs s of
        (Ok (Some cs), xs, s) \<Rightarrow>
          if cs = [] then (Ok ([], None), xs, s)
          else (case ss_streaming s of
                  Streaming_From _ \<Rightarrow> (Ok ([], None), xs, s)
                | Streaming_To t \<Rightarrow>
                    (let (batch, t) = next_batch_id dbg t
                     in (and_then batch (\<lambda>batch.
                          map_res (\<lambda>ps. (ps, Some (fst (last cs))))
                            (send_data_packets dbg now sid addr batch cs)),
                         xs, s\<lparr>ss_streaming := Streaming_To t\<rparr>)))
      | (Ok None, xs, s) \<Rightarrow> (Ok ([], None), xs, s)
      | (Err e, xs, s) \<Rightarrow> (Err e, xs, s)
      | (Panic, xs, s) \<Rightarrow> (Panic, xs, s))"

section \<open>Ranges and chunks\<close>

text \<open>The chunks a range of a request stands for at the sender.\<close>

definition range_chunks :: "byte_range \<Rightarrow> nat set" where
  "range_chunks r = (\<lambda>c. unat (br_start c) div MAX_PAYLOAD_LENGTH) ` set (split_range_into_chunks r)"

text \<open>A range on chunk boundaries, inside the address space.\<close>

definition chunk_aligned :: "byte_range \<Rightarrow> bool" where
  "chunk_aligned r \<longleftrightarrow> no_overflow r \<and> unat (br_start r) mod MAX_PAYLOAD_LENGTH = 0
     \<and> unat (br_length r) mod MAX_PAYLOAD_LENGTH = 0"

lemma split_from_chunks:
  "unat e = unat pos + k * MAX_PAYLOAD_LENGTH \<Longrightarrow>
    map (\<lambda>c. unat (br_start c)) (split_from pos e) = map (\<lambda>j. unat pos + j * MAX_PAYLOAD_LENGTH) [0..<k]"
proof (induction k arbitrary: pos)
  case 0
  then have "pos \<ge> e" by (simp add: word_le_nat_alt)
  then show ?case by (simp add: split_from.simps)
next
  case (Suc k)
  let ?M = "word_of_nat MAX_PAYLOAD_LENGTH :: u32"
  have M: "unat ?M = MAX_PAYLOAD_LENGTH" by (simp add: MAX_PAYLOAD_LENGTH_def)
  have lt: "\<not> pos \<ge> e" using Suc.prems MPL_pos by (simp add: word_le_nat_alt)
  have "unat (e - pos) = unat e - unat pos" using lt by (simp add: unat_sub)
  then have "?M \<le> e - pos" using Suc.prems by (simp add: word_le_nat_alt M)
  then have len: "min (e - pos) ?M = ?M" by (simp add: min_def)
  have "unat e < 2 ^ 32" using unsigned_less [of e] by simp
  then have next_pos: "unat (pos + ?M) = unat pos + MAX_PAYLOAD_LENGTH"
    using Suc.prems M by (subst unat_add_small) simp_all
  have "map (\<lambda>c. unat (br_start c)) (split_from pos e)
      = unat pos # map (\<lambda>j. unat pos + MAX_PAYLOAD_LENGTH + j * MAX_PAYLOAD_LENGTH) [0..<k]"
    using lt Suc.IH [of "pos + ?M"] Suc.prems next_pos
    by (subst split_from.simps) (simp add: Let_def len algebra_simps)
  also have "\<dots> = map (\<lambda>j. unat pos + j * MAX_PAYLOAD_LENGTH) [0..<Suc k]"
    by (rule nth_equalityI) (auto simp: nth_Cons algebra_simps simp del: upt_Suc split: nat.splits)
  finally show ?case .
qed


lemma MPL_u16: "unat (word_of_nat MAX_PAYLOAD_LENGTH :: u16) = MAX_PAYLOAD_LENGTH"
  by (simp add: MAX_PAYLOAD_LENGTH_def)

lemma range_chunks_aligned:
  assumes "chunk_aligned r"
  shows "range_chunks r = {unat (br_start r) div MAX_PAYLOAD_LENGTH ..<
    (unat (br_start r) + unat (br_length r)) div MAX_PAYLOAD_LENGTH}"
proof -
  let ?s = "unat (br_start r) div MAX_PAYLOAD_LENGTH" and ?k = "unat (br_length r) div MAX_PAYLOAD_LENGTH"
  have s: "unat (br_start r) = ?s * MAX_PAYLOAD_LENGTH" and l: "unat (br_length r) = ?k * MAX_PAYLOAD_LENGTH"
    using assms div_mult_mod_eq [of "unat (br_start r)" MAX_PAYLOAD_LENGTH]
      div_mult_mod_eq [of "unat (br_length r)" MAX_PAYLOAD_LENGTH] by (auto simp: chunk_aligned_def)
  have e: "unat (br_start r + ucast (br_length r)) = unat (br_start r) + ?k * MAX_PAYLOAD_LENGTH"
    using range_end [of r] assms l by (simp add: chunk_aligned_def)
  have "(\<lambda>c. unat (br_start c) div MAX_PAYLOAD_LENGTH) ` set (split_range_into_chunks r)
      = (\<lambda>p. p div MAX_PAYLOAD_LENGTH) ` set (map (\<lambda>c. unat (br_start c)) (split_range_into_chunks r))"
    by (simp add: image_image)
  also have "\<dots> = (\<lambda>p. p div MAX_PAYLOAD_LENGTH) ` (\<lambda>j. unat (br_start r) + j * MAX_PAYLOAD_LENGTH) ` {0..<?k}"
    using split_from_chunks [OF e] by (simp add: split_range_into_chunks_def)
  also have "\<dots> = (\<lambda>j. ?s + j) ` {0..<?k}"
    unfolding image_image using MPL_pos by (simp add: s [symmetric])
  also have "\<dots> = {?s ..< ?s + ?k}" by (simp add: image_add_atLeastLessThan add.commute)
  also have "?s + ?k = (unat (br_start r) + unat (br_length r)) div MAX_PAYLOAD_LENGTH"
    using s l MPL_pos by (metis div_mult_self_is_m add_mult_distrib)
  finally show ?thesis by (simp add: range_chunks_def)
qed


lemma div_MPL_add:
  "\<lbrakk> a mod MAX_PAYLOAD_LENGTH = 0; b mod MAX_PAYLOAD_LENGTH = 0 \<rbrakk> \<Longrightarrow>
    (a + b) div MAX_PAYLOAD_LENGTH = a div MAX_PAYLOAD_LENGTH + b div MAX_PAYLOAD_LENGTH
    \<and> (a + b) mod MAX_PAYLOAD_LENGTH = 0"
  by (metis div_plus_div_distrib_dvd_left dvd_add mod_0_imp_dvd dvd_imp_mod_0)

lemma chunk_ivl_glue:
  "\<lbrakk> x \<le> y; y \<le> z \<rbrakk> \<Longrightarrow> {x div MAX_PAYLOAD_LENGTH ..< y div MAX_PAYLOAD_LENGTH}
    \<union> {y div MAX_PAYLOAD_LENGTH ..< z div MAX_PAYLOAD_LENGTH} = {x div MAX_PAYLOAD_LENGTH ..< z div MAX_PAYLOAD_LENGTH}"
  by (rule ivl_disj_un_two(3)) (simp_all add: div_le_mono)

lemma concat_chunks:
  assumes a: "chunk_aligned a" and b: "chunk_aligned b" and c: "byte_range_concat a b = (True, r)"
  shows "chunk_aligned r \<and> range_chunks r = range_chunks a \<union> range_chunks b"
proof -
  have ab: "no_overflow a" "no_overflow b" using a b by (auto simp: chunk_aligned_def)
  note e = concat_ends [OF ab c]
  have r: "chunk_aligned r"
    using e a b by (auto simp: chunk_aligned_def no_overflow_def div_MPL_add)
  have "range_chunks r = range_chunks a \<union> range_chunks b"
  proof (cases "br_start r = br_start a \<and> unat (br_start a) + unat (br_length a) = unat (br_start b)")
    case True
    then show ?thesis
      using chunk_ivl_glue [of "unat (br_start a)" "unat (br_start b)" "unat (br_start b) + unat (br_length b)"] e
      unfolding range_chunks_aligned [OF a] range_chunks_aligned [OF b] range_chunks_aligned [OF r]
      by (simp add: add.assoc [symmetric])
  next
    case False
    then have s: "br_start r = br_start b" "unat (br_start b) + unat (br_length b) = unat (br_start a)"
      using e by auto
    then have "unat (br_start b) + unat (br_length r) = unat (br_start a) + unat (br_length a)"
      using e by simp
    then show ?thesis
      using chunk_ivl_glue [of "unat (br_start b)" "unat (br_start a)" "unat (br_start a) + unat (br_length a)"] s
      unfolding range_chunks_aligned [OF a] range_chunks_aligned [OF b] range_chunks_aligned [OF r]
      by (simp add: Un_commute)
  qed
  then show ?thesis using r by blast
qed

lemma concat_failed: "byte_range_concat a b = (False, r) \<Longrightarrow> r = a"
  by (auto simp: byte_range_concat_def Let_def split: if_splits option.splits)

lemma coalesce_from_chunks:
  "\<lbrakk> chunk_aligned r; \<forall>q \<in> set rs. chunk_aligned q \<rbrakk> \<Longrightarrow>
    (\<forall>q \<in> set (coalesce_from r rs). chunk_aligned q)
    \<and> (\<Union>q \<in> set (coalesce_from r rs). range_chunks q) = range_chunks r \<union> (\<Union>q \<in> set rs. range_chunks q)"
proof (induction rs arbitrary: r)
  case (Cons q rs)
  obtain joined c where c: "byte_range_concat r q = (joined, c)" by fastforce
  have q: "chunk_aligned q" and rs: "\<forall>q \<in> set rs. chunk_aligned q" using Cons.prems by simp_all
  show ?case
  proof (cases joined)
    case True
    then have "coalesce_from r (q # rs) = coalesce_from c rs"
      and "chunk_aligned c \<and> range_chunks c = range_chunks r \<union> range_chunks q"
      using c concat_chunks [OF Cons.prems(1) q] by simp_all
    then show ?thesis using Cons.IH [of c] rs by (simp add: Un_assoc)
  next
    case False
    then have "coalesce_from r (q # rs) = r # coalesce_from q rs"
      using c concat_failed [of r q c] by simp
    then show ?thesis using Cons.IH [OF q rs] Cons.prems(1) by simp
  qed
qed simp

definition chunk_position :: "byte_position \<Rightarrow> bool" where
  "chunk_position p \<longleftrightarrow> unat p mod MAX_PAYLOAD_LENGTH = 0 \<and> unat p + MAX_PAYLOAD_LENGTH < 2 ^ 32"

lemma chunk_position_aligned:
  assumes "chunk_position p"
  shows "chunk_aligned \<lparr>br_start = p, br_length = word_of_nat MAX_PAYLOAD_LENGTH\<rparr>
    \<and> range_chunks \<lparr>br_start = p, br_length = word_of_nat MAX_PAYLOAD_LENGTH\<rparr> = {unat p div MAX_PAYLOAD_LENGTH}"
    (is "chunk_aligned ?r \<and> _")
proof -
  have r: "chunk_aligned ?r"
    using assms by (simp add: chunk_aligned_def chunk_position_def no_overflow_def MPL_u16)
  then show ?thesis using MPL_pos by (auto simp: range_chunks_aligned MPL_u16)
qed

lemma coalesce_chunks:
  assumes "\<forall>p \<in> set ps. chunk_position p"
  obtains rs where "coalesce_byte_positions dbg ps = Ok rs" "\<forall>q \<in> set rs. chunk_aligned q"
    "(\<Union>q \<in> set rs. range_chunks q) = (\<lambda>p. unat p div MAX_PAYLOAD_LENGTH) ` set ps"
proof -
  let ?mk = "\<lambda>p. \<lparr>br_start = p, br_length = word_of_nat MAX_PAYLOAD_LENGTH\<rparr>"
  have "(\<lambda>p. byte_range_new dbg p (word_of_nat MAX_PAYLOAD_LENGTH) :: byte_range ures) = (\<lambda>p. Ok (?mk p))"
    by (rule ext) (simp add: byte_range_new_def debug_assert_def MPL_u16)
  then have c: "coalesce_byte_positions dbg ps
      = Ok (case map ?mk ps of [] \<Rightarrow> [] | r # rs \<Rightarrow> coalesce_from r rs)"
    by (simp add: coalesce_byte_positions_def collect_res_all_Ok)
  show thesis
  proof (cases ps)
    case Nil
    then show thesis using that c by simp
  next
    case (Cons p ps')
    have al: "chunk_aligned (?mk q)" and ch: "range_chunks (?mk q) = {unat q div MAX_PAYLOAD_LENGTH}"
      if "q \<in> set ps" for q
      using that assms chunk_position_aligned by blast+
    have "(\<forall>q \<in> set (coalesce_from (?mk p) (map ?mk ps')). chunk_aligned q)
      \<and> (\<Union>q \<in> set (coalesce_from (?mk p) (map ?mk ps')). range_chunks q)
        = range_chunks (?mk p) \<union> (\<Union>q \<in> set (map ?mk ps'). range_chunks q)"
      by (rule coalesce_from_chunks) (use al Cons in auto)
    moreover have "range_chunks (?mk p) \<union> (\<Union>q \<in> set (map ?mk ps'). range_chunks q)
        = (\<lambda>p. unat p div MAX_PAYLOAD_LENGTH) ` set ps"
      using ch Cons by auto
    ultimately show thesis using that [of "coalesce_from (?mk p) (map ?mk ps')"] c Cons by simp
  qed
qed

section \<open>The extras\<close>

definition extras_inv :: "extras \<Rightarrow> bool" where
  "extras_inv xs \<longleftrightarrow> sorted xs \<and> distinct xs"

lemma extras_insert_props [simp]:
  "set (extras_insert i xs) = insert i (set xs)" "extras_inv xs \<Longrightarrow> extras_inv (extras_insert i xs)"
  by (simp_all add: extras_insert_def extras_inv_def set_insort_insert sorted_insort_insert distinct_insort_insert)

lemma fold_extras_insert [simp]:
  "set (fold (\<lambda>x. extras_insert (f x)) ys xs) = f ` set ys \<union> set xs"
  "extras_inv xs \<Longrightarrow> extras_inv (fold (\<lambda>x. extras_insert (f x)) ys xs)"
  by (induction ys arbitrary: xs) auto

lemma fold_extras_insert' [simp]:
  "set (fold extras_insert ys xs) = set ys \<union> set xs"
  "extras_inv xs \<Longrightarrow> extras_inv (fold extras_insert ys xs)"
  using fold_extras_insert [where f = "\<lambda>x. x"] by simp_all

lemma add_retransmit_set:
  "set (add_retransmit_indices rs xs) = (\<Union>q \<in> set rs. range_chunks q) \<union> set xs"
  by (auto simp: add_retransmit_indices_def range_chunks_def)

lemma add_retransmit_inv: "extras_inv xs \<Longrightarrow> extras_inv (add_retransmit_indices rs xs)"
  by (simp add: add_retransmit_indices_def)


section \<open>Requests\<close>

definition ranges_of :: "packet_wrapper \<Rightarrow> byte_range list" where
  "ranges_of w = (case pw_packet w of RetransmitPacket p \<Rightarrow> re_payload p | _ \<Rightarrow> [])"

lemma concat_chunks_list: "0 < n \<Longrightarrow> concat (chunks n xs) = xs"
proof (induction n xs rule: chunks.induct)
  case (1 n xs)
  then show ?case by (subst chunks.simps) simp
qed

lemma chunks_length: "0 < n \<Longrightarrow> \<forall>c \<in> set (chunks n xs). length c \<le> n \<and> c \<noteq> []"
proof (induction n xs rule: chunks.induct)
  case (1 n xs)
  then show ?case by (subst chunks.simps) auto
qed

lemma collect_res_map_Ok:
  "(\<And>x. x \<in> set xs \<Longrightarrow> f x = Ok (g x)) \<Longrightarrow> collect_res (map f xs) = Ok (map g xs)"
  by (induction xs) auto

lemma max_ranges [simp]: "RETRANSMIT_MAX_PAYLOAD_LENGTH div 6 = 228"
  by (simp add: RETRANSMIT_MAX_PAYLOAD_LENGTH_def MAX_PAYLOAD_LENGTH_def)

text \<open>The packets of a request carry its ranges in order, at most 228 each.\<close>

lemma dispatch_ranges:
  obtains ws where "dispatch_retransmit_request dbg now sid addr rs = Ok ws"
    "map ranges_of ws = chunks 228 rs" "concat (map ranges_of ws) = rs"
proof -
  let ?mk = "\<lambda>c. wrap (RetransmitPacket
      \<lparr>re_version = CURRENT_VERSION, re_opts = opt_set opt_none RequireAck, re_packet_type = PT_Session,
        re_control_type = Session Sess_Retransmit, re_buffer_id = None, re_session_id = sid,
        re_timestamp = now, re_payload = c\<rparr>) addr"
  have "collect_res (map (\<lambda>c. map_res (\<lambda>p. wrap (RetransmitPacket p) addr)
      (retransmit_data dbg now (opt_construct []) sid c)) (chunks 228 rs)) = Ok (map ?mk (chunks 228 rs))"
    using chunks_length [of 228 rs]
    by (intro collect_res_map_Ok) (auto simp: retransmit_data_def assert_opts_valid_def)
  then have "dispatch_retransmit_request dbg now sid addr rs = Ok (map ?mk (chunks 228 rs))"
    by (cases "rs = []") (simp_all add: dispatch_retransmit_request_def)
  moreover have "map ranges_of (map ?mk (chunks 228 rs)) = chunks 228 rs"
    by (simp add: ranges_of_def wrap_def comp_def)
  ultimately show thesis using that concat_chunks_list [of 228 rs] by simp
qed

lemma fold_retransmit_set:
  "set (fold (\<lambda>w. add_retransmit_indices (ranges_of w)) ws xs)
    = set xs \<union> (\<Union>q \<in> set (concat (map ranges_of ws)). range_chunks q)"
  by (induction ws arbitrary: xs) (auto simp: add_retransmit_set)

lemma fold_retransmit_inv:
  "extras_inv xs \<Longrightarrow> extras_inv (fold (\<lambda>w. add_retransmit_indices (ranges_of w)) ws xs)"
  by (induction ws arbitrary: xs) (auto simp: add_retransmit_inv)

section \<open>Pending requests\<close>

definition chunk_no :: "byte_position \<Rightarrow> nat" where
  "chunk_no p = unat p div MAX_PAYLOAD_LENGTH"

lemma reserve_loop_props:
  "reserve_loop now b ps pending = (acc, pending') \<Longrightarrow>
    set acc \<subseteq> set ps
    \<and> (\<forall>p \<in> set acc. position_occupied b p = Some False \<and> hm_get pending (chunk_no p) = None)
    \<and> distinct (map chunk_no acc)
    \<and> (\<forall>k. hm_get pending' k = (if k \<in> chunk_no ` set acc then Some now else hm_get pending k))
    \<and> (\<forall>p \<in> set ps. position_occupied b p = Some False \<longrightarrow>
        chunk_no p \<in> chunk_no ` set acc \<or> hm_get pending (chunk_no p) \<noteq> None)
    \<and> (hm_wf pending \<longrightarrow> hm_wf pending')"
proof (induction ps arbitrary: pending acc)
  case (Cons p ps)
  show ?case
  proof (cases "(case position_occupied b p of None \<Rightarrow> True | Some v \<Rightarrow> v) \<or> hm_contains pending (chunk_no p)")
    case True
    then have "reserve_loop now b ps pending = (acc, pending')" using Cons.prems by (simp add: chunk_no_def)
    from Cons.IH [OF this] True show ?thesis
      by (auto simp: hm_contains_def split: option.splits)
  next
    case False
    then obtain acc1 where a: "reserve_loop now b ps (hm_insert (chunk_no p) now pending) = (acc1, pending')"
      and acc: "acc = p # acc1"
      using Cons.prems by (auto simp: Let_def chunk_no_def split: prod.splits)
    have free: "position_occupied b p = Some False" "hm_get pending (chunk_no p) = None"
      using False by (auto simp: hm_contains_def split: option.splits)
    note ih = Cons.IH [OF a]
    have props: "set acc1 \<subseteq> set ps" "distinct (map chunk_no acc1)" "hm_wf pending \<longrightarrow> hm_wf pending'"
      and new: "\<forall>q \<in> set acc1. position_occupied b q = Some False
        \<and> hm_get (hm_insert (chunk_no p) now pending) (chunk_no q) = None"
      and get: "\<forall>k. hm_get pending' k = (if k \<in> chunk_no ` set acc1 then Some now
          else hm_get (hm_insert (chunk_no p) now pending) k)"
      and all: "\<forall>q \<in> set ps. position_occupied b q = Some False \<longrightarrow> chunk_no q \<in> chunk_no ` set acc1
          \<or> hm_get (hm_insert (chunk_no p) now pending) (chunk_no q) \<noteq> None"
      using ih by simp_all
    have new': "chunk_no q \<noteq> chunk_no p \<and> position_occupied b q = Some False \<and> hm_get pending (chunk_no q) = None"
      if "q \<in> set acc1" for q using bspec [OF new that] by (simp split: if_splits)
    then have "chunk_no p \<notin> chunk_no ` set acc1" by (metis imageE)
    moreover have "\<forall>k. hm_get pending' k = (if k \<in> chunk_no ` set acc then Some now else hm_get pending k)"
      using get unfolding acc by simp
    moreover have "chunk_no q \<in> chunk_no ` set acc \<or> hm_get pending (chunk_no q) \<noteq> None"
      if "q \<in> set (p # ps)" "position_occupied b q = Some False" for q
    proof (cases "chunk_no q = chunk_no p")
      case False
      then have "q \<in> set ps" using that(1) by auto
      from bspec [OF all this] that(2) False show ?thesis unfolding acc by (simp del: image_eqI)
    qed (simp add: acc)
    ultimately show ?thesis using props new' free unfolding acc
      by (intro conjI) (simp_all, blast+)
  qed
qed simp


text \<open>A chunk with a request younger than the lifetime of requests.\<close>

definition recently_requested :: "timestamp \<Rightarrow> streaming_from \<Rightarrow> nat \<Rightarrow> bool" where
  "recently_requested now s i \<longleftrightarrow>
     (\<exists>ts. hm_get (from_pending s) i = Some ts \<and> \<not> been_longer_than now ts PENDING_TTL_MS)"

lemma reserve_for_request_props:
  assumes "reserve_for_request now ps s = (acc, s')" and wf: "hm_wf (from_pending s)"
  shows "set acc \<subseteq> set ps \<and> distinct (map chunk_no acc) \<and> hm_wf (from_pending s')
    \<and> from_buffer s' = from_buffer s
    \<and> (\<forall>p \<in> set acc. position_occupied (from_buffer s) p = Some False \<and> \<not> recently_requested now s (chunk_no p)
        \<and> hm_get (from_pending s') (chunk_no p) = Some now)
    \<and> (\<forall>p \<in> set ps. position_occupied (from_buffer s) p = Some False \<longrightarrow>
        chunk_no p \<in> chunk_no ` set acc \<or> recently_requested now s (chunk_no p))"
proof -
  let ?p = "hm_retain (\<lambda>_ ts. \<not> been_longer_than now ts PENDING_TTL_MS) (from_pending s)"
  obtain pending' where r: "reserve_loop now (from_buffer s) ps ?p = (acc, pending')"
    and s': "s' = s\<lparr>from_pending := pending'\<rparr>"
    using assms(1) by (auto simp: reserve_for_request_def Let_def split: prod.splits)
  have none: "hm_get ?p i = None \<longleftrightarrow> \<not> recently_requested now s i" for i
    using hm_get_retain [OF wf] by (auto simp: recently_requested_def split: option.splits)
  show ?thesis using reserve_loop_props [OF r] wf unfolding s' none by simp
qed

lemma area_positions_set:
  "set (area_positions act as) = {chunk_pos i | i. in_areas as i
    \<and> \<not> (\<exists>r \<in> set act. area_contains r (unat (chunk_pos i)))}"
proof -
  have eq: "set (concat (map (\<lambda>a. map chunk_pos [fst a..<snd a]) as)) = chunk_pos ` {i. in_areas as i}"
    by (force simp: in_areas_def area_contains_def)
  show ?thesis unfolding area_positions_def set_filter list_ex_iff eq by blast
qed

text \<open>The chunk at a position inside the map.\<close>

lemma chunk_in_map:
  assumes "wb_inv b" "fits_u32 b" "i < length (wb_map b)"
  shows "unat (chunk_pos i) = i * MAX_PAYLOAD_LENGTH
    \<and> chunk_position (chunk_pos i)
    \<and> chunk_no (chunk_pos i) = i
    \<and> position_occupied b (chunk_pos i) = Some (wb_map b ! i)"
proof -
  have "i \<le> wb_len b div MAX_PAYLOAD_LENGTH" using assms by (simp add: wb_inv_def)
  then have le: "i * MAX_PAYLOAD_LENGTH \<le> wb_len b" by (simp add: less_eq_div_iff_mult_less_eq MPL_pos)
  then have "i * MAX_PAYLOAD_LENGTH < 2 ^ 32" "i * MAX_PAYLOAD_LENGTH + MAX_PAYLOAD_LENGTH < 2 ^ 32"
    using assms(2) by (simp_all add: fits_u32_def)
  moreover from this have "unat (chunk_pos i) = i * MAX_PAYLOAD_LENGTH"
    using unat_chunk_position by (simp add: chunk_pos_def)
  ultimately show ?thesis
    using le MPL_pos by (simp add: chunk_position_def chunk_no_def position_occupied_def position_to_index_def)
qed

lemma sweep_chunks:
  assumes "wb_inv (from_buffer s)" and "fits_u32 (from_buffer s)" and "hm_wf (from_pending s)"
  shows "\<exists>rs. fst (finalize_sweep_pick dbg now act s) = Ok rs
    \<and> (\<Union>r \<in> set rs. range_chunks r) = {i. in_areas (wb_invalid (from_buffer s)) i
        \<and> \<not> (\<exists>r \<in> set act. area_contains r (i * MAX_PAYLOAD_LENGTH)) \<and> \<not> recently_requested now s i}"
proof -
  let ?b = "from_buffer s"
  let ?ps = "area_positions act (wb_invalid ?b)"
  obtain acc s' where r: "reserve_for_request now ?ps s = (acc, s')" by fastforce
  have sub: "set acc \<subseteq> set ?ps" and fresh: "\<forall>p \<in> set acc. \<not> recently_requested now s (chunk_no p)"
    and all: "\<forall>p \<in> set ?ps. position_occupied ?b p = Some False \<longrightarrow>
      chunk_no p \<in> chunk_no ` set acc \<or> recently_requested now s (chunk_no p)"
    using reserve_for_request_props [OF r assms(3)] by simp_all
  note cm = chunk_in_map [OF assms(1,2)]
  have inm: "i < length (wb_map ?b) \<and> \<not> wb_map ?b ! i" if "in_areas (wb_invalid ?b) i" for i
    using that assms(1) areas_wf_above [of 0 "wb_invalid ?b"] by (auto simp: wb_inv_def)
  have ps: "set ?ps = {chunk_pos i | i. in_areas (wb_invalid ?b) i
      \<and> \<not> (\<exists>r \<in> set act. area_contains r (i * MAX_PAYLOAD_LENGTH))}"
  proof -
    have "unat (chunk_pos i) = i * MAX_PAYLOAD_LENGTH" if "in_areas (wb_invalid ?b) i" for i
      using cm inm [OF that] by blast
    then show ?thesis unfolding area_positions_set by (simp cong: conj_cong)
  qed
  have acc_at: "\<exists>i. p = chunk_pos i \<and> in_areas (wb_invalid ?b) i \<and> chunk_no p = i \<and> chunk_position p
      \<and> \<not> (\<exists>r \<in> set act. area_contains r (i * MAX_PAYLOAD_LENGTH))" if "p \<in> set acc" for p
  proof -
    have "p \<in> set ?ps" using sub that by blast
    then obtain i where i: "p = chunk_pos i" "in_areas (wb_invalid ?b) i"
      "\<not> (\<exists>r \<in> set act. area_contains r (i * MAX_PAYLOAD_LENGTH))" unfolding ps by blast
    then show ?thesis using cm [of i] inm [of i] by blast
  qed
  then have "\<forall>p \<in> set acc. chunk_position p" by blast
  then obtain rs where rs: "coalesce_byte_positions dbg acc = Ok rs"
    "(\<Union>q \<in> set rs. range_chunks q) = (\<lambda>p. unat p div MAX_PAYLOAD_LENGTH) ` set acc"
    by (rule coalesce_chunks)
  have "i \<in> chunk_no ` set acc \<longleftrightarrow> in_areas (wb_invalid ?b) i
        \<and> \<not> (\<exists>r \<in> set act. area_contains r (i * MAX_PAYLOAD_LENGTH)) \<and> \<not> recently_requested now s i"
    (is "_ \<longleftrightarrow> ?R i") for i
  proof
    assume "i \<in> chunk_no ` set acc"
    then obtain p where p: "p \<in> set acc" "i = chunk_no p" by blast
    then show "?R i" using acc_at [OF p(1)] bspec [OF fresh p(1)] by metis
  next
    assume i: "?R i"
    then have "chunk_pos i \<in> set ?ps" unfolding ps by blast
    from bspec [OF all this] show "i \<in> chunk_no ` set acc"
      using i inm [of i] cm [of i] by simp
  qed
  then have "chunk_no ` set acc = {i. in_areas (wb_invalid ?b) i
        \<and> \<not> (\<exists>r \<in> set act. area_contains r (i * MAX_PAYLOAD_LENGTH)) \<and> \<not> recently_requested now s i}"
    by (intro set_eqI) (simp only: mem_Collect_eq)
  then show ?thesis using r rs
    by (simp add: finalize_sweep_pick_def all_invalid_areas_def chunk_no_def [abs_def])
qed


text \<open>C29: The sweep at the end of a stream asks for exactly what is missing: the chunks that lie in
  an invalid area, are not inside an FEC batch in flight, and have no request younger than half a
  second. The ranges it returns stand, at the sender, for those chunks and no other.\<close>

theorem sweep_requests_exact:
  assumes "wb_inv (from_buffer s)" and "fits_u32 (from_buffer s)" and "hm_wf (from_pending s)"
  shows "\<exists>rs. fst (finalize_sweep_pick dbg now act s) = Ok rs
    \<and> (\<Union>r \<in> set rs. range_chunks r) = {i. in_areas (wb_invalid (from_buffer s)) i
        \<and> \<not> (\<exists>r \<in> set act. area_contains r (i * MAX_PAYLOAD_LENGTH)) \<and> \<not> recently_requested now s i}"
  using assms by (rule sweep_chunks)

lemma demo_stream:
  "wb_inv (wb_from [1, 2, 3]) \<and> fits_u32 (wb_from [1, 2, 3])"
  by (intro conjI wb_inv_from) (simp add: fits_u32_def wb_from_def wb_len_def Let_def MAX_PAYLOAD_LENGTH_def)

theorem sweep_requests_exact_witness:
  "\<exists>rs. fst (finalize_sweep_pick False 0 [] (streaming_from_new (wb_from [1, 2, 3]))) = Ok rs
    \<and> (\<Union>r \<in> set rs. range_chunks r) = {0}"
proof -
  have "{i. in_areas (wb_invalid (wb_from [1, 2, 3])) i} = {0}"
    by (auto simp: wb_from_def Let_def area_contains_def MAX_PAYLOAD_LENGTH_def)
  then show ?thesis
    using sweep_requests_exact [of "streaming_from_new (wb_from [1, 2, 3])" False 0 "[]"] demo_stream
    by (simp add: streaming_from_new_def recently_requested_def)
qed

text \<open>A chunk that was just asked for is not asked for again. The positions a reservation
  accepts are unfilled chunks, each once, and a later reservation within the lifetime of requests
  accepts none of these chunks, whatever positions it is given.\<close>

theorem no_request_twice:
  assumes "hm_wf (from_pending s)" and "reserve_for_request now ps s = (acc, s')"
    and "later - now \<le> PENDING_TTL_MS"
  shows "distinct (map chunk_no acc)
    \<and> (\<forall>p \<in> set acc. p \<in> set ps \<and> position_occupied (from_buffer s) p = Some False)
    \<and> chunk_no ` set acc \<inter> chunk_no ` set (fst (reserve_for_request later qs s')) = {}"
proof -
  note first = reserve_for_request_props [OF assms(2,1)]
  obtain acc2 s2 where second: "reserve_for_request later qs s' = (acc2, s2)" by fastforce
  have "chunk_no q \<notin> chunk_no ` set acc2" if "q \<in> set acc" for q
  proof -
    have "hm_get (from_pending s') (chunk_no q) = Some now" using first that by simp
    then have "recently_requested later s' (chunk_no q)"
      using assms(3) by (simp add: recently_requested_def been_longer_than_def not_less)
    then show ?thesis using reserve_for_request_props [OF second] first by (metis imageE)
  qed
  then show ?thesis using first second by auto
qed

theorem no_request_twice_witness:
  "chunk_no ` set (fst (reserve_for_request 0 [0] (streaming_from_new (wb_from [1, 2, 3]))))
    \<inter> chunk_no ` set (fst (reserve_for_request 400 [0]
        (snd (reserve_for_request 0 [0] (streaming_from_new (wb_from [1, 2, 3])))))) = {}"
  using no_request_twice [of "streaming_from_new (wb_from [1, 2, 3])" 0 "[0]" _ _ 400 "[0]"]
  by (simp add: streaming_from_new_def PENDING_TTL_MS_def PACKET_DISCARD_TIME_MS_def)

text \<open>C28: A retransmit request means the same chunks to both sides. Positions of chunks, in any
  order, are joined into byte ranges by the receiver, put into packets of at most 228 ranges, and
  split into chunks again by the sender, which notes exactly those chunks for sending, in
  ascending order and each once.\<close>

theorem request_roundtrip:
  assumes "\<forall>p \<in> set ps. chunk_position p" and "extras_inv xs"
  shows "\<exists>rs ws. coalesce_byte_positions dbg ps = Ok rs
    \<and> dispatch_retransmit_request dbg now sid addr rs = Ok ws
    \<and> (\<forall>w \<in> set ws. length (ranges_of w) \<le> 228)
    \<and> set (fold (\<lambda>w. add_retransmit_indices (ranges_of w)) ws xs) = set xs \<union> chunk_no ` set ps
    \<and> extras_inv (fold (\<lambda>w. add_retransmit_indices (ranges_of w)) ws xs)"
proof -
  obtain rs where rs: "coalesce_byte_positions dbg ps = Ok rs"
    "(\<Union>q \<in> set rs. range_chunks q) = chunk_no ` set ps"
    using coalesce_chunks [OF assms(1), of dbg] unfolding chunk_no_def [abs_def] by metis
  obtain ws where ws: "dispatch_retransmit_request dbg now sid addr rs = Ok ws"
    "map ranges_of ws = chunks 228 rs" "concat (map ranges_of ws) = rs"
    by (rule dispatch_ranges)
  have len: "\<forall>w \<in> set ws. length (ranges_of w) \<le> 228"
  proof
    fix w assume "w \<in> set ws"
    then have "ranges_of w \<in> set (chunks 228 rs)" by (metis ws(2) image_eqI list.set_map)
    then show "length (ranges_of w) \<le> 228" using chunks_length [of 228 rs] by simp
  qed
  show ?thesis using rs ws len fold_retransmit_set [of ws xs] fold_retransmit_inv [of xs ws] assms(2) by auto
qed

theorem request_roundtrip_witness:
  "\<exists>rs ws. coalesce_byte_positions False [0, 1368, 4104] = Ok rs
    \<and> dispatch_retransmit_request False 0 9 \<lparr>sa_ip = [127, 0, 0, 1], sa_port = 1\<rparr> rs = Ok ws
    \<and> set (fold (\<lambda>w. add_retransmit_indices (ranges_of w)) ws []) = {0, 1, 3}"
  using request_roundtrip [of "[0, 1368, 4104]" "[]" False 0 9 "\<lparr>sa_ip = [127, 0, 0, 1], sa_port = 1\<rparr>"]
  by (auto simp: chunk_position_def extras_inv_def MAX_PAYLOAD_LENGTH_def chunk_no_def)

text \<open>A large request loses ranges at the sender. Its packets go through the one slot of the
  stream's event channel: if they all arrive before the streaming task looks, only the ranges of
  the last packet are seen, and nothing is left to listen to.\<close>

theorem burst_loses_requests:
  assumes "length rs > 228" and "dispatch_retransmit_request dbg now sid addr rs = Ok ws"
  shows "\<exists>seen s'. shared_listen (fold (\<lambda>w. shared_update (Retransmit_Ranges (ranges_of w))) ws s)
      = (Some (Retransmit_Ranges seen), s')
    \<and> seen = last (chunks 228 rs) \<and> length seen < length rs \<and> fst (shared_listen s') = None"
proof -
  obtain ws' where "dispatch_retransmit_request dbg now sid addr rs = Ok ws'"
    and ws': "map ranges_of ws' = chunks 228 rs" by (rule dispatch_ranges)
  then have ws: "map ranges_of ws = chunks 228 rs" using assms(2) by simp
  have "chunks 228 rs \<noteq> []" using assms(1) by (subst chunks.simps) auto
  then obtain ws1 w where w: "ws = ws1 @ [w]" using ws by (cases ws rule: rev_cases) auto
  then have last: "ranges_of w = last (chunks 228 rs)" using ws by (metis last_map last_snoc snoc_eq_iff_butlast)
  have "last (chunks 228 rs) \<in> set (chunks 228 rs)" using \<open>chunks 228 rs \<noteq> []\<close> by simp
  then have "length (last (chunks 228 rs)) < length rs"
    using chunks_length [of 228 rs] assms(1) by fastforce
  then show ?thesis unfolding w by (simp add: shared_update_def shared_listen_def last)
qed

theorem burst_loses_requests_witness:
  "\<exists>seen s'. shared_listen (fold (\<lambda>w. shared_update (Retransmit_Ranges (ranges_of w)))
      (case dispatch_retransmit_request False 0 9 \<lparr>sa_ip = [127, 0, 0, 1], sa_port = 1\<rparr>
          (replicate 229 \<lparr>br_start = 0, br_length = 1368\<rparr>) of Ok ws \<Rightarrow> ws | _ \<Rightarrow> []) shared_default)
      = (Some (Retransmit_Ranges seen), s') \<and> length seen < 229"
proof -
  obtain ws where ws: "dispatch_retransmit_request False 0 9 \<lparr>sa_ip = [127, 0, 0, 1], sa_port = 1\<rparr>
      (replicate 229 \<lparr>br_start = 0, br_length = 1368\<rparr>) = Ok ws" by (rule dispatch_ranges)
  show ?thesis using burst_loses_requests [OF _ ws, of shared_default] by (auto simp: ws)
qed

text \<open>The batch numbers of a stream count from 1. The first 65535 batches of a stream get
  distinct nonzero numbers; the next one gets 0, which is not a batch number: a debug build
  panics, a release build sends it.\<close>

theorem batch_ids:
  assumes "to_current_batch t = 0" and "n < 2 ^ 16"
  shows "fst (next_batch_id dbg (((\<lambda>t. snd (next_batch_id dbg t)) ^^ n) t)) =
    (if n < 65535 then Ok (word_of_nat (n + 1)) else if dbg then Panic else Ok 0)"
proof -
  have at: "to_current_batch (((\<lambda>t. snd (next_batch_id dbg t)) ^^ n) t) = word_of_nat n" for n
    by (induction n) (simp_all add: assms(1) next_batch_id_def Let_def)
  have zero: "(word_of_nat n + 1 :: u16) = 0 \<longleftrightarrow> n = 65535"
  proof -
    have "(word_of_nat n + 1 :: u16) = word_of_nat (n + 1)" by simp
    also have "\<dots> = 0 \<longleftrightarrow> 2 ^ 16 dvd n + 1"
      by (subst word_of_nat_eq_0_iff) simp
    also have "\<dots> \<longleftrightarrow> n = 65535" using assms(2) by (auto dest: dvd_imp_le)
    finally show ?thesis .
  qed
  have "fst (next_batch_id dbg x) = batch_id_new dbg (to_current_batch x + 1)" for x
    by (simp add: next_batch_id_def Let_def)
  then have "fst (next_batch_id dbg (((\<lambda>t. snd (next_batch_id dbg t)) ^^ n) t))
      = batch_id_new dbg (word_of_nat n + 1)" by (simp only: at)
  then show ?thesis using assms(2) zero
    by (cases "n = 65535") (simp_all only: batch_id_new_def debug_assert_def of_nat_add of_nat_1, auto)
qed

theorem batch_ids_witness:
  "fst (next_batch_id False (((\<lambda>t. snd (next_batch_id False t)) ^^ 65535)
      \<lparr>to_buffer = rb_from [], to_current_batch = 0, to_event = 0\<rparr>)) = Ok 0"
  by (subst batch_ids) simp_all

end
