(* ===== verification/Repair.thy ===== *)
theory Repair imports Streams begin

text \<open>
  A stream from the sender's ticks to the receiver's memory. The ticks of \<open>send_stream_action\<close>
  (\<open>src/src/manager/state.rs\<close>) send the chunks of the source in order, then the chunks noted for
  repetition; a lossy first pass is repaired by one sweep of the receiver.
\<close>

section \<open>Ticks\<close>

text \<open>The sends of \<open>k\<close> ticks of the interval in \<open>send_on_session\<close>, without events in between.\<close>

fun stream_ticks ::
  "bool \<Rightarrow> timestamp \<Rightarrow> session_id \<Rightarrow> address \<Rightarrow> nat \<Rightarrow> extras \<Rightarrow> stream_state
     \<Rightarrow> packet_wrapper list ures \<times> extras \<times> stream_state" where
  "stream_ticks dbg now sid addr 0 xs s = (Ok [], xs, s)"
| "stream_ticks dbg now sid addr (Suc k) xs s =
     (case stream_send dbg now sid addr PACKET_COUNT_PER_BATCH xs s of
        (Ok (ps, sent), xs, s) \<Rightarrow>
          (case stream_ticks dbg now sid addr k xs s of (r, xs, s) \<Rightarrow> (map_res ((@) ps) r, xs, s))
      | (Err e, xs, s) \<Rightarrow> (Err e, xs, s)
      | (Panic, xs, s) \<Rightarrow> (Panic, xs, s))"

text \<open>The chunk a data packet carries.\<close>

definition data_of :: "packet_wrapper \<Rightarrow> (byte_position \<times> bytes) option" where
  "data_of w = (case pw_packet w of DataPacket p \<Rightarrow> Some (da_byte_range_start p, da_payload p) | _ \<Rightarrow> None)"

text \<open>The sender's buffer after \<open>j\<close> chunks.\<close>

definition rb_at :: "bytes \<Rightarrow> nat \<Rightarrow> rbuffer" where
  "rb_at src j = \<lparr>rb_buffer = src, rb_head = min (length src) (j * MAX_PAYLOAD_LENGTH)\<rparr>"

lemma rb_from_at: "rb_from src = rb_at src 0"
  by (simp add: rb_from_def rb_at_def)

lemma take_chunk:
  assumes "k * MAX_PAYLOAD_LENGTH < length src"
  shows "take (min (k * MAX_PAYLOAD_LENGTH + MAX_PAYLOAD_LENGTH) (length src) - k * MAX_PAYLOAD_LENGTH)
      (drop (k * MAX_PAYLOAD_LENGTH) src) = take MAX_PAYLOAD_LENGTH (drop (k * MAX_PAYLOAD_LENGTH) src)"
  using assms by (simp add: min_def)

lemma rb_next_at:
  "rb_next (rb_at src j) =
    (if j < chunk_count src then (Some (chunk_of src j), rb_at src (Suc j)) else (None, rb_at src j))"
proof (cases "j < chunk_count src")
  case True
  then have lt: "j * MAX_PAYLOAD_LENGTH < length src" by (simp add: chunk_count_less)
  then show ?thesis using True take_chunk [OF lt]
    by (simp add: rb_next_def rb_is_done_def rb_at_def Let_def chunk_of_def min.commute min.assoc add.commute)
next
  case False
  then have "\<not> j * MAX_PAYLOAD_LENGTH < length src" by (simp add: chunk_count_less)
  then show ?thesis using False by (simp add: rb_next_def rb_is_done_def rb_at_def)
qed

lemma rb_take_at:
  "j \<le> chunk_count src \<Longrightarrow> rb_take n (rb_at src j) =
    (map (chunk_of src) [j..<min (j + n) (chunk_count src)], rb_at src (min (j + n) (chunk_count src)))"
proof (induction n arbitrary: j)
  case (Suc n)
  show ?case
  proof (cases "j < chunk_count src")
    case True
    then have "j < min (j + Suc n) (chunk_count src)" by simp
    then show ?thesis using True Suc.IH [of "Suc j"] by (simp add: rb_next_at upt_conv_Cons)
  qed (use Suc.prems in \<open>simp add: rb_next_at\<close>)
qed simp

lemma chunk_of_length: "length (snd (chunk_of src k)) \<le> MAX_PAYLOAD_LENGTH"
  by (simp add: chunk_of_def)

lemma send_data_packets_carry:
  assumes "\<forall>c \<in> set cs. length (snd c) \<le> MAX_PAYLOAD_LENGTH"
  obtains ws where "send_data_packets dbg now sid addr batch cs = Ok ws" "map data_of ws = map Some cs"
proof -
  let ?mk = "\<lambda>(i, pos, payload). wrap (DataPacket
      \<lparr>da_version = CURRENT_VERSION, da_opts = opt_none, da_packet_type = PT_Data, da_batch_id = batch,
       da_fec_info = \<lparr>batch_size = word_of_nat (length cs), batch_pos = word_of_nat i,
         recovery_count = min RECOVERY_COUNT (word_of_nat (length cs))\<rparr>,
       da_session_id = sid, da_timestamp = now, da_byte_range_start = pos, da_payload = payload\<rparr>) addr"
  have "send_data_packets dbg now sid addr batch cs = Ok (map ?mk (zip [0..<length cs] cs))"
    unfolding send_data_packets_def Let_def
  proof (rule collect_res_map_Ok)
    fix x assume "x \<in> set (zip [0..<length cs] cs)"
    then have "snd x \<in> set cs" by (metis prod.collapse set_zip_rightD)
    then have "length (snd (snd x)) \<le> MAX_PAYLOAD_LENGTH" using assms by blast
    then show "(case x of (i, pos, payload) \<Rightarrow> map_res (\<lambda>p. wrap (DataPacket p) addr)
        (data_packet_new dbg now (opt_construct []) batch
          \<lparr>batch_size = word_of_nat (length cs), batch_pos = word_of_nat i,
           recovery_count = min RECOVERY_COUNT (word_of_nat (length cs))\<rparr> sid pos payload)) = Ok (?mk x)"
      by (auto simp: data_packet_new_def assert_opts_valid_def payload_new_def split: prod.splits)
  qed
  moreover have "data_of \<circ> ?mk = Some \<circ> snd"
    by (rule ext) (auto simp: data_of_def wrap_def)
  then have "map data_of (map ?mk (zip [0..<length cs] cs)) = map Some (map snd (zip [0..<length cs] cs))"
    by (simp only: map_map)
  ultimately show thesis using that by simp
qed


section \<open>One tick\<close>

text \<open>A stream that is sending: \<open>j\<close> chunks of the source are out, \<open>budget\<close> batch numbers are left.\<close>

definition sending :: "bytes \<Rightarrow> nat \<Rightarrow> nat \<Rightarrow> stream_state \<Rightarrow> bool" where
  "sending src j budget s \<longleftrightarrow> \<not> sm_paused (ss_stream s) \<and> \<not> sm_closed (ss_stream s)
     \<and> (\<exists>t. ss_streaming s = Streaming_To t \<and> to_buffer t = rb_at src j
           \<and> unat (to_current_batch t) + budget < 2 ^ 16)"

lemma get_chunks_sending:
  assumes "sending src j budget s" "j \<le> chunk_count src"
  shows "\<exists>s'. get_chunks n s = (Some (map (chunk_of src) [j..<min (j + n) (chunk_count src)]), s')
    \<and> sending src (min (j + n) (chunk_count src)) budget s'"
  using assms by (auto simp: sending_def get_chunks_def rb_take_at)

text \<open>What a tick sends when it has chosen some chunks.\<close>

lemma stream_send_chosen:
  assumes choose: "stream_choose dbg n xs s = (Ok (Some cs), xs', s')"
    and s': "sending src j (Suc budget) s'" and "cs \<noteq> []"
    and "\<forall>c \<in> set cs. length (snd c) \<le> MAX_PAYLOAD_LENGTH"
  obtains ws s'' where "stream_send dbg now sid addr n xs s = (Ok (ws, Some (fst (last cs))), xs', s'')"
    "map data_of ws = map Some cs" "sending src j budget s''"
proof -
  obtain t where t: "ss_streaming s' = Streaming_To t" "to_buffer t = rb_at src j"
    "unat (to_current_batch t) + Suc budget < 2 ^ 16" using s' by (auto simp: sending_def)
  have u: "unat (to_current_batch t + 1) = unat (to_current_batch t) + 1"
    using t(3) unat_add_small [of "to_current_batch t" 1] by simp
  then have "to_current_batch t + 1 \<noteq> 0" by auto
  then have b: "next_batch_id dbg t
      = (Ok (to_current_batch t + 1), t\<lparr>to_current_batch := to_current_batch t + 1\<rparr>)"
    by (simp add: next_batch_id_def Let_def batch_id_new_def)
  obtain ws where ws: "send_data_packets dbg now sid addr (to_current_batch t + 1) cs = Ok ws"
    "map data_of ws = map Some cs" by (rule send_data_packets_carry [OF assms(4)])
  let ?s = "s'\<lparr>ss_streaming := Streaming_To (t\<lparr>to_current_batch := to_current_batch t + 1\<rparr>)\<rparr>"
  have "stream_send dbg now sid addr n xs s = (Ok (ws, Some (fst (last cs))), xs', ?s)"
    using assms(3) by (simp add: stream_send_def choose t(1) b ws(1) Let_def)
  moreover have "sending src j budget ?s" using s' t(2,3) u by (auto simp: sending_def)
  ultimately show thesis using that ws(2) by blast
qed

lemma tick_fresh:
  assumes "sending src j (Suc budget) s" "j < chunk_count src" "0 < n"
  obtains ws sent s' where "stream_send dbg now sid addr n xs s = (Ok (ws, sent), xs, s')"
    "map data_of ws = map (Some \<circ> chunk_of src) [j..<min (j + n) (chunk_count src)]"
    "sending src (min (j + n) (chunk_count src)) budget s'"
proof -
  let ?cs = "map (chunk_of src) [j..<min (j + n) (chunk_count src)]"
  obtain s1 where s1: "get_chunks n s = (Some ?cs, s1)" "sending src (min (j + n) (chunk_count src)) (Suc budget) s1"
    using get_chunks_sending assms by (metis less_imp_le)
  have ne: "?cs \<noteq> []" using assms by simp
  then have ch: "stream_choose dbg n xs s = (Ok (Some ?cs), xs, s1)" by (simp add: stream_choose_def s1(1))
  have len: "\<forall>c \<in> set ?cs. length (snd c) \<le> MAX_PAYLOAD_LENGTH" by (simp add: chunk_of_length)
  obtain ws s' where "stream_send dbg now sid addr n xs s = (Ok (ws, Some (fst (last ?cs))), xs, s')"
    "map data_of ws = map Some ?cs" "sending src (min (j + n) (chunk_count src)) budget s'"
    by (rule stream_send_chosen [OF ch s1(2) ne len])
  then show thesis using that by simp
qed

lemma chunk_range_Ok:
  "chunk_range dbg i = Ok \<lparr>br_start = chunk_pos i, br_length = word_of_nat MAX_PAYLOAD_LENGTH\<rparr>"
  by (simp add: chunk_range_def byte_range_new_def MPL_u16)

lemma retransmit_chunk_at:
  assumes "k < chunk_count src" "length src + MAX_PAYLOAD_LENGTH < 2 ^ 32"
  shows "retransmit_chunk (rb_at src j) \<lparr>br_start = chunk_pos k, br_length = word_of_nat MAX_PAYLOAD_LENGTH\<rparr>
    = Some (chunk_of src k)"
proof -
  have lt: "k * MAX_PAYLOAD_LENGTH < length src" using assms(1) by (simp add: chunk_count_less)
  then have "unat (chunk_pos k) = k * MAX_PAYLOAD_LENGTH"
    using assms(2) unat_chunk_of [of k src] by (simp add: chunk_pos_def chunk_of_def)
  then show ?thesis using lt take_chunk [OF lt]
    by (simp add: retransmit_chunk_def rb_at_def rb_read_def Let_def MPL_u16 chunk_of_def chunk_pos_def)
qed

lemma tick_extras:
  assumes "sending src j (Suc budget) s" "j = chunk_count src" "0 < n" "xs \<noteq> []"
    and xs: "\<forall>k \<in> set xs. k < chunk_count src" and len: "length src + MAX_PAYLOAD_LENGTH < 2 ^ 32"
  obtains ws sent s' where "stream_send dbg now sid addr n xs s = (Ok (ws, sent), drop n xs, s')"
    "map data_of ws = map (Some \<circ> chunk_of src) (take n xs)" "sending src j budget s'"
proof -
  let ?cs = "map (chunk_of src) (take n xs)"
  obtain s1 where s1: "get_chunks n s = (Some [], s1)" "sending src j (Suc budget) s1"
    using get_chunks_sending [of src j "Suc budget" s n] assms(1,2) by auto
  have "collect_res (map (chunk_range dbg) (take n xs))
      = Ok (map (\<lambda>i. \<lparr>br_start = chunk_pos i, br_length = word_of_nat MAX_PAYLOAD_LENGTH\<rparr>) (take n xs))"
    by (rule collect_res_map_Ok) (rule chunk_range_Ok)
  moreover have "List.map_filter (retransmit_chunk (rb_at src j))
      (map (\<lambda>i. \<lparr>br_start = chunk_pos i, br_length = word_of_nat MAX_PAYLOAD_LENGTH\<rparr>) ks) = map (chunk_of src) ks"
    if "\<forall>k \<in> set ks. k < chunk_count src" for ks
    using that by (induction ks) (simp_all add: List.map_filter_simps retransmit_chunk_at [OF _ len])
  moreover have "\<forall>k \<in> set (take n xs). k < chunk_count src" using xs set_take_subset by fast
  ultimately have ch: "stream_choose dbg n xs s = (Ok (Some ?cs), drop n xs, s1)"
    using s1(2) assms(4) by (auto simp: stream_choose_def s1(1) retransmit_chunks_def sending_def)
  have ne: "?cs \<noteq> []" using assms(3,4) by simp
  have len': "\<forall>c \<in> set ?cs. length (snd c) \<le> MAX_PAYLOAD_LENGTH" by (simp add: chunk_of_length)
  obtain ws s' where "stream_send dbg now sid addr n xs s = (Ok (ws, Some (fst (last ?cs))), drop n xs, s')"
    "map data_of ws = map Some ?cs" "sending src j budget s'"
    by (rule stream_send_chosen [OF ch s1(2) ne len'])
  then show thesis using that by simp
qed

lemma tick_idle:
  assumes "sending src j budget s" "j = chunk_count src"
  shows "\<exists>s'. stream_send dbg now sid addr n [] s = (Ok ([], None), [], s') \<and> sending src j budget s'"
  using get_chunks_sending [of src j budget s n] assms
  by (auto simp: stream_send_def stream_choose_def)


section \<open>Whole passes\<close>

lemma ticks_fresh:
  "\<lbrakk> sending src j budget s; j \<le> chunk_count src; k \<le> budget; chunk_count src \<le> j + k * 28 \<rbrakk> \<Longrightarrow>
    \<exists>ws s'. stream_ticks dbg now sid addr k [] s = (Ok ws, [], s')
      \<and> map data_of ws = map (Some \<circ> chunk_of src) [j..<chunk_count src]
      \<and> sending src (chunk_count src) (budget - k) s'"
proof (induction k arbitrary: j budget s)
  case (Suc k)
  then obtain b where b: "budget = Suc b" by (cases budget) auto
  show ?case
  proof (cases "j < chunk_count src")
    case True
    let ?m = "min (j + 28) (chunk_count src)"
    obtain ws sent s1 where t: "stream_send dbg now sid addr 28 [] s = (Ok (ws, sent), [], s1)"
      "map data_of ws = map (Some \<circ> chunk_of src) [j..<?m]" "sending src ?m b s1"
      by (rule tick_fresh [of src j b s 28]) (use Suc.prems True b in auto)
    have "?m \<le> chunk_count src" "k \<le> b" "chunk_count src \<le> ?m + k * 28"
      using Suc.prems b by auto
    from Suc.IH [OF t(3) this] obtain ws' s' where
      r: "stream_ticks dbg now sid addr k [] s1 = (Ok ws', [], s')"
      "map data_of ws' = map (Some \<circ> chunk_of src) [?m..<chunk_count src]"
      "sending src (chunk_count src) (b - k) s'" by blast
    have "map data_of (ws @ ws') = map (Some \<circ> chunk_of src) ([j..<?m] @ [?m..<chunk_count src])"
      using t(2) r(2) by (simp only: map_append)
    moreover have "[j..<?m] @ [?m..<chunk_count src] = [j..<chunk_count src]"
      using True upt_add_eq_append [of j ?m "chunk_count src - ?m"] by simp
    ultimately show ?thesis using t(1) r b by (simp add: PACKET_COUNT_PER_BATCH_def)
  next
    case False
    then have j: "j = chunk_count src" using Suc.prems by simp
    obtain s1 where t: "stream_send dbg now sid addr 28 [] s = (Ok ([], None), [], s1)" "sending src j budget s1"
      using tick_idle [OF Suc.prems(1) j] by blast
    have "sending src j b s1" using t(2) b by (auto simp: sending_def)
    then show ?thesis using Suc.IH [of j b s1] Suc.prems t(1) b j by (auto simp: PACKET_COUNT_PER_BATCH_def)
  qed
qed auto

lemma ticks_extras:
  "\<lbrakk> sending src (chunk_count src) budget s; \<forall>i \<in> set xs. i < chunk_count src;
     length src + MAX_PAYLOAD_LENGTH < 2 ^ 32; k \<le> budget; length xs \<le> k * 28 \<rbrakk> \<Longrightarrow>
    \<exists>ws s'. stream_ticks dbg now sid addr k xs s = (Ok ws, [], s')
      \<and> map data_of ws = map (Some \<circ> chunk_of src) xs"
proof (induction k arbitrary: xs budget s)
  case (Suc k)
  then obtain b where b: "budget = Suc b" by (cases budget) auto
  show ?case
  proof (cases "xs = []")
    case True
    obtain s1 where t: "stream_send dbg now sid addr 28 [] s = (Ok ([], None), [], s1)"
      "sending src (chunk_count src) budget s1" using tick_idle [OF Suc.prems(1)] by blast
    then have "sending src (chunk_count src) b s1" using b by (auto simp: sending_def)
    then show ?thesis using Suc.IH [of b s1 "[]"] Suc.prems t(1) b True
      by (auto simp: PACKET_COUNT_PER_BATCH_def)
  next
    case False
    obtain ws sent s1 where t: "stream_send dbg now sid addr 28 xs s = (Ok (ws, sent), drop 28 xs, s1)"
      "map data_of ws = map (Some \<circ> chunk_of src) (take 28 xs)" "sending src (chunk_count src) b s1"
      by (rule tick_extras [of src "chunk_count src" b s 28 xs]) (use Suc.prems False b in auto)
    have "\<forall>i \<in> set (drop 28 xs). i < chunk_count src" using Suc.prems(2) set_drop_subset by fast
    moreover have "k \<le> b" "length (drop 28 xs) \<le> k * 28" using Suc.prems b by auto
    ultimately obtain ws' s' where r: "stream_ticks dbg now sid addr k (drop 28 xs) s1 = (Ok ws', [], s')"
      "map data_of ws' = map (Some \<circ> chunk_of src) (drop 28 xs)"
      using Suc.IH [OF t(3) _ Suc.prems(3)] by blast
    have "map data_of (ws @ ws') = map (Some \<circ> chunk_of src) (take 28 xs @ drop 28 xs)"
      using t(2) r(2) by (simp only: map_append)
    then show ?thesis using t(1) r(1) by (simp add: PACKET_COUNT_PER_BATCH_def)
  qed
qed auto

section \<open>Properties\<close>

text \<open>The sender's ticks send the source: with enough ticks for its chunks, 28 to a tick, the
  data packets carry exactly what the iterator of the buffer yields, in order, and nothing is
  sent twice. The batch numbers must not run out.\<close>

theorem stream_sends_source:
  assumes "ss_streaming s = Streaming_To t" and "to_buffer t = rb_from src"
    and "\<not> sm_paused (ss_stream s)" and "\<not> sm_closed (ss_stream s)"
    and "unat (to_current_batch t) + k < 2 ^ 16" and "chunk_count src \<le> k * 28"
  shows "\<exists>ws s'. stream_ticks dbg now sid addr k [] s = (Ok ws, [], s')
    \<and> map data_of ws = map Some (rb_drain (rb_from src))"
proof -
  have "sending src 0 k s" using assms by (auto simp: sending_def rb_from_at)
  then show ?thesis using ticks_fresh [of src 0 k s k dbg now sid addr] assms(6)
    by (auto simp: rb_drain_chunks)
qed

definition demo_sender :: "bytes \<Rightarrow> stream_state" where
  "demo_sender src = \<lparr>ss_streaming = Streaming_To \<lparr>to_buffer = rb_from src, to_current_batch = 0, to_event = 0\<rparr>,
     ss_stream = stream_message_default, ss_fec = []\<rparr>"

definition demo_address :: address where
  "demo_address = \<lparr>sa_ip = [127, 0, 0, 1], sa_port = 1\<rparr>"

theorem stream_sends_source_witness:
  "\<exists>ws s'. stream_ticks True 0 9 demo_address 1 [] (demo_sender [1, 2, 3]) = (Ok ws, [], s')
    \<and> map data_of ws = [Some (0, [1, 2, 3])]"
  using stream_sends_source [of "demo_sender [1, 2, 3]" _ "[1, 2, 3]" 1 True 0 9 demo_address]
  by (simp add: demo_sender_def stream_message_default_def rb_drain_chunks chunk_count_def chunk_of_def
      MAX_PAYLOAD_LENGTH_def)

lemma map_filter_carried: "map f xs = map Some ys \<Longrightarrow> List.map_filter f xs = ys"
  by (induction xs arbitrary: ys) (auto simp: List.map_filter_simps Cons_eq_map_conv)

text \<open>C27: A lossy stream is repaired in one round. Whatever part of the chunks arrived, in any order
  and any number of times, one sweep of the receiver asks for the chunks it misses; once the
  sender has taken in all the packets of the request, one after the other, and has nothing else to send, its next ticks send them, and
  after these the receiver's memory is the source and the stream is done. The length is not a
  multiple of the chunk size, and no FEC batch is in flight.\<close>

theorem lossy_stream_repaired:
  assumes len: "length mem = length src" "length src + MAX_PAYLOAD_LENGTH < 2 ^ 32"
    "length src mod MAX_PAYLOAD_LENGTH \<noteq> 0"
    and arrived: "set cs \<subseteq> set (rb_drain (rb_from src))"
    and sender: "ss_streaming s = Streaming_To t" "to_buffer t = rb_at src (chunk_count src)"
    "\<not> sm_paused (ss_stream s)" "\<not> sm_closed (ss_stream s)"
    and ticks: "unat (to_current_batch t) + k < 2 ^ 16" "chunk_count src \<le> k * 28"
  shows "\<exists>rs ws ps. fst (finalize_sweep_pick dbg later [] (streaming_from_new (write_chunks dbg cs (wb_from mem)))) = Ok rs
    \<and> dispatch_retransmit_request dbg later sid addr rs = Ok ws
    \<and> fst (stream_ticks dbg now sid addr k (fold (\<lambda>w. add_retransmit_indices (ranges_of w)) ws []) s) = Ok ps
    \<and> wb_data (write_chunks dbg (List.map_filter data_of ps) (write_chunks dbg cs (wb_from mem))) = src
    \<and> wb_is_done (write_chunks dbg (List.map_filter data_of ps) (write_chunks dbg cs (wb_from mem)))"
proof -
  let ?b = "write_chunks dbg cs (wb_from mem)"
  have "cs \<in> lists (chunk_of src ` {..<chunk_count src})"
    using arrived by (auto simp: rb_drain_chunks)
  then obtain ns where "cs = map (chunk_of src) ns" "ns \<in> lists {..<chunk_count src}"
    unfolding lists_image by blast
  then have ns: "cs = map (chunk_of src) ns" "set ns \<subseteq> {..<chunk_count src}" by auto
  have b: "tr_inv src (set ns) ?b"
    using tr_inv_write_chunks [OF tr_inv_init [OF len(1)] len(2) ns(2)] by (simp add: ns(1))
  then have inv: "wb_inv ?b" and bl: "wb_len ?b = length src"
    and mk: "\<forall>k < length (wb_map ?b). wb_map ?b ! k \<longleftrightarrow> k \<in> set ns" by (auto simp: tr_inv_def)
  have fits: "fits_u32 ?b" using len(2) bl by (simp add: fits_u32_def)
  have cc: "chunk_count src = length src div MAX_PAYLOAD_LENGTH + 1"
  proof -
    let ?q = "length src div MAX_PAYLOAD_LENGTH"
    have n: "?q * MAX_PAYLOAD_LENGTH + length src mod MAX_PAYLOAD_LENGTH = length src"
      by (rule div_mult_mod_eq)
    then have "?q < chunk_count src" using len(3) unfolding chunk_count_less by linarith
    moreover have "\<not> Suc ?q < chunk_count src"
      using n mod_less_divisor [OF MPL_pos, of "length src"] unfolding chunk_count_less mult_Suc by linarith
    ultimately show ?thesis by simp
  qed
  then have mc: "length (wb_map ?b) = chunk_count src" using inv bl by (simp add: wb_inv_def)
  have missing: "{i. in_areas (wb_invalid ?b) i} = {..<chunk_count src} - set ns"
    using inv mk mc areas_wf_above [of 0 "wb_invalid ?b"] by (auto simp: wb_inv_def)
  obtain rs where rs: "fst (finalize_sweep_pick dbg later [] (streaming_from_new ?b)) = Ok rs"
    "(\<Union>r \<in> set rs. range_chunks r) = {..<chunk_count src} - set ns"
    using sweep_chunks [of "streaming_from_new ?b" dbg later "[]"] inv fits missing
    by (auto simp: streaming_from_new_def recently_requested_def)
  obtain ws where ws: "dispatch_retransmit_request dbg later sid addr rs = Ok ws"
    "concat (map ranges_of ws) = rs" by (rule dispatch_ranges)
  define xs where "xs = fold (\<lambda>w. add_retransmit_indices (ranges_of w)) ws []"
  have xs: "set xs = {..<chunk_count src} - set ns" "distinct xs"
    using fold_retransmit_set [of ws "[]"] fold_retransmit_inv [of "[]" ws] ws(2) rs(2)
    by (simp_all add: xs_def extras_inv_def)
  then have "length xs \<le> chunk_count src"
    using card_mono [of "{..<chunk_count src}" "set xs"] distinct_card [OF xs(2)] by auto
  moreover have "sending src (chunk_count src) k s" using sender ticks by (auto simp: sending_def)
  moreover have "\<forall>i \<in> set xs. i < chunk_count src" using xs by simp
  ultimately obtain ps s' where ps: "stream_ticks dbg now sid addr k xs s = (Ok ps, [], s')"
    "map data_of ps = map (Some \<circ> chunk_of src) xs"
    using ticks_extras [of src k s xs k dbg now sid addr] len(2) ticks(2) by auto
  have "List.map_filter data_of ps = map (chunk_of src) xs"
    using ps(2) by (intro map_filter_carried) simp
  moreover have "tr_inv src (set xs \<union> set ns) (write_chunks dbg (map (chunk_of src) xs) ?b)"
    by (rule tr_inv_write_chunks [OF b len(2)]) (simp add: xs(1))
  moreover have "set xs \<union> set ns = {..<chunk_count src}" using xs ns by auto
  ultimately show ?thesis
    using tr_inv_complete rs(1) ws(1) ps(1) len(3) unfolding xs_def by fastforce
qed

theorem lossy_stream_repaired_witness:
  "\<exists>rs ws ps. fst (finalize_sweep_pick False 0 [] (streaming_from_new (write_chunks False [] (wb_from [0, 0, 0])))) = Ok rs
    \<and> dispatch_retransmit_request False 0 9 demo_address rs = Ok ws
    \<and> fst (stream_ticks False 0 9 demo_address 1 (fold (\<lambda>w. add_retransmit_indices (ranges_of w)) ws [])
        (snd (get_chunks 1 (demo_sender [1, 2, 3])))) = Ok ps
    \<and> wb_data (write_chunks False (List.map_filter data_of ps) (write_chunks False [] (wb_from [0, 0, 0]))) = [1, 2, 3]
    \<and> wb_is_done (write_chunks False (List.map_filter data_of ps) (write_chunks False [] (wb_from [0, 0, 0])))"
proof -
  have g: "rb_next (rb_at [1, 2, 3] 0) = (Some (chunk_of [1, 2, 3] 0), rb_at [1, 2, 3] 1)"
    by (simp add: rb_next_at chunk_count_def MAX_PAYLOAD_LENGTH_def)
  show ?thesis
    by (rule lossy_stream_repaired [of _ "[1, 2, 3]" _ _
          "\<lparr>to_buffer = rb_at [1, 2, 3] 1, to_current_batch = 0, to_event = 0\<rparr>"])
      (simp_all add: MAX_PAYLOAD_LENGTH_def chunk_count_def get_chunks_def demo_sender_def rb_from_at g
        stream_message_default_def)
qed

end
