(* ===== verification/Fec_Recovery.thy ===== *)
theory Fec_Recovery imports Fec begin

text \<open>
  Correctness of the XOR strategy: the contents of a block, the invariant of an inbound
  batch, and the recovery of a lost packet through the operations of the two peers.
\<close>

section \<open>Blocks and packets\<close>

lemma FEC_DATA_SIZE_eq: "FEC_DATA_SIZE = 1374"
  by (simp add: FEC_DATA_SIZE_def PARITY_MAX_PAYLOAD_LENGTH_def MAX_PAYLOAD_LENGTH_def)

text \<open>The block of a data packet: position, payload (or zeros, in a release build), length.\<close>

definition block_payload :: "bool \<Rightarrow> bytes \<Rightarrow> bytes" where
  "block_payload dbg pl = (if dbg then pl else replicate (length pl) 0)"

definition block_of :: "bool \<Rightarrow> data_packet \<Rightarrow> bytes" where
  "block_of dbg p =
     int_bytes (da_byte_range_start p) @ block_payload dbg (da_payload p)
     @ replicate (MAX_PAYLOAD_LENGTH - length (da_payload p)) 0
     @ int_bytes (word_of_nat (length (da_payload p)) :: u16)"

lemma length_block_payload [simp]: "length (block_payload dbg pl) = length pl"
  by (simp add: block_payload_def)

lemma is_block_of [simp]: "length (da_payload p) \<le> MAX_PAYLOAD_LENGTH \<Longrightarrow> is_block (block_of dbg p)"
  by (simp add: block_of_def FEC_DATA_SIZE_eq MAX_PAYLOAD_LENGTH_def)

lemma fec_data_of_eq:
  assumes "length (da_payload p) \<le> MAX_PAYLOAD_LENGTH"
  shows "fec_data_of dbg p = Ok (block_of dbg p)"
proof (cases dbg)
  case True
  then show ?thesis using assms
    by (simp add: fec_data_of_def block_of_def block_payload_def fec_data_zero_def int_serialize_def
        int_sized_def vec_serialize_def FEC_DATA_SIZE_eq MAX_PAYLOAD_LENGTH_def Let_def)
next
  case False
  have "replicate (length (da_payload p)) (0 :: u8) @ replicate (1368 - length (da_payload p)) 0
          = replicate 1368 0"
    using assms by (simp add: replicate_add [symmetric] MAX_PAYLOAD_LENGTH_def)
  then show ?thesis using assms False
    by (simp add: fec_data_of_def block_of_def block_payload_def fec_data_zero_def int_serialize_def
        int_sized_def FEC_DATA_SIZE_eq MAX_PAYLOAD_LENGTH_def Let_def flip: append_assoc)
qed

lemma recovered_of_block:
  assumes "length (da_payload p) \<le> MAX_PAYLOAD_LENGTH"
  shows "recovered_of (block_of dbg p) =
     Ok \<lparr>rp_byte_range_start = da_byte_range_start p, rp_payload = block_payload dbg (da_payload p)\<rparr>"
proof -
  have n: "unat (word_of_nat (length (da_payload p)) :: u16) = length (da_payload p)"
    using assms by (simp add: unat_of_nat MAX_PAYLOAD_LENGTH_def)
  show ?thesis using assms
    by (simp add: recovered_of_def block_of_def MAX_PAYLOAD_LENGTH_def n)
qed

lemma fec_of_parity_block:
  "is_block (pa_payload pp) \<Longrightarrow> fp_data (fec_of_parity pp) = pa_payload pp"
  by (simp add: fec_of_parity_def vec_serialize_def fec_data_zero_def)

section \<open>Batch masks\<close>

lemma mask_clear_bit: "mask_clear m pos \<longleftrightarrow> \<not> bit (m ! unat (pos div 128)) (unat (pos mod 128))"
  by (simp add: mask_clear_def and_one_eq even_drop_bit_iff_not_bit flip: even_iff_mod_2_eq_zero)

lemma pos_div_mod: "unat (pos div 128 :: u8) = unat pos div 128" "unat (pos mod 128 :: u8) = unat pos mod 128"
  by (simp_all add: unat_div unat_mod)

lemma pos_div_less: "unat (pos div 128 :: u8) < 2"
proof -
  have "unat pos < 256" using unsigned_less [of pos] by simp
  then show ?thesis by (simp add: pos_div_mod less_mult_imp_div_less)
qed

lemma pos_eqI:
  "\<lbrakk> unat (p div 128 :: u8) = unat (q div 128); unat (p mod 128) = unat (q mod 128) \<rbrakk> \<Longrightarrow> p = q"
  by (metis pos_div_mod div_mult_mod_eq word_unat_eq_iff)

lemma mask_clear_set [simp]:
  assumes "length m = 2"
  shows "mask_clear (mask_set m pos) q \<longleftrightarrow> q \<noteq> pos \<and> mask_clear m q"
proof -
  have "unat pos mod 128 < 128" by simp
  then show ?thesis
    using assms pos_div_less [of pos] pos_eqI [of q pos]
    by (auto simp: mask_clear_bit mask_set_def nth_list_update bit_simps pos_div_mod)
qed

lemma length_mask_set [simp]: "length (mask_set m pos) = length m"
  by (simp add: mask_set_def)

lemma mask_clear_new [simp]: "mask_clear [0, 0] q"
  using pos_div_less [of q] by (auto simp: mask_clear_bit less_2_cases_iff dest!: less_2_cases)

section \<open>Inbound batches\<close>

abbreviation data_of :: "fec_packet list \<Rightarrow> fec_packet list" where
  "data_of L \<equiv> filter (\<lambda>p. \<not> fp_is_parity p) L"

abbreviation fp_pos :: "fec_packet \<Rightarrow> u8" where
  "fp_pos p \<equiv> batch_pos (fp_fec_info p)"

text \<open>The batch a receiver holds after the packets \<open>L\<close>, in the order they arrived.\<close>

definition batch_holds :: "u8 \<Rightarrow> fec_packet list \<Rightarrow> inbound_batch \<Rightarrow> bool" where
  "batch_holds n L b \<longleftrightarrow>
     ib_batch_size b = n \<and> length (ib_mask b) = 2
     \<and> ib_data_received b = word_of_nat (length (data_of L))
     \<and> ib_product b = foldl data_xor fec_data_zero (map fp_data (data_of L))
     \<and> (\<forall>q. mask_clear (ib_mask b) q \<longleftrightarrow> q \<notin> fp_pos ` set (data_of L))
     \<and> ib_parity b = (case filter fp_is_parity L of [] \<Rightarrow> None | p # _ \<Rightarrow> Some (fp_data p))"

lemma batch_holds_new: "batch_holds n [] (inbound_new now n)"
  by (simp add: batch_holds_def inbound_new_def)

lemma inbound_add_holds:
  assumes b: "batch_holds n L b" and p: "\<not> fp_is_parity p"
    and pos: "fp_pos p \<notin> fp_pos ` set (data_of L)" and len: "length (data_of L) < unat n"
  shows "batch_holds n (L @ [p]) (snd (inbound_add p b))"
proof -
  have "length (data_of L) < 256" using len unat_u8_less [of n] by simp
  then have "(word_of_nat (length (data_of L)) :: u8) < n"
    using len by (simp add: word_less_nat_alt unat_of_nat)
  then show ?thesis using b p pos
    by (auto simp: batch_holds_def inbound_add_def Let_def split: option.splits list.splits)
qed

lemma inbound_parity_holds:
  "\<lbrakk> batch_holds n L b; fp_is_parity p \<rbrakk> \<Longrightarrow>
   batch_holds n (L @ [p]) (snd (inbound_parity (fp_data p) b))"
  by (auto simp: batch_holds_def inbound_parity_def split: list.splits)

text \<open>A packet whose position the batch already holds changes nothing.\<close>

lemma inbound_add_duplicate:
  "\<lbrakk> batch_holds n L b; fp_pos p \<in> fp_pos ` set (data_of L) \<rbrakk> \<Longrightarrow> inbound_add p b = (False, b)"
  by (auto simp: batch_holds_def inbound_add_def Let_def)

section \<open>Runs of the two peers\<close>

definition xor_receive_all :: "bool \<Rightarrow> timestamp \<Rightarrow> fec_packet list \<Rightarrow> xor_state \<Rightarrow> xor_state" where
  "xor_receive_all dbg now L st = foldl (\<lambda>st p. snd (xor_received dbg now p st)) st L"

fun xor_send_all ::
  "bool \<Rightarrow> timestamp \<Rightarrow> data_packet list \<Rightarrow> xor_state \<Rightarrow> parity_packet list option ures list \<times> xor_state" where
  "xor_send_all dbg now [] st = ([], st)"
| "xor_send_all dbg now (p # ps) st =
     (case fec_of_data dbg p of
        Ok f \<Rightarrow> (let (r, st') = xor_sent dbg now f st; (rs, st'') = xor_send_all dbg now ps st'
                 in (r # rs, st''))
      | _ \<Rightarrow> ([Panic], st))"

definition entry_of :: "timestamp \<Rightarrow> u8 \<Rightarrow> map_key \<Rightarrow> xor_state \<Rightarrow> inbound_batch" where
  "entry_of now n k st = (case hm_get (xs_inbound st) k of Some e \<Rightarrow> e | None \<Rightarrow> inbound_new now n)"

lemma receive_step:
  assumes "fec_key p = k" "batch_size (fp_fec_info p) = n"
  shows "hm_get (xs_inbound (snd (xor_received dbg now p st))) k = Some
    (if fp_is_parity p then snd (inbound_parity (fp_data p) (entry_of now n k st))
     else snd (inbound_add p (entry_of now n k st)))"
  using assms by (auto simp: xor_received_def entry_of_def Let_def cong: option.case_cong)

lemma receive_all_holds:
  assumes "\<forall>p \<in> set L. fec_key p = k \<and> batch_size (fp_fec_info p) = n"
    and "distinct (map fp_pos (data_of L))" "length (data_of L) \<le> unat n"
    and "hm_get (xs_inbound st) k = None"
  shows "batch_holds n L (entry_of now n k (xor_receive_all dbg now L st))
     \<and> (L \<noteq> [] \<longrightarrow> hm_get (xs_inbound (xor_receive_all dbg now L st)) k \<noteq> None)"
  using assms
proof (induction L rule: rev_induct)
  case Nil
  then show ?case by (simp add: entry_of_def xor_receive_all_def batch_holds_new)
next
  case (snoc p L)
  let ?st = "xor_receive_all dbg now L st"
  let ?b = "entry_of now n k ?st"
  let ?b' = "if fp_is_parity p then snd (inbound_parity (fp_data p) ?b) else snd (inbound_add p ?b)"
  have k: "fec_key p = k" "batch_size (fp_fec_info p) = n" using snoc.prems(1) by auto
  have b: "batch_holds n L ?b"
    using snoc by (auto split: if_splits)
  have b': "batch_holds n (L @ [p]) ?b'"
    using b snoc.prems(2,3) inbound_add_holds [OF b, of p] inbound_parity_holds [OF b, of p]
    by (auto split: if_splits)
  have "hm_get (xs_inbound (xor_receive_all dbg now (L @ [p]) st)) k = Some ?b'"
    using receive_step [OF k, of dbg now ?st] by (simp add: xor_receive_all_def)
  then show ?case using b' by (simp add: entry_of_def)
qed

text \<open>The FEC packet of a data packet, where its payload fits a block.\<close>

definition fec_block :: "bool \<Rightarrow> data_packet \<Rightarrow> fec_packet" where
  "fec_block dbg p =
     \<lparr>fp_is_parity = False, fp_session_id = da_session_id p, fp_batch_id = da_batch_id p,
      fp_fec_info = da_fec_info p, fp_data = block_of dbg p\<rparr>"

lemma fec_of_data_block:
  "length (da_payload p) \<le> MAX_PAYLOAD_LENGTH \<Longrightarrow> fec_of_data dbg p = Ok (fec_block dbg p)"
  by (simp add: fec_of_data_def fec_data_of_eq fec_block_def)

text \<open>What the packets of one outbound batch have in common.\<close>

definition one_batch :: "batch_id \<Rightarrow> session_id \<Rightarrow> data_packet list \<Rightarrow> bool" where
  "one_batch bid sid ps \<longleftrightarrow>
     length ps < 255 \<and> distinct (map (\<lambda>p. batch_pos (da_fec_info p)) ps)
     \<and> (\<forall>p \<in> set ps. da_batch_id p = bid \<and> da_session_id p = sid
          \<and> batch_size (da_fec_info p) = word_of_nat (length ps)
          \<and> length (da_payload p) \<le> MAX_PAYLOAD_LENGTH)"

definition parity_of :: "bool \<Rightarrow> timestamp \<Rightarrow> batch_id \<Rightarrow> session_id \<Rightarrow> data_packet list \<Rightarrow> parity_packet" where
  "parity_of dbg now bid sid ps =
     \<lparr>pa_version = CURRENT_VERSION, pa_opts = opt_none, pa_packet_type = PT_Parity,
      pa_batch_id = bid,
      pa_fec_info = \<lparr>batch_size = word_of_nat (length ps), batch_pos = 0, recovery_count = 1\<rparr>,
      pa_session_id = sid, pa_timestamp = now,
      pa_payload = foldl data_xor fec_data_zero (map (block_of dbg) ps)\<rparr>"

lemma outbound_step:
  assumes "hm_get (xs_outbound st) (bid, sid) =
      (if pre = [] then None else Some \<lparr>ob_product = foldl data_xor fec_data_zero (map (block_of dbg) pre),
         ob_batch_size = n, ob_current_size = length pre\<rparr>)"
    and "da_batch_id p = bid" "da_session_id p = sid" "unat (batch_size (da_fec_info p)) = n"
    and "length pre + 1 < n"
  shows "fst (xor_sent dbg now (fec_block dbg p) st) = Ok None"
    and "hm_get (xs_outbound (snd (xor_sent dbg now (fec_block dbg p) st))) (bid, sid) =
      Some \<lparr>ob_product = foldl data_xor fec_data_zero (map (block_of dbg) (pre @ [p])),
         ob_batch_size = n, ob_current_size = length (pre @ [p])\<rparr>"
  using assms
  by (auto simp: xor_sent_def fec_block_def fec_key_def outbound_add_def outbound_new_def Let_def)

lemma outbound_last:
  assumes "hm_get (xs_outbound st) (bid, sid) =
      (if pre = [] then None else Some \<lparr>ob_product = foldl data_xor fec_data_zero (map (block_of dbg) pre),
         ob_batch_size = n, ob_current_size = length pre\<rparr>)"
    and b: "one_batch bid sid (pre @ [p])" and n: "n = length (pre @ [p])"
  shows "fst (xor_sent dbg now (fec_block dbg p) st) = Ok (Some [parity_of dbg now bid sid (pre @ [p])])"
    and "hm_get (xs_outbound (snd (xor_sent dbg now (fec_block dbg p) st))) (bid, sid) = None"
proof -
  let ?prod = "foldl data_xor fec_data_zero (map (block_of dbg) (pre @ [p]))"
  have p: "da_batch_id p = bid" "da_session_id p = sid"
      "batch_size (da_fec_info p) = word_of_nat n" and len: "length pre + 1 < 255"
    using b by (simp_all add: one_batch_def n)
  have un: "unat (word_of_nat n :: u8) = n" using len by (simp add: unat_of_nat n del: of_nat_Suc)
  have info: "fec_info_new dbg (word_of_nat n) 0 1
      = (Ok \<lparr>batch_size = word_of_nat n, batch_pos = 0, recovery_count = 1\<rparr> :: fec_info ures)"
  proof -
    have small: "n < 255" "0 < n" using len n by simp_all
    then have "unat (word_of_nat n + 1 :: u8) = n + 1"
      using un by (simp add: unat_add_small)
    then show ?thesis using un small
      by (simp add: fec_info_new_def word_less_nat_alt word_le_nat_alt)
  qed
  have "is_block ?prod"
    using b by (intro blocks.foldl_block) (auto simp: blocks.zero_block one_batch_def)
  then have pp: "parity_packet_new dbg now opt_none bid
      \<lparr>batch_size = word_of_nat n, batch_pos = 0, recovery_count = 1\<rparr> sid ?prod
      = Ok (parity_of dbg now bid sid (pre @ [p]))"
    by (simp add: parity_packet_new_def assert_opts_valid_def parity_payload_new_def
        FEC_DATA_SIZE_def parity_of_def n)
  show "fst (xor_sent dbg now (fec_block dbg p) st) = Ok (Some [parity_of dbg now bid sid (pre @ [p])])"
    using assms(1) pp info un
    by (auto simp: xor_sent_def fec_block_def fec_key_def outbound_add_def outbound_new_def Let_def p n)
  show "hm_get (xs_outbound (snd (xor_sent dbg now (fec_block dbg p) st))) (bid, sid) = None"
    using assms(1) un
    by (auto simp: xor_sent_def fec_block_def fec_key_def outbound_add_def outbound_new_def Let_def p n)
qed

lemma send_all_run:
  assumes "hm_get (xs_outbound st) (bid, sid) =
      (if pre = [] then None else Some \<lparr>ob_product = foldl data_xor fec_data_zero (map (block_of dbg) pre),
         ob_batch_size = length (pre @ ps), ob_current_size = length pre\<rparr>)"
    and "one_batch bid sid (pre @ ps)" "ps \<noteq> []"
  shows "fst (xor_send_all dbg now ps st)
    = replicate (length ps - 1) (Ok None) @ [Ok (Some [parity_of dbg now bid sid (pre @ ps)])]"
  using assms
proof (induction ps arbitrary: pre st)
  case (Cons p ps)
  have p: "length (da_payload p) \<le> MAX_PAYLOAD_LENGTH" "da_batch_id p = bid" "da_session_id p = sid"
      "unat (batch_size (da_fec_info p)) = length (pre @ p # ps)"
    using Cons.prems(2) by (auto simp: one_batch_def unat_of_nat simp del: of_nat_Suc of_nat_add)
  show ?case
  proof (cases "ps = []")
    case True
    have "one_batch bid sid (pre @ [p])" using Cons.prems(2) True by simp
    then show ?thesis
      using outbound_last(1) [of st bid sid pre dbg "length (pre @ [p])" p now] Cons.prems(1) True p(1)
      by (auto simp: fec_of_data_block Let_def split: prod.splits)
  next
    case False
    let ?st = "snd (xor_sent dbg now (fec_block dbg p) st)"
    have lt: "length pre + 1 < length (pre @ p # ps)" using False by (cases ps) auto
    have step: "fst (xor_sent dbg now (fec_block dbg p) st) = Ok None"
      "hm_get (xs_outbound ?st) (bid, sid) =
      Some \<lparr>ob_product = foldl data_xor fec_data_zero (map (block_of dbg) (pre @ [p])),
         ob_batch_size = length (pre @ p # ps), ob_current_size = length (pre @ [p])\<rparr>"
      using outbound_step [OF Cons.prems(1) p(2-4) lt, of now] by simp_all
    have rest: "fst (xor_send_all dbg now ps ?st)
        = replicate (length ps - 1) (Ok None) @ [Ok (Some [parity_of dbg now bid sid ((pre @ [p]) @ ps)])]"
      using Cons.prems(2) False by (intro Cons.IH) (simp_all add: step)
    have "fst (xor_send_all dbg now (p # ps) st)
        = fst (xor_sent dbg now (fec_block dbg p) st) # fst (xor_send_all dbg now ps ?st)"
      using p(1) by (simp add: fec_of_data_block Let_def split: prod.splits)
    then show ?thesis using rest step(1) False
      by (cases ps) simp_all
  qed
qed simp

lemma send_all_parity:
  assumes "one_batch bid sid ps" "ps \<noteq> []" "hm_get (xs_outbound st) (bid, sid) = None"
  shows "fst (xor_send_all dbg now ps st)
    = replicate (length ps - 1) (Ok None) @ [Ok (Some [parity_of dbg now bid sid ps])]"
  using send_all_run [where ps = ps and pre = "[]"] assms by simp

section \<open>Recovery\<close>

lemma fec_ds_blocks:
  assumes "one_batch bid sid ps" "mset ps = mset (lost # qs)" "map (fec_of_data dbg) qs = map Ok ds"
  shows "ds = map (fec_block dbg) qs"
proof -
  have "set qs \<subseteq> set ps" using assms(2) by (metis list.set_intros(2) set_mset_mset subsetI)
  then have "map (fec_of_data dbg) qs = map (\<lambda>p. Ok (fec_block dbg p)) qs"
    using assms(1) by (auto simp: one_batch_def fec_of_data_block)
  then have "map (Ok :: fec_packet \<Rightarrow> fec_packet ures) ds = map Ok (map (fec_block dbg) qs)"
    using assms(3) by simp
  then show ?thesis by (simp only: inj_map_eq_map inj_def res.inject simp_thms)
qed

lemma arrived_packets:
  assumes lost: "mset ps = mset (lost # qs)"
    and arr: "mset arrivals = mset (fec_of_parity (parity_of dbg now bid sid ps) # map (fec_block dbg) qs)"
  shows "mset (data_of arrivals) = mset (map (fec_block dbg) qs)"
    and "filter fp_is_parity arrivals = [fec_of_parity (parity_of dbg now bid sid ps)]"
    and "length (data_of arrivals) = length qs" "length ps = Suc (length qs)"
proof -
  let ?pp = "fec_of_parity (parity_of dbg now bid sid ps)"
  have "mset (data_of arrivals) = filter_mset (\<lambda>p. \<not> fp_is_parity p) (mset arrivals)" by simp
  then show data: "mset (data_of arrivals) = mset (map (fec_block dbg) qs)"
    by (simp add: arr fec_of_parity_def fec_block_def filter_mset_image_mset)
  have "mset (filter fp_is_parity arrivals) = filter_mset fp_is_parity (mset arrivals)" by simp
  then have "mset (filter fp_is_parity arrivals) = {#?pp#}"
    by (simp add: arr fec_of_parity_def fec_block_def filter_mset_image_mset)
  then show "filter fp_is_parity arrivals = [?pp]" by (simp del: mset_filter)
  show "length (data_of arrivals) = length qs" using data by (metis length_map size_mset)
  show "length ps = Suc (length qs)" using lost by (metis length_Cons size_mset)
qed

text \<open>A batch that holds the parity and all packets but one gives back the block of that one.\<close>

lemma held_batch_recovers:
  assumes ps: "one_batch bid sid ps" and lost: "mset ps = mset (lost # qs)"
    and arr: "mset arrivals = mset (fec_of_parity (parity_of dbg now bid sid ps) # map (fec_block dbg) qs)"
    and b: "batch_holds (word_of_nat (length ps)) arrivals b"
  shows "inbound_recover b = Some (block_of dbg lost)" and "ib_batch_size b \<noteq> 0"
    and "ib_data_received b = ib_batch_size b - 1 \<and> ib_parity b \<noteq> None"
proof -
  let ?n = "word_of_nat (length ps) :: u8"
  note arrived = arrived_packets [OF lost arr]
  have un: "unat ?n = length ps" using ps by (simp add: one_batch_def unat_of_nat)
  have sub: "set qs \<subseteq> set ps" using lost by (metis list.set_intros(2) set_mset_mset subsetI)
  have blks: "\<forall>c \<in> set (map (block_of dbg) ps). is_block c"
    using ps by (auto simp: one_batch_def)
  have prod: "ib_product b = foldl data_xor fec_data_zero (map (block_of dbg) qs)"
  proof -
    have "mset (map fp_data (data_of arrivals)) = mset (map (block_of dbg) qs)"
      using arrived(1) by (metis (no_types, lifting) ext fec_block_def fec_packet.select_convs(5) list.map_comp
          comp_apply mset_map)
    moreover have "\<forall>c \<in> set (map (block_of dbg) qs). is_block c" using blks sub by auto
    ultimately have "foldl data_xor fec_data_zero (map (block_of dbg) qs)
        = foldl data_xor fec_data_zero (map fp_data (data_of arrivals))"
      by (intro blocks.foldl_mset) simp_all
    moreover have "ib_product b = foldl data_xor fec_data_zero (map fp_data (data_of arrivals))"
      using b by (simp only: batch_holds_def)
    ultimately show ?thesis by simp
  qed
  have "is_block (foldl data_xor fec_data_zero (map (block_of dbg) ps))"
    using blks by (intro blocks.foldl_block) (auto simp: blocks.zero_block)
  then have parity: "ib_parity b = Some (foldl data_xor fec_data_zero (map (block_of dbg) ps))"
    using b arrived(2) by (simp add: batch_holds_def fec_of_parity_block parity_of_def)
  have xor: "data_xor (ib_product b) (foldl data_xor fec_data_zero (map (block_of dbg) ps)) = block_of dbg lost"
    unfolding prod using lost blks by (intro blocks.missing_block) simp_all
  have size: "ib_batch_size b = ?n" "ib_data_received b = word_of_nat (length qs)"
    using b arrived(3) by (simp_all only: batch_holds_def)
  then have full: "ib_data_received b = ib_batch_size b - 1" by (simp add: arrived(4))
  then show "inbound_recover b = Some (block_of dbg lost)" by (simp add: inbound_recover_def parity xor)
  show "ib_batch_size b \<noteq> 0"
  proof
    assume "ib_batch_size b = 0"
    then have "unat ?n = 0" using size by simp
    then show False using un arrived(4) by linarith
  qed
  show "ib_data_received b = ib_batch_size b - 1 \<and> ib_parity b \<noteq> None" using full parity by simp
qed

lemma recover_lost:
  assumes ps: "one_batch bid sid ps" and lost: "mset ps = mset (lost # qs)"
    and arr: "mset arrivals = mset (fec_of_parity (parity_of dbg now bid sid ps) # map (fec_block dbg) qs)"
    and st: "hm_get (xs_inbound st) (bid, sid) = None"
  shows "fst (xor_recover dbg bid sid (xor_receive_all dbg now' arrivals st))
    = Ok (Some [\<lparr>rp_byte_range_start = da_byte_range_start lost,
                 rp_payload = block_payload dbg (da_payload lost)\<rparr>])"
proof -
  let ?pp = "fec_of_parity (parity_of dbg now bid sid ps)"
  let ?n = "word_of_nat (length ps) :: u8"
  note arrived = arrived_packets [OF lost arr]
  have un: "unat ?n = length ps" using ps by (simp add: one_batch_def unat_of_nat)
  have sub: "set qs \<subseteq> set ps" "lost \<in> set ps"
    using lost by (metis list.set_intros(2) set_mset_mset subsetI, metis list.set_intros(1) set_mset_mset)
  have keys: "\<forall>p \<in> set arrivals. fec_key p = (bid, sid) \<and> batch_size (fp_fec_info p) = ?n"
  proof -
    have "set arrivals = insert ?pp (fec_block dbg ` set qs)"
      by (metis arr list.set_map list.simps(15) set_mset_mset)
    then show ?thesis using sub ps
      by (auto simp: fec_key_def fec_of_parity_def parity_of_def fec_block_def one_batch_def)
  qed
  have "mset (map fp_pos (data_of arrivals)) = mset (map (\<lambda>p. batch_pos (da_fec_info p)) qs)"
    using arrived(1) by (metis (no_types, lifting) ext fec_block_def fec_packet.select_convs(4) list.map_comp
        comp_apply mset_map)
  moreover have "distinct (map (\<lambda>p. batch_pos (da_fec_info p)) qs)"
  proof -
    have "mset (map (\<lambda>p. batch_pos (da_fec_info p)) ps)
        = mset (map (\<lambda>p. batch_pos (da_fec_info p)) (lost # qs))" using lost by simp
    then have "distinct (map (\<lambda>p. batch_pos (da_fec_info p)) (lost # qs))"
      using ps by (metis one_batch_def mset_eq_imp_distinct_iff)
    then show ?thesis by simp
  qed
  ultimately have dist: "distinct (map fp_pos (data_of arrivals))"
    by (metis mset_eq_imp_distinct_iff)
  have ne: "arrivals \<noteq> []" using arrived(2) by auto
  obtain b where b: "hm_get (xs_inbound (xor_receive_all dbg now' arrivals st)) (bid, sid) = Some b" "batch_holds ?n arrivals b"
    using receive_all_holds [OF keys dist _ st, where dbg = dbg and now = now'] ne un arrived(3,4)
    by (auto simp: entry_of_def)
  have "length (da_payload lost) \<le> MAX_PAYLOAD_LENGTH" using sub ps by (auto simp: one_batch_def)
  then show ?thesis
    using held_batch_recovers [OF ps lost arr b(2)] by (simp add: xor_recover_def b(1) recovered_of_block)
qed

section \<open>Properties\<close>

text \<open>Two packets of a batch, for the witnesses.\<close>

definition demo_packet :: "u8 \<Rightarrow> byte_position \<Rightarrow> bytes \<Rightarrow> data_packet" where
  "demo_packet i pos pl =
     \<lparr>da_version = 1, da_opts = 0, da_packet_type = PT_Data, da_batch_id = 1,
      da_fec_info = \<lparr>batch_size = 2, batch_pos = i, recovery_count = 0\<rparr>, da_session_id = 9,
      da_timestamp = 0, da_byte_range_start = pos, da_payload = pl\<rparr>"

definition demo_batch :: "data_packet list" where
  "demo_batch = [demo_packet 0 0 [1, 2], demo_packet 1 1368 [3]]"

lemma demo_one_batch: "one_batch 1 9 demo_batch"
  by (simp add: one_batch_def demo_batch_def demo_packet_def MAX_PAYLOAD_LENGTH_def)

text \<open>The sender of a batch emits one parity packet, with its last data packet: for the
  packets of one batch, sent in any order through a fresh entry, \<open>sent\<close> answers \<open>None\<close> to
  all but the last and then the packet whose payload is the XOR of all blocks.\<close>

theorem batch_yields_one_parity:
  assumes "one_batch bid sid ps" "ps \<noteq> []" "hm_get (xs_outbound st) (bid, sid) = None"
  shows "fst (xor_send_all dbg now ps st)
    = replicate (length ps - 1) (Ok None) @ [Ok (Some [parity_of dbg now bid sid ps])]"
  using assms by (rule send_all_parity)

theorem batch_yields_one_parity_witness:
  "fst (xor_send_all True 0 demo_batch xor_new)
    = replicate (length demo_batch - 1) (Ok None) @ [Ok (Some [parity_of True 0 1 9 demo_batch])]"
  by (rule batch_yields_one_parity [OF demo_one_batch]) (simp_all add: demo_batch_def xor_new_def)

text \<open>XOR recovery is exact in a debug build. If one data packet of a batch is lost and
  the others arrive together with the parity packet, in any order, \<open>recover\<close> returns the
  position and the payload of the lost packet.\<close>

theorem lost_packet_recovered:
  assumes "one_batch bid sid ps" "mset ps = mset (lost # qs)"
    and "map (fec_of_data True) qs = map Ok ds"
    and "mset arrivals = mset (fec_of_parity (parity_of True now bid sid ps) # ds)"
    and "hm_get (xs_inbound st) (bid, sid) = None"
  shows "fst (xor_recover True bid sid (xor_receive_all True now' arrivals st))
    = Ok (Some [\<lparr>rp_byte_range_start = da_byte_range_start lost, rp_payload = da_payload lost\<rparr>])"
  using recover_lost [OF assms(1,2) _ assms(5), of arrivals True now now'] assms(4)
    fec_ds_blocks [OF assms(1-3)]
  by (simp add: block_payload_def)

theorem lost_packet_recovered_witness:
  "fst (xor_recover True 1 9 (xor_receive_all True 5
      [fec_of_parity (parity_of True 0 1 9 demo_batch), fec_block True (demo_packet 0 0 [1, 2])] xor_new))
    = Ok (Some [\<lparr>rp_byte_range_start = da_byte_range_start (demo_packet 1 1368 [3]),
                 rp_payload = da_payload (demo_packet 1 1368 [3])\<rparr>])"
  by (rule lost_packet_recovered [OF demo_one_batch, where qs = "[demo_packet 0 0 [1, 2]]"
        and ds = "[fec_block True (demo_packet 0 0 [1, 2])]"])
    (simp_all add: demo_batch_def xor_new_def fec_of_data_block demo_packet_def MAX_PAYLOAD_LENGTH_def)

text \<open>XOR recovery loses the payload in a release build. The payload is copied into its
  block inside a \<open>debug_assert!\<close>, so under the same conditions the recovered packet has the
  right position and the right length, and zeros for contents.\<close>

theorem release_recovers_zeros:
  assumes "one_batch bid sid ps" "mset ps = mset (lost # qs)"
    and "map (fec_of_data False) qs = map Ok ds"
    and "mset arrivals = mset (fec_of_parity (parity_of False now bid sid ps) # ds)"
    and "hm_get (xs_inbound st) (bid, sid) = None"
  shows "fst (xor_recover False bid sid (xor_receive_all False now' arrivals st))
    = Ok (Some [\<lparr>rp_byte_range_start = da_byte_range_start lost,
                 rp_payload = replicate (length (da_payload lost)) 0\<rparr>])"
  using recover_lost [OF assms(1,2) _ assms(5), of arrivals False now now'] assms(4)
    fec_ds_blocks [OF assms(1-3)]
  by (simp add: block_payload_def)

theorem release_recovers_zeros_witness:
  "fst (xor_recover False 1 9 (xor_receive_all False 5
      [fec_of_parity (parity_of False 0 1 9 demo_batch), fec_block False (demo_packet 0 0 [1, 2])] xor_new))
    = Ok (Some [\<lparr>rp_byte_range_start = da_byte_range_start (demo_packet 1 1368 [3]),
                 rp_payload = replicate (length (da_payload (demo_packet 1 1368 [3]))) 0\<rparr>])"
  by (rule release_recovers_zeros [OF demo_one_batch, where qs = "[demo_packet 0 0 [1, 2]]"
        and ds = "[fec_block False (demo_packet 0 0 [1, 2])]"])
    (simp_all add: demo_batch_def xor_new_def fec_of_data_block demo_packet_def MAX_PAYLOAD_LENGTH_def)

end
