(* ===== verification/Sessions.thy ===== *)
theory Sessions imports Repair Fec_Recovery begin

text \<open>
  One connection (\<open>ConnectionStates\<close>, \<open>EstablishedState\<close> and \<open>SessionStates\<close> of
  \<open>src/src/manager/state.rs\<close>, \<open>FlatState\<close> and the errors of \<open>src/src/error.rs\<close>): its states, the
  opening and closing of a stream, the arrival of a data packet and of recovered packets.

  What leaves a connection is a list of effects: packets for the packet processor, the answer to
  a handshake, requests and events for the application, the start of a keep-alive task, the last message to the stream handle of the application and the last event to the
  slot of the streaming task (both keep a handle after the state is replaced). \<open>es_connection\<close> says whether
  the application still holds the receiver of the channel to it. The lock of the address is
  never held across a step. \<open>dbg\<close> is the build profile.
\<close>

section \<open>States\<close>

datatype connection_error =
    CE_ProtocolClosed | CE_BufferTooLarge | CE_SessionOccupied | CE_SessionClosedByPeer
  | CE_UnknownInternalError | CE_InvalidReason | CE_PeerRejected "string option"
  | CE_SessionIdCollided | CE_BufferClosedUnexpectedly

datatype api_error = AE_NoFreeSession | AE_SessionOccupied | AE_SessionDoesNotExist

datatype connection_event = Ev_TrackRequest bytes | Ev_ProtocolClosed | Ev_ConnectionClosed

text \<open>A \<open>oneshot::Sender\<close> for the outcome of a handshake, named by the caller that waits on it.\<close>

type_synonym ticket = nat

datatype connection_answer = Connected session_id | Refused connection_error

datatype effect =
    Send packet_wrapper
  | Answer ticket connection_answer
  | App_Event session_id connection_event
  | App_Incoming bytes address ticket
  | Keep_Alive session_id
  | Reply_Session ticket "(api_error, session_id) res"
  | Reply_Action ticket bool
  | Reply_Holes ticket "(nat \<times> nat) list option"
  | Stream_Notice stream_message
  | Task_Event event_ref stream_event

datatype session_states = Session_Up | Session_Down | Session_Streaming stream_state

record established =
  es_session_id :: session_id
  es_last_activity :: u64
  es_connection :: bool
  es_state :: session_states
  es_address :: address
  es_app_id :: bytes

record handshaking =
  hs_session_id :: session_id
  hs_response :: ticket
  hs_signal :: bool
  hs_app_id :: bytes
  hs_address :: address

datatype connection_state = Handshake handshaking | Established established

datatype flat_state = Flat_Up | Flat_Down | Flat_StreamingTo | Flat_StreamingFrom | Flat_Handshake

fun flat_session :: "session_states \<Rightarrow> flat_state" where
  "flat_session Session_Up = Flat_Up"
| "flat_session Session_Down = Flat_Down"
| "flat_session (Session_Streaming s) =
     (case ss_streaming s of Streaming_To _ \<Rightarrow> Flat_StreamingTo | Streaming_From _ \<Rightarrow> Flat_StreamingFrom)"

fun flat_state_of :: "connection_state \<Rightarrow> flat_state" where
  "flat_state_of (Handshake h) = Flat_Handshake"
| "flat_state_of (Established e) = flat_session (es_state e)"

datatype session_error =
    StateMismatch flat_state flat_state
  | IrrelevantError
  | FailedToDerefError

section \<open>Opening and closing a stream\<close>

definition cs_address :: "connection_state \<Rightarrow> address" where
  "cs_address c = (case c of Handshake h \<Rightarrow> hs_address h | Established e \<Rightarrow> es_address e)"

definition cs_update_address :: "address \<Rightarrow> connection_state \<Rightarrow> connection_state" where
  "cs_update_address a c =
     (case c of Handshake h \<Rightarrow> Handshake (h\<lparr>hs_address := a\<rparr>) | Established e \<Rightarrow> Established (e\<lparr>es_address := a\<rparr>))"

text \<open>A failed \<open>debug_assert!(false)\<close>: a panic in a debug build, else the state stays.\<close>

definition cs_streaming_from ::
  "bool \<Rightarrow> wbuffer \<Rightarrow> stream_message \<Rightarrow> connection_state \<Rightarrow> connection_state ures" where
  "cs_streaming_from dbg buffer msg c =
     (case c of
        Established e \<Rightarrow>
          (case es_state e of
             Session_Streaming _ \<Rightarrow> debug_assert dbg False c
           | _ \<Rightarrow> Ok (Established (e\<lparr>es_state := Session_Streaming
                   \<lparr>ss_streaming = Streaming_From (streaming_from_new buffer), ss_stream = msg, ss_fec = []\<rparr>\<rparr>)))
      | Handshake _ \<Rightarrow> debug_assert dbg False c)"

definition cs_stream_to ::
  "bool \<Rightarrow> event_ref \<Rightarrow> rbuffer \<Rightarrow> stream_message \<Rightarrow> connection_state \<Rightarrow> connection_state ures" where
  "cs_stream_to dbg slot buffer msg c =
     (case c of
        Established e \<Rightarrow>
          (case es_state e of
             Session_Streaming _ \<Rightarrow> debug_assert dbg False c
           | _ \<Rightarrow> Ok (Established (e\<lparr>es_state := Session_Streaming
                   \<lparr>ss_streaming = Streaming_To
                      \<lparr>to_buffer = buffer, to_current_batch = 0, to_event = slot\<rparr>,
                    ss_stream = msg, ss_fec = []\<rparr>\<rparr>)))
      | Handshake _ \<Rightarrow> debug_assert dbg False c)"

text \<open>The effects of closing a stream: the event to the task of a sender, the notice to the handle.\<close>

definition close_effects :: "stream_state \<Rightarrow> effect list" where
  "close_effects s =
     (case ss_streaming s of
        Streaming_To t \<Rightarrow> [Task_Event (to_event t) (Playback Act_Close)] | Streaming_From _ \<Rightarrow> [])
     @ [Stream_Notice ((ss_stream s)\<lparr>sm_closed := True\<rparr>)]"

definition cs_close_stream :: "bool \<Rightarrow> connection_state \<Rightarrow> (effect list \<times> connection_state) ures" where
  "cs_close_stream dbg c =
     (case c of
        Established e \<Rightarrow>
          (case es_state e of
             Session_Streaming s \<Rightarrow> Ok (close_effects s, Established (e\<lparr>es_state := Session_Up\<rparr>))
           | _ \<Rightarrow> debug_assert dbg False ([], c))
      | Handshake _ \<Rightarrow> debug_assert dbg False ([], c))"

section \<open>Data\<close>

definition write_error :: "buffer_error \<Rightarrow> session_error" where
  "write_error e = (case e of FailedToDeref \<Rightarrow> FailedToDerefError | _ \<Rightarrow> IrrelevantError)"

text \<open>Whether the stream is declared done: filled, or at the end with partial completion allowed.\<close>

definition declare_done :: "stream_message \<Rightarrow> wbuffer \<Rightarrow> bool" where
  "declare_done m b \<longleftrightarrow> wb_is_done b \<or> (sm_complete m = Some True \<and> wb_head_at_end b)"

text \<open>
  The ranges asked for after a write: none when done, the sweep when the head is at the end, the
  score policy when \<open>trigger\<close> holds.
\<close>

definition ask_ranges ::
  "bool \<Rightarrow> timestamp \<Rightarrow> bool \<Rightarrow> streaming_from \<Rightarrow> session_fec \<Rightarrow> byte_range list ures \<times> streaming_from \<times> session_fec" where
  "ask_ranges dbg now trigger sf fec =
     (if wb_head_at_end (from_buffer sf)
      then (let (active, fec) = active_byte_ranges now fec; (rs, sf) = finalize_sweep_pick dbg now active sf
            in (rs, sf, fec))
      else if trigger
      then (let (active, fec) = active_byte_ranges now fec; (rs, sf) = score_policy_pick dbg now active sf
            in (rs, sf, fec))
      else (Ok [], sf, fec))"

definition done_packet :: "bool \<Rightarrow> timestamp \<Rightarrow> session_id \<Rightarrow> address \<Rightarrow> effect list ures" where
  "done_packet dbg now sid addr =
     map_res (\<lambda>p. [Send (wrap (PlaybackControlPacket p) addr)])
       (playback_done dbg now (opt_construct [RequireAck]) sid)"

text \<open>The first half of \<open>received_data_packet\<close>: everything under the pattern match.\<close>

record data_outcome =
  do_done :: bool
  do_ranges :: "byte_range list"

definition stream_data ::
  "bool \<Rightarrow> timestamp \<Rightarrow> data_packet \<Rightarrow> streaming_from \<Rightarrow> stream_state
     \<Rightarrow> (session_error, data_outcome) res \<times> stream_state" where
  "stream_data dbg now p sf s =
     (let s = s\<lparr>ss_fec := session_fec_add now (da_batch_id p) (da_fec_info p) (da_byte_range_start p) (ss_fec s)\<rparr>;
          (w, b) = wb_write dbg (da_byte_range_start p) (da_payload p) (from_buffer sf);
          sf = sf\<lparr>from_buffer := b\<rparr>
      in case w of
           Err e \<Rightarrow> (Err (write_error e), s\<lparr>ss_streaming := Streaming_From sf\<rparr>)
         | Panic \<Rightarrow> (Panic, s\<lparr>ss_streaming := Streaming_From sf\<rparr>)
         | Ok _ \<Rightarrow>
             (let sf = clear_pending (da_byte_range_start p) sf;
                  msg = (ss_stream s)\<lparr>sm_head := unat (wb_head b), sm_approved := Some True\<rparr>;
                  s = s\<lparr>ss_stream := msg, ss_streaming := Streaming_From sf\<rparr>;
                  finished = declare_done msg b;
                  info = da_fec_info p
              in if dbg \<and> batch_pos info = 255 then (Panic, s)
                 else if finished
                 then (Ok \<lparr>do_done = True, do_ranges = []\<rparr>, s)
                 else (let (rs, sf, fec) = ask_ranges dbg now (batch_pos info + 1 = batch_size info) sf (ss_fec s);
                           s = s\<lparr>ss_streaming := Streaming_From sf, ss_fec := fec\<rparr>
                       in (case rs of Ok rs \<Rightarrow> Ok \<lparr>do_done = False, do_ranges = rs\<rparr>
                                    | Err _ \<Rightarrow> Panic | Panic \<Rightarrow> Panic, s))))"


text \<open>A result of the FEC module, which has no errors.\<close>

definition fec_result :: "'a ures \<Rightarrow> (session_error, 'a) res" where
  "fec_result r = (case r of Ok x \<Rightarrow> Ok x | _ \<Rightarrow> Panic)"

text \<open>The pattern of both handlers: an established connection with a stream it receives.\<close>

definition receiving :: "connection_state \<Rightarrow> (established \<times> stream_state \<times> streaming_from) option" where
  "receiving c =
     (case c of
        Established e \<Rightarrow>
          (case es_state e of
             Session_Streaming s \<Rightarrow>
               (case ss_streaming s of Streaming_From sf \<Rightarrow> Some (e, s, sf) | Streaming_To _ \<Rightarrow> None)
           | _ \<Rightarrow> None)
      | Handshake _ \<Rightarrow> None)"

definition with_stream :: "established \<Rightarrow> stream_state \<Rightarrow> connection_state" where
  "with_stream e s = Established (e\<lparr>es_state := Session_Streaming s\<rparr>)"

definition cs_received_data ::
  "bool \<Rightarrow> timestamp \<Rightarrow> data_packet \<Rightarrow> connection_state \<Rightarrow> xor_state
     \<Rightarrow> (session_error, bool) res \<times> effect list \<times> connection_state \<times> xor_state" where
  "cs_received_data dbg now p c fs =
     (case receiving c of
        None \<Rightarrow> (Err (StateMismatch Flat_StreamingFrom (flat_state_of c)), [], c, fs)
      | Some (e, s, sf) \<Rightarrow>
          (let (r, s) = stream_data dbg now p sf s;
               c = with_stream e s
           in case r of
                Err x \<Rightarrow> (Err x, [], c, fs)
              | Panic \<Rightarrow> (Panic, [], c, fs)
              | Ok out \<Rightarrow>
                  if do_done out
                  then (case done_packet dbg now (da_session_id p) (es_address e) of
                          Ok sent \<Rightarrow> (case cs_close_stream dbg c of
                                        Ok (notes, c) \<Rightarrow> (Ok False, sent @ notes, c, fs)
                                      | _ \<Rightarrow> (Panic, sent, c, fs))
                        | _ \<Rightarrow> (Panic, [], c, fs))
                  else (case dispatch_retransmit_request dbg now (da_session_id p) (es_address e) (do_ranges out) of
                          Ok ws \<Rightarrow>
                            (case fec_of_data dbg p of
                               Ok fp \<Rightarrow> (let (ready, fs) = xor_received dbg now fp fs
                                         in (fec_result ready, map Send ws, c, fs))
                             | _ \<Rightarrow> (Panic, map Send ws, c, fs))
                        | _ \<Rightarrow> (Panic, [], c, fs))))"

text \<open>The writes of recovered packets: the first rejected one ends the call.\<close>

fun recovered_writes ::
  "bool \<Rightarrow> recovered_packet list \<Rightarrow> streaming_from \<Rightarrow> stream_message
     \<Rightarrow> (session_error, unit) res \<times> streaming_from \<times> stream_message" where
  "recovered_writes dbg [] sf msg = (Ok (), sf, msg)"
| "recovered_writes dbg (r # rs) sf msg =
     (let (w, b) = wb_write dbg (rp_byte_range_start r) (rp_payload r) (from_buffer sf);
          sf = sf\<lparr>from_buffer := b\<rparr>
      in case w of
           Err e \<Rightarrow> (Err (write_error e), sf, msg)
         | Panic \<Rightarrow> (Panic, sf, msg)
         | Ok _ \<Rightarrow> recovered_writes dbg rs (clear_pending (rp_byte_range_start r) sf)
                    (msg\<lparr>sm_head := unat (wb_head b)\<rparr>))"

definition cs_recovered ::
  "bool \<Rightarrow> timestamp \<Rightarrow> batch_id \<Rightarrow> recovered_packet list \<Rightarrow> connection_state
     \<Rightarrow> (session_error, unit) res \<times> effect list \<times> connection_state" where
  "cs_recovered dbg now bid packets c =
     (case receiving c of
        None \<Rightarrow> (Err (StateMismatch Flat_StreamingFrom (flat_state_of c)), [], c)
      | Some (e, s, sf) \<Rightarrow>
          (let back = (\<lambda>sf msg fec. with_stream e (s\<lparr>ss_streaming := Streaming_From sf, ss_stream := msg, ss_fec := fec\<rparr>));
               fec = session_fec_evict bid (ss_fec s);
               (w, sf, msg) = recovered_writes dbg packets sf ((ss_stream s)\<lparr>sm_approved := Some True\<rparr>)
           in case w of
                Err x \<Rightarrow> (Err x, [], back sf msg fec)
              | Panic \<Rightarrow> (Panic, [], back sf msg fec)
              | Ok _ \<Rightarrow>
                  if declare_done msg (from_buffer sf)
                  then (case done_packet dbg now (es_session_id e) (es_address e) of
                          Ok sent \<Rightarrow> (Ok (), sent, back sf (msg\<lparr>sm_closed := True\<rparr>) fec)
                        | _ \<Rightarrow> (Panic, [], back sf msg fec))
                  else (let (rs, sf, fec) = ask_ranges dbg now True sf fec
                        in case and_then rs (dispatch_retransmit_request dbg now (es_session_id e) (es_address e)) of
                             Ok ws \<Rightarrow> (Ok (), map Send ws, back sf msg fec)
                           | _ \<Rightarrow> (Panic, [], back sf msg fec))))"

end
