(* ===== verification/Encryption.thy ===== *)
theory Encryption imports Packets begin

text \<open>
  Authenticated encryption of packets: \<open>EncryptionWindow\<close>, \<open>EncryptionTable\<close> and
  \<open>EncryptionMonitor\<close> (\<open>src/src/manager/state.rs\<close>, lines 2054 to 2105) and the four
  operations of \<open>src/src/packet_processor/encryption.rs\<close>.

  AES-256-GCM is a third-party crate. It is the parameter \<open>A\<close>, a record of two functions
  of a cipher, a nonce, the associated data and a buffer; \<open>None\<close> is its error. What the
  code relies on is stated by \<open>aead_correct\<close> (a sealed buffer is 16 bytes longer and opens
  to the plaintext) and \<open>aead_total\<close> (sealing fails beyond the size limits only).
\<close>

record 'k aead =
  seal :: "'k \<Rightarrow> bytes \<Rightarrow> bytes \<Rightarrow> bytes \<Rightarrow> bytes option"
  open_box :: "'k \<Rightarrow> bytes \<Rightarrow> bytes \<Rightarrow> bytes \<Rightarrow> bytes option"

definition aead_correct :: "'k aead \<Rightarrow> bool" where
  "aead_correct A \<longleftrightarrow>
     (\<forall>k n a p c. seal A k n a p = Some c \<longrightarrow> open_box A k n a c = Some p \<and> length c = length p + 16)"

definition AEAD_MAX :: nat where
  "AEAD_MAX = 2 ^ 36"

definition aead_total :: "'k aead \<Rightarrow> bool" where
  "aead_total A \<longleftrightarrow>
     (\<forall>k n a p. length a \<le> AEAD_MAX \<and> length p \<le> AEAD_MAX \<longrightarrow> seal A k n a p \<noteq> None)"

section \<open>Windows\<close>

record 'k enc_window =
  ew_cipher :: 'k
  ew_nonce :: u64

type_synonym 'k enc_table = "(session_id, 'k enc_window) table"

definition enc_window_new :: "'k \<Rightarrow> 'k enc_window" where
  "enc_window_new c = \<lparr>ew_cipher = c, ew_nonce = 0\<rparr>"

text \<open>\<open>get\<close>: the cipher and the bytes of the counter, which is then incremented.\<close>

definition enc_window_get :: "'k enc_window \<Rightarrow> ('k \<times> bytes) \<times> 'k enc_window" where
  "enc_window_get w = ((ew_cipher w, int_bytes (ew_nonce w)), w\<lparr>ew_nonce := ew_nonce w + 1\<rparr>)"

definition encryption_get ::
  "session_id \<Rightarrow> 'k enc_table \<Rightarrow> ('k \<times> bytes) option \<times> 'k enc_table" where
  "encryption_get sid t =
     (case hm_get t sid of
        None \<Rightarrow> (None, t)
      | Some w \<Rightarrow> (let (r, w') = enc_window_get w in (Some r, hm_insert sid w' t)))"

definition encryption_get_cipher :: "session_id \<Rightarrow> 'k enc_table \<Rightarrow> 'k option" where
  "encryption_get_cipher sid t = map_option ew_cipher (hm_get t sid)"

section \<open>Operations\<close>

text \<open>The first four bytes of the session id and the eight of the counter.\<close>

definition get_nonce :: "session_id \<Rightarrow> bytes \<Rightarrow> bytes" where
  "get_nonce sid counter = take 4 (int_bytes sid) @ counter"

text \<open>
  \<open>encrypt\<close>: whether the session has a key, the payload afterwards, and the table. An
  error of the cipher is ignored and leaves the payload as it is.
\<close>

definition encrypt ::
  "'k aead \<Rightarrow> session_id \<Rightarrow> 'k enc_table \<Rightarrow> bytes \<Rightarrow> bytes \<Rightarrow> bool \<times> bytes \<times> 'k enc_table" where
  "encrypt A sid t aad payload =
     (case encryption_get sid t of
        (None, t') \<Rightarrow> (False, payload, t')
      | (Some (cipher, counter), t') \<Rightarrow>
          (let sealed = (case seal A cipher (get_nonce sid counter) aad payload of
                           Some c \<Rightarrow> c | None \<Rightarrow> payload)
           in (True, sealed @ counter, t')))"

definition decrypt :: "'k aead \<Rightarrow> session_id \<Rightarrow> 'k enc_table \<Rightarrow> bytes \<Rightarrow> bytes \<Rightarrow> bytes ures" where
  "decrypt A sid t aad payload =
     (if length payload < 1 + 16 + 8 then Err ()
      else case encryption_get_cipher sid t of
             None \<Rightarrow> Err ()
           | Some cipher \<Rightarrow>
               (let counter = drop (length payload - 8) payload;
                    payload = take (length payload - 8) payload
                in case open_box A cipher (get_nonce sid counter) aad payload of
                     Some p \<Rightarrow> Ok p
                   | None \<Rightarrow> Err ()))"

text \<open>
  \<open>tag\<close> seals an empty buffer with the packet as associated data and appends the tag and
  the counter.
\<close>

definition tag :: "'k aead \<Rightarrow> session_id \<Rightarrow> 'k enc_table \<Rightarrow> bytes \<Rightarrow> bool \<times> bytes \<times> 'k enc_table" where
  "tag A sid t packet =
     (case encryption_get sid t of
        (None, t') \<Rightarrow> (False, packet, t')
      | (Some (cipher, counter), t') \<Rightarrow>
          (let tg = (case seal A cipher (get_nonce sid counter) packet [] of
                       Some c \<Rightarrow> c | None \<Rightarrow> [])
           in (True, packet @ tg @ counter, t')))"

text \<open>
  \<open>authenticate\<close>: the verdict and the packet afterwards. Each \<open>drain\<close> panics when the
  packet is shorter than what it drains.
\<close>

definition authenticate ::
  "'k aead \<Rightarrow> session_id \<Rightarrow> 'k enc_table \<Rightarrow> bytes \<Rightarrow> (unit, bool \<times> bytes) res" where
  "authenticate A sid t packet =
     (case encryption_get_cipher sid t of
        None \<Rightarrow> Ok (False, packet)
      | Some cipher \<Rightarrow>
          (if length packet < 8 then Panic
           else let counter = drop (length packet - 8) packet;
                    packet = take (length packet - 8) packet
                in if length packet < 16 then Panic
                   else let tg = drop (length packet - 16) packet;
                            packet = take (length packet - 16) packet
                        in Ok (open_box A cipher (get_nonce sid counter) packet tg \<noteq> None, packet)))"

section \<open>Lemmas\<close>

lemma encryption_get_Some:
  "hm_get t sid = Some w \<Longrightarrow>
   encryption_get sid t = (Some (ew_cipher w, int_bytes (ew_nonce w)),
     hm_insert sid (w\<lparr>ew_nonce := ew_nonce w + 1\<rparr>) t)"
  by (simp add: encryption_get_def enc_window_get_def)

lemma encryption_get_None: "hm_get t sid = None \<Longrightarrow> encryption_get sid t = (None, t)"
  by (simp add: encryption_get_def)

lemma aead_open: "\<lbrakk> aead_correct A; seal A k n a p = Some c \<rbrakk> \<Longrightarrow> open_box A k n a c = Some p"
  by (simp add: aead_correct_def)

lemma aead_length: "\<lbrakk> aead_correct A; seal A k n a p = Some c \<rbrakk> \<Longrightarrow> length c = length p + 16"
  unfolding aead_correct_def by blast

lemma aead_sealE:
  assumes "aead_total A" "length a \<le> AEAD_MAX" "length p \<le> AEAD_MAX"
  obtains c where "seal A k n a p = Some c"
  using assms by (force simp: aead_total_def)

lemma encrypt_Some:
  assumes "aead_total A" "length aad \<le> AEAD_MAX" "length payload \<le> AEAD_MAX" "hm_get t sid = Some w"
  obtains c where "seal A (ew_cipher w) (get_nonce sid (int_bytes (ew_nonce w))) aad payload = Some c"
    and "encrypt A sid t aad payload
      = (True, c @ int_bytes (ew_nonce w), hm_insert sid (w\<lparr>ew_nonce := ew_nonce w + 1\<rparr>) t)"
proof -
  obtain c where c: "seal A (ew_cipher w) (get_nonce sid (int_bytes (ew_nonce w))) aad payload = Some c"
    using assms(1-3) by (rule aead_sealE)
  with that show thesis
    by (simp add: encrypt_def encryption_get_Some [OF assms(4)])
qed

text \<open>
  A receiver whose table holds the sender's cipher for the session decrypts what the sender
  encrypted, whatever the two counters are.
\<close>

lemma decrypt_encrypt:
  assumes A: "aead_correct A" "aead_total A"
    and len: "length aad \<le> AEAD_MAX" "0 < length payload" "length payload \<le> AEAD_MAX"
    and w: "hm_get ts sid = Some w"
    and r: "encryption_get_cipher sid tr = Some (ew_cipher w)"
  shows "decrypt A sid tr aad (fst (snd (encrypt A sid ts aad payload))) = Ok payload"
proof -
  obtain c where c: "seal A (ew_cipher w) (get_nonce sid (int_bytes (ew_nonce w))) aad payload = Some c"
    and e: "encrypt A sid ts aad payload
      = (True, c @ int_bytes (ew_nonce w), hm_insert sid (w\<lparr>ew_nonce := ew_nonce w + 1\<rparr>) ts)"
    by (rule encrypt_Some [OF A(2) len(1,3) w])
  then show ?thesis
    using aead_open [OF A(1) c] aead_length [OF A(1) c] len(2) r by (simp add: decrypt_def)
qed

lemma authenticate_tag:
  assumes A: "aead_correct A" "aead_total A" and len: "length packet \<le> AEAD_MAX"
    and w: "hm_get ts sid = Some w"
    and r: "encryption_get_cipher sid tr = Some (ew_cipher w)"
  shows "authenticate A sid tr (fst (snd (tag A sid ts packet))) = Ok (True, packet)"
proof -
  obtain c where c: "seal A (ew_cipher w) (get_nonce sid (int_bytes (ew_nonce w))) packet [] = Some c"
    by (rule aead_sealE [OF A(2) len, where p = "[]"]) simp_all
  show ?thesis
    using aead_open [OF A(1) c] aead_length [OF A(1) c] r
    by (simp add: tag_def encryption_get_Some [OF w] c authenticate_def Let_def)
qed

text \<open>The (session, nonce) pairs of a sequence of encryptions and taggings.\<close>

fun nonce_trace :: "'k enc_table \<Rightarrow> session_id list \<Rightarrow> (session_id \<times> bytes) list" where
  "nonce_trace t [] = []"
| "nonce_trace t (sid # sids) =
     (case encryption_get sid t of
        (Some (cipher, counter), t') \<Rightarrow> (sid, get_nonce sid counter) # nonce_trace t' sids
      | (None, t') \<Rightarrow> nonce_trace t' sids)"

lemma int_bytes_inj: "8 dvd LENGTH('a) \<Longrightarrow> int_bytes (v :: 'a::len word) = int_bytes w \<longleftrightarrow> v = w"
  by (metis int_deserialize_exact res.inject(1))

lemma get_nonce_inj [simp]: "get_nonce sid (int_bytes v) = get_nonce sid (int_bytes w) \<longleftrightarrow> v = (w :: u64)"
  by (simp add: get_nonce_def int_bytes_inj)

lemma nonce_trace_range:
  "(sid, n) \<in> set (nonce_trace t sids) \<Longrightarrow>
   \<exists>w i. hm_get t sid = Some w \<and> i < length sids \<and> n = get_nonce sid (int_bytes (ew_nonce w + of_nat i))"
proof (induction sids arbitrary: t)
  case (Cons s sids)
  show ?case
  proof (cases "hm_get t s")
    case None
    then have "(sid, n) \<in> set (nonce_trace t sids)"
      using Cons.prems by (simp add: encryption_get_None)
    then show ?thesis using Cons.IH [of t] by (metis length_Cons less_SucI)
  next
    case (Some w)
    let ?t = "hm_insert s (w\<lparr>ew_nonce := ew_nonce w + 1\<rparr>) t"
    consider (hd) "sid = s" "n = get_nonce s (int_bytes (ew_nonce w))"
      | (tl) "(sid, n) \<in> set (nonce_trace ?t sids)"
      using Cons.prems by (auto simp: encryption_get_Some [OF Some])
    then show ?thesis
    proof cases
      case hd
      then show ?thesis using Some by (auto intro!: exI [of _ 0])
    next
      case tl
      then obtain w' i where "hm_get ?t sid = Some w'" "i < length sids"
        "n = get_nonce sid (int_bytes (ew_nonce w' + of_nat i))"
        using Cons.IH by blast
      then show ?thesis using Some
        by (cases "sid = s") (force simp: algebra_simps intro: exI [of _ "Suc i"],
            auto intro: exI [of _ i] less_SucI)
    qed
  qed
qed simp

lemma nonce_trace_distinct: "length sids \<le> 2 ^ 64 \<Longrightarrow> distinct (nonce_trace t sids)"
proof (induction sids arbitrary: t)
  case (Cons s sids)
  show ?case
  proof (cases "hm_get t s")
    case None
    then show ?thesis using Cons by (simp add: encryption_get_None)
  next
    case (Some w)
    let ?t = "hm_insert s (w\<lparr>ew_nonce := ew_nonce w + 1\<rparr>) t"
    have "(s, get_nonce s (int_bytes (ew_nonce w))) \<notin> set (nonce_trace ?t sids)"
    proof
      assume "(s, get_nonce s (int_bytes (ew_nonce w))) \<in> set (nonce_trace ?t sids)"
      then obtain w' i where w': "hm_get ?t s = Some w'" and i: "i < length sids"
        and "get_nonce s (int_bytes (ew_nonce w)) = get_nonce s (int_bytes (ew_nonce w' + of_nat i))"
        using nonce_trace_range by blast
      then have "ew_nonce w = ew_nonce w' + of_nat i" by simp
      moreover have "ew_nonce w' = ew_nonce w + 1" using w' by auto
      ultimately have "(of_nat (Suc i) :: u64) = 0" by (simp add: algebra_simps)
      moreover have "Suc i < 2 ^ 64" using i Cons.prems by simp
      ultimately show False
        using unat_of_nat [where 'a = 64, of "Suc i"] by (simp del: of_nat_Suc)
    qed
    then show ?thesis using Cons by (simp add: encryption_get_Some [OF Some])
  qed
qed simp

text \<open>
  A concrete cipher for the witnesses: it appends the key sixteen times and checks it.
\<close>

definition demo_aead :: "u8 aead" where
  "demo_aead =
     \<lparr>seal = (\<lambda>k n a p. Some (p @ replicate 16 k)),
      open_box = (\<lambda>k n a c. if 16 \<le> length c \<and> drop (length c - 16) c = replicate 16 k
                          then Some (take (length c - 16) c) else None)\<rparr>"

lemma demo_aead_correct: "aead_correct demo_aead"
  by (simp add: aead_correct_def demo_aead_def)

lemma demo_aead_total: "aead_total demo_aead"
  by (simp add: aead_total_def demo_aead_def)

section \<open>Properties\<close>

text \<open>C35: No nonce is used twice within a session. Over any sequence of encryptions and
  taggings (each is one \<open>encryption_get\<close>), up to 2^64 of them, the pairs of session and
  nonce are pairwise distinct, whatever windows the table holds.\<close>

theorem nonces_never_repeat:
  "length sids \<le> 2 ^ 64 \<Longrightarrow> distinct (nonce_trace t sids)"
  by (rule nonce_trace_distinct)

theorem nonces_never_repeat_witness:
  "distinct (nonce_trace [(1, enc_window_new (7 :: u8)), (2, enc_window_new 8)] [1, 2, 1])"
  by (rule nonces_never_repeat) simp

text \<open>\<open>authenticate\<close> panics on a packet shorter than tag and counter. With a key for the
  session in the table it never returns on fewer than 24 bytes.\<close>

theorem authenticate_short_panics:
  assumes "encryption_get_cipher sid t = Some c"
  shows "authenticate A sid t packet = Panic \<longleftrightarrow> length packet < 24"
  using assms by (auto simp: authenticate_def Let_def)

theorem authenticate_short_panics_witness:
  "authenticate demo_aead 1 [(1, enc_window_new 7)] [1, 2, 3] = Panic"
  using authenticate_short_panics [of 1 "[(1, enc_window_new 7)]" 7 demo_aead "[1, 2, 3]"]
  by (simp add: encryption_get_cipher_def enc_window_new_def hm_get_def)

text \<open>Without a key for the session \<open>encrypt\<close> reports it and leaves the payload as it
  is; a caller that ignores the report sends the plaintext.\<close>

theorem encrypt_without_key:
  assumes "hm_get t sid = None"
  shows "encrypt A sid t aad payload = (False, payload, t)"
  using assms by (simp add: encrypt_def encryption_get_None)

theorem encrypt_without_key_witness:
  "encrypt demo_aead 5 [(1, enc_window_new 7)] [0] [1, 2, 3] = (False, [1, 2, 3], [(1, enc_window_new 7)])"
  by (rule encrypt_without_key) (simp add: hm_get_def)

end
