(* ===== verification/Protocol.thy ===== *)
theory Protocol imports Sessions Windows Encryption begin

text \<open>
  The shared state of the manager (\<open>ProtocolState\<close> of \<open>src/src/manager/state.rs\<close>, the address and
  handshake tables, the tasks that send streams) and its operations, each one step under its locks; the close of a
  session takes three locks in turn and is given in three pieces, which compose to the whole.

  A routine of the code is a function on the state; what it sends, answers or notifies is
  appended to \<open>pr_out\<close>, in order. A task that panics stops where it does: the state keeps the
  changes made so far and \<open>pr_failed\<close> counts the task. The secret of a key exchange has the type
  \<open>'s\<close>; random ids, fresh secrets and the time are arguments. \<open>pr_events\<close> is the store of the
  shared slots, in the order of their allocation: a stream and its task refer to the same entry.
  \<open>pr_waiting\<close> and \<open>pr_requests\<close> hold the routines that sleep: data packets of a session in its
  handshake, and requests of a track whose session was occupied. \<open>pr_unfinished\<close> holds the routines
  that wait between two locks.
\<close>

section \<open>State\<close>

record 's handshake_entry =
  hk_peer_address :: address
  hk_secret :: 's
  hk_session_id :: session_id
  hk_response :: ticket

record sender_task =
  tk_session :: session_id
  tk_event :: event_ref
  tk_playing :: bool
  tk_extras :: extras
  tk_last_sent :: byte_position

text \<open>Where a request is sent (\<open>SendTarget\<close>), and the request of a track (\<open>RequestDataRequest\<close>).\<close>

datatype send_target = To_Address address | To_Session session_id

record track_order =
  or_target :: send_target
  or_id :: bytes
  or_buffer :: wbuffer
  or_sender :: stream_message
  or_response :: ticket

text \<open>
  What a routine has left to do when it waits for a lock or for the application. A hello: the answer of
  the application, the entry of the session under the id chosen, its key. The answer to a hello of this host:
  the promotion of the handshake, the key. A close: the table of addresses, the key.
\<close>

datatype 's rest =
    Rest_Answer hello address ticket
  | Rest_Enter session_id hello address ticket
  | Rest_Accept session_id hello address
  | Rest_Promote hello address
  | Rest_Initialize hello address 's ticket
  | Rest_Close_Address session_id address
  | Rest_Close_Key session_id

record ('k, 's) protocol =
  pr_app_id :: bytes
  pr_connections :: "(session_id, connection_state) table"
  pr_handshakes :: "(handshake_id, 's handshake_entry) table"
  pr_ack :: pending_window
  pr_encryption :: "'k enc_table"
  pr_address_session :: "(address, session_id list) table"
  pr_fec :: xor_state
  pr_events :: "shared_event list"
  pr_tasks :: "sender_task list"
  pr_waiting :: "data_packet list"
  pr_requests :: "track_order list"
  pr_unfinished :: "'s rest list"
  pr_prune_canceled :: bool
  pr_out :: "effect list"
  pr_failed :: nat

definition protocol_new :: "bytes \<Rightarrow> ('k, 's) protocol" where
  "protocol_new app =
     \<lparr>pr_app_id = app, pr_connections = [], pr_handshakes = [], pr_ack = pw_new, pr_encryption = [],
      pr_address_session = [], pr_fec = xor_new, pr_events = [], pr_tasks = [], pr_waiting = [], pr_requests = [],
      pr_unfinished = [], pr_prune_canceled = False,
      pr_out = [], pr_failed = 0\<rparr>"

definition emit :: "effect list \<Rightarrow> ('k, 's) protocol \<Rightarrow> ('k, 's) protocol" where
  "emit es st = st\<lparr>pr_out := pr_out st @ es\<rparr>"

definition fail_task :: "('k, 's) protocol \<Rightarrow> ('k, 's) protocol" where
  "fail_task st = st\<lparr>pr_failed := Suc (pr_failed st)\<rparr>"

text \<open>The rest of a routine after something that may panic.\<close>

definition attempt ::
  "('e, 'a) res \<Rightarrow> ('a \<Rightarrow> ('k, 's) protocol \<Rightarrow> ('k, 's) protocol) \<Rightarrow> ('k, 's) protocol \<Rightarrow> ('k, 's) protocol" where
  "attempt r k st = (case r of Ok x \<Rightarrow> k x st | _ \<Rightarrow> fail_task st)"

text \<open>\<open>debug_assert!(false)\<close> in front of an early return.\<close>

definition unexpected :: "bool \<Rightarrow> ('k, 's) protocol \<Rightarrow> ('k, 's) protocol" where
  "unexpected dbg st = (if dbg then fail_task st else st)"

definition connection :: "('k, 's) protocol \<Rightarrow> session_id \<Rightarrow> connection_state option" where
  "connection st sid = hm_get (pr_connections st) sid"

definition established_at :: "('k, 's) protocol \<Rightarrow> session_id \<Rightarrow> established option" where
  "established_at st sid = (case connection st sid of Some (Established e) \<Rightarrow> Some e | _ \<Rightarrow> None)"

definition set_connection :: "session_id \<Rightarrow> connection_state \<Rightarrow> ('k, 's) protocol \<Rightarrow> ('k, 's) protocol" where
  "set_connection sid c st = st\<lparr>pr_connections := hm_insert sid c (pr_connections st)\<rparr>"

definition drop_connection :: "session_id \<Rightarrow> ('k, 's) protocol \<Rightarrow> ('k, 's) protocol" where
  "drop_connection sid st = st\<lparr>pr_connections := hm_remove sid (pr_connections st)\<rparr>"

definition session_exists :: "('k, 's) protocol \<Rightarrow> session_id \<Rightarrow> bool" where
  "session_exists st sid = hm_contains (pr_connections st) sid"

definition post_event :: "event_ref \<Rightarrow> stream_event \<Rightarrow> ('k, 's) protocol \<Rightarrow> ('k, 's) protocol" where
  "post_event r e st =
     (if r < length (pr_events st)
      then st\<lparr>pr_events := (pr_events st)[r := shared_update e (pr_events st ! r)]\<rparr> else st)"

section \<open>The address table\<close>

text \<open>\<open>Vec::swap_remove\<close> and the search for the index to remove.\<close>

fun index_of :: "'a \<Rightarrow> 'a list \<Rightarrow> nat option" where
  "index_of x [] = None"
| "index_of x (y # ys) = (if y = x then Some 0 else map_option Suc (index_of x ys))"

definition swap_remove :: "nat \<Rightarrow> 'a list \<Rightarrow> 'a list" where
  "swap_remove i xs = butlast (xs[i := last xs])"

type_synonym address_table = "(address, session_id list) table"

definition address_push :: "address \<Rightarrow> session_id \<Rightarrow> address_table \<Rightarrow> address_table" where
  "address_push a sid t = hm_modify_or a (\<lambda>v. v @ [sid]) [sid] t"

definition address_remove :: "address \<Rightarrow> session_id \<Rightarrow> address_table \<Rightarrow> session_id option \<times> address_table" where
  "address_remove a sid t =
     (case hm_get t a of
        None \<Rightarrow> (None, t)
      | Some v \<Rightarrow>
          (case index_of sid v of
             None \<Rightarrow> (None, t)
           | Some i \<Rightarrow>
               (let v = swap_remove i v
                in (Some sid, if v = [] then hm_remove a (hm_insert a v t) else hm_insert a v t))))"

definition move_session ::
  "address \<Rightarrow> session_id \<Rightarrow> address \<Rightarrow> address_table \<Rightarrow> address option \<times> address_table" where
  "move_session src sid dst t =
     (case address_remove src sid t of
        (None, t) \<Rightarrow> (None, t)
      | (Some _, t) \<Rightarrow> (Some dst, address_push dst sid t))"

definition is_free :: "connection_state option \<Rightarrow> bool" where
  "is_free c = (case c of
     Some (Established e) \<Rightarrow> (case es_state e of Session_Streaming _ \<Rightarrow> False | _ \<Rightarrow> True) | _ \<Rightarrow> False)"

definition free_session :: "('k, 's) protocol \<Rightarrow> address \<Rightarrow> session_id option" where
  "free_session st a =
     (case hm_get (pr_address_session st) a of
        None \<Rightarrow> None
      | Some v \<Rightarrow> find (\<lambda>sid. is_free (connection st sid)) v)"

section \<open>Handshakes\<close>

definition new_handshake ::
  "handshake_id \<Rightarrow> address \<Rightarrow> 's \<Rightarrow> session_id \<Rightarrow> ticket \<Rightarrow> ('k, 's) protocol \<Rightarrow> ('k, 's) protocol" where
  "new_handshake hid a secret sid answer st =
     st\<lparr>pr_handshakes := hm_insert hid
          \<lparr>hk_peer_address = a, hk_secret = secret, hk_session_id = sid, hk_response = answer\<rparr>
          (pr_handshakes st)\<rparr>"

definition take_handshake ::
  "handshake_id \<Rightarrow> ('k, 's) protocol \<Rightarrow> 's handshake_entry option \<times> ('k, 's) protocol" where
  "take_handshake hid st =
     (hm_get (pr_handshakes st) hid, st\<lparr>pr_handshakes := hm_remove hid (pr_handshakes st)\<rparr>)"

text \<open>A fresh id of \<open>HandshakeId::generate\<close>: what its loop returns.\<close>

definition handshake_id_fresh :: "('k, 's) protocol \<Rightarrow> handshake_id \<Rightarrow> bool" where
  "handshake_id_fresh st hid \<longleftrightarrow> \<not> hm_contains (pr_handshakes st) hid \<and> hid \<noteq> 0"

definition established_new :: "session_id \<Rightarrow> address \<Rightarrow> bytes \<Rightarrow> connection_state" where
  "established_new sid a app =
     Established \<lparr>es_session_id = sid, es_last_activity = 0, es_connection = True,
       es_state = Session_Up, es_address = a, es_app_id = app\<rparr>"

text \<open>
  \<open>promote_handshake\<close>: the connection is entered under the id of the peer's packet, but the id it
  stores, and the id in the address table, is the one this host proposed.
\<close>

definition promote_handshake ::
  "bool \<Rightarrow> session_id \<Rightarrow> address \<Rightarrow> handshake_id \<Rightarrow> bytes \<Rightarrow> ('k, 's) protocol
     \<Rightarrow> ('s \<times> ticket) option \<times> ('k, 's) protocol" where
  "promote_handshake dbg new_sid a hid app st =
     (case take_handshake hid st of
        (None, st) \<Rightarrow> (None, st)
      | (Some h, st) \<Rightarrow>
          if session_exists st new_sid then (None, unexpected dbg st)
          else (let st = set_connection new_sid (established_new (hk_session_id h) a app) st;
                    st = st\<lparr>pr_address_session := address_push a (hk_session_id h) (pr_address_session st)\<rparr>
                in (Some (hk_secret h, hk_response h), st)))"

definition reuse_handshake ::
  "session_id \<Rightarrow> handshake_id \<Rightarrow> 's \<Rightarrow> handshake_id \<Rightarrow> ('k, 's) protocol
     \<Rightarrow> handshake_id option \<times> ('k, 's) protocol" where
  "reuse_handshake sid hid secret new_hid st =
     (case take_handshake hid st of
        (None, st) \<Rightarrow> (None, st)
      | (Some h, st) \<Rightarrow>
          (Some new_hid, new_handshake new_hid (hk_peer_address h) secret sid (hk_response h) st))"

definition new_session ::
  "bool \<Rightarrow> session_id \<Rightarrow> ticket \<Rightarrow> address \<Rightarrow> bytes \<Rightarrow> ('k, 's) protocol \<Rightarrow> ('k, 's) protocol" where
  "new_session dbg sid answer a app st =
     (if session_exists st sid then unexpected dbg st
      else (let st = set_connection sid (Handshake \<lparr>hs_session_id = sid, hs_response = answer, hs_signal = False,
                       hs_app_id = app, hs_address = a\<rparr>) st
            in st\<lparr>pr_address_session := address_push a sid (pr_address_session st)\<rparr>))"

definition handshake_done :: "session_id \<Rightarrow> ('k, 's) protocol \<Rightarrow> ('k, 's) protocol" where
  "handshake_done sid st =
     (case connection st sid of
        None \<Rightarrow> st
      | Some (Handshake h) \<Rightarrow>
          emit [Answer (hs_response h) (Connected (hs_session_id h))]
            (set_connection (hs_session_id h)
              (established_new (hs_session_id h) (hs_address h) (hs_app_id h)) (drop_connection sid st))
      | Some c \<Rightarrow> set_connection sid c (drop_connection sid st))"

text \<open>
  \<open>advertise_closed\<close>: the table is emptied; \<open>gone\<close> are the callers that no longer wait. A failed
  assertion ends the loop.
\<close>

fun advertise_loop ::
  "bool \<Rightarrow> (ticket \<Rightarrow> bool) \<Rightarrow> (session_id \<times> connection_state) list \<Rightarrow> effect list \<times> bool" where
  "advertise_loop dbg gone [] = ([], True)"
| "advertise_loop dbg gone ((sid, c) # cs) =
     (let (sent, ok) =
            (case c of
               Handshake h \<Rightarrow> ([Answer (hs_response h) (Refused CE_ProtocolClosed)], \<not> gone (hs_response h))
             | Established e \<Rightarrow>
                 (if es_connection e then [App_Event sid Ev_ProtocolClosed] else [], es_connection e))
      in if dbg \<and> \<not> ok then (sent, False)
         else (let (others, ok) = advertise_loop dbg gone cs in (sent @ others, ok)))"

definition advertise_closed ::
  "bool \<Rightarrow> (ticket \<Rightarrow> bool) \<Rightarrow> ('k, 's) protocol \<Rightarrow> ('k, 's) protocol" where
  "advertise_closed dbg gone st =
     (let (sent, ok) = advertise_loop dbg gone (pr_connections st);
          st = emit sent (st\<lparr>pr_connections := []\<rparr>)
      in if ok then st else fail_task st)"

section \<open>Sessions\<close>

text \<open>
  \<open>close_session\<close> takes three locks, one after the other: it takes the connection out of its table, then
  the session out of the table of its address, and then it removes the key, only when the session was
  found there.
\<close>

definition close_unlink :: "session_id \<Rightarrow> ('k, 's) protocol \<Rightarrow> 's rest option \<times> ('k, 's) protocol" where
  "close_unlink sid st =
     (case connection st sid of
        None \<Rightarrow> (None, st)
      | Some c \<Rightarrow>
          (Some (Rest_Close_Address sid (cs_address c)),
           (let st = drop_connection sid st
            in case c of
                 Handshake h \<Rightarrow> emit [Answer (hs_response h) (Refused CE_SessionClosedByPeer)] st
               | Established e \<Rightarrow> st)))"

definition close_address ::
  "session_id \<Rightarrow> address \<Rightarrow> ('k, 's) protocol \<Rightarrow> 's rest option \<times> ('k, 's) protocol" where
  "close_address sid a st =
     (let (found, t) = address_remove a sid (pr_address_session st)
      in (case found of None \<Rightarrow> None | Some _ \<Rightarrow> Some (Rest_Close_Key sid), st\<lparr>pr_address_session := t\<rparr>))"

definition close_key :: "session_id \<Rightarrow> ('k, 's) protocol \<Rightarrow> ('k, 's) protocol" where
  "close_key sid st = st\<lparr>pr_encryption := hm_remove sid (pr_encryption st)\<rparr>"

definition close_session_routine :: "session_id \<Rightarrow> ('k, 's) protocol \<Rightarrow> ('k, 's) protocol" where
  "close_session_routine sid st =
     (case close_unlink sid st of
        (Some (Rest_Close_Address s a), st) \<Rightarrow>
          (case close_address s a st of
             (None, st) \<Rightarrow> st
           | (Some _, st) \<Rightarrow> close_key sid st)
      | (_, st) \<Rightarrow> st)"

lemma close_session_routine_alt:
  "close_session_routine sid st =
     (case connection st sid of
        None \<Rightarrow> st
      | Some c \<Rightarrow>
          (let st = drop_connection sid st;
               st = (case c of
                       Handshake h \<Rightarrow> emit [Answer (hs_response h) (Refused CE_SessionClosedByPeer)] st
                     | Established e \<Rightarrow> st);
               (found, t) = address_remove (cs_address c) sid (pr_address_session st);
               st = st\<lparr>pr_address_session := t\<rparr>
           in case found of
                None \<Rightarrow> st
              | Some _ \<Rightarrow> st\<lparr>pr_encryption := hm_remove sid (pr_encryption st)\<rparr>))"
  by (auto simp: close_session_routine_def close_unlink_def close_address_def close_key_def Let_def
      split: option.splits prod.splits connection_state.splits)

definition close_stream_routine :: "session_id \<Rightarrow> ('k, 's) protocol \<Rightarrow> ('k, 's) protocol" where
  "close_stream_routine sid st =
     (case connection st sid of
        Some (Established e) \<Rightarrow>
          (case es_state e of
             Session_Streaming s \<Rightarrow>
               (let st = (case ss_streaming s of
                            Streaming_To t \<Rightarrow> post_event (to_event t) (Playback Act_Close) st
                          | Streaming_From _ \<Rightarrow> st);
                    st = emit [Stream_Notice ((ss_stream s)\<lparr>sm_closed := True\<rparr>)] st
                in set_connection sid (Established (e\<lparr>es_state := Session_Up\<rparr>)) st)
           | _ \<Rightarrow> st)
      | _ \<Rightarrow> st)"

definition update_address_routine ::
  "bool \<Rightarrow> session_id \<Rightarrow> address \<Rightarrow> ('k, 's) protocol \<Rightarrow> ('k, 's) protocol" where
  "update_address_routine dbg sid new st =
     (case connection st sid of
        None \<Rightarrow> st
      | Some c \<Rightarrow>
          if new = cs_address c then st
          else (case move_session (cs_address c) sid new (pr_address_session st) of
                  (None, t) \<Rightarrow> unexpected dbg (st\<lparr>pr_address_session := t\<rparr>)
                | (Some _, t) \<Rightarrow>
                    set_connection sid (cs_update_address new c) (st\<lparr>pr_address_session := t\<rparr>)))"

text \<open>One round of the loop of \<open>send_keep_alive_on_session\<close>; it ends when the session is gone.\<close>

definition keep_alive_tick :: "timestamp \<Rightarrow> session_id \<Rightarrow> ('k, 's) protocol \<Rightarrow> ('k, 's) protocol" where
  "keep_alive_tick now sid st =
     (case connection st sid of
        None \<Rightarrow> st
      | Some c \<Rightarrow> emit [Send (wrap (KeepAlivePacket (keep_alive_new now opt_none sid)) (cs_address c))] st)"

section \<open>The task of a sender\<close>

text \<open>The pattern of the sender's side: an established connection with a stream it sends.\<close>

definition sending_to :: "connection_state option \<Rightarrow> (established \<times> stream_state \<times> streaming_to) option" where
  "sending_to c =
     (case c of
        Some (Established e) \<Rightarrow>
          (case es_state e of
             Session_Streaming s \<Rightarrow>
               (case ss_streaming s of Streaming_To t \<Rightarrow> Some (e, s, t) | Streaming_From _ \<Rightarrow> None)
           | _ \<Rightarrow> None)
      | _ \<Rightarrow> None)"

definition seek_action :: "session_id \<Rightarrow> byte_position \<Rightarrow> ('k, 's) protocol \<Rightarrow> ('k, 's) protocol" where
  "seek_action sid pos st =
     (case sending_to (connection st sid) of
        None \<Rightarrow> st
      | Some (e, s, t) \<Rightarrow>
          set_connection sid
            (with_stream e (s\<lparr>ss_streaming := Streaming_To (t\<lparr>to_buffer := snd (rb_seek pos (to_buffer t))\<rparr>)\<rparr>)) st)"

definition handle_stream_event ::
  "stream_event \<Rightarrow> sender_task \<Rightarrow> ('k, 's) protocol \<Rightarrow> sender_task \<times> ('k, 's) protocol" where
  "handle_stream_event ev t st =
     (case ev of
        Playback Act_Pause \<Rightarrow> (t\<lparr>tk_playing := False\<rparr>, st)
      | Playback Act_Play \<Rightarrow> (t\<lparr>tk_playing := True\<rparr>, st)
      | Playback (Act_Seek pos) \<Rightarrow>
          (t\<lparr>tk_extras := add_seek_hole_indices (tk_last_sent t) pos (tk_extras t)\<rparr>,
           seek_action (tk_session t) pos st)
      | Playback Act_Done \<Rightarrow> (t, close_stream_routine (tk_session t) st)
      | Playback Act_Close \<Rightarrow> (t, close_stream_routine (tk_session t) st)
      | Retransmit_Ranges rs \<Rightarrow> (t\<lparr>tk_extras := add_retransmit_indices rs (tk_extras t)\<rparr>, st))"

definition send_stream_action ::
  "bool \<Rightarrow> timestamp \<Rightarrow> session_id \<Rightarrow> nat \<Rightarrow> extras \<Rightarrow> ('k, 's) protocol
     \<Rightarrow> byte_position option ures \<times> extras \<times> ('k, 's) protocol" where
  "send_stream_action dbg now sid n xs st =
     (case sending_to (connection st sid) of
        None \<Rightarrow> (Ok None, xs, st)
      | Some (e, s, _) \<Rightarrow>
          (let (r, xs, s) = stream_send dbg now sid (es_address e) n xs s;
               st = set_connection sid (with_stream e s) st
           in case r of
                Ok (ps, sent) \<Rightarrow> (Ok sent, xs, emit (map Send ps) st)
              | _ \<Rightarrow> (Panic, xs, st)))"

text \<open>
  The two arms of the loop of \<open>send_on_session\<close>, on the \<open>i\<close>-th task: an event of its slot, when
  one is signalled, and a tick of the interval, when it is playing. The loop has no exit: only a
  panic ends the task.
\<close>

definition task_event :: "nat \<Rightarrow> ('k, 's) protocol \<Rightarrow> ('k, 's) protocol" where
  "task_event i st =
     (let t = pr_tasks st ! i
      in case shared_listen (pr_events st ! tk_event t) of
           (None, _) \<Rightarrow> st
         | (Some ev, slot) \<Rightarrow>
             (let (t, st) = handle_stream_event ev t (st\<lparr>pr_events := (pr_events st)[tk_event t := slot]\<rparr>)
              in st\<lparr>pr_tasks := (pr_tasks st)[i := t]\<rparr>))"

definition task_tick :: "bool \<Rightarrow> timestamp \<Rightarrow> nat \<Rightarrow> ('k, 's) protocol \<Rightarrow> ('k, 's) protocol" where
  "task_tick dbg now i st =
     (let t = pr_tasks st ! i
      in if \<not> tk_playing t then st
         else case send_stream_action dbg now (tk_session t) PACKET_COUNT_PER_BATCH (tk_extras t) st of
           (Ok sent, xs, st) \<Rightarrow>
             st\<lparr>pr_tasks := (pr_tasks st)[i := t\<lparr>tk_extras := xs,
                  tk_last_sent := (case sent of Some p \<Rightarrow> p | None \<Rightarrow> tk_last_sent t)\<rparr>]\<rparr>
         | (_, xs, st) \<Rightarrow> fail_task (st\<lparr>pr_tasks := take i (pr_tasks st) @ drop (Suc i) (pr_tasks st)\<rparr>))"

text \<open>\<open>send_on_session\<close> up to its loop: the stream gets a slot, the task a reference to it.\<close>

definition sender_task_new :: "session_id \<Rightarrow> event_ref \<Rightarrow> sender_task" where
  "sender_task_new sid r =
     \<lparr>tk_session = sid, tk_event = r, tk_playing = True, tk_extras = [], tk_last_sent = 0\<rparr>"

definition send_on_session ::
  "bool \<Rightarrow> session_id \<Rightarrow> rbuffer \<Rightarrow> stream_message \<Rightarrow> ('k, 's) protocol \<Rightarrow> ('k, 's) protocol" where
  "send_on_session dbg sid buffer msg st =
     (case connection st sid of
        None \<Rightarrow> unexpected dbg st
      | Some c \<Rightarrow>
          attempt (cs_stream_to dbg (length (pr_events st)) buffer msg c) (\<lambda>c st.
            let st = set_connection sid c st
            in case sending_to (Some c) of
                 None \<Rightarrow> unexpected dbg st
               | Some (_, _, t) \<Rightarrow>
                   (let st = (if to_event t = length (pr_events st)
                              then st\<lparr>pr_events := pr_events st @ [shared_default]\<rparr> else st)
                    in st\<lparr>pr_tasks := pr_tasks st @ [sender_task_new sid (to_event t)]\<rparr>)) st)"

section \<open>Pruning\<close>

definition FEC_PRUNE_TTL_MS :: u64 where
  "FEC_PRUNE_TTL_MS = PACKET_DISCARD_TIME_MS"

text \<open>The expired positions of each session, in one entry per session.\<close>

definition by_session ::
  "(session_id \<times> batch_id \<times> byte_position list) list \<Rightarrow> (session_id, byte_position list) table" where
  "by_session expired =
     fold (\<lambda>(sid, bid, ps) t. if ps = [] then t else hm_modify_or sid (\<lambda>v. v @ ps) ps t) expired []"

fun prune_requests ::
  "bool \<Rightarrow> timestamp \<Rightarrow> (session_id \<times> byte_position list) list \<Rightarrow> ('k, 's) protocol \<Rightarrow> ('k, 's) protocol" where
  "prune_requests dbg now [] st = st"
| "prune_requests dbg now ((sid, ps) # rest) st =
     (case map_option receiving (connection st sid) of
        Some (Some (e, s, sf)) \<Rightarrow>
          (let (accepted, sf) = reserve_for_request now ps sf;
               st = set_connection sid (with_stream e (s\<lparr>ss_streaming := Streaming_From sf\<rparr>)) st
           in if accepted = [] then prune_requests dbg now rest st
              else (case and_then (coalesce_byte_positions dbg accepted)
                           (dispatch_retransmit_request dbg now sid (es_address e)) of
                      Ok ws \<Rightarrow> prune_requests dbg now rest (emit (map Send ws) st)
                    | _ \<Rightarrow> fail_task st))
      | _ \<Rightarrow> prune_requests dbg now rest st)"

definition fec_prune_pass :: "bool \<Rightarrow> timestamp \<Rightarrow> ('k, 's) protocol \<Rightarrow> ('k, 's) protocol" where
  "fec_prune_pass dbg now st =
     (let (expired, fs) = xor_prune now FEC_PRUNE_TTL_MS (pr_fec st)
      in prune_requests dbg now (by_session expired) (st\<lparr>pr_fec := fs\<rparr>))"

text \<open>One pass of \<open>PendingAckWindow::prune\<close>, with the addresses of the established connections.\<close>

definition ack_prune_pass :: "timestamp \<Rightarrow> ('k, 's) protocol \<Rightarrow> ('k, 's) protocol" where
  "ack_prune_pass now st =
     (case pw_prune (\<lambda>sid. map_option es_address (established_at st sid)) now (pr_ack st) of
        (_, sends, w) \<Rightarrow> emit (map Send sends) (st\<lparr>pr_ack := w\<rparr>))"

end
