(* ===== verification/Received.thy ===== *)
theory Received imports Protocol begin

text \<open>
  What the manager does with a packet or an error from the packet processor
  (\<open>src/src/manager/routines/received.rs\<close>, \<open>src/src/manager/routines/errors.rs\<close> and the dispatch
  of \<open>src/src/manager/inbound.rs\<close>): one routine per kind of packet.

  What a routine takes from outside is the record \<open>env\<close>: the time, the build profile, the hash, the
  key agreement (\<open>x25519\<close> and the construction of the cipher, third-party crates), the random ids and
  the fresh key pair, the answer of the application to an incoming connection and the ticket on
  which it waits. The activity update that a routine starts as a task of its own runs at its start.
\<close>

datatype app_response = App_Approved | App_Rejected | App_Gone

record ('k, 's) env =
  en_dbg :: bool
  en_now :: timestamp
  en_xxh :: "bytes \<Rightarrow> fingerprint"
  en_agree :: "'s \<Rightarrow> bytes \<Rightarrow> 'k"
  en_session_id :: session_id
  en_handshake_id :: handshake_id
  en_secret :: 's
  en_public_key :: bytes
  en_app :: app_response
  en_ticket :: ticket

section \<open>Shared steps\<close>

definition send_packet :: "packet ures \<Rightarrow> address \<Rightarrow> ('k, 's) protocol \<Rightarrow> ('k, 's) protocol" where
  "send_packet p a st = attempt p (\<lambda>p. emit [Send (wrap p a)]) st"

definition update_last_activity :: "session_id \<Rightarrow> timestamp \<Rightarrow> ('k, 's) protocol \<Rightarrow> ('k, 's) protocol" where
  "update_last_activity sid ts st =
     (case established_at st sid of
        None \<Rightarrow> st
      | Some e \<Rightarrow> set_connection sid (Established (e\<lparr>es_last_activity := ts\<rparr>)) st)"

definition received_packet_that_requires_ack ::
  "('k, 's) env \<Rightarrow> session_id \<Rightarrow> fingerprint ures \<Rightarrow> ('k, 's) protocol \<Rightarrow> ('k, 's) protocol" where
  "received_packet_that_requires_ack env sid fp st =
     (case established_at st sid of
        None \<Rightarrow> st
      | Some e \<Rightarrow> send_packet
          (and_then fp (\<lambda>fp. map_res AckPacket (ack_new (en_dbg env) (en_now env) opt_none sid fp)))
          (es_address e) st)"

text \<open>\<open>if packet.opts.contains(RequireAck)\<close> in front of the routine of a packet.\<close>

definition ack_if_required ::
  "('k, 's) env \<Rightarrow> options \<Rightarrow> session_id \<Rightarrow> fingerprint ures \<Rightarrow> ('k, 's) protocol \<Rightarrow> ('k, 's) protocol" where
  "ack_if_required env opts sid fp st =
     (if opt_contains opts RequireAck then received_packet_that_requires_ack env sid fp st else st)"

text \<open>The stream handle of an established session that streams, in either direction.\<close>

definition stream_of :: "connection_state option \<Rightarrow> (established \<times> stream_state) option" where
  "stream_of c =
     (case c of
        Some (Established e) \<Rightarrow> (case es_state e of Session_Streaming s \<Rightarrow> Some (e, s) | _ \<Rightarrow> None)
      | _ \<Rightarrow> None)"

definition modify_stream ::
  "(stream_message \<Rightarrow> stream_message) \<Rightarrow> session_id \<Rightarrow> ('k, 's) protocol \<Rightarrow> ('k, 's) protocol" where
  "modify_stream f sid st =
     (case stream_of (connection st sid) of
        None \<Rightarrow> st
      | Some (e, s) \<Rightarrow> set_connection sid (with_stream e (s\<lparr>ss_stream := f (ss_stream s)\<rparr>)) st)"

definition unexpected_packet_report ::
  "('k, 's) env \<Rightarrow> session_id \<Rightarrow> fingerprint ures \<Rightarrow> ('k, 's) protocol \<Rightarrow> ('k, 's) protocol" where
  "unexpected_packet_report env sid fp st =
     (case connection st sid of
        None \<Rightarrow> st
      | Some c \<Rightarrow> send_packet
          (and_then fp (\<lambda>fp. map_res UnexpectedPacketErrorPacket
             (unexpected_packet_new (en_dbg env) (en_now env) opt_none sid PT_Data secondary_none fp)))
          (cs_address c) st)"

section \<open>Closing\<close>

text \<open>What is told before a session is closed: to its stream, or to the application.\<close>

definition notify_notice :: "session_id \<Rightarrow> connection_state \<Rightarrow> effect list" where
  "notify_notice sid c =
     (case c of
        Established e \<Rightarrow>
          (case es_state e of
             Session_Streaming s \<Rightarrow> [Stream_Notice ((ss_stream s)\<lparr>sm_closed := True\<rparr>)]
           | _ \<Rightarrow> if es_connection e then [App_Event sid Ev_ConnectionClosed] else [])
      | Handshake _ \<Rightarrow> [])"

definition deref_notice :: "connection_state \<Rightarrow> effect list" where
  "deref_notice c =
     (case stream_of (Some c) of
        Some (e, s) \<Rightarrow> [Stream_Notice ((ss_stream s)\<lparr>sm_buffer_closed := True\<rparr>)] | None \<Rightarrow> [])"

definition notify_and_close_session :: "session_id \<Rightarrow> ('k, 's) protocol \<Rightarrow> ('k, 's) protocol" where
  "notify_and_close_session sid st =
     (case connection st sid of
        None \<Rightarrow> st
      | Some c \<Rightarrow> close_session_routine sid (emit (notify_notice sid c) st))"

definition received_close_session :: "close_session \<Rightarrow> ('k, 's) protocol \<Rightarrow> ('k, 's) protocol" where
  "received_close_session p = notify_and_close_session (cs_session_id p)"

definition received_session_does_not_exist ::
  "session_does_not_exist \<Rightarrow> ('k, 's) protocol \<Rightarrow> ('k, 's) protocol" where
  "received_session_does_not_exist p = notify_and_close_session (sd_session_id p)"

definition failed_to_deref_buffer :: "session_id \<Rightarrow> ('k, 's) protocol \<Rightarrow> ('k, 's) protocol" where
  "failed_to_deref_buffer sid st =
     (case connection st sid of
        None \<Rightarrow> st
      | Some c \<Rightarrow> close_session_routine sid (emit (deref_notice c) st))"

section \<open>Small packets\<close>

definition received_track_reject :: "track_rejection \<Rightarrow> ('k, 's) protocol \<Rightarrow> ('k, 's) protocol" where
  "received_track_reject p = modify_stream (\<lambda>m. m\<lparr>sm_approved := Some False\<rparr>) (tj_session_id p)"

definition received_retransmit_request ::
  "('k, 's) env \<Rightarrow> retransmit \<Rightarrow> ('k, 's) protocol \<Rightarrow> ('k, 's) protocol" where
  "received_retransmit_request env p st =
     (let sid = re_session_id p;
          st = ack_if_required env (re_opts p) sid (packet_fingerprint (en_xxh env) (RetransmitPacket p)) st
      in case sending_to (connection st sid) of
           None \<Rightarrow> st
         | Some (e, s, t) \<Rightarrow> post_event (to_event t) (Retransmit_Ranges (re_payload p)) st)"

definition received_keep_alive ::
  "('k, 's) env \<Rightarrow> keep_alive \<Rightarrow> ('k, 's) protocol \<Rightarrow> ('k, 's) protocol" where
  "received_keep_alive env p st =
     (let st = update_last_activity (ka_session_id p) (ka_timestamp p) st
      in case ka_address p of
           None \<Rightarrow> st
         | Some a \<Rightarrow> update_address_routine (en_dbg env) (ka_session_id p) a st)"

definition received_track_request :: "track_request \<Rightarrow> ('k, 's) protocol \<Rightarrow> ('k, 's) protocol" where
  "received_track_request p st =
     (let sid = tr_session_id p;
          st = update_last_activity sid (tr_timestamp p) st
      in case established_at st sid of
           None \<Rightarrow> st
         | Some e \<Rightarrow> if es_connection e then emit [App_Event sid (Ev_TrackRequest (tr_payload p))] st else st)"

definition rejected_by_peer :: connection_error where
  "rejected_by_peer = CE_PeerRejected (Some ''Rejected By Peer'')"

text \<open>The table loses the session whatever its state; only a handshake is answered.\<close>

definition received_handshake_rejected ::
  "handshake_rejection \<Rightarrow> ('k, 's) protocol \<Rightarrow> ('k, 's) protocol" where
  "received_handshake_rejected p st =
     (case hr_reason p of
        Reject_App \<Rightarrow>
          (case take_handshake (hr_handshake_id p) st of
             (None, st) \<Rightarrow> st
           | (Some h, st) \<Rightarrow> emit [Answer (hk_response h) (Refused rejected_by_peer)] st)
      | Reject_IdCollision \<Rightarrow>
          (let st' = drop_connection (hr_session_id p) st
           in case connection st (hr_session_id p) of
                Some (Handshake h) \<Rightarrow> emit [Answer (hs_response h) (Refused CE_SessionIdCollided)] st'
              | _ \<Rightarrow> st'))"

definition received_ack :: "ack_packet \<Rightarrow> ('k, 's) protocol \<Rightarrow> ('k, 's) protocol" where
  "received_ack p st =
     (let st = update_last_activity (ak_session_id p) (ak_timestamp p) st
      in st\<lparr>pr_ack := pw_acknowledge (ak_fingerprint p) (pr_ack st)\<rparr>)"

definition received_playback_control :: "playback_control \<Rightarrow> ('k, 's) protocol \<Rightarrow> ('k, 's) protocol" where
  "received_playback_control p st =
     (if pc_control_type p = Play_Close then close_stream_routine (pc_session_id p) st
      else case sending_to (connection st (pc_session_id p)) of
             None \<Rightarrow> st
           | Some (e, s, t) \<Rightarrow> post_event (to_event t) (stream_event_of p) st)"

definition received_handshake_ack :: "handshake_ack \<Rightarrow> ('k, 's) protocol \<Rightarrow> ('k, 's) protocol" where
  "received_handshake_ack p = handshake_done (ha_session_id p)"

section \<open>Data and parity\<close>

text \<open>\<open>fec::recover\<close>, then \<open>recovered_packet\<close> under the lock of the connections.\<close>

definition recover_batch ::
  "('k, 's) env \<Rightarrow> batch_id \<Rightarrow> session_id \<Rightarrow> ('k, 's) protocol \<Rightarrow> (session_error, unit) res \<times> ('k, 's) protocol" where
  "recover_batch env bid sid st =
     (let (found, fs) = xor_recover (en_dbg env) bid sid (pr_fec st);
          st = st\<lparr>pr_fec := fs\<rparr>
      in case found of
           Ok (Some packets) \<Rightarrow>
             (case connection st sid of
                None \<Rightarrow> (Ok (), st)
              | Some c \<Rightarrow>
                  (let (r, sent, c) = cs_recovered (en_dbg env) (en_now env) bid packets c
                   in (r, emit sent (set_connection sid c st))))
         | Ok None \<Rightarrow> (Ok (), st)
         | _ \<Rightarrow> (Panic, st))"

definition received_parity_packet ::
  "('k, 's) env \<Rightarrow> parity_packet \<Rightarrow> ('k, 's) protocol \<Rightarrow> ('k, 's) protocol" where
  "received_parity_packet env p st =
     (let sid = pa_session_id p;
          st = update_last_activity sid (pa_timestamp p) st;
          (ready, fs) = xor_received (en_dbg env) (en_now env) (fec_of_parity p) (pr_fec st);
          st = st\<lparr>pr_fec := fs\<rparr>
      in case ready of
           Ok True \<Rightarrow>
             (let (r, st) = recover_batch env (pa_batch_id p) sid st
              in case r of
                   Ok _ \<Rightarrow> st
                 | Err FailedToDerefError \<Rightarrow> failed_to_deref_buffer sid st
                 | Err (StateMismatch _ _) \<Rightarrow>
                     unexpected_packet_report env sid (packet_fingerprint (en_xxh env) (ParityPacket p)) st
                 | Err IrrelevantError \<Rightarrow> st
                 | Panic \<Rightarrow> fail_task st)
         | Ok False \<Rightarrow> st
         | _ \<Rightarrow> fail_task st)"

text \<open>The rest of \<open>received_data_packet\<close>, once the session is no longer in its handshake.\<close>

definition data_packet_ready ::
  "('k, 's) env \<Rightarrow> data_packet \<Rightarrow> ('k, 's) protocol \<Rightarrow> ('k, 's) protocol" where
  "data_packet_ready env p st =
     (let sid = da_session_id p;
          fp = packet_fingerprint (en_xxh env) (DataPacket p);
          st = ack_if_required env (da_opts p) sid fp st
      in case connection st sid of
           None \<Rightarrow> st
         | Some c \<Rightarrow>
             (let (r, sent, c, fs) = cs_received_data (en_dbg env) (en_now env) p c (pr_fec st);
                  st = emit sent (set_connection sid c (st\<lparr>pr_fec := fs\<rparr>))
              in case r of
                   Ok True \<Rightarrow>
                     (let (r, st) = recover_batch env (da_batch_id p) sid st
                      in case r of
                           Err FailedToDerefError \<Rightarrow> failed_to_deref_buffer sid st
                         | Panic \<Rightarrow> fail_task st
                         | _ \<Rightarrow> st)
                 | Ok False \<Rightarrow> st
                 | Err (StateMismatch _ _) \<Rightarrow> unexpected_packet_report env sid fp st
                 | Err FailedToDerefError \<Rightarrow> failed_to_deref_buffer sid st
                 | Err IrrelevantError \<Rightarrow> st
                 | Panic \<Rightarrow> fail_task st))"

text \<open>
  \<open>received_data_packet\<close>: a packet of a session in its handshake waits (\<open>pr_waiting\<close>) until the
  handshake is over or seven seconds have passed.
\<close>

definition received_data_packet ::
  "('k, 's) env \<Rightarrow> data_packet \<Rightarrow> ('k, 's) protocol \<Rightarrow> ('k, 's) protocol" where
  "received_data_packet env p st =
     (let st = update_last_activity (da_session_id p) (da_timestamp p) st
      in case connection st (da_session_id p) of
           None \<Rightarrow> st
         | Some (Handshake h) \<Rightarrow> st\<lparr>pr_waiting := pr_waiting st @ [p]\<rparr>
         | Some (Established e) \<Rightarrow> data_packet_ready env p st)"

section \<open>Handshakes\<close>

definition insert_key :: "session_id \<Rightarrow> 'k \<Rightarrow> ('k, 's) protocol \<Rightarrow> ('k, 's) protocol" where
  "insert_key sid k st = st\<lparr>pr_encryption := hm_insert sid (enc_window_new k) (pr_encryption st)\<rparr>"

definition send_rejection ::
  "('k, 's) env \<Rightarrow> hello \<Rightarrow> rejection_reason \<Rightarrow> address \<Rightarrow> ('k, 's) protocol \<Rightarrow> ('k, 's) protocol" where
  "send_rejection env p reason src =
     emit [Send (wrap (HandshakeRejection (handshake_rejection_new (en_now env) opt_none
       (he_proposed_session_id p) reason (he_handshake_id p))) src)]"

definition send_hello ::
  "('k, 's) env \<Rightarrow> options \<Rightarrow> session_id \<Rightarrow> handshake_id \<Rightarrow> address \<Rightarrow> ('k, 's) protocol \<Rightarrow> ('k, 's) protocol" where
  "send_hello env opts sid hid a st =
     send_packet (map_res HelloPacket
       (hello_new (en_dbg env) (en_now env) opts sid hid (en_public_key env) (pr_app_id st))) a st"

text \<open>
  The routine of a hello, as the receiver of the handshake, in the pieces between two awaits: it asks the
  application (\<open>receiver_begin\<close>), chooses the id of the session (\<open>receiver_answered\<close>), enters it
  (\<open>accept_enter\<close>), and only then, under another lock, inserts its key (\<open>accept_key\<close>). A piece returns what is
  left to do.
\<close>

definition receiver_begin ::
  "('k, 's) env \<Rightarrow> hello \<Rightarrow> address \<Rightarrow> ('k, 's) protocol \<Rightarrow> 's rest option \<times> ('k, 's) protocol" where
  "receiver_begin env p src st =
     (Some (Rest_Answer p src (en_ticket env)), emit [App_Incoming (he_app_id p) src (en_ticket env)] st)"

definition receiver_answered ::
  "('k, 's) env \<Rightarrow> hello \<Rightarrow> address \<Rightarrow> ticket \<Rightarrow> ('k, 's) protocol \<Rightarrow> 's rest option \<times> ('k, 's) protocol" where
  "receiver_answered env p src t st =
     (case en_app env of
        App_Gone \<Rightarrow> (None, st)
      | App_Rejected \<Rightarrow> (None, send_rejection env p Reject_App src st)
      | App_Approved \<Rightarrow>
          (Some (Rest_Enter (if session_exists st (he_proposed_session_id p) then en_session_id env
                             else he_proposed_session_id p) p src t), st))"

definition accept_enter ::
  "('k, 's) env \<Rightarrow> session_id \<Rightarrow> hello \<Rightarrow> address \<Rightarrow> ticket \<Rightarrow> ('k, 's) protocol
     \<Rightarrow> 's rest option \<times> ('k, 's) protocol" where
  "accept_enter env sid p src t st =
     (if en_dbg env \<and> session_exists st sid then None else Some (Rest_Accept sid p src),
      new_session (en_dbg env) sid t src (he_app_id p) st)"

definition accept_key ::
  "('k, 's) env \<Rightarrow> session_id \<Rightarrow> hello \<Rightarrow> address \<Rightarrow> ('k, 's) protocol \<Rightarrow> ('k, 's) protocol" where
  "accept_key env sid p src st =
     send_hello env (opt_construct [RequireAck]) sid (he_handshake_id p) src
       (insert_key sid (en_agree env (en_secret env) (he_public_key p)) st)"

definition session_id_collided ::
  "('k, 's) env \<Rightarrow> hello \<Rightarrow> address \<Rightarrow> ('k, 's) protocol \<Rightarrow> ('k, 's) protocol" where
  "session_id_collided env p src st =
     (case reuse_handshake (he_proposed_session_id p) (he_handshake_id p) (en_secret env)
             (en_handshake_id env) (send_rejection env p Reject_IdCollision src st) of
        (None, st) \<Rightarrow> st
      | (Some hid, st) \<Rightarrow> send_hello env opt_none (en_session_id env) hid src st)"

text \<open>
  The same for the host that began the handshake: \<open>promote_handshake\<close> makes the session established
  before its key is inserted (\<open>initialize_key\<close>).
\<close>

definition initializer_begin ::
  "('k, 's) env \<Rightarrow> hello \<Rightarrow> address \<Rightarrow> ('k, 's) protocol \<Rightarrow> 's rest option \<times> ('k, 's) protocol" where
  "initializer_begin env p src st =
     (if session_exists st (he_proposed_session_id p) then (None, session_id_collided env p src st)
      else (Some (Rest_Promote p src), st))"

definition initializer_promote ::
  "('k, 's) env \<Rightarrow> hello \<Rightarrow> address \<Rightarrow> ('k, 's) protocol \<Rightarrow> 's rest option \<times> ('k, 's) protocol" where
  "initializer_promote env p src st =
     (case promote_handshake (en_dbg env) (he_proposed_session_id p) src (he_handshake_id p) (he_app_id p) st of
        (None, st) \<Rightarrow> (None, st)
      | (Some (secret, answer), st) \<Rightarrow> (Some (Rest_Initialize p src secret answer), st))"

definition initialize_key ::
  "('k, 's) env \<Rightarrow> hello \<Rightarrow> address \<Rightarrow> 's \<Rightarrow> ticket \<Rightarrow> ('k, 's) protocol \<Rightarrow> ('k, 's) protocol" where
  "initialize_key env p src secret answer st =
     (let sid = he_proposed_session_id p
      in emit [Answer answer (Connected sid),
               Send (wrap (HandshakeAckPacket (handshake_ack_new (en_now env) sid (he_handshake_id p))) src),
               Keep_Alive sid]
           (insert_key sid (en_agree env secret (he_public_key p)) st))"

text \<open>The next piece of an unfinished routine, with what is then left; and all its pieces in one go.\<close>

fun rest_step ::
  "('k, 's) env \<Rightarrow> 's rest \<Rightarrow> ('k, 's) protocol \<Rightarrow> 's rest option \<times> ('k, 's) protocol" where
  "rest_step env (Rest_Answer p src t) st = receiver_answered env p src t st"
| "rest_step env (Rest_Enter sid p src t) st = accept_enter env sid p src t st"
| "rest_step env (Rest_Accept sid p src) st = (None, accept_key env sid p src st)"
| "rest_step env (Rest_Promote p src) st = initializer_promote env p src st"
| "rest_step env (Rest_Initialize p src secret answer) st = (None, initialize_key env p src secret answer st)"
| "rest_step env (Rest_Close_Address sid a) st = close_address sid a st"
| "rest_step env (Rest_Close_Key sid) st = (None, close_key sid st)"

fun rest_rank :: "'s rest option \<Rightarrow> nat" where
  "rest_rank None = 0"
| "rest_rank (Some (Rest_Answer p src t)) = 3"
| "rest_rank (Some (Rest_Enter sid p src t)) = 2"
| "rest_rank (Some (Rest_Promote p src)) = 2"
| "rest_rank (Some (Rest_Close_Address sid a)) = 2"
| "rest_rank (Some _) = 1"

lemma rest_step_rank: "rest_rank (fst (rest_step env r st)) < rest_rank (Some r)"
  by (cases r) (auto simp: receiver_answered_def accept_enter_def initializer_promote_def close_address_def
      split: app_response.splits option.splits prod.splits)

function complete :: "('k, 's) env \<Rightarrow> 's rest option \<times> ('k, 's) protocol \<Rightarrow> ('k, 's) protocol" where
  "complete env (None, st) = st"
| "complete env (Some r, st) = complete env (rest_step env r st)"
  by pat_completeness auto
termination
  by (relation "measure (\<lambda>(env, r, st). rest_rank r)") (simp_all add: case_prod_beta rest_step_rank)

definition accept_hello ::
  "('k, 's) env \<Rightarrow> session_id \<Rightarrow> hello \<Rightarrow> address \<Rightarrow> ('k, 's) protocol \<Rightarrow> ('k, 's) protocol" where
  "accept_hello env sid p src st = complete env (accept_enter env sid p src (en_ticket env) st)"

definition received_hello_as_receiver ::
  "('k, 's) env \<Rightarrow> hello \<Rightarrow> address \<Rightarrow> ('k, 's) protocol \<Rightarrow> ('k, 's) protocol" where
  "received_hello_as_receiver env p src st = complete env (receiver_begin env p src st)"

definition received_hello_as_initializer ::
  "('k, 's) env \<Rightarrow> hello \<Rightarrow> address \<Rightarrow> ('k, 's) protocol \<Rightarrow> ('k, 's) protocol" where
  "received_hello_as_initializer env p src st = complete env (initializer_begin env p src st)"

text \<open>The whole routine, in one go and up to its first wait.\<close>

definition hello_begin ::
  "('k, 's) env \<Rightarrow> hello \<Rightarrow> address \<Rightarrow> ('k, 's) protocol \<Rightarrow> 's rest option \<times> ('k, 's) protocol" where
  "hello_begin env p src st =
     (if hm_contains (pr_handshakes st) (he_handshake_id p) then initializer_begin env p src st
      else receiver_begin env p src st)"

lemma accept_hello_alt:
  "accept_hello env sid p src st =
     (let taken = session_exists st sid;
          st = new_session (en_dbg env) sid (en_ticket env) src (he_app_id p) st
      in if en_dbg env \<and> taken then st
         else send_hello env (opt_construct [RequireAck]) sid (he_handshake_id p) src
                (insert_key sid (en_agree env (en_secret env) (he_public_key p)) st))"
  by (simp add: accept_hello_def accept_enter_def accept_key_def Let_def)

lemma received_hello_as_receiver_alt:
  "received_hello_as_receiver env p src st =
     (let st = emit [App_Incoming (he_app_id p) src (en_ticket env)] st
      in case en_app env of
           App_Gone \<Rightarrow> st
         | App_Rejected \<Rightarrow> send_rejection env p Reject_App src st
         | App_Approved \<Rightarrow>
             accept_hello env (if session_exists st (he_proposed_session_id p) then en_session_id env
                               else he_proposed_session_id p) p src st)"
  by (simp add: received_hello_as_receiver_def receiver_begin_def receiver_answered_def accept_hello_def Let_def
      split: app_response.splits)

lemma received_hello_as_initializer_alt:
  "received_hello_as_initializer env p src st =
     (let sid = he_proposed_session_id p
      in if session_exists st sid then session_id_collided env p src st
         else case promote_handshake (en_dbg env) sid src (he_handshake_id p) (he_app_id p) st of
                (None, st) \<Rightarrow> st
              | (Some (secret, answer), st) \<Rightarrow> initialize_key env p src secret answer st)"
  by (simp add: received_hello_as_initializer_def initializer_begin_def initializer_promote_def Let_def
      split: option.splits prod.splits)

definition received_hello_packet ::
  "('k, 's) env \<Rightarrow> hello \<Rightarrow> address \<Rightarrow> ('k, 's) protocol \<Rightarrow> ('k, 's) protocol" where
  "received_hello_packet env p src st =
     (if hm_contains (pr_handshakes st) (he_handshake_id p) then received_hello_as_initializer env p src st
      else received_hello_as_receiver env p src st)"

lemma complete_hello_begin: "complete env (hello_begin env p src st) = received_hello_packet env p src st"
  by (simp add: hello_begin_def received_hello_packet_def received_hello_as_initializer_def
      received_hello_as_receiver_def)

section \<open>Errors\<close>

definition DEFAULT_PORT :: u16 where
  "DEFAULT_PORT = 8455"

definition received_incompatible_version :: "address \<Rightarrow> ('k, 's) protocol \<Rightarrow> ('k, 's) protocol" where
  "received_incompatible_version src st =
     (let p = IncompatibleVersionPacket incompatible_version_packet
      in emit ((if sa_port src \<noteq> DEFAULT_PORT then [Send (wrap p (src\<lparr>sa_port := DEFAULT_PORT\<rparr>))] else [])
               @ [Send (wrap p src)]) st)"

datatype pipe_direction = Inbound_Pipe | Outbound_Pipe

datatype layer = Layer_Manager | Layer_PacketProcessor | Layer_Transport

datatype protocol_error =
    Channel_Failed pipe_direction layer
  | Channel_Closed pipe_direction layer
  | Task_Failed
  | Failed_To_Bind
  | Recv_Failed_Too_Many_Times
  | Incompatible_Version version address
  | Session_Error session_error

fun handle_errors ::
  "bool \<Rightarrow> (ticket \<Rightarrow> bool) \<Rightarrow> protocol_error \<Rightarrow> ('k, 's) protocol \<Rightarrow> ('k, 's) protocol" where
  "handle_errors dbg gone Task_Failed st = advertise_closed dbg gone st"
| "handle_errors dbg gone (Channel_Failed d l) st = advertise_closed dbg gone st"
| "handle_errors dbg gone (Channel_Closed d l) st = advertise_closed dbg gone st"
| "handle_errors dbg gone Failed_To_Bind st = advertise_closed dbg gone st"
| "handle_errors dbg gone Recv_Failed_Too_Many_Times st = advertise_closed dbg gone st"
| "handle_errors dbg gone (Incompatible_Version v src) st = received_incompatible_version src st"
| "handle_errors dbg gone (Session_Error e) st = st"

section \<open>Dispatch\<close>

fun handle_packet ::
  "('k, 's) env \<Rightarrow> address \<Rightarrow> packet \<Rightarrow> ('k, 's) protocol \<Rightarrow> ('k, 's) protocol" where
  "handle_packet env src (HelloPacket p) st = received_hello_packet env p src st"
| "handle_packet env src (DataPacket p) st = received_data_packet env p st"
| "handle_packet env src (HandshakeAckPacket p) st = received_handshake_ack p st"
| "handle_packet env src (TrackRequestPacket p) st = received_track_request p st"
| "handle_packet env src (ParityPacket p) st = received_parity_packet env p st"
| "handle_packet env src (AckPacket p) st = received_ack p st"
| "handle_packet env src (IncompatibleVersionPacket p) st = st"
| "handle_packet env src (SessionDoesNotExistErrorPacket p) st = received_session_does_not_exist p st"
| "handle_packet env src (TrackRejectionPacket p) st = received_track_reject p st"
| "handle_packet env src (RetransmitPacket p) st = received_retransmit_request env p st"
| "handle_packet env src (MetadataPacket p) st = st"
| "handle_packet env src (PlaybackControlPacket p) st = received_playback_control p st"
| "handle_packet env src (UnexpectedPacketErrorPacket p) st = st"
| "handle_packet env src (CloseSessionPacket p) st = received_close_session p st"
| "handle_packet env src (HandshakeRejection p) st = received_handshake_rejected p st"
| "handle_packet env src (KeepAlivePacket p) st = received_keep_alive env p st"

end
