(* ===== verification/Endpoints.thy ===== *)
theory Endpoints imports Received begin

text \<open>
  What the manager does for the application (\<open>src/src/manager/routines/endpoints.rs\<close> and the
  dispatch of \<open>src/src/manager/outbound.rs\<close>). A \<open>ticket\<close> names the one-shot channel on which the
  caller waits; the answers are effects. The sleeps are not modelled, but a routine that acts
  after one is a second step on the state found then.
\<close>

section \<open>Connecting\<close>

definition connect :: "('k, 's) env \<Rightarrow> ticket \<Rightarrow> address \<Rightarrow> ('k, 's) protocol \<Rightarrow> ('k, 's) protocol" where
  "connect env answer a st =
     send_hello env opt_none (en_session_id env) (en_handshake_id env) a
       (new_handshake (en_handshake_id env) a (en_secret env) (en_session_id env) answer st)"

section \<open>Streams\<close>

definition resolve_target ::
  "send_target \<Rightarrow> ('k, 's) protocol \<Rightarrow> (api_error, session_id \<times> address) res" where
  "resolve_target target st =
     (case target of
        To_Session sid \<Rightarrow>
          (case connection st sid of
             None \<Rightarrow> Err AE_SessionDoesNotExist
           | Some c \<Rightarrow> if is_free (Some c) then Ok (sid, cs_address c) else Err AE_SessionOccupied)
      | To_Address a \<Rightarrow>
          (case free_session st a of None \<Rightarrow> Err AE_NoFreeSession | Some sid \<Rightarrow> Ok (sid, a)))"

definition send_data ::
  "bool \<Rightarrow> send_target \<Rightarrow> rbuffer \<Rightarrow> stream_message \<Rightarrow> ticket \<Rightarrow> ('k, 's) protocol \<Rightarrow> ('k, 's) protocol" where
  "send_data dbg target buffer msg reply st =
     (case resolve_target target st of
        Err e \<Rightarrow> if dbg then fail_task st else emit [Reply_Session reply (Err e)] st
      | Ok (sid, _) \<Rightarrow> send_on_session dbg sid buffer msg (emit [Reply_Session reply (Ok sid)] st)
      | Panic \<Rightarrow> fail_task st)"

text \<open>\<open>request_track\<close> once its target is resolved.\<close>

definition start_track ::
  "('k, 's) env \<Rightarrow> track_order \<Rightarrow> session_id \<Rightarrow> address \<Rightarrow> ('k, 's) protocol \<Rightarrow> ('k, 's) protocol" where
  "start_track env order sid a st =
     (case connection st sid of
        None \<Rightarrow> if en_dbg env then fail_task st
                else emit [Reply_Session (or_response order) (Err AE_SessionDoesNotExist)] st
      | Some c \<Rightarrow>
          attempt (cs_streaming_from (en_dbg env) (or_buffer order) (or_sender order) c) (\<lambda>c st.
            send_packet (map_res TrackRequestPacket
                (request_track (en_dbg env) (en_now env) opt_none sid (or_id order))) a
              (emit [Reply_Session (or_response order) (Ok sid)] (set_connection sid c st))) st)"

definition request_track_endpoint ::
  "('k, 's) env \<Rightarrow> track_order \<Rightarrow> ('k, 's) protocol \<Rightarrow> ('k, 's) protocol" where
  "request_track_endpoint env order st =
     (if en_dbg env \<and> length (or_id order) > MAX_PAYLOAD_LENGTH then fail_task st
      else case resolve_target (or_target order) st of
             Ok (sid, a) \<Rightarrow> start_track env order sid a st
           | Err AE_SessionOccupied \<Rightarrow> st\<lparr>pr_requests := pr_requests st @ [order]\<rparr>
           | Err e \<Rightarrow> emit [Reply_Session (or_response order) (Err e)] st
           | Panic \<Rightarrow> fail_task st)"

text \<open>The second attempt, after 100 ms.\<close>

definition request_track_retry ::
  "('k, 's) env \<Rightarrow> track_order \<Rightarrow> ('k, 's) protocol \<Rightarrow> ('k, 's) protocol" where
  "request_track_retry env order st =
     (case resolve_target (or_target order) st of
        Ok (sid, a) \<Rightarrow> start_track env order sid a st
      | Err e \<Rightarrow> emit [Reply_Session (or_response order) (Err e)] st
      | Panic \<Rightarrow> fail_task st)"

section \<open>Closing\<close>

definition order_notice :: "('k, 's) env \<Rightarrow> session_id \<Rightarrow> connection_state \<Rightarrow> effect list" where
  "order_notice env sid c =
     [Send (wrap (CloseSessionPacket (close_session_new (en_now env) opt_none sid)) (cs_address c))]"

definition close_session_endpoint ::
  "('k, 's) env \<Rightarrow> session_id \<Rightarrow> ('k, 's) protocol \<Rightarrow> ('k, 's) protocol" where
  "close_session_endpoint env sid st =
     (case connection st sid of
        None \<Rightarrow> st
      | Some c \<Rightarrow> close_session_routine sid (emit (order_notice env sid c) st))"

text \<open>
  The same up to the first lock of \<open>close_session\<close>, for its three callers: a command, a packet of the
  peer, and a buffer that can no longer be written to.
\<close>

datatype close_cause = Close_Ordered | Close_By_Peer | Close_Deref

fun close_notice :: "('k, 's) env \<Rightarrow> close_cause \<Rightarrow> session_id \<Rightarrow> connection_state \<Rightarrow> effect list" where
  "close_notice env Close_Ordered sid c = order_notice env sid c"
| "close_notice env Close_By_Peer sid c = notify_notice sid c"
| "close_notice env Close_Deref sid c = deref_notice c"

definition close_begin ::
  "('k, 's) env \<Rightarrow> close_cause \<Rightarrow> session_id \<Rightarrow> ('k, 's) protocol \<Rightarrow> 's rest option \<times> ('k, 's) protocol" where
  "close_begin env cause sid st =
     (case connection st sid of
        None \<Rightarrow> (None, st)
      | Some c \<Rightarrow> close_unlink sid (emit (close_notice env cause sid c) st))"

text \<open>Run to its end at once, what a close begins is the routine of its caller.\<close>

lemma complete_close:
  "complete env (close_unlink sid st) = close_session_routine sid st"
  by (auto simp: close_session_routine_def close_unlink_def close_address_def Let_def
      split: option.splits prod.splits connection_state.splits)

lemma complete_close_begin:
  "complete env (close_begin env Close_Ordered sid st) = close_session_endpoint env sid st"
  "complete env (close_begin env Close_By_Peer sid st) = notify_and_close_session sid st"
  "complete env (close_begin env Close_Deref sid st) = failed_to_deref_buffer sid st"
  by (simp_all add: close_begin_def close_session_endpoint_def notify_and_close_session_def
      failed_to_deref_buffer_def complete_close split: option.splits)

definition close_stream_endpoint ::
  "('k, 's) env \<Rightarrow> session_id \<Rightarrow> ('k, 's) protocol \<Rightarrow> ('k, 's) protocol" where
  "close_stream_endpoint env sid st =
     (let st = close_stream_routine sid st
      in case connection st sid of
           None \<Rightarrow> st
         | Some c \<Rightarrow> send_packet
             (map_res PlaybackControlPacket (playback_close (en_dbg env) (en_now env) opt_none sid))
             (cs_address c) st)"

definition set_complete_stream :: "session_id \<Rightarrow> bool \<Rightarrow> ('k, 's) protocol \<Rightarrow> ('k, 's) protocol" where
  "set_complete_stream sid allow = modify_stream (\<lambda>m. m\<lparr>sm_complete := Some allow\<rparr>) sid"

section \<open>Playback\<close>

definition update_paused ::
  "session_id \<Rightarrow> bool \<Rightarrow> ('k, 's) protocol \<Rightarrow> bool option \<times> ('k, 's) protocol" where
  "update_paused sid paused st =
     (case stream_of (connection st sid) of
        None \<Rightarrow> (None, st)
      | Some (e, s) \<Rightarrow>
          if paused = sm_paused (ss_stream s) then (Some False, st)
          else (Some True, modify_stream (\<lambda>m. m\<lparr>sm_paused := paused\<rparr>) sid st))"

definition seek_endpoint ::
  "session_id \<Rightarrow> byte_position \<Rightarrow> ('k, 's) protocol \<Rightarrow> bool option \<times> ('k, 's) protocol" where
  "seek_endpoint sid pos st =
     (case map_option receiving (connection st sid) of
        Some (Some (e, s, sf)) \<Rightarrow>
          (let (moved, b) = seek_head pos (from_buffer sf)
           in (moved, set_connection sid
                 (with_stream e (s\<lparr>ss_streaming := Streaming_From (sf\<lparr>from_buffer := b\<rparr>)\<rparr>)) st))
      | _ \<Rightarrow> (None, st))"

definition send_control ::
  "('k, 's) env \<Rightarrow> session_id \<Rightarrow> address \<Rightarrow> ticket \<Rightarrow> playback_control_type \<Rightarrow> byte_position option
     \<Rightarrow> ('k, 's) protocol \<Rightarrow> ('k, 's) protocol" where
  "send_control env sid a reply ctype pos st =
     send_packet (map_res PlaybackControlPacket
         (playback_new (en_dbg env) (en_now env) (opt_construct [RequireAck]) sid ctype pos)) a
       (emit [Reply_Action reply True] st)"

definition send_playback_control_packet ::
  "('k, 's) env \<Rightarrow> session_id \<Rightarrow> playback_action \<Rightarrow> ticket \<Rightarrow> ('k, 's) protocol \<Rightarrow> ('k, 's) protocol" where
  "send_playback_control_packet env sid control reply st =
     (case established_at st sid of
        None \<Rightarrow> emit [Reply_Action reply False] st
      | Some e \<Rightarrow>
          (let (changed, st) = (case control of
                                  Act_Play \<Rightarrow> update_paused sid False st
                                | Act_Pause \<Rightarrow> update_paused sid True st
                                | _ \<Rightarrow> (None, st))
           in if changed = Some False then emit [Reply_Action reply True] st
              else case control of
                Act_Play \<Rightarrow> send_control env sid (es_address e) reply Play None st
              | Act_Pause \<Rightarrow> send_control env sid (es_address e) reply Pause None st
              | Act_Close \<Rightarrow> send_control env sid (es_address e) reply Play_Close None st
              | Act_Done \<Rightarrow> send_control env sid (es_address e) reply Play_Done None st
              | Act_Seek pos \<Rightarrow>
                  (let (moved, st) = seek_endpoint sid pos st
                   in if moved = Some True then send_control env sid (es_address e) reply Seek (Some pos) st
                      else emit [Reply_Action reply True] st)))"

definition find_holes_endpoint :: "session_id \<Rightarrow> ticket \<Rightarrow> ('k, 's) protocol \<Rightarrow> ('k, 's) protocol" where
  "find_holes_endpoint sid reply st =
     (case map_option receiving (connection st sid) of
        Some (Some (e, s, sf)) \<Rightarrow>
          attempt (find_holes (byte_position_of (wb_len (from_buffer sf))) (from_buffer sf))
            (\<lambda>holes. emit [Reply_Holes reply (Some
               (map (\<lambda>pos. (unat pos, unat pos + MAX_PAYLOAD_LENGTH)) holes))]) st
      | _ \<Rightarrow> emit [Reply_Holes reply None] st)"

definition reject_track_request ::
  "('k, 's) env \<Rightarrow> session_id \<Rightarrow> bytes \<Rightarrow> ('k, 's) protocol \<Rightarrow> ('k, 's) protocol" where
  "reject_track_request env sid track st =
     (if is_free (connection st sid)
      then (case established_at st sid of
              None \<Rightarrow> st
            | Some e \<Rightarrow> send_packet (map_res TrackRejectionPacket
                (track_rejection_new (en_dbg env) (en_now env) (opt_construct [RequireAck]) sid track))
                (es_address e) st)
      else st)"

section \<open>Dispatch\<close>

text \<open>\<open>ApiCommand\<close>. The close of the protocol stops the two pruning tasks and empties the table.\<close>

datatype api_command =
    Api_Connect address ticket
  | Api_Reject_Track_Request session_id bytes
  | Api_Close_Session session_id
  | Api_Close_Stream session_id
  | Api_Set_Stream_Complete session_id bool
  | Api_Find_Holes session_id ticket
  | Api_Stream_Action session_id playback_action ticket
  | Api_Request_Track track_order
  | Api_Send_Data send_target rbuffer stream_message ticket
  | Api_Close

definition close_protocol :: "bool \<Rightarrow> (ticket \<Rightarrow> bool) \<Rightarrow> ('k, 's) protocol \<Rightarrow> ('k, 's) protocol" where
  "close_protocol dbg gone st =
     advertise_closed dbg gone (st\<lparr>pr_ack := pw_close (pr_ack st), pr_prune_canceled := True\<rparr>)"

fun handle_command ::
  "('k, 's) env \<Rightarrow> (ticket \<Rightarrow> bool) \<Rightarrow> api_command \<Rightarrow> ('k, 's) protocol \<Rightarrow> ('k, 's) protocol" where
  "handle_command env gone (Api_Connect a reply) st = connect env reply a st"
| "handle_command env gone (Api_Reject_Track_Request sid track) st = reject_track_request env sid track st"
| "handle_command env gone (Api_Close_Session sid) st = close_session_endpoint env sid st"
| "handle_command env gone (Api_Close_Stream sid) st = close_stream_endpoint env sid st"
| "handle_command env gone (Api_Set_Stream_Complete sid allow) st = set_complete_stream sid allow st"
| "handle_command env gone (Api_Find_Holes sid reply) st = find_holes_endpoint sid reply st"
| "handle_command env gone (Api_Stream_Action sid control reply) st =
     send_playback_control_packet env sid control reply st"
| "handle_command env gone (Api_Request_Track order) st = request_track_endpoint env order st"
| "handle_command env gone (Api_Send_Data target buffer msg reply) st =
     send_data (en_dbg env) target buffer msg reply st"
| "handle_command env gone Api_Close st = close_protocol (en_dbg env) gone st"

end
