(* ===== verification/Session_Machine.thy ===== *)
theory Session_Machine imports Endpoints begin

text \<open>
  The manager as a state machine: every command of the application, packet of a peer, error and
  turn of a task is a step on the shared state. The sessions refine a machine of flat states
  (\<open>FlatState\<close> of \<open>src/src/error.rs\<close>): \<open>may_move\<close> says which change of one session each step may make.
\<close>

section \<open>What the primitive steps touch\<close>

lemma connection_prims [simp]:
  "connection (set_connection sid c st) sid' = (if sid' = sid then Some c else connection st sid')"
  "connection (drop_connection sid st) sid' = (if sid' = sid then None else connection st sid')"
  "connection (emit es st) sid' = connection st sid'"
  "connection (fail_task st) sid' = connection st sid'"
  "connection (unexpected dbg st) sid' = connection st sid'"
  "connection (post_event r e st) sid' = connection st sid'"
  "connection (insert_key sid k st) sid' = connection st sid'"
  by (simp_all add: connection_def set_connection_def drop_connection_def emit_def fail_task_def
      unexpected_def post_event_def insert_key_def)

lemma connection_send_packet [simp]: "connection (send_packet p a st) sid = connection st sid"
  by (simp add: send_packet_def attempt_def split: res.splits)

lemma connection_acks [simp]:
  "connection (received_packet_that_requires_ack env s fp st) sid = connection st sid"
  "connection (ack_if_required env opts s fp st) sid = connection st sid"
  "connection (unexpected_packet_report env s fp st) sid = connection st sid"
  by (simp_all add: ack_if_required_def received_packet_that_requires_ack_def
      unexpected_packet_report_def split: option.splits)

lemma connection_updates [simp]:
  "connection (st\<lparr>pr_handshakes := h\<rparr>) sid = connection st sid"
  "connection (st\<lparr>pr_ack := w\<rparr>) sid = connection st sid"
  "connection (st\<lparr>pr_encryption := k\<rparr>) sid = connection st sid"
  "connection (st\<lparr>pr_address_session := a\<rparr>) sid = connection st sid"
  "connection (st\<lparr>pr_fec := f\<rparr>) sid = connection st sid"
  "connection (st\<lparr>pr_events := v\<rparr>) sid = connection st sid"
  "connection (st\<lparr>pr_tasks := t\<rparr>) sid = connection st sid"
  "connection (st\<lparr>pr_waiting := q\<rparr>) sid = connection st sid"
  "connection (st\<lparr>pr_requests := rq\<rparr>) sid = connection st sid"
  "connection (st\<lparr>pr_unfinished := u\<rparr>) sid = connection st sid"
  "connection (st\<lparr>pr_prune_canceled := b\<rparr>) sid = connection st sid"
  "connection (st\<lparr>pr_connections := []\<rparr>) sid = None"
  by (simp_all add: connection_def)

lemma pr_encryption_prims [simp]:
  "pr_encryption (set_connection sid c st) = pr_encryption st"
  "pr_encryption (drop_connection sid st) = pr_encryption st"
  "pr_encryption (emit es st) = pr_encryption st"
  "pr_encryption (fail_task st) = pr_encryption st"
  "pr_encryption (unexpected dbg st) = pr_encryption st"
  "pr_encryption (post_event r e st) = pr_encryption st"
  by (simp_all add: set_connection_def drop_connection_def emit_def fail_task_def
      unexpected_def post_event_def)

lemma pr_events_prims [simp]:
  "pr_events (set_connection sid c st) = pr_events st" "pr_events (drop_connection sid st) = pr_events st"
  "pr_events (emit es st) = pr_events st" "pr_events (fail_task st) = pr_events st"
  "pr_events (unexpected dbg st) = pr_events st" "pr_events (insert_key sid k st) = pr_events st"
  by (simp_all add: set_connection_def drop_connection_def emit_def fail_task_def unexpected_def insert_key_def)

lemma pr_tasks_prims [simp]:
  "pr_tasks (set_connection sid c st) = pr_tasks st" "pr_tasks (drop_connection sid st) = pr_tasks st"
  "pr_tasks (emit es st) = pr_tasks st" "pr_tasks (fail_task st) = pr_tasks st"
  "pr_tasks (unexpected dbg st) = pr_tasks st" "pr_tasks (insert_key sid k st) = pr_tasks st"
  "pr_tasks (post_event r e st) = pr_tasks st"
  by (simp_all add: set_connection_def drop_connection_def emit_def fail_task_def unexpected_def insert_key_def
      post_event_def)

lemma pr_out_prims [simp]:
  "pr_out (set_connection s c st) = pr_out st" "pr_out (drop_connection s st) = pr_out st"
  "pr_out (emit es st) = pr_out st @ es" "pr_out (insert_key s k st) = pr_out st"
  "pr_out (post_event r e st) = pr_out st" "pr_out (new_handshake hid a secret s ans st) = pr_out st"
  by (simp_all add: set_connection_def drop_connection_def emit_def insert_key_def new_handshake_def post_event_def)

lemma session_exists_iff: "session_exists st sid \<longleftrightarrow> connection st sid \<noteq> None"
  by (simp add: session_exists_def connection_def hm_contains_def)

section \<open>Flat states\<close>

definition flat :: "('k, 's) protocol \<Rightarrow> session_id \<Rightarrow> flat_state option" where
  "flat st sid = map_option flat_state_of (connection st sid)"

datatype step_label =
    On_Command api_command
  | On_Packet address packet
  | On_Error protocol_error
  | On_Wake data_packet
  | On_Timeout data_packet
  | On_Retry track_order
  | On_App_Drop session_id
  | On_Task_Event nat
  | On_Task_Tick nat
  | On_Keep_Alive session_id
  | On_Hello address hello
  | On_Close session_id
  | On_Rest nat
  | On_Fec_Prune
  | On_Ack_Prune

text \<open>The application drops its \<open>Connection\<close>, and with it the receiver of the events.\<close>

definition app_drop :: "session_id \<Rightarrow> ('k, 's) protocol \<Rightarrow> ('k, 's) protocol" where
  "app_drop sid st =
     (case established_at st sid of
        None \<Rightarrow> st
      | Some e \<Rightarrow> set_connection sid (Established (e\<lparr>es_connection := False\<rparr>)) st)"

text \<open>The buffers of a command are fresh: the API builds them from the memory of the caller.\<close>

fun command_ok :: "api_command \<Rightarrow> bool" where
  "command_ok (Api_Request_Track order) \<longleftrightarrow> or_buffer order = wb_from (wb_data (or_buffer order))"
| "command_ok (Api_Send_Data target buffer msg reply) \<longleftrightarrow> buffer = rb_from (rb_buffer buffer)"
| "command_ok _ \<longleftrightarrow> True"

text \<open>
  A routine that waits for a lock or for the application joins \<open>pr_unfinished\<close>; its next piece runs when
  it is chosen, and other steps may come in between.
\<close>

definition suspend :: "'s rest option \<times> ('k, 's) protocol \<Rightarrow> ('k, 's) protocol" where
  "suspend x = (case x of
     (None, st) \<Rightarrow> st | (Some r, st) \<Rightarrow> st\<lparr>pr_unfinished := pr_unfinished st @ [r]\<rparr>)"

definition resume :: "('k, 's) env \<Rightarrow> nat \<Rightarrow> ('k, 's) protocol \<Rightarrow> ('k, 's) protocol" where
  "resume env i st =
     (let us = pr_unfinished st
      in suspend (rest_step env (us ! i) (st\<lparr>pr_unfinished := take i us @ drop (Suc i) us\<rparr>)))"

text \<open>
  A hello and a close run in one step (\<open>step_packet\<close>, \<open>step_command\<close>) or in pieces (\<open>step_hello\<close>,
  \<open>step_close\<close>, \<open>step_rest\<close>). A close may begin at any time, whatever its cause.
\<close>

inductive step :: "step_label \<Rightarrow> ('k, 's) protocol \<Rightarrow> ('k, 's) protocol \<Rightarrow> bool" where
  step_command: "command_ok c \<Longrightarrow> step (On_Command c) st (handle_command env gone c st)"
| step_packet: "step (On_Packet src p) st (handle_packet env src p st)"
| step_error: "step (On_Error e) st (handle_errors dbg gone e st)"
| step_wake: "\<lbrakk> p \<in> set (pr_waiting st); \<forall>h. connection st (da_session_id p) \<noteq> Some (Handshake h) \<rbrakk>
    \<Longrightarrow> step (On_Wake p) st (data_packet_ready env p (st\<lparr>pr_waiting := remove1 p (pr_waiting st)\<rparr>))"
| step_timeout: "p \<in> set (pr_waiting st)
    \<Longrightarrow> step (On_Timeout p) st (st\<lparr>pr_waiting := remove1 p (pr_waiting st)\<rparr>)"
| step_retry: "\<lbrakk> order \<in> set (pr_requests st); command_ok (Api_Request_Track order) \<rbrakk>
    \<Longrightarrow> step (On_Retry order) st (request_track_retry env order (st\<lparr>pr_requests := remove1 order (pr_requests st)\<rparr>))"
| step_app_drop: "step (On_App_Drop sid) st (app_drop sid st)"
| step_task_event: "i < length (pr_tasks st) \<Longrightarrow> step (On_Task_Event i) st (task_event i st)"
| step_task_tick: "i < length (pr_tasks st) \<Longrightarrow> step (On_Task_Tick i) st (task_tick dbg now i st)"
| step_keep_alive: "step (On_Keep_Alive sid) st (keep_alive_tick now sid st)"
| step_hello: "step (On_Hello src p) st (suspend (hello_begin env p src st))"
| step_close: "step (On_Close sid) st (suspend (close_begin env cause sid st))"
| step_rest: "i < length (pr_unfinished st) \<Longrightarrow> step (On_Rest i) st (resume env i st)"
| step_fec_prune: "\<not> pr_prune_canceled st \<Longrightarrow> step On_Fec_Prune st (fec_prune_pass dbg now st)"
| step_ack_prune: "\<not> pw_canceled (pr_ack st) \<Longrightarrow> step On_Ack_Prune st (ack_prune_pass now st)"

inductive_cases stepE: "step l st st'"

inductive reachable :: "('k, 's) protocol \<Rightarrow> bool" where
  reachable_init: "reachable (protocol_new app)"
| reachable_step: "\<lbrakk> reachable st; step l st st' \<rbrakk> \<Longrightarrow> reachable st'"

text \<open>
  The abstract machine: how one session may change in a step, apart from staying as it is. A packet
  changes the session it names, a command the session it names or resolves to.
\<close>

definition streaming_flat :: "flat_state option \<Rightarrow> bool" where
  "streaming_flat a \<longleftrightarrow> a = Some Flat_StreamingTo \<or> a = Some Flat_StreamingFrom"

definition idle_flat :: "flat_state option \<Rightarrow> bool" where
  "idle_flat a \<longleftrightarrow> a = Some Flat_Up \<or> a = Some Flat_Down"

definition data_move :: "flat_state option \<Rightarrow> flat_state option \<Rightarrow> bool" where
  "data_move a b \<longleftrightarrow> a = Some Flat_StreamingFrom \<and> (b = Some Flat_Up \<or> b = None)"

fun command_move :: "api_command \<Rightarrow> session_id \<Rightarrow> flat_state option \<Rightarrow> flat_state option \<Rightarrow> bool" where
  "command_move (Api_Close_Session sid') sid a b \<longleftrightarrow> sid = sid' \<and> b = None"
| "command_move (Api_Close_Stream sid') sid a b \<longleftrightarrow> sid = sid' \<and> streaming_flat a \<and> b = Some Flat_Up"
| "command_move (Api_Request_Track order) sid a b \<longleftrightarrow> idle_flat a \<and> b = Some Flat_StreamingFrom"
| "command_move (Api_Send_Data target buffer msg reply) sid a b \<longleftrightarrow>
     idle_flat a \<and> b = Some Flat_StreamingTo"
| "command_move Api_Close sid a b \<longleftrightarrow> b = None"
| "command_move _ sid a b \<longleftrightarrow> False"

fun packet_move :: "packet \<Rightarrow> session_id \<Rightarrow> flat_state option \<Rightarrow> flat_state option \<Rightarrow> bool" where
  "packet_move (HelloPacket p) sid a b \<longleftrightarrow> a = None \<and> (b = Some Flat_Handshake \<or> b = Some Flat_Up)"
| "packet_move (HandshakeAckPacket p) sid a b \<longleftrightarrow>
     sid = ha_session_id p \<and> a = Some Flat_Handshake \<and> b = Some Flat_Up"
| "packet_move (DataPacket p) sid a b \<longleftrightarrow> sid = da_session_id p \<and> data_move a b"
| "packet_move (ParityPacket p) sid a b \<longleftrightarrow>
     sid = pa_session_id p \<and> a = Some Flat_StreamingFrom \<and> b = None"
| "packet_move (CloseSessionPacket p) sid a b \<longleftrightarrow> sid = cs_session_id p \<and> b = None"
| "packet_move (SessionDoesNotExistErrorPacket p) sid a b \<longleftrightarrow> sid = sd_session_id p \<and> b = None"
| "packet_move (HandshakeRejection p) sid a b \<longleftrightarrow> sid = hr_session_id p \<and> b = None"
| "packet_move (PlaybackControlPacket p) sid a b \<longleftrightarrow>
     sid = pc_session_id p \<and> streaming_flat a \<and> b = Some Flat_Up"
| "packet_move _ sid a b \<longleftrightarrow> False"

fun may_move :: "step_label \<Rightarrow> session_id \<Rightarrow> flat_state option \<Rightarrow> flat_state option \<Rightarrow> bool" where
  "may_move (On_Command c) sid a b \<longleftrightarrow> command_move c sid a b"
| "may_move (On_Packet src p) sid a b \<longleftrightarrow> packet_move p sid a b"
| "may_move (On_Error e) sid a b \<longleftrightarrow> b = None"
| "may_move (On_Wake p) sid a b \<longleftrightarrow> sid = da_session_id p \<and> data_move a b"
| "may_move (On_Retry order) sid a b \<longleftrightarrow> idle_flat a \<and> b = Some Flat_StreamingFrom"
| "may_move (On_Hello src p) sid a b \<longleftrightarrow> packet_move (HelloPacket p) sid a b"
| "may_move (On_Close sid') sid a b \<longleftrightarrow> sid = sid' \<and> b = None"
| "may_move (On_Rest i) sid a b \<longleftrightarrow> a = None \<and> (b = Some Flat_Handshake \<or> b = Some Flat_Up)"
| "may_move (On_Task_Event i) sid a b \<longleftrightarrow> streaming_flat a \<and> b = Some Flat_Up"
| "may_move _ sid a b \<longleftrightarrow> False"

section \<open>One session\<close>

lemma flat_with_stream [simp]:
  "flat_state_of (with_stream e s) =
     (case ss_streaming s of Streaming_To _ \<Rightarrow> Flat_StreamingTo | Streaming_From _ \<Rightarrow> Flat_StreamingFrom)"
  by (simp add: with_stream_def)

lemma receiving_Some:
  "receiving c = Some (e, s, sf) \<longleftrightarrow>
     c = Established e \<and> es_state e = Session_Streaming s \<and> ss_streaming s = Streaming_From sf"
  by (auto simp: receiving_def split: connection_state.splits session_states.splits streaming.splits)

lemma sending_to_Some:
  "sending_to c = Some (e, s, t) \<longleftrightarrow>
     c = Some (Established e) \<and> es_state e = Session_Streaming s \<and> ss_streaming s = Streaming_To t"
  by (auto simp: sending_to_def split: option.splits connection_state.splits session_states.splits streaming.splits)

lemma stream_of_Some:
  "stream_of c = Some (e, s) \<longleftrightarrow> c = Some (Established e) \<and> es_state e = Session_Streaming s"
  by (auto simp: stream_of_def split: option.splits connection_state.splits session_states.splits)

lemma established_at_Some: "established_at st sid = Some e \<longleftrightarrow> connection st sid = Some (Established e)"
  by (auto simp: established_at_def split: option.splits connection_state.splits)

lemma flat_receiving: "receiving c = Some x \<Longrightarrow> flat_state_of c = Flat_StreamingFrom"
  by (cases x) (auto simp: receiving_Some)

lemma stream_data_receives:
  "stream_data dbg now p sf s = (r, s') \<Longrightarrow> \<exists>sf'. ss_streaming s' = Streaming_From sf'"
  by (auto simp: stream_data_def Let_def split: prod.splits res.splits if_splits)

lemma cs_received_data_flat:
  assumes "cs_received_data dbg now p c fs = (r, es, c', fs')"
  shows "flat_state_of c' = flat_state_of c
    \<or> flat_state_of c = Flat_StreamingFrom \<and> flat_state_of c' = Flat_Up"
proof (cases "receiving c")
  case None
  then show ?thesis using assms by (simp add: cs_received_data_def)
next
  case (Some x)
  obtain e s sf where x: "receiving c = Some (e, s, sf)" using Some by (cases x) auto
  obtain r0 s0 where d: "stream_data dbg now p sf s = (r0, s0)" by (cases "stream_data dbg now p sf s")
  obtain sf0 where s0: "ss_streaming s0 = Streaming_From sf0" using stream_data_receives [OF d] by blast
  have w: "flat_state_of (with_stream e s0) = Flat_StreamingFrom" using s0 by simp
  have c: "flat_state_of c = Flat_StreamingFrom" using x by (rule flat_receiving)
  have cl: "\<And>notes c1. cs_close_stream dbg (with_stream e s0) = Ok (notes, c1) \<Longrightarrow> flat_state_of c1 = Flat_Up"
    by (auto simp: cs_close_stream_def with_stream_def)
  show ?thesis using assms w c cl
    by (auto simp: cs_received_data_def x d Let_def split: res.splits prod.splits if_splits)
qed

lemma cs_received_data_deref:
  assumes "cs_received_data dbg now p c fs = (Err FailedToDerefError, es, c', fs')"
  shows "flat_state_of c = Flat_StreamingFrom"
proof (cases "receiving c")
  case None
  then show ?thesis using assms by (simp add: cs_received_data_def)
next
  case (Some x)
  then show ?thesis by (rule flat_receiving)
qed

lemma cs_received_data_idle:
  "flat_state_of c \<noteq> Flat_StreamingFrom \<Longrightarrow> cs_received_data dbg now p c fs =
     (Err (StateMismatch Flat_StreamingFrom (flat_state_of c)), [], c, fs)"
  by (cases "receiving c") (auto simp: cs_received_data_def dest: flat_receiving)

lemma cs_recovered_flat:
  "cs_recovered dbg now bid ps c = (r, es, c') \<Longrightarrow> flat_state_of c' = flat_state_of c"
  by (cases "receiving c")
    (auto simp: cs_recovered_def Let_def dest!: flat_receiving split: res.splits prod.splits if_splits)

lemma cs_recovered_deref:
  "cs_recovered dbg now bid ps c = (Err FailedToDerefError, es, c') \<Longrightarrow> flat_state_of c = Flat_StreamingFrom"
  by (cases "receiving c") (auto simp: cs_recovered_def dest: flat_receiving)

lemma get_chunks_sends:
  "\<lbrakk> get_chunks n s = (r, s'); ss_streaming s = Streaming_To t \<rbrakk> \<Longrightarrow> \<exists>t'. ss_streaming s' = Streaming_To t' \<and> to_event t' = to_event t"
  by (auto simp: get_chunks_def Let_def split: prod.splits if_splits)

lemma stream_choose_sends:
  "\<lbrakk> stream_choose dbg n xs s = (r, xs', s'); ss_streaming s = Streaming_To t \<rbrakk>
    \<Longrightarrow> \<exists>t'. ss_streaming s' = Streaming_To t' \<and> to_event t' = to_event t"
  by (auto simp: stream_choose_def split: prod.splits option.splits if_splits dest: get_chunks_sends)

lemma stream_send_sends:
  assumes "stream_send dbg now sid a n xs s = (r, xs', s')" and "ss_streaming s = Streaming_To t"
  shows "\<exists>t'. ss_streaming s' = Streaming_To t' \<and> to_event t' = to_event t"
proof -
  obtain r0 xs0 s0 where ch: "stream_choose dbg n xs s = (r0, xs0, s0)"
    by (cases "stream_choose dbg n xs s")
  obtain t0 where t0: "ss_streaming s0 = Streaming_To t0" "to_event t0 = to_event t"
    using stream_choose_sends [OF ch assms(2)] by blast
  show ?thesis using assms(1) t0
    by (auto simp: stream_send_def ch next_batch_id_def Let_def split: res.splits option.splits if_splits)
qed

section \<open>The routines on flat states\<close>

lemma flat_prims [simp]:
  "flat (set_connection sid c st) sid' = (if sid' = sid then Some (flat_state_of c) else flat st sid')"
  "flat (drop_connection sid st) sid' = (if sid' = sid then None else flat st sid')"
  "flat (emit es st) sid' = flat st sid'"
  "flat (fail_task st) sid' = flat st sid'"
  "flat (unexpected dbg st) sid' = flat st sid'"
  "flat (post_event r e st) sid' = flat st sid'"
  "flat (insert_key sid k st) sid' = flat st sid'"
  by (simp_all add: flat_def)

lemma flat_updates [simp]:
  "flat (st\<lparr>pr_handshakes := h\<rparr>) sid = flat st sid"
  "flat (st\<lparr>pr_ack := w\<rparr>) sid = flat st sid"
  "flat (st\<lparr>pr_encryption := k\<rparr>) sid = flat st sid"
  "flat (st\<lparr>pr_address_session := a\<rparr>) sid = flat st sid"
  "flat (st\<lparr>pr_fec := f\<rparr>) sid = flat st sid"
  "flat (st\<lparr>pr_events := v\<rparr>) sid = flat st sid"
  "flat (st\<lparr>pr_tasks := t\<rparr>) sid = flat st sid"
  "flat (st\<lparr>pr_waiting := q\<rparr>) sid = flat st sid"
  "flat (st\<lparr>pr_requests := rq\<rparr>) sid = flat st sid"
  "flat (st\<lparr>pr_unfinished := u\<rparr>) sid = flat st sid"
  "flat (st\<lparr>pr_prune_canceled := b\<rparr>) sid = flat st sid"
  "flat (st\<lparr>pr_connections := []\<rparr>) sid = None"
  by (simp_all add: flat_def)

lemma flat_attempt: "(\<And>x. r = Ok x \<Longrightarrow> flat (k x st) sid = flat st sid) \<Longrightarrow> flat (attempt r k st) sid = flat st sid"
  by (auto simp: attempt_def split: res.splits)

lemma flat_send_packet [simp]: "flat (send_packet p a st) sid = flat st sid"
  by (simp add: send_packet_def flat_attempt)

lemma flat_connection: "connection st sid = Some c \<Longrightarrow> flat st sid = Some (flat_state_of c)"
  by (simp add: flat_def)

lemma flat_update_last_activity [simp]: "flat (update_last_activity s ts st) sid = flat st sid"
  by (auto simp: update_last_activity_def established_at_Some flat_def split: option.splits)

lemma flat_acks [simp]:
  "flat (received_packet_that_requires_ack env s fp st) sid = flat st sid"
  "flat (ack_if_required env opts s fp st) sid = flat st sid"
  "flat (unexpected_packet_report env s fp st) sid = flat st sid"
  by (simp_all add: ack_if_required_def received_packet_that_requires_ack_def unexpected_packet_report_def split: option.splits)

lemma flat_modify_stream [simp]: "flat (modify_stream f s st) sid = flat st sid"
  by (auto simp: modify_stream_def stream_of_Some flat_def split: option.splits prod.splits)

lemma flat_close_session [simp]:
  "flat (close_session_routine s st) sid = (if sid = s then None else flat st sid)"
  by (auto simp: close_session_routine_alt Let_def flat_def split: option.splits connection_state.splits prod.splits)

lemma flat_close_stream:
  "flat (close_stream_routine s st) sid =
     (if sid = s \<and> streaming_flat (flat st s) then Some Flat_Up else flat st sid)"
  by (auto simp: close_stream_routine_def flat_def streaming_flat_def Let_def
      split: option.splits connection_state.splits session_states.splits streaming.splits)

lemma flat_update_address [simp]: "flat (update_address_routine dbg s a st) sid = flat st sid"
  by (auto simp: update_address_routine_def flat_def cs_update_address_def
      split: option.splits prod.splits connection_state.splits)

lemma flat_notify_and_close [simp]:
  "flat (notify_and_close_session s st) sid = (if sid = s then None else flat st sid)"
  by (auto simp: notify_and_close_session_def split: option.splits) (simp add: flat_def)

lemma flat_failed_to_deref [simp]:
  "flat (failed_to_deref_buffer s st) sid = (if sid = s then None else flat st sid)"
  by (auto simp: failed_to_deref_buffer_def split: option.splits) (simp add: flat_def)

lemma flat_close_begin:
  "flat (suspend (close_begin env cause s st)) sid = (if sid = s then None else flat st sid)"
  by (auto simp: close_begin_def close_unlink_def suspend_def flat_def Let_def
      split: option.splits connection_state.splits)

lemma flat_suspend [simp]: "flat (suspend x) sid = flat (snd x) sid"
  by (simp add: suspend_def split: prod.splits option.splits)

lemma flat_recover_batch:
  assumes "recover_batch env bid s st = (r, st')"
  shows "flat st' sid = flat st sid" "r = Err FailedToDerefError \<Longrightarrow> flat st s = Some Flat_StreamingFrom"
  using assms by (auto simp: recover_batch_def Let_def flat_def dest: cs_recovered_flat cs_recovered_deref
      split: prod.splits res.splits option.splits)

lemma flat_data_packet_ready:
  "flat (data_packet_ready env p st) sid = flat st sid
   \<or> sid = da_session_id p \<and> data_move (flat st sid) (flat (data_packet_ready env p st) sid)"
proof -
  let ?s = "da_session_id p"
  define st0 where "st0 = ack_if_required env (da_opts p) ?s (packet_fingerprint (en_xxh env) (DataPacket p)) st"
  have f0: "flat st0 x = flat st x" for x by (simp add: st0_def)
  show ?thesis
  proof (cases "connection st0 ?s")
    case None
    then show ?thesis using f0 by (simp add: data_packet_ready_def Let_def st0_def)
  next
    case (Some c)
    obtain r es c' fs where d: "cs_received_data (en_dbg env) (en_now env) p c (pr_fec st0) = (r, es, c', fs)"
      by (cases "cs_received_data (en_dbg env) (en_now env) p c (pr_fec st0)")
    define st1 where "st1 = emit es (set_connection ?s c' (st0\<lparr>pr_fec := fs\<rparr>))"
    obtain r2 st2 where rb: "recover_batch env (da_batch_id p) ?s st1 = (r2, st2)"
      by (cases "recover_batch env (da_batch_id p) ?s st1")
    have c: "flat st ?s = Some (flat_state_of c)" using f0 [of ?s] Some by (simp add: flat_def)
    have mv: "flat_state_of c' = flat_state_of c
        \<or> flat_state_of c = Flat_StreamingFrom \<and> flat_state_of c' = Flat_Up"
      using cs_received_data_flat [OF d] .
    have f1: "flat st1 x = (if x = ?s then Some (flat_state_of c') else flat st x)" for x
      by (simp add: st1_def f0)
    have f2: "flat st2 x = flat st1 x" for x using flat_recover_batch(1) [OF rb] .
    have e2: "r2 = Err FailedToDerefError \<Longrightarrow> flat st1 ?s = Some Flat_StreamingFrom"
      using flat_recover_batch(2) [OF rb] .
    have e1: "r = Err FailedToDerefError \<Longrightarrow> flat_state_of c = Flat_StreamingFrom"
      using d cs_received_data_deref by blast
    have "data_packet_ready env p st =
       (case r of
          Ok True \<Rightarrow> (case r2 of Err FailedToDerefError \<Rightarrow> failed_to_deref_buffer ?s st2
                      | Panic \<Rightarrow> fail_task st2 | _ \<Rightarrow> st2)
        | Ok False \<Rightarrow> st1
        | Err (StateMismatch _ _) \<Rightarrow>
            unexpected_packet_report env ?s (packet_fingerprint (en_xxh env) (DataPacket p)) st1
        | Err FailedToDerefError \<Rightarrow> failed_to_deref_buffer ?s st1
        | Err IrrelevantError \<Rightarrow> st1
        | Panic \<Rightarrow> fail_task st1)"
      unfolding data_packet_ready_def Let_def st0_def [symmetric] Some option.case d prod.case
        st1_def [symmetric] rb
      by (rule refl)
    then show ?thesis using mv c f1 f2 e1 e2
      by (auto simp: data_move_def split: res.splits bool.splits session_error.splits)
  qed
qed

lemma opt_valid_require_ack [simp]:
  "opt_valid (opt_construct [RequireAck])" "opt_valid (opt_set (opt_construct [RequireAck]) RequireAck)"
  by (simp_all add: flags_valid_def flags_construct_def flags_none_def flags_set_def flag_bit_def OPTION_FLAGS_def)

section \<open>A demonstration\<close>

text \<open>A host with a toy key agreement: the exclusive or of the secret and the peer's public byte.\<close>

definition demo_env :: "u8 \<Rightarrow> (u8, u8) env" where
  "demo_env s =
     \<lparr>en_dbg = True, en_now = 0, en_xxh = (\<lambda>_. replicate 16 0), en_agree = (\<lambda>s pk. s XOR hd pk),
      en_session_id = 7, en_handshake_id = 5, en_secret = s, en_public_key = replicate 32 s,
      en_app = App_Approved, en_ticket = 1\<rparr>"

definition demo_hello :: hello where
  "demo_hello =
     \<lparr>he_version = CURRENT_VERSION, he_opts = opt_none, he_packet_type = PT_Host,
      he_control_type = Host Host_Hello, he_proposed_session_id = 7, he_handshake_id = 5,
      he_timestamp = 0, he_public_key = replicate 32 3, he_app_id = [65]\<rparr>"

definition demo_order :: track_order where
  "demo_order = \<lparr>or_target = To_Session 7, or_id = [1], or_buffer = wb_from [0, 0, 0],
     or_sender = stream_message_default, or_response = 2\<rparr>"

text \<open>After a hello of a peer, after its acknowledgement, and after the request of a track.\<close>

definition demo_greeted :: "(u8, u8) protocol" where
  "demo_greeted = handle_packet (demo_env 4) demo_address (HelloPacket demo_hello) (protocol_new [66])"

definition demo_up :: "(u8, u8) protocol" where
  "demo_up = handle_packet (demo_env 4) demo_address (HandshakeAckPacket (handshake_ack_new 0 7 5)) demo_greeted"

definition demo_receiving :: "(u8, u8) protocol" where
  "demo_receiving = handle_command (demo_env 4) (\<lambda>_. False) (Api_Request_Track demo_order) demo_up"

lemma connection_new [simp]: "connection (protocol_new app) sid = None"
  by (simp add: connection_def protocol_new_def)

lemma demo_reachable: "reachable demo_greeted" "reachable demo_up" "reachable demo_receiving"
proof -
  show g: "reachable demo_greeted"
    unfolding demo_greeted_def by (rule reachable_step [OF reachable_init step_packet])
  show u: "reachable demo_up"
    unfolding demo_up_def by (rule reachable_step [OF g step_packet])
  show "reachable demo_receiving"
    unfolding demo_receiving_def
    by (rule reachable_step [OF u step_command]) (simp add: demo_order_def wb_from_def Let_def)
qed

lemma demo_greeted_connection:
  "connection demo_greeted 7 = Some (Handshake \<lparr>hs_session_id = 7, hs_response = 1, hs_signal = False,
     hs_app_id = [65], hs_address = demo_address\<rparr>)"
  by (simp add: demo_greeted_def received_hello_packet_def received_hello_as_receiver_alt accept_hello_alt
      demo_env_def demo_hello_def session_exists_iff new_session_def send_hello_def hm_contains_def
      protocol_new_def [THEN arg_cong [where f = pr_handshakes]] Let_def)

lemma demo_up_connection: "connection demo_up 7 = Some (established_new 7 demo_address [65])"
  by (simp add: demo_up_def received_handshake_ack_def handshake_ack_new_def handshake_done_def demo_greeted_connection)

definition demo_stream :: stream_state where
  "demo_stream = \<lparr>ss_streaming = Streaming_From (streaming_from_new (wb_from [0, 0, 0])),
     ss_stream = stream_message_default, ss_fec = []\<rparr>"

definition demo_established :: established where
  "demo_established = \<lparr>es_session_id = 7, es_last_activity = 0, es_connection = True,
     es_state = Session_Streaming demo_stream, es_address = demo_address, es_app_id = [65]\<rparr>"

lemma demo_receiving_connection: "connection demo_receiving 7 = Some (Established demo_established)"
  by (simp add: demo_receiving_def demo_order_def request_track_endpoint_def resolve_target_def demo_up_connection
      is_free_def established_new_def start_track_def cs_streaming_from_def attempt_def MAX_PAYLOAD_LENGTH_def
      demo_established_def demo_stream_def)

end
