(* ===== verification/Session_Laws.thy ===== *)
theory Session_Laws imports Session_Machine begin

text \<open>
  What every connection of a reachable state satisfies. The locale \<open>connection_law\<close> is the contract
  between the operations on one connection and the routines of the manager: a predicate that the
  operations keep holds for every connection of every reachable state. It is interpreted for the
  ids of handshakes and for the memory of the streams that are received.
\<close>

definition conns :: "(session_id \<Rightarrow> connection_state \<Rightarrow> bool) \<Rightarrow> ('k, 's) protocol \<Rightarrow> bool" where
  "conns P st \<longleftrightarrow> (\<forall>sid c. connection st sid = Some c \<longrightarrow> P sid c)"

lemma conns_prims [simp]:
  "conns P (drop_connection sid st) \<longleftrightarrow> (\<forall>sid' c. sid' \<noteq> sid \<longrightarrow> connection st sid' = Some c \<longrightarrow> P sid' c)"
  "conns P (emit es st) = conns P st" "conns P (fail_task st) = conns P st"
  "conns P (unexpected dbg st) = conns P st" "conns P (post_event r e st) = conns P st"
  "conns P (insert_key sid k st) = conns P st"
  "conns P (st\<lparr>pr_handshakes := h\<rparr>) = conns P st" "conns P (st\<lparr>pr_ack := w\<rparr>) = conns P st"
  "conns P (st\<lparr>pr_encryption := kt\<rparr>) = conns P st" "conns P (st\<lparr>pr_address_session := a\<rparr>) = conns P st"
  "conns P (st\<lparr>pr_fec := f\<rparr>) = conns P st" "conns P (st\<lparr>pr_events := v\<rparr>) = conns P st"
  "conns P (st\<lparr>pr_tasks := t\<rparr>) = conns P st" "conns P (st\<lparr>pr_waiting := q\<rparr>) = conns P st"
  "conns P (st\<lparr>pr_requests := rq\<rparr>) = conns P st" "conns P (st\<lparr>pr_unfinished := u\<rparr>) = conns P st"
  "conns P (st\<lparr>pr_prune_canceled := b\<rparr>) = conns P st"
  "conns P (st\<lparr>pr_connections := []\<rparr>)"
  by (auto simp: conns_def)

lemma conns_set: "\<lbrakk> P sid c; conns P st \<rbrakk> \<Longrightarrow> conns P (set_connection sid c st)"
  by (simp add: conns_def)

lemma conns_dropped: "conns P st \<Longrightarrow> conns P (drop_connection sid st)"
  by (simp add: conns_def)

lemma connsD: "\<lbrakk> conns P st; connection st sid = Some c \<rbrakk> \<Longrightarrow> P sid c"
  by (simp add: conns_def)

lemma conns_attempt: "\<lbrakk> conns P st; \<And>x. r = Ok x \<Longrightarrow> conns P (k x st) \<rbrakk> \<Longrightarrow> conns P (attempt r k st)"
  by (auto simp: attempt_def split: res.splits)

lemma conns_send_packet [simp]: "conns P (send_packet p a st) = conns P st"
  by (auto simp: send_packet_def attempt_def split: res.splits)

lemma conns_acks [simp]:
  "conns P (received_packet_that_requires_ack env s fp st) = conns P st"
  "conns P (ack_if_required env opts s fp st) = conns P st"
  "conns P (unexpected_packet_report env s fp st) = conns P st"
  by (simp_all add: ack_if_required_def received_packet_that_requires_ack_def unexpected_packet_report_def
      split: option.splits)

text \<open>A stream with its message changed, and with its direction changed.\<close>

definition stream_with :: "streaming \<Rightarrow> stream_state \<Rightarrow> stream_state" where
  "stream_with x s = s\<lparr>ss_streaming := x\<rparr>"

locale connection_law =
  fixes P :: "session_id \<Rightarrow> connection_state \<Rightarrow> bool"
  assumes law_handshake: "hs_session_id h = sid \<Longrightarrow> P sid (Handshake h)"
    and law_established: "P sid (established_new sid' a app)"
    and law_address: "P sid c \<Longrightarrow> P sid (cs_update_address a c)"
    and law_activity: "P sid (Established e) \<Longrightarrow> P sid (Established (e\<lparr>es_last_activity := ts\<rparr>))"
    and law_drop: "P sid (Established e) \<Longrightarrow> P sid (Established (e\<lparr>es_connection := b\<rparr>))"
    and law_up: "P sid (Established e) \<Longrightarrow> P sid (Established (e\<lparr>es_state := Session_Up\<rparr>))"
    and law_message: "\<lbrakk> P sid (Established e); es_state e = Session_Streaming s \<rbrakk>
      \<Longrightarrow> P sid (with_stream e (s\<lparr>ss_stream := m\<rparr>))"
    and law_data: "\<lbrakk> P sid c; cs_received_data dbg now p c fs = (r, es, c', fs') \<rbrakk> \<Longrightarrow> P sid c'"
    and law_recovered: "\<lbrakk> P sid c; cs_recovered dbg now bid ps c = (r', es, c') \<rbrakk> \<Longrightarrow> P sid c'"
    and law_sends: "\<lbrakk> P sid (Established e); es_state e = Session_Streaming s; ss_streaming s = Streaming_To t;
        ss_streaming s' = Streaming_To t' \<rbrakk> \<Longrightarrow> P sid (with_stream e s')"
    and law_reserve: "\<lbrakk> P sid (Established e); es_state e = Session_Streaming s; ss_streaming s = Streaming_From sf;
        reserve_for_request now ps' sf = (acc, sf') \<rbrakk>
      \<Longrightarrow> P sid (with_stream e (s\<lparr>ss_streaming := Streaming_From sf'\<rparr>))"
    and law_seek: "\<lbrakk> P sid (Established e); es_state e = Session_Streaming s; ss_streaming s = Streaming_From sf;
        seek_head pos (from_buffer sf) = (moved, b') \<rbrakk>
      \<Longrightarrow> P sid (with_stream e (s\<lparr>ss_streaming := Streaming_From (sf\<lparr>from_buffer := b'\<rparr>)\<rparr>))"
    and law_stream_to: "\<lbrakk> P sid c; cs_stream_to dbg ref (rb_from src) msg c = Ok c' \<rbrakk> \<Longrightarrow> P sid c'"
    and law_stream_from: "\<lbrakk> P sid c; cs_streaming_from dbg (wb_from mem) msg c = Ok c' \<rbrakk> \<Longrightarrow> P sid c'"
begin

lemma update_last_activity: "conns P st \<Longrightarrow> conns P (update_last_activity sid ts st)"
  by (auto simp: update_last_activity_def established_at_Some split: option.splits
      intro!: conns_set law_activity dest: connsD)

lemma modify_stream: "conns P st \<Longrightarrow> conns P (modify_stream f sid st)"
  by (auto simp: modify_stream_def stream_of_Some split: option.splits prod.splits
      intro!: conns_set law_message dest: connsD)

lemma close_session: "conns P st \<Longrightarrow> conns P (close_session_routine sid st)"
  by (auto simp: close_session_routine_alt Let_def conns_def
      split: option.splits prod.splits connection_state.splits)

lemma close_stream: "conns P st \<Longrightarrow> conns P (close_stream_routine sid st)"
  by (auto simp: close_stream_routine_def Let_def
      split: option.splits connection_state.splits session_states.splits streaming.splits
      intro!: conns_set law_up dest: connsD)

lemma update_address: "conns P st \<Longrightarrow> conns P (update_address_routine dbg sid a st)"
  by (auto simp: update_address_routine_def split: option.splits prod.splits
      intro!: conns_set law_address dest: connsD)

lemma notify_and_close: "conns P st \<Longrightarrow> conns P (notify_and_close_session sid st)"
  by (auto simp: notify_and_close_session_def close_session split: option.splits)

lemma failed_to_deref: "conns P st \<Longrightarrow> conns P (failed_to_deref_buffer sid st)"
  by (auto simp: failed_to_deref_buffer_def close_session split: option.splits)

lemma at_recovered:
  "\<lbrakk> cs_recovered dbg now bid ps c = (r', es, c'); connection st sid = Some c; conns P st \<rbrakk> \<Longrightarrow> P sid c'"
  by (rule law_recovered [OF connsD])

lemma at_data:
  "\<lbrakk> cs_received_data dbg now p c fs = (r, es, c', fs'); connection st sid = Some c; conns P st \<rbrakk> \<Longrightarrow> P sid c'"
  by (rule law_data [OF connsD])

lemma recover_batch: "\<lbrakk> recover_batch env bid sid st = (r, st'); conns P st \<rbrakk> \<Longrightarrow> conns P st'"
  by (auto simp: recover_batch_def Let_def split: prod.splits res.splits option.splits
      intro!: conns_set dest: at_recovered)

lemma written:
  "\<lbrakk> cs_received_data dbg now p c fs = (r, es, c', fs'); connection st sid = Some c; conns P st \<rbrakk>
    \<Longrightarrow> conns P (emit es (set_connection sid c' (st\<lparr>pr_fec := fs'\<rparr>)))"
  by (simp add: conns_set at_data)

lemma data_packet_ready:
  assumes "conns P st"
  shows "conns P (data_packet_ready env p st)"
proof -
  define st0 where "st0 = ack_if_required env (da_opts p) (da_session_id p)
      (packet_fingerprint (en_xxh env) (DataPacket p)) st"
  have "conns P st0" using assms by (simp add: st0_def)
  then show ?thesis
    unfolding data_packet_ready_def Let_def st0_def [symmetric]
    by (auto split: option.splits prod.splits res.splits bool.splits session_error.splits
        intro!: conns_set failed_to_deref dest: at_data recover_batch [OF _ written])
qed

lemma data_packet: "conns P st \<Longrightarrow> conns P (received_data_packet env p st)"
  by (auto simp: received_data_packet_def Let_def split: option.splits connection_state.splits
      intro!: data_packet_ready update_last_activity)

lemma parity_packet: "conns P st \<Longrightarrow> conns P (received_parity_packet env p st)"
  by (auto simp: received_parity_packet_def Let_def split: prod.splits res.splits bool.splits session_error.splits
      intro!: failed_to_deref update_last_activity dest!: recover_batch)

lemma retransmit_request: "conns P st \<Longrightarrow> conns P (received_retransmit_request env p st)"
  by (auto simp: received_retransmit_request_def Let_def split: option.splits)

lemma keep_alive: "conns P st \<Longrightarrow> conns P (received_keep_alive env p st)"
  by (auto simp: received_keep_alive_def Let_def intro!: update_address update_last_activity split: option.splits)

lemma track_request: "conns P st \<Longrightarrow> conns P (received_track_request p st)"
  by (auto simp: received_track_request_def Let_def intro!: update_last_activity split: option.splits)

lemma rejected: "conns P st \<Longrightarrow> conns P (received_handshake_rejected p st)"
  by (auto simp: received_handshake_rejected_def take_handshake_def Let_def conns_def
      split: rejection_reason.splits option.splits connection_state.splits prod.splits)

lemma playback: "conns P st \<Longrightarrow> conns P (received_playback_control p st)"
  by (auto simp: received_playback_control_def close_stream split: option.splits)

lemma handshake_ack: "conns P st \<Longrightarrow> conns P (received_handshake_ack p st)"
  by (auto simp: received_handshake_ack_def handshake_done_def
      intro!: conns_set law_established conns_dropped split: option.splits connection_state.splits dest: connsD)

lemma ack: "conns P st \<Longrightarrow> conns P (received_ack p st)"
  by (simp add: received_ack_def Let_def update_last_activity)

lemma send_hello [simp]: "conns P (send_hello env opts sid hid a st) = conns P st"
  by (simp add: send_hello_def)

lemma new_session: "conns P st \<Longrightarrow> conns P (new_session dbg sid answer a app st)"
  by (auto simp: new_session_def Let_def intro!: conns_set law_handshake)

lemma hello_receiver: "conns P st \<Longrightarrow> conns P (received_hello_as_receiver env p src st)"
  by (auto simp: received_hello_as_receiver_alt accept_hello_alt send_rejection_def Let_def
      intro!: new_session split: app_response.splits)

lemma collided: "conns P st \<Longrightarrow> conns P (session_id_collided env p src st)"
  by (auto simp: session_id_collided_def reuse_handshake_def take_handshake_def new_handshake_def
      send_rejection_def split: option.splits prod.splits)

lemma promoted: "\<lbrakk> promote_handshake dbg sid a hid app st = (r, st'); conns P st \<rbrakk> \<Longrightarrow> conns P st'"
  by (auto simp: promote_handshake_def take_handshake_def Let_def
      intro!: conns_set law_established split: option.splits if_splits prod.splits)

lemma hello_initializer: "conns P st \<Longrightarrow> conns P (received_hello_as_initializer env p src st)"
  by (auto simp: received_hello_as_initializer_alt initialize_key_def collided Let_def
      split: option.splits prod.splits dest: promoted)

lemma suspended: "conns P (suspend x) = conns P (snd x)"
  by (simp add: suspend_def split: prod.splits option.splits)

lemma hello_begins: "conns P st \<Longrightarrow> conns P (snd (hello_begin env p src st))"
  by (simp add: hello_begin_def initializer_begin_def receiver_begin_def collided)

lemma close_begins: "conns P st \<Longrightarrow> conns P (snd (close_begin env cause sid st))"
  by (auto simp: close_begin_def close_unlink_def conns_def Let_def split: option.splits connection_state.splits)

lemma rest_steps: "conns P st \<Longrightarrow> conns P (snd (rest_step env r st))"
  by (cases r) (auto simp: receiver_answered_def accept_enter_def accept_key_def initializer_promote_def
      initialize_key_def close_address_def close_key_def send_rejection_def new_session Let_def
      split: app_response.splits option.splits prod.splits dest: promoted)

lemma resumes: "conns P st \<Longrightarrow> conns P (resume env i st)"
  by (simp add: resume_def Let_def suspended rest_steps)

lemma packet: "conns P st \<Longrightarrow> conns P (handle_packet env src p st)"
  by (cases p)
    (simp_all add: received_hello_packet_def hello_receiver hello_initializer data_packet handshake_ack
      track_request parity_packet ack received_session_does_not_exist_def notify_and_close
      received_track_reject_def modify_stream retransmit_request playback received_close_session_def
      rejected keep_alive)

lemma errors: "conns P st \<Longrightarrow> conns P (handle_errors dbg gone e st)"
  by (cases e) (auto simp: advertise_closed_def received_incompatible_version_def Let_def split: prod.splits)

lemma at_stream_to:
  "\<lbrakk> cs_stream_to dbg r (rb_from src) msg c = Ok c'; connection st sid = Some c; conns P st \<rbrakk> \<Longrightarrow> P sid c'"
  by (rule law_stream_to [OF connsD])

lemma at_stream_from:
  "\<lbrakk> cs_streaming_from dbg (wb_from mem) msg c = Ok c'; connection st sid = Some c; conns P st \<rbrakk> \<Longrightarrow> P sid c'"
  by (rule law_stream_from [OF connsD])

lemma at_sends:
  "\<lbrakk> ss_streaming s' = Streaming_To t'; connection st sid = Some (Established e); conns P st;
     es_state e = Session_Streaming s; ss_streaming s = Streaming_To t \<rbrakk> \<Longrightarrow> P sid (with_stream e s')"
  by (rule law_sends [OF connsD [of P st sid "Established e"]])

lemma at_reserve:
  "\<lbrakk> reserve_for_request now ps sf = (acc, sf'); connection st sid = Some (Established e); conns P st;
     es_state e = Session_Streaming s; ss_streaming s = Streaming_From sf \<rbrakk>
    \<Longrightarrow> P sid (with_stream e (s\<lparr>ss_streaming := Streaming_From sf'\<rparr>))"
  by (rule law_reserve [OF connsD [of P st sid "Established e"]])

lemma send_on: "\<lbrakk> conns P st; buffer = rb_from src \<rbrakk> \<Longrightarrow> conns P (send_on_session dbg sid buffer msg st)"
  by (auto simp: send_on_session_def Let_def intro!: conns_attempt conns_set split: option.splits prod.splits
      dest: at_stream_to)

lemma start_track: "\<lbrakk> conns P st; or_buffer order = wb_from mem \<rbrakk> \<Longrightarrow> conns P (start_track env order sid a st)"
  by (auto simp: start_track_def intro!: conns_attempt conns_set split: option.splits
      dest: at_stream_from)

lemma retry: "\<lbrakk> conns P st; or_buffer order = wb_from mem \<rbrakk> \<Longrightarrow> conns P (request_track_retry env order st)"
  by (auto simp: request_track_retry_def start_track split: res.splits prod.splits)

lemma request: "\<lbrakk> conns P st; or_buffer order = wb_from mem \<rbrakk> \<Longrightarrow> conns P (request_track_endpoint env order st)"
  by (auto simp: request_track_endpoint_def start_track split: res.splits prod.splits api_error.splits)

lemma seek: "conns P st \<Longrightarrow> conns P (snd (seek_endpoint sid pos st))"
  by (auto simp: seek_endpoint_def Let_def receiving_Some intro!: conns_set law_seek
      split: option.splits prod.splits dest: connsD)

lemma paused: "conns P st \<Longrightarrow> conns P (snd (update_paused sid b st))"
  by (auto simp: update_paused_def modify_stream split: option.splits prod.splits)

lemma send_control [simp]: "conns P (send_control env sid a reply ctype pos st) = conns P st"
  by (simp add: send_control_def)

lemma control: "conns P st \<Longrightarrow> conns P (send_playback_control_packet env sid control reply st)"
  using paused [of st sid False] paused [of st sid True] seek [of st sid]
  by (auto simp: send_playback_control_packet_def Let_def split: option.splits prod.splits playback_action.splits)
    (metis snd_conv)+

lemma holes: "conns P st \<Longrightarrow> conns P (find_holes_endpoint sid reply st)"
  by (auto simp: find_holes_endpoint_def intro!: conns_attempt split: option.splits)

lemma reject: "conns P st \<Longrightarrow> conns P (reject_track_request env sid track st)"
  by (auto simp: reject_track_request_def split: option.splits)

lemma command: "\<lbrakk> conns P st; command_ok c \<rbrakk> \<Longrightarrow> conns P (handle_command env gone c st)"
  by (cases c)
    (auto simp: connect_def new_handshake_def reject close_session_endpoint_def close_session
      close_stream_endpoint_def close_stream set_complete_stream_def modify_stream holes control
      send_data_def close_protocol_def advertise_closed_def Let_def
      intro!: request send_on close_stream split: option.splits res.splits prod.splits)

lemma app_drops: "conns P st \<Longrightarrow> conns P (app_drop sid st)"
  by (auto simp: app_drop_def established_at_Some intro!: conns_set law_drop split: option.splits dest: connsD)

lemma seek_action: "conns P st \<Longrightarrow> conns P (seek_action sid pos st)"
  by (auto simp: seek_action_def sending_to_Some intro!: conns_set law_sends split: option.splits prod.splits
      dest: connsD)

lemma task_events: "conns P st \<Longrightarrow> conns P (task_event i st)"
  by (auto simp: task_event_def handle_stream_event_def Let_def seek_action close_stream
      split: option.splits prod.splits stream_event.splits playback_action.splits)

lemma stream_action:
  assumes "send_stream_action dbg now sid n xs st = (r, xs', st')" and "conns P st"
  shows "conns P st'"
proof (cases "sending_to (connection st sid)")
  case None
  then show ?thesis using assms by (simp add: send_stream_action_def)
next
  case (Some x)
  obtain e s t where x: "sending_to (connection st sid) = Some (e, s, t)" using Some by (cases x) auto
  obtain r0 xs0 s0 where snd: "stream_send dbg now sid (es_address e) n xs s = (r0, xs0, s0)"
    by (cases "stream_send dbg now sid (es_address e) n xs s")
  obtain t0 where t0: "ss_streaming s0 = Streaming_To t0"
    using stream_send_sends [OF snd] x by (auto simp: sending_to_Some)
  have "P sid (with_stream e s0)"
    by (rule at_sends [OF t0 _ assms(2), of sid e s t]) (use x in \<open>simp_all add: sending_to_Some\<close>)
  then have "conns P (set_connection sid (with_stream e s0) st)" using assms(2) by (rule conns_set)
  then show ?thesis using assms(1) x snd
    by (auto simp: send_stream_action_def Let_def split: res.splits prod.splits)
qed

lemma ticks: "conns P st \<Longrightarrow> conns P (task_tick dbg now i st)"
  by (auto simp: task_tick_def Let_def split: prod.splits res.splits dest: stream_action)

lemma prunes: "conns P st \<Longrightarrow> conns P (prune_requests dbg now rest st)"
proof (induction rest arbitrary: st)
  case Nil
  then show ?case by simp
next
  case (Cons x rest)
  obtain sid ps where x: "x = (sid, ps)" by (cases x)
  show ?case
  proof (cases "map_option receiving (connection st sid)")
    case (Some y)
    show ?thesis
    proof (cases y)
      case (Some z)
      obtain e s sf where z: "map_option receiving (connection st sid) = Some (Some (e, s, sf))"
        using Some \<open>map_option receiving _ = _\<close> by (cases z) auto
      then have c: "connection st sid = Some (Established e)" "es_state e = Session_Streaming s"
          "ss_streaming s = Streaming_From sf"
        by (auto simp: receiving_Some)
      obtain acc sf' where r: "reserve_for_request now ps sf = (acc, sf')"
        by (cases "reserve_for_request now ps sf")
      have "conns P (set_connection sid (with_stream e (s\<lparr>ss_streaming := Streaming_From sf'\<rparr>)) st)"
        by (rule conns_set [OF at_reserve [OF r c(1) Cons.prems c(2,3)] Cons.prems])
      then show ?thesis using Cons.IH by (simp add: x z r Let_def split: res.splits)
    qed (use Cons Some in \<open>auto simp: x\<close>)
  qed (use Cons in \<open>simp add: x\<close>)
qed

lemma step:
  assumes "conns P st" and "step l st st'"
  shows "conns P st'"
  using assms(2)
proof cases
  case (step_command c env gone)
  then show ?thesis using command assms(1) by simp
next
  case (step_packet env src p)
  then show ?thesis using packet assms(1) by simp
next
  case (step_error e dbg gone)
  then show ?thesis using errors assms(1) by simp
next
  case (step_wake p env)
  then show ?thesis using assms(1) by (auto intro: data_packet_ready)
next
  case (step_retry order env)
  then show ?thesis using assms(1) by (auto intro!: retry)
next
  case (step_fec_prune dbg now)
  then show ?thesis using assms(1) by (auto simp: fec_prune_pass_def intro!: prunes split: prod.splits)
next
  case (step_ack_prune now)
  then show ?thesis using assms(1) by (auto simp: ack_prune_pass_def split: prod.splits)
next
  case (step_keep_alive now sid)
  then show ?thesis using assms(1) by (auto simp: keep_alive_tick_def split: option.splits)
qed (use assms(1) app_drops task_events ticks hello_begins close_begins resumes in \<open>simp_all add: suspended\<close>)

lemma reachable_conns: "reachable st \<Longrightarrow> conns P st"
proof (induction rule: reachable.induct)
  case (reachable_init app)
  then show ?case by (simp add: conns_def connection_def protocol_new_def)
next
  case (reachable_step st l st')
  then show ?case by (blast intro: step)
qed

end

section \<open>The ids of handshakes\<close>

definition handshake_keyed :: "session_id \<Rightarrow> connection_state \<Rightarrow> bool" where
  "handshake_keyed sid c \<longleftrightarrow> (\<forall>h. c = Handshake h \<longrightarrow> hs_session_id h = sid)"

text \<open>Only an established connection streams.\<close>

lemma cs_received_data_handshake:
  "cs_received_data dbg now p (Handshake h) fs =
     (Err (StateMismatch Flat_StreamingFrom Flat_Handshake), [], Handshake h, fs)"
  by (simp add: cs_received_data_def receiving_def)

lemma cs_recovered_handshake:
  "cs_recovered dbg now bid ps (Handshake h) =
     (Err (StateMismatch Flat_StreamingFrom Flat_Handshake), [], Handshake h)"
  by (simp add: cs_recovered_def receiving_def)

lemma flat_session_not [simp]: "flat_session s \<noteq> Flat_Handshake"
  by (cases s) (simp_all split: streaming.splits)

lemma flat_handshake: "flat_state_of c = Flat_Handshake \<longleftrightarrow> (\<exists>h. c = Handshake h)"
  by (cases c) simp_all

lemma cs_data_no_handshake:
  assumes "cs_received_data dbg now p c fs = (r, es, c', fs')" and "c' = Handshake h"
  shows "c = Handshake h"
proof (cases c)
  case (Handshake h')
  then show ?thesis using assms by (simp add: cs_received_data_handshake)
next
  case (Established e)
  then have "flat_state_of c \<noteq> Flat_Handshake" by (simp add: flat_handshake)
  then show ?thesis using cs_received_data_flat [OF assms(1)] assms(2) by auto
qed

lemma cs_recovered_no_handshake:
  assumes "cs_recovered dbg now bid ps c = (r, es, c')" and "c' = Handshake h"
  shows "c = Handshake h"
proof (cases c)
  case (Handshake h')
  then show ?thesis using assms by (simp add: cs_recovered_handshake)
next
  case (Established e)
  then have "flat_state_of c \<noteq> Flat_Handshake" by (simp add: flat_handshake)
  then show ?thesis using cs_recovered_flat [OF assms(1)] assms(2) by auto
qed

interpretation keyed: connection_law handshake_keyed
proof unfold_locales
  show "handshake_keyed sid c \<Longrightarrow> cs_stream_to dbg r (rb_from src) msg c = Ok c' \<Longrightarrow> handshake_keyed sid c'"
    for sid c dbg r src msg c'
    by (auto simp: handshake_keyed_def cs_stream_to_def debug_assert_def
        split: connection_state.splits session_states.splits if_splits)
  show "handshake_keyed sid c \<Longrightarrow> cs_streaming_from dbg (wb_from mem) msg c = Ok c' \<Longrightarrow> handshake_keyed sid c'"
    for sid c dbg mem msg c'
    by (auto simp: handshake_keyed_def cs_streaming_from_def debug_assert_def
        split: connection_state.splits session_states.splits if_splits)
qed (auto simp: handshake_keyed_def established_new_def cs_update_address_def with_stream_def
    dest: cs_data_no_handshake cs_recovered_no_handshake split: connection_state.splits)

section \<open>The memory of received streams\<close>

definition memory_ok :: "session_id \<Rightarrow> connection_state \<Rightarrow> bool" where
  "memory_ok sid c \<longleftrightarrow> (\<forall>e s sf. receiving c = Some (e, s, sf) \<longrightarrow> wb_inv (from_buffer sf))"

lemma memory_ok_with_stream [simp]:
  "memory_ok sid (with_stream e s) \<longleftrightarrow> (\<forall>sf. ss_streaming s = Streaming_From sf \<longrightarrow> wb_inv (from_buffer sf))"
  by (auto simp: memory_ok_def receiving_Some with_stream_def)

lemma memory_ok_close: "cs_close_stream dbg (with_stream e s) = Ok (notes, c) \<Longrightarrow> memory_ok sid c"
  by (auto simp: cs_close_stream_def with_stream_def memory_ok_def receiving_Some)

lemma reserve_buffer: "reserve_for_request now ps sf = (acc, sf') \<Longrightarrow> from_buffer sf' = from_buffer sf"
  by (auto simp: reserve_for_request_def Let_def split: prod.splits)

lemma clear_pending_buffer [simp]: "from_buffer (clear_pending pos sf) = from_buffer sf"
  by (simp add: clear_pending_def)

lemma ask_ranges_buffer: "ask_ranges dbg now trigger sf fec = (rs, sf', fec') \<Longrightarrow> from_buffer sf' = from_buffer sf"
  by (auto simp: ask_ranges_def finalize_sweep_pick_def score_policy_pick_def Let_def
      split: prod.splits if_splits dest: reserve_buffer)

lemma recovered_writes_inv:
  "\<lbrakk> recovered_writes dbg rs sf msg = (w, sf', msg'); wb_inv (from_buffer sf) \<rbrakk> \<Longrightarrow> wb_inv (from_buffer sf')"
proof (induction rs arbitrary: sf msg)
  case Nil
  then show ?case by simp
next
  case (Cons r rs)
  obtain w0 b where w: "wb_write dbg (rp_byte_range_start r) (rp_payload r) (from_buffer sf) = (w0, b)"
    by (cases "wb_write dbg (rp_byte_range_start r) (rp_payload r) (from_buffer sf)")
  have "wb_inv b" using wb_inv_write [OF Cons.prems(2), of dbg "rp_byte_range_start r" "rp_payload r"]
    by (simp add: w)
  then show ?case using Cons.prems(1) Cons.IH
    by (cases w0) (auto simp: w)
qed

lemma stream_data_inv:
  assumes "stream_data dbg now p sf s = (r, s')" and "wb_inv (from_buffer sf)"
    and "ss_streaming s' = Streaming_From sf'"
  shows "wb_inv (from_buffer sf')"
proof -
  obtain w b where w: "wb_write dbg (da_byte_range_start p) (da_payload p) (from_buffer sf) = (w, b)"
    by (cases "wb_write dbg (da_byte_range_start p) (da_payload p) (from_buffer sf)")
  have "wb_inv b" using wb_inv_write [OF assms(2), of dbg "da_byte_range_start p" "da_payload p"]
    by (simp add: w)
  then show ?thesis using assms(1,3) w
    by (auto simp: stream_data_def Let_def split: res.splits prod.splits if_splits dest: ask_ranges_buffer)
qed

lemma memory_data:
  assumes m: "memory_ok sid c" and d: "cs_received_data dbg now p c fs = (r, es, c', fs')"
  shows "memory_ok sid c'"
proof (cases "receiving c")
  case None
  then show ?thesis using assms by (simp add: cs_received_data_def)
next
  case (Some x)
  obtain e s sf where x: "receiving c = Some (e, s, sf)" using Some by (cases x) auto
  obtain r0 s0 where sd: "stream_data dbg now p sf s = (r0, s0)" by (cases "stream_data dbg now p sf s")
  have w: "wb_inv (from_buffer sf)" using m x by (simp add: memory_ok_def)
  have "memory_ok sid (with_stream e s0)" using stream_data_inv [OF sd w] by simp
  then show ?thesis using d memory_ok_close
    by (auto simp: cs_received_data_def x sd Let_def split: res.splits prod.splits if_splits)
qed

lemma memory_recovered:
  assumes m: "memory_ok sid c" and d: "cs_recovered dbg now bid ps c = (r, es, c')"
  shows "memory_ok sid c'"
proof (cases "receiving c")
  case None
  then show ?thesis using assms by (simp add: cs_recovered_def)
next
  case (Some x)
  obtain e s sf where x: "receiving c = Some (e, s, sf)" using Some by (cases x) auto
  obtain w sf1 msg1 where rw:
      "recovered_writes dbg ps sf ((ss_stream s)\<lparr>sm_approved := Some True\<rparr>) = (w, sf1, msg1)"
    by (cases "recovered_writes dbg ps sf ((ss_stream s)\<lparr>sm_approved := Some True\<rparr>)")
  have i: "wb_inv (from_buffer sf1)" using recovered_writes_inv [OF rw] m x by (simp add: memory_ok_def)
  then show ?thesis using d
    by (auto simp: cs_recovered_def x rw Let_def dest!: ask_ranges_buffer split: res.splits prod.splits if_splits)
qed

interpretation memory: connection_law memory_ok
proof unfold_locales
  show "memory_ok sid c \<Longrightarrow> cs_stream_to dbg r (rb_from src) msg c = Ok c' \<Longrightarrow> memory_ok sid c'"
    for sid c dbg r src msg c'
    by (auto simp: memory_ok_def receiving_Some cs_stream_to_def debug_assert_def
        split: connection_state.splits session_states.splits if_splits)
  show "memory_ok sid c \<Longrightarrow> cs_streaming_from dbg (wb_from mem) msg c = Ok c' \<Longrightarrow> memory_ok sid c'"
    for sid c dbg mem msg c'
    by (auto simp: memory_ok_def receiving_Some cs_streaming_from_def debug_assert_def streaming_from_new_def
        wb_inv_from split: connection_state.splits session_states.splits if_splits)
  show "\<lbrakk> memory_ok sid (Established e); es_state e = Session_Streaming s; ss_streaming s = Streaming_From sf;
        reserve_for_request now ps' sf = (acc, sf') \<rbrakk>
      \<Longrightarrow> memory_ok sid (with_stream e (s\<lparr>ss_streaming := Streaming_From sf'\<rparr>))" for sid e s sf now ps' acc sf'
    by (auto simp: memory_ok_def receiving_Some with_stream_def dest: reserve_buffer)
  show "\<lbrakk> memory_ok sid (Established e); es_state e = Session_Streaming s; ss_streaming s = Streaming_From sf;
        seek_head pos (from_buffer sf) = (moved, b') \<rbrakk>
      \<Longrightarrow> memory_ok sid (with_stream e (s\<lparr>ss_streaming := Streaming_From (sf\<lparr>from_buffer := b'\<rparr>)\<rparr>))"
    for sid e s sf pos moved b'
    using wb_inv_seek [of "from_buffer sf" pos] by (auto simp: memory_ok_def receiving_Some with_stream_def)
qed (auto simp: memory_ok_def receiving_Some established_new_def cs_update_address_def with_stream_def
    dest: memory_data [unfolded memory_ok_def receiving_Some]
      memory_recovered [unfolded memory_ok_def receiving_Some] split: connection_state.splits)

text \<open>C6: In every reachable state, and so after any interleaving of commands, packets, errors and task
  turns, the memory of every stream that is being received satisfies the invariant of its map: the
  invalid areas are ordered, apart, in range, and hold exactly the chunks that are not filled.\<close>

theorem reachable_memory:
  assumes "reachable st" and "connection st sid = Some (Established e)"
    and "es_state e = Session_Streaming s" and "ss_streaming s = Streaming_From sf"
  shows "wb_inv (from_buffer sf)"
  using memory.reachable_conns [OF assms(1)] assms(2-4)
  by (auto simp: conns_def memory_ok_def receiving_Some)

theorem reachable_memory_witness: "wb_inv (wb_from [0, 0, 0])"
  using reachable_memory [OF demo_reachable(3) demo_receiving_connection, of demo_stream
      "streaming_from_new (wb_from [0, 0, 0])"]
  by (simp add: demo_established_def demo_stream_def streaming_from_new_def)

end
