(* ===== verification/Session_Refinement.thy ===== *)
theory Session_Refinement imports Session_Laws begin

text \<open>
  The sessions of the manager refine the machine of flat states: each step of the manager changes a
  session as \<open>may_move\<close> allows.
\<close>

section \<open>Steps on flat states\<close>

text \<open>A routine that changes no session but \<open>sid0\<close>, and that one as \<open>ok\<close> allows.\<close>

definition moves ::
  "(session_id \<Rightarrow> flat_state option \<Rightarrow> flat_state option \<Rightarrow> bool)
     \<Rightarrow> ('k, 's) protocol \<Rightarrow> ('k, 's) protocol \<Rightarrow> bool" where
  "moves ok st st' \<longleftrightarrow> (\<forall>sid. flat st' sid = flat st sid \<or> ok sid (flat st sid) (flat st' sid))"

lemma moves_same: "(\<And>sid. flat st' sid = flat st sid) \<Longrightarrow> moves ok st st'"
  by (simp add: moves_def)

lemma moves_eq: "\<lbrakk> moves ok st st'; \<And>sid. flat st0 sid = flat st sid; \<And>sid. flat st1 sid = flat st' sid \<rbrakk>
    \<Longrightarrow> moves ok st0 st1"
  by (simp add: moves_def)

lemma moves_weaken: "\<lbrakk> moves ok st st'; \<And>sid a b. ok sid a b \<Longrightarrow> ok' sid a b \<rbrakk> \<Longrightarrow> moves ok' st st'"
  by (auto simp: moves_def)

lemma is_free_flat: "is_free (connection st sid) \<longleftrightarrow> idle_flat (flat st sid)"
  by (auto simp: is_free_def idle_flat_def flat_def
      split: option.splits connection_state.splits session_states.splits streaming.splits)

lemma cs_stream_to_flat:
  "cs_stream_to dbg r buffer msg c = Ok c' \<Longrightarrow> flat_state_of c' = flat_state_of c
    \<or> idle_flat (Some (flat_state_of c)) \<and> flat_state_of c' = Flat_StreamingTo"
  by (auto simp: cs_stream_to_def debug_assert_def idle_flat_def
      split: connection_state.splits session_states.splits if_splits)

lemma cs_streaming_from_flat:
  "cs_streaming_from dbg buffer msg c = Ok c' \<Longrightarrow> flat_state_of c' = flat_state_of c
    \<or> idle_flat (Some (flat_state_of c)) \<and> flat_state_of c' = Flat_StreamingFrom"
  by (auto simp: cs_streaming_from_def debug_assert_def idle_flat_def
      split: connection_state.splits session_states.splits if_splits)

lemma moves_send_on:
  "moves (\<lambda>sid a b. idle_flat a \<and> b = Some Flat_StreamingTo) st (send_on_session dbg s buffer msg st)"
  by (auto simp: moves_def send_on_session_def attempt_def Let_def flat_connection dest!: cs_stream_to_flat
      split: option.splits prod.splits res.splits)

lemma moves_start_track:
  "moves (\<lambda>sid a b. idle_flat a \<and> b = Some Flat_StreamingFrom) st (start_track env order s a st)"
  by (auto simp: moves_def start_track_def attempt_def flat_connection dest!: cs_streaming_from_flat
      split: option.splits res.splits)

lemma moves_retry:
  "moves (\<lambda>sid a b. idle_flat a \<and> b = Some Flat_StreamingFrom) st (request_track_retry env order st)"
  by (auto simp: request_track_retry_def moves_start_track moves_same split: res.splits prod.splits)

lemma moves_request:
  "moves (\<lambda>sid a b. idle_flat a \<and> b = Some Flat_StreamingFrom) st (request_track_endpoint env order st)"
  by (auto simp: request_track_endpoint_def moves_start_track moves_same
      split: res.splits prod.splits api_error.splits)

lemma flat_seek_endpoint: "seek_endpoint s pos st = (r, st') \<Longrightarrow> flat st' sid = flat st sid"
  by (auto simp: seek_endpoint_def Let_def receiving_Some flat_connection split: option.splits prod.splits)

lemma flat_update_paused: "update_paused s b st = (r, st') \<Longrightarrow> flat st' sid = flat st sid"
  by (auto simp: update_paused_def split: option.splits prod.splits if_splits)

lemma flat_send_control [simp]: "flat (send_control env s a reply ctype pos st) sid = flat st sid"
  by (simp add: send_control_def)

lemma flat_control [simp]: "flat (send_playback_control_packet env s control reply st) sid = flat st sid"
  by (auto simp: send_playback_control_packet_def Let_def split: option.splits prod.splits playback_action.splits
      dest: flat_update_paused flat_seek_endpoint)

lemma flat_holes [simp]: "flat (find_holes_endpoint s reply st) sid = flat st sid"
  by (auto simp: find_holes_endpoint_def intro!: flat_attempt split: option.splits)

lemma flat_reject [simp]: "flat (reject_track_request env s track st) sid = flat st sid"
  by (auto simp: reject_track_request_def split: option.splits)

lemma flat_advertise [simp]: "flat (advertise_closed dbg gone st) sid = None"
  by (auto simp: advertise_closed_def Let_def split: prod.splits)

lemma flat_send_hello [simp]: "flat (send_hello env opts s hid a st) sid = flat st sid"
  by (simp add: send_hello_def)

lemma moves_command: "moves (command_move c) st (handle_command env gone c st)"
proof (cases c)
  case (Api_Request_Track order)
  show ?thesis unfolding Api_Request_Track handle_command.simps
    by (rule moves_weaken [OF moves_request]) simp
next
  case (Api_Send_Data target buffer msg reply)
  have "moves (\<lambda>sid a b. idle_flat a \<and> b = Some Flat_StreamingTo) st
      (send_data (en_dbg env) target buffer msg reply st)"
    using moves_send_on [of "emit es st" for es, unfolded moves_def]
    by (auto simp: send_data_def moves_def split: res.splits prod.splits)
  then show ?thesis using Api_Send_Data by (auto elim: moves_weaken)
qed (auto simp: moves_def connect_def new_handshake_def close_session_endpoint_def close_stream_endpoint_def
    flat_close_stream set_complete_stream_def close_protocol_def Let_def split: option.splits)

lemma flat_send_rejection [simp]: "flat (send_rejection env p reason src st) sid = flat st sid"
  by (simp add: send_rejection_def)

lemma flat_new_session:
  "flat (new_session dbg s answer a app st) sid =
    (if sid = s \<and> flat st s = None then Some Flat_Handshake else flat st sid)"
  by (auto simp: new_session_def session_exists_iff flat_def Let_def)

lemma flat_accept_hello:
  "flat (accept_hello env s p src st) sid =
    (if sid = s \<and> flat st s = None then Some Flat_Handshake else flat st sid)"
  by (simp add: accept_hello_alt Let_def flat_new_session)

lemma flat_take_handshake: "take_handshake hid st = (r, st') \<Longrightarrow> flat st' sid = flat st sid"
  by (auto simp: take_handshake_def)

lemma flat_promote:
  assumes "promote_handshake dbg s a hid app st = (r, st')" and "\<not> session_exists st s"
  shows "flat st' sid = flat st sid \<or> flat st sid = None \<and> flat st' sid = Some Flat_Up"
proof -
  have f: "flat st s = None" using assms(2) by (simp add: session_exists_iff flat_def)
  show ?thesis using assms(1) f
    by (auto simp: promote_handshake_def established_new_def Let_def dest: flat_take_handshake
        split: prod.splits option.splits if_splits)
qed

lemma flat_promote_any:
  assumes "promote_handshake dbg s a hid app st = (r, st')"
  shows "flat st' sid = flat st sid \<or> flat st sid = None \<and> flat st' sid = Some Flat_Up"
  using assms
  by (auto simp: promote_handshake_def established_new_def session_exists_iff flat_def take_handshake_def Let_def
      split: prod.splits option.splits if_splits)

lemma flat_collided [simp]: "flat (session_id_collided env p src st) sid = flat st sid"
  by (auto simp: session_id_collided_def reuse_handshake_def new_handshake_def dest: flat_take_handshake
      split: option.splits prod.splits)

lemma moves_hello: "moves (packet_move (HelloPacket p)) st (received_hello_packet env p src st)"
proof -
  have "moves (packet_move (HelloPacket p)) st (received_hello_as_receiver env p src st)"
    by (simp add: moves_def received_hello_as_receiver_alt flat_accept_hello Let_def split: app_response.splits)
  moreover have "moves (packet_move (HelloPacket p)) st (received_hello_as_initializer env p src st)"
    unfolding moves_def received_hello_as_initializer_alt initialize_key_def Let_def
    by (auto dest: flat_promote split: option.splits prod.splits)
  ultimately show ?thesis by (simp add: received_hello_packet_def)
qed

lemma moves_parity: "moves (packet_move (ParityPacket p)) st (received_parity_packet env p st)"
proof -
  let ?s = "pa_session_id p"
  obtain ready fs where r: "xor_received (en_dbg env) (en_now env) (fec_of_parity p)
      (pr_fec (update_last_activity ?s (pa_timestamp p) st)) = (ready, fs)"
    by (cases "xor_received (en_dbg env) (en_now env) (fec_of_parity p)
      (pr_fec (update_last_activity ?s (pa_timestamp p) st))")
  define st1 where "st1 = (update_last_activity ?s (pa_timestamp p) st)\<lparr>pr_fec := fs\<rparr>"
  obtain r2 st2 where rb: "recover_batch env (pa_batch_id p) ?s st1 = (r2, st2)"
    by (cases "recover_batch env (pa_batch_id p) ?s st1")
  have f: "flat st1 x = flat st x" for x by (simp add: st1_def)
  have eq: "received_parity_packet env p st =
      (case ready of
         Ok True \<Rightarrow> (case r2 of
             Ok _ \<Rightarrow> st2
           | Err FailedToDerefError \<Rightarrow> failed_to_deref_buffer ?s st2
           | Err (StateMismatch _ _) \<Rightarrow>
               unexpected_packet_report env ?s (packet_fingerprint (en_xxh env) (ParityPacket p)) st2
           | Err IrrelevantError \<Rightarrow> st2
           | Panic \<Rightarrow> fail_task st2)
       | Ok False \<Rightarrow> st1
       | _ \<Rightarrow> fail_task st1)"
    unfolding received_parity_packet_def Let_def r prod.case st1_def [symmetric] rb by (rule refl)
  show ?thesis
    using flat_recover_batch [OF rb] f
    by (auto simp: moves_def eq split: res.splits bool.splits session_error.splits)
qed

lemma moves_data_packet: "moves (packet_move (DataPacket p)) st (received_data_packet env p st)"
proof -
  define st1 where "st1 = update_last_activity (da_session_id p) (da_timestamp p) st"
  have f: "flat st1 x = flat st x" for x by (simp add: st1_def)
  show ?thesis
    unfolding received_data_packet_def Let_def st1_def [symmetric] moves_def
    using flat_data_packet_ready [of env p st1] f
    by (auto split: option.splits connection_state.splits)
qed

lemma flat_handshake_done:
  assumes "conns handshake_keyed st"
  shows "flat (handshake_done s st) sid =
    (if sid = s \<and> flat st s = Some Flat_Handshake then Some Flat_Up else flat st sid)"
proof (cases "connection st s")
  case (Some c)
  then have "handshake_keyed s c" using assms by (simp add: conns_def)
  then show ?thesis using Some
    by (cases c) (auto simp: handshake_done_def handshake_keyed_def established_new_def flat_def)
qed (simp add: handshake_done_def flat_def)

lemma moves_packet:
  assumes "conns handshake_keyed st"
  shows "moves (packet_move p) st (handle_packet env src p st)"
proof (cases p)
  case (HelloPacket x)
  then show ?thesis using moves_hello by simp
next
  case (DataPacket x)
  then show ?thesis using moves_data_packet by simp
next
  case (ParityPacket x)
  then show ?thesis using moves_parity by simp
qed (auto simp: moves_def received_handshake_ack_def flat_handshake_done [OF assms] received_track_request_def
    received_ack_def received_session_does_not_exist_def received_track_reject_def
    received_retransmit_request_def received_playback_control_def flat_close_stream received_close_session_def
    received_handshake_rejected_def take_handshake_def received_keep_alive_def Let_def
    split: option.splits rejection_reason.splits connection_state.splits)

lemma flat_app_drop [simp]: "flat (app_drop s st) sid = flat st sid"
  by (auto simp: app_drop_def established_at_Some flat_connection split: option.splits)

lemma flat_seek_action [simp]: "flat (seek_action s pos st) sid = flat st sid"
  by (auto simp: seek_action_def sending_to_Some flat_connection split: option.splits prod.splits)

lemma moves_task_event: "moves (may_move (On_Task_Event i)) st (task_event i st)"
  by (auto simp: moves_def task_event_def handle_stream_event_def flat_close_stream Let_def
      split: option.splits prod.splits stream_event.splits playback_action.splits if_splits)

lemma flat_stream_action:
  assumes "send_stream_action dbg now s n xs st = (r, xs', st')"
  shows "flat st' sid = flat st sid"
proof (cases "sending_to (connection st s)")
  case None
  then show ?thesis using assms by (simp add: send_stream_action_def)
next
  case (Some x)
  obtain e s0 t where x: "sending_to (connection st s) = Some (e, s0, t)" using Some by (cases x) auto
  obtain r1 xs1 s1 where snd: "stream_send dbg now s (es_address e) n xs s0 = (r1, xs1, s1)"
    by (cases "stream_send dbg now s (es_address e) n xs s0")
  obtain t1 where t1: "ss_streaming s1 = Streaming_To t1"
    using stream_send_sends [OF snd] x by (auto simp: sending_to_Some)
  have "flat st s = Some Flat_StreamingTo" using x by (auto simp: sending_to_Some flat_connection)
  then show ?thesis using assms x snd t1
    by (auto simp: send_stream_action_def Let_def split: res.splits prod.splits)
qed

lemma flat_task_tick [simp]: "flat (task_tick dbg now i st) sid = flat st sid"
  by (auto simp: task_tick_def Let_def split: prod.splits res.splits dest: flat_stream_action)

lemma flat_prune_requests [simp]: "flat (prune_requests dbg now rest st) sid = flat st sid"
proof (induction rest arbitrary: st)
  case Nil
  then show ?case by simp
next
  case (Cons x rest)
  obtain s ps where x: "x = (s, ps)" by (cases x)
  show ?case
  proof (cases "map_option receiving (connection st s)")
    case None
    then show ?thesis using Cons by (simp add: x)
  next
    case (Some y)
    show ?thesis
    proof (cases y)
      case None
      then show ?thesis using Cons Some by (auto simp: x)
    next
      case (Some z)
      obtain e s0 sf where z: "map_option receiving (connection st s) = Some (Some (e, s0, sf))"
        using Some \<open>map_option receiving _ = _\<close> by (cases z) auto
      then have c: "flat st s = Some Flat_StreamingFrom" by (auto simp: receiving_Some flat_connection)
      obtain acc sf' where r: "reserve_for_request now ps sf = (acc, sf')"
        by (cases "reserve_for_request now ps sf")
      show ?thesis using Cons.IH c by (auto simp: x z r Let_def split: res.splits)
    qed
  qed
qed

lemma moves_hello_begin: "moves (packet_move (HelloPacket p)) st (suspend (hello_begin env p src st))"
  by (rule moves_same) (simp add: hello_begin_def initializer_begin_def receiver_begin_def)

lemma flat_rest_step:
  "flat (snd (rest_step env r st)) sid = flat st sid
   \<or> flat st sid = None \<and> (flat (snd (rest_step env r st)) sid = Some Flat_Handshake
       \<or> flat (snd (rest_step env r st)) sid = Some Flat_Up)"
proof (cases r)
  case (Rest_Promote p src)
  obtain x st1 where pr: "promote_handshake (en_dbg env) (he_proposed_session_id p) src (he_handshake_id p)
      (he_app_id p) st = (x, st1)"
    by (cases "promote_handshake (en_dbg env) (he_proposed_session_id p) src (he_handshake_id p) (he_app_id p) st")
  show ?thesis using flat_promote_any [OF pr, of sid]
    by (auto simp: Rest_Promote initializer_promote_def pr split: option.splits)
qed (auto simp: receiver_answered_def accept_enter_def accept_key_def initialize_key_def close_address_def
    close_key_def flat_new_session Let_def split: app_response.splits prod.splits)

lemma moves_resume: "moves (may_move (On_Rest i)) st (resume env i st)"
  using flat_rest_step [of env "pr_unfinished st ! i"
      "st\<lparr>pr_unfinished := take i (pr_unfinished st) @ drop (Suc i) (pr_unfinished st)\<rparr>"]
  by (simp add: moves_def resume_def Let_def)

section \<open>The refinement\<close>

lemma sessions_move:
  assumes "reachable st" and "step l st st'"
  shows "moves (may_move l) st st'"
proof -
  have k: "conns handshake_keyed st" using assms(1) by (rule keyed.reachable_conns)
  show ?thesis
    using assms(2)
  proof cases
    case (step_command c env gone)
    then show ?thesis using moves_command by (simp add: moves_def)
  next
    case (step_packet env src p)
    then show ?thesis using moves_packet [OF k] by (simp add: moves_def)
  next
    case (step_error e dbg gone)
    then show ?thesis
      by (cases e) (auto simp: moves_def received_incompatible_version_def Let_def)
  next
    case (step_wake p env)
    then show ?thesis using flat_data_packet_ready [of env p "st\<lparr>pr_waiting := remove1 p (pr_waiting st)\<rparr>"]
      by (simp add: moves_def)
  next
    case (step_retry order env)
    then show ?thesis using moves_retry [of "st\<lparr>pr_requests := remove1 order (pr_requests st)\<rparr>" env order]
      by (simp add: moves_def)
  next
    case (step_task_event i)
    then show ?thesis using moves_task_event by simp
  next
    case (step_hello src p env)
    then show ?thesis using moves_hello_begin by (simp add: moves_def)
  next
    case (step_close sid env cause)
    then show ?thesis by (simp add: moves_def flat_close_begin del: flat_suspend)
  next
    case (step_rest i env)
    then show ?thesis using moves_resume by simp
  next
    case (step_keep_alive now s)
    then show ?thesis by (auto simp: moves_def keep_alive_tick_def split: option.splits)
  next
    case (step_fec_prune dbg now)
    then show ?thesis by (auto simp: moves_def fec_prune_pass_def split: prod.splits)
  next
    case (step_ack_prune now)
    then show ?thesis by (auto simp: moves_def ack_prune_pass_def split: prod.splits)
  qed (simp_all add: moves_def)
qed

text \<open>C1: The manager refines the machine of flat states: in a reachable state, whatever the step (a
  command, a packet of any kind, an error, a waking routine, a piece of a hello or of a close, a task turn), each
  session either keeps its flat state or changes as \<open>may_move\<close> allows for this step. So a session is set up only by a hello,
  becomes established only by a hello or by the acknowledgement of its own handshake, streams only out of an
  idle state and by a command, and a data packet never touches another session than its own.\<close>

theorem sessions_refine:
  assumes "reachable st" and "step l st st'"
  shows "flat st' sid = flat st sid \<or> may_move l sid (flat st sid) (flat st' sid)"
  using sessions_move [OF assms] by (simp add: moves_def)

text \<open>The acknowledgement of a handshake, which makes the session established.\<close>

theorem sessions_refine_witness:
  "flat demo_greeted 7 = Some Flat_Handshake \<and> flat demo_up 7 = Some Flat_Up
    \<and> may_move (On_Packet demo_address (HandshakeAckPacket (handshake_ack_new 0 7 5))) 7
        (flat demo_greeted 7) (flat demo_up 7)"
proof -
  have f: "flat demo_greeted 7 = Some Flat_Handshake" "flat demo_up 7 = Some Flat_Up"
    by (simp_all add: flat_def demo_greeted_connection demo_up_connection established_new_def)
  have "step (On_Packet demo_address (HandshakeAckPacket (handshake_ack_new 0 7 5))) demo_greeted demo_up"
    unfolding demo_up_def by (rule step_packet)
  then show ?thesis using sessions_refine [OF demo_reachable(1), of _ demo_up 7] f
    by (auto simp: handshake_ack_new_def)
qed

end
