(* ===== verification/Session_Keys.thy ===== *)
theory Session_Keys imports Session_Refinement begin

text \<open>
  When a session of the connection table has a key in the encryption table. The tables have locks of their
  own and a hello and a close visit them one after the other, so there are states in which a session
  has none: between its entry and the insertion of its key, and after the close of an earlier session with
  the same id has removed it. There are no others. The key
  may outlive the session: a session that goes by another id in the address table keeps its key
  when it is closed.
\<close>

definition key :: "('k, 's) protocol \<Rightarrow> session_id \<Rightarrow> 'k enc_window option" where
  "key st sid = hm_get (pr_encryption st) sid"

lemma key_prims [simp]:
  "key (set_connection s c st) sid = key st sid" "key (drop_connection s st) sid = key st sid"
  "key (emit es st) sid = key st sid" "key (fail_task st) sid = key st sid"
  "key (unexpected dbg st) sid = key st sid" "key (post_event r e st) sid = key st sid"
  "key (insert_key s k st) sid = (if sid = s then Some (enc_window_new k) else key st sid)"
  by (simp_all add: key_def insert_key_def)

lemma unfinished_prims [simp]:
  "pr_unfinished (set_connection s c st) = pr_unfinished st"
  "pr_unfinished (drop_connection s st) = pr_unfinished st"
  "pr_unfinished (emit es st) = pr_unfinished st" "pr_unfinished (fail_task st) = pr_unfinished st"
  "pr_unfinished (unexpected dbg st) = pr_unfinished st"
  "pr_unfinished (post_event r e st) = pr_unfinished st"
  "pr_unfinished (insert_key s k st) = pr_unfinished st"
  by (simp_all add: insert_key_def set_connection_def drop_connection_def emit_def fail_task_def
      unexpected_def post_event_def)

lemma key_updates [simp]:
  "key (st\<lparr>pr_handshakes := h\<rparr>) sid = key st sid" "key (st\<lparr>pr_ack := w\<rparr>) sid = key st sid"
  "key (st\<lparr>pr_address_session := a\<rparr>) sid = key st sid" "key (st\<lparr>pr_fec := f\<rparr>) sid = key st sid"
  "key (st\<lparr>pr_events := v\<rparr>) sid = key st sid" "key (st\<lparr>pr_tasks := t\<rparr>) sid = key st sid"
  "key (st\<lparr>pr_waiting := q\<rparr>) sid = key st sid" "key (st\<lparr>pr_requests := rq\<rparr>) sid = key st sid"
  "key (st\<lparr>pr_prune_canceled := b\<rparr>) sid = key st sid" "key (st\<lparr>pr_connections := cs\<rparr>) sid = key st sid"
  "key (st\<lparr>pr_unfinished := u\<rparr>) sid = key st sid"
  by (simp_all add: key_def)

lemma key_attempt:
  "(\<And>x. key (k x st) sid = key st sid) \<Longrightarrow> key (attempt r k st) sid = key st sid"
  "(\<And>x. pr_unfinished (k x st) = pr_unfinished st) \<Longrightarrow> pr_unfinished (attempt r k st) = pr_unfinished st"
  by (auto simp: attempt_def split: res.splits)

lemma key_send_packet [simp]:
  "key (send_packet p a st) sid = key st sid"
  "pr_unfinished (send_packet p a st) = pr_unfinished st"
  by (simp_all add: send_packet_def key_attempt)

lemma key_sends [simp]:
  "key (received_packet_that_requires_ack env s fp st) sid = key st sid"
  "pr_unfinished (received_packet_that_requires_ack env s fp st) = pr_unfinished st"
  "key (ack_if_required env opts s fp st) sid = key st sid"
  "pr_unfinished (ack_if_required env opts s fp st) = pr_unfinished st"
  "key (unexpected_packet_report env s fp st) sid = key st sid"
  "pr_unfinished (unexpected_packet_report env s fp st) = pr_unfinished st"
  "key (send_hello env opts s hid a st) sid = key st sid"
  "pr_unfinished (send_hello env opts s hid a st) = pr_unfinished st"
  "key (send_rejection env p reason src st) sid = key st sid"
  "pr_unfinished (send_rejection env p reason src st) = pr_unfinished st"
  "key (send_control env s a reply ctype pos st) sid = key st sid"
  "pr_unfinished (send_control env s a reply ctype pos st) = pr_unfinished st"
  by (simp_all add: ack_if_required_def received_packet_that_requires_ack_def send_hello_def
      unexpected_packet_report_def send_rejection_def send_control_def split: option.splits)

lemma key_connection_steps [simp]:
  "key (update_last_activity s ts st) sid = key st sid"
  "pr_unfinished (update_last_activity s ts st) = pr_unfinished st"
  "key (modify_stream f s st) sid = key st sid"
  "pr_unfinished (modify_stream f s st) = pr_unfinished st"
  "key (update_address_routine dbg s a st) sid = key st sid"
  "pr_unfinished (update_address_routine dbg s a st) = pr_unfinished st"
  "key (app_drop s st) sid = key st sid"
  "pr_unfinished (app_drop s st) = pr_unfinished st"
  "key (seek_action s bp st) sid = key st sid"
  "pr_unfinished (seek_action s bp st) = pr_unfinished st"
  "key (handshake_done s st) sid = key st sid"
  "pr_unfinished (handshake_done s st) = pr_unfinished st"
  by (auto simp: update_last_activity_def modify_stream_def update_address_routine_def app_drop_def
      seek_action_def handshake_done_def split: option.splits prod.splits connection_state.splits)

lemma key_close_stream [simp]:
  "key (close_stream_routine s st) sid = key st sid"
  "pr_unfinished (close_stream_routine s st) = pr_unfinished st"
  by (auto simp: close_stream_routine_def Let_def
      split: option.splits connection_state.splits session_states.splits streaming.splits)

lemma key_close_session [simp]:
  "sid \<noteq> s \<Longrightarrow> key (close_session_routine s st) sid = key st sid"
  "pr_unfinished (close_session_routine s st) = pr_unfinished st"
  by (auto simp: close_session_routine_alt key_def emit_def drop_connection_def Let_def
      split: option.splits prod.splits connection_state.splits)

lemma key_notify [simp]:
  "sid \<noteq> s \<Longrightarrow> key (notify_and_close_session s st) sid = key st sid"
  "pr_unfinished (notify_and_close_session s st) = pr_unfinished st"
  by (auto simp: notify_and_close_session_def split: option.splits)

lemma key_failed_to_deref [simp]:
  "sid \<noteq> s \<Longrightarrow> key (failed_to_deref_buffer s st) sid = key st sid"
  "pr_unfinished (failed_to_deref_buffer s st) = pr_unfinished st"
  by (auto simp: failed_to_deref_buffer_def split: option.splits)

lemma key_recover_batch: "recover_batch env bid s st = (r, st') \<Longrightarrow> key st' sid = key st sid \<and> pr_unfinished st' = pr_unfinished st"
  by (auto simp: recover_batch_def Let_def split: prod.splits res.splits option.splits)

text \<open>What a step keeps: the unfinished routines, and the key of each session that is there after it.\<close>

definition keeps_keys :: "('k, 's) protocol \<Rightarrow> ('k, 's) protocol \<Rightarrow> bool" where
  "keeps_keys st st' \<longleftrightarrow> pr_unfinished st' = pr_unfinished st
     \<and> (\<forall>sid. flat st' sid \<noteq> None \<longrightarrow> key st' sid = key st sid)"

lemma keeps_same:
  "\<lbrakk> pr_unfinished st' = pr_unfinished st; \<And>sid. key st' sid = key st sid \<rbrakk> \<Longrightarrow> keeps_keys st st'"
  by (simp add: keeps_keys_def)

lemma keeps_notify: "keeps_keys st (notify_and_close_session s st)"
  by (simp add: keeps_keys_def)

lemma keeps_data_ready: "keeps_keys st (data_packet_ready env p st)"
proof -
  let ?s = "da_session_id p"
  define st0 where "st0 = ack_if_required env (da_opts p) ?s (packet_fingerprint (en_xxh env) (DataPacket p)) st"
  have "key (data_packet_ready env p st) sid = key st sid" if "flat (data_packet_ready env p st) sid \<noteq> None" for sid
  proof -
    have "key st sid = key st0 sid" by (simp add: st0_def)
    then show ?thesis using that
      unfolding data_packet_ready_def Let_def st0_def [symmetric]
      by (auto split: option.splits prod.splits res.splits bool.splits session_error.splits if_splits
          dest: key_recover_batch)
  qed
  moreover have "pr_unfinished (data_packet_ready env p st) = pr_unfinished st"
  proof -
    have "pr_unfinished st = pr_unfinished st0" by (simp add: st0_def)
    then show ?thesis
      unfolding data_packet_ready_def Let_def st0_def [symmetric]
      by (auto split: option.splits prod.splits res.splits bool.splits session_error.splits
          dest: key_recover_batch)
  qed
  ultimately show ?thesis by (simp add: keeps_keys_def)
qed

lemma keeps_data_packet: "keeps_keys st (received_data_packet env p st)"
  using keeps_data_ready [of "update_last_activity (da_session_id p) (da_timestamp p) st" env p]
  by (auto simp: received_data_packet_def keeps_keys_def Let_def split: option.splits connection_state.splits)

lemma keeps_parity: "keeps_keys st (received_parity_packet env p st)"
  by (auto simp: keeps_keys_def received_parity_packet_def Let_def split: prod.splits res.splits bool.splits
      session_error.splits if_splits dest: key_recover_batch)

lemma key_rejected [simp]:
  "key (received_handshake_rejected p st) sid = key st sid"
  "pr_unfinished (received_handshake_rejected p st) = pr_unfinished st"
  by (auto simp: received_handshake_rejected_def take_handshake_def Let_def
      split: rejection_reason.splits option.splits connection_state.splits prod.splits)

lemma key_send_on [simp]:
  "key (send_on_session dbg s buffer msg st) sid = key st sid"
  "pr_unfinished (send_on_session dbg s buffer msg st) = pr_unfinished st"
  by (auto simp: send_on_session_def attempt_def Let_def split: option.splits prod.splits res.splits)

lemma key_start_track [simp]:
  "key (start_track env order s a st) sid = key st sid"
  "pr_unfinished (start_track env order s a st) = pr_unfinished st"
  by (auto simp: start_track_def attempt_def split: option.splits res.splits)

lemma key_track [simp]:
  "key (request_track_retry env order st) sid = key st sid"
  "pr_unfinished (request_track_retry env order st) = pr_unfinished st"
  "key (request_track_endpoint env order st) sid = key st sid"
  "pr_unfinished (request_track_endpoint env order st) = pr_unfinished st"
  "key (send_data dbg target buffer msg reply st) sid = key st sid"
  "pr_unfinished (send_data dbg target buffer msg reply st) = pr_unfinished st"
  by (auto simp: request_track_retry_def request_track_endpoint_def send_data_def
      split: res.splits prod.splits api_error.splits)

lemma key_seek_endpoint: "seek_endpoint s pos st = (r, st') \<Longrightarrow> key st' sid = key st sid \<and> pr_unfinished st' = pr_unfinished st"
  by (auto simp: seek_endpoint_def Let_def split: option.splits prod.splits)

lemma key_update_paused: "update_paused s b st = (r, st') \<Longrightarrow> key st' sid = key st sid \<and> pr_unfinished st' = pr_unfinished st"
  by (auto simp: update_paused_def split: option.splits prod.splits if_splits)

lemma key_control [simp]:
  "key (send_playback_control_packet env s control reply st) sid = key st sid"
  "pr_unfinished (send_playback_control_packet env s control reply st) = pr_unfinished st"
  by (auto simp: send_playback_control_packet_def Let_def split: option.splits prod.splits playback_action.splits
      dest: key_update_paused key_seek_endpoint)

lemma unfinished_advertise [simp]: "pr_unfinished (advertise_closed dbg gone st) = pr_unfinished st"
  by (simp add: advertise_closed_def Let_def split: prod.splits)

lemma keeps_command: "keeps_keys st (handle_command env gone c st)"
proof (cases c)
  case (Api_Find_Holes s reply)
  then show ?thesis by (auto simp: find_holes_endpoint_def intro!: keeps_same key_attempt split: option.splits)
next
  case Api_Close
  then show ?thesis by (simp add: keeps_keys_def close_protocol_def)
qed (auto simp: keeps_keys_def connect_def new_handshake_def reject_track_request_def
    close_session_endpoint_def close_stream_endpoint_def set_complete_stream_def Let_def split: option.splits if_splits)

lemma key_stream_action: "send_stream_action dbg now s n xs st = (r, xs', st') \<Longrightarrow> key st' sid = key st sid \<and> pr_unfinished st' = pr_unfinished st"
  by (auto simp: send_stream_action_def Let_def split: option.splits prod.splits res.splits)

lemma key_tasks [simp]:
  "key (task_tick dbg now i st) sid = key st sid"
  "pr_unfinished (task_tick dbg now i st) = pr_unfinished st"
  "key (task_event i st) sid = key st sid"
  "pr_unfinished (task_event i st) = pr_unfinished st"
  by (auto simp: task_tick_def task_event_def handle_stream_event_def Let_def
      split: prod.splits res.splits option.splits stream_event.splits playback_action.splits dest: key_stream_action)

lemma key_prune_requests [simp]:
  "key (prune_requests dbg now rest st) sid = key st sid"
  "pr_unfinished (prune_requests dbg now rest st) = pr_unfinished st"
  by (induction dbg now rest st rule: prune_requests.induct)
    (simp_all add: Let_def split: prod.splits res.splits option.splits)

text \<open>A piece that inserts the key of a session, and the sessions whose key is still to come.\<close>

fun inserts_key :: "'s rest \<Rightarrow> session_id option" where
  "inserts_key (Rest_Accept sid p src) = Some sid"
| "inserts_key (Rest_Initialize p src secret answer) = Some (he_proposed_session_id p)"
| "inserts_key _ = None"

definition key_to_come :: "('k, 's) protocol \<Rightarrow> session_id set" where
  "key_to_come st = {sid. \<exists>r \<in> set (pr_unfinished st). inserts_key r = Some sid}"

text \<open>
  A run with the sessions that were \<open>overtaken\<close>: the close of an earlier session removed the key when a
  session with the same id was already in the table. The next key of the session ends that.
\<close>

fun overtake :: "'s rest \<Rightarrow> ('k, 's) protocol \<Rightarrow> session_id set \<Rightarrow> session_id set" where
  "overtake (Rest_Close_Key sid) st late = (if session_exists st sid then insert sid late else late)"
| "overtake (Rest_Accept sid p src) st late = late - {sid}"
| "overtake (Rest_Initialize p src secret answer) st late = late - {he_proposed_session_id p}"
| "overtake _ st late = late"

fun overtaken :: "step_label \<Rightarrow> ('k, 's) protocol \<Rightarrow> session_id set \<Rightarrow> session_id set" where
  "overtaken (On_Rest i) st late = overtake (pr_unfinished st ! i) st late"
| "overtaken _ st late = late"

inductive key_run :: "session_id set \<Rightarrow> ('k, 's) protocol \<Rightarrow> bool" where
  key_run_init: "key_run {} (protocol_new app)"
| key_run_step: "\<lbrakk> key_run late st; step l st st' \<rbrakk> \<Longrightarrow> key_run (overtaken l st late) st'"

lemma key_run_reachable: "key_run late st \<Longrightarrow> reachable st"
  by (induction rule: key_run.induct) (auto intro: reachable.intros)

lemma reachable_key_run: "reachable st \<Longrightarrow> \<exists>late. key_run late st"
  by (induction rule: reachable.induct) (auto intro: key_run.intros)

definition keyed_but :: "session_id set \<Rightarrow> ('k, 's) protocol \<Rightarrow> bool" where
  "keyed_but X st \<longleftrightarrow> (\<forall>sid. flat st sid \<noteq> None \<longrightarrow> key st sid \<noteq> None \<or> sid \<in> X)"

lemma session_exists_flat: "session_exists st s \<longleftrightarrow> flat st s \<noteq> None"
  by (simp add: session_exists_iff flat_def)

lemma key_new_session [simp]:
  "key (new_session dbg s answer a app st) sid = key st sid"
  "pr_unfinished (new_session dbg s answer a app st) = pr_unfinished st"
  by (simp_all add: new_session_def Let_def)

lemma key_take_handshake: "take_handshake hid st = (r, st') \<Longrightarrow>
    key st' sid = key st sid \<and> pr_unfinished st' = pr_unfinished st"
  by (auto simp: take_handshake_def)

lemma key_promote: "promote_handshake dbg s a hid app st = (r, st') \<Longrightarrow>
    key st' sid = key st sid \<and> pr_unfinished st' = pr_unfinished st"
  by (auto simp: promote_handshake_def Let_def dest: key_take_handshake split: prod.splits option.splits if_splits)

lemma flat_promote_other:
  "\<lbrakk> promote_handshake dbg s a hid app st = (r, st'); sid \<noteq> s \<or> r = None \<rbrakk> \<Longrightarrow> flat st' sid = flat st sid"
  by (auto simp: promote_handshake_def Let_def dest: flat_take_handshake split: prod.splits option.splits if_splits)

lemma key_collided [simp]:
  "key (session_id_collided env p src st) sid = key st sid"
  "pr_unfinished (session_id_collided env p src st) = pr_unfinished st"
  by (auto simp: session_id_collided_def reuse_handshake_def new_handshake_def dest: key_take_handshake
      split: option.splits prod.splits)

lemma key_accept:
  "key (accept_hello env s p src st) sid =
    (if sid = s \<and> \<not> (en_dbg env \<and> session_exists st s)
     then Some (enc_window_new (en_agree env (en_secret env) (he_public_key p))) else key st sid)"
  "pr_unfinished (accept_hello env s p src st) = pr_unfinished st"
  by (auto simp: accept_hello_alt Let_def)

lemma keyed_accept: "keyed_but X st \<Longrightarrow> keyed_but X (accept_hello env s p src st)"
  by (auto simp: keyed_but_def flat_accept_hello key_accept session_exists_flat split: if_splits)

lemma keyed_emit [simp]: "keyed_but X (emit es st) = keyed_but X st"
  by (simp add: keyed_but_def)

lemma keyed_initializer:
  assumes k: "keyed_but X st"
  shows "keyed_but X (received_hello_as_initializer env p src st)"
    and "pr_unfinished (received_hello_as_initializer env p src st) = pr_unfinished st"
proof -
  obtain r st1 where pr: "promote_handshake (en_dbg env) (he_proposed_session_id p) src (he_handshake_id p)
      (he_app_id p) st = (r, st1)"
    by (cases "promote_handshake (en_dbg env) (he_proposed_session_id p) src (he_handshake_id p) (he_app_id p) st")
  show "keyed_but X (received_hello_as_initializer env p src st)"
    using pr k flat_promote_other [OF pr] key_promote [OF pr]
    by (auto simp: received_hello_as_initializer_alt initialize_key_def keyed_but_def Let_def split: option.splits)
  show "pr_unfinished (received_hello_as_initializer env p src st) = pr_unfinished st"
    using pr key_promote [OF pr]
    by (auto simp: received_hello_as_initializer_alt initialize_key_def Let_def split: option.splits)
qed

lemma keyed_hello:
  assumes "keyed_but X st"
  shows "keyed_but X (received_hello_packet env p src st)"
    and "pr_unfinished (received_hello_packet env p src st) = pr_unfinished st"
  using keyed_initializer [OF assms, of env p src] assms
  by (auto simp: received_hello_packet_def received_hello_as_receiver_alt key_accept Let_def
      send_rejection_def intro!: keyed_accept split: app_response.splits)

lemma keeps_packet: "(\<And>x. p \<noteq> HelloPacket x) \<Longrightarrow> keeps_keys st (handle_packet env src p st)"
  by (cases p)
    (auto simp: keeps_data_packet keeps_parity received_handshake_ack_def received_track_request_def received_ack_def
      received_session_does_not_exist_def received_track_reject_def received_retransmit_request_def
      received_playback_control_def received_close_session_def received_keep_alive_def Let_def
      keeps_notify intro!: keeps_same split: option.splits)

text \<open>A step outside the pieces keeps the sessions keyed, but for those in \<open>X\<close>.\<close>

lemma keyed_keeps:
  "\<lbrakk> keyed_but X st; keeps_keys st st'; moves ok st st'; \<And>sid a b. ok sid a b \<Longrightarrow> a = None \<Longrightarrow> b = None \<rbrakk>
    \<Longrightarrow> keyed_but X st'"
  unfolding keyed_but_def keeps_keys_def moves_def by metis

lemma keeps_step:
  assumes s: "step l st st'" and "\<And>src x. l \<noteq> On_Packet src (HelloPacket x)"
    and "\<And>src x. l \<noteq> On_Hello src x" and "\<And>sid. l \<noteq> On_Close sid" and "\<And>i. l \<noteq> On_Rest i"
  shows "keeps_keys st st'"
  using s
proof cases
  case (step_packet env src p)
  then show ?thesis using assms(2) by (auto intro!: keeps_packet)
next
  case (step_error e dbg gone)
  then show ?thesis
    by (cases e) (auto simp: keeps_keys_def received_incompatible_version_def Let_def)
next
  case (step_wake p env)
  then show ?thesis using keeps_data_ready [of "st\<lparr>pr_waiting := remove1 p (pr_waiting st)\<rparr>" env p]
    by (simp add: keeps_keys_def)
next
  case (step_keep_alive now sid)
  then show ?thesis by (auto simp: keep_alive_tick_def intro!: keeps_same split: option.splits)
next
  case (step_fec_prune dbg now)
  then show ?thesis by (auto simp: fec_prune_pass_def intro!: keeps_same split: prod.splits)
next
  case (step_ack_prune now)
  then show ?thesis by (auto simp: ack_prune_pass_def intro!: keeps_same split: prod.splits)
qed (use assms in \<open>simp_all add: keeps_same keeps_command\<close>)

lemma keyed_begin:
  assumes "keyed_but X st"
  shows "keyed_but X (suspend (hello_begin env p src st))"
    and "keyed_but X (suspend (close_begin env cause sid st))"
    and "key_to_come (suspend (hello_begin env p src st)) = key_to_come st"
    and "key_to_come (suspend (close_begin env cause sid st)) = key_to_come st"
  using assms
  by (auto simp: keyed_but_def key_to_come_def suspend_def hello_begin_def initializer_begin_def receiver_begin_def
      close_begin_def close_unlink_def Let_def split: option.splits connection_state.splits if_splits)

lemma keyed_rest_step:
  assumes "keyed_but (late \<union> set_option (inserts_key r) \<union> Y) st"
  shows "keyed_but (overtake r st late \<union> set_option (Option.bind (fst (rest_step env r st)) inserts_key) \<union> Y)
      (snd (rest_step env r st))"
    and "pr_unfinished (snd (rest_step env r st)) = pr_unfinished st"
proof -
  show "pr_unfinished (snd (rest_step env r st)) = pr_unfinished st"
    by (cases r) (auto simp: receiver_answered_def accept_enter_def accept_key_def initializer_promote_def
      initialize_key_def close_address_def close_key_def Let_def dest: key_promote
      split: app_response.splits option.splits prod.splits)
  show "keyed_but (overtake r st late \<union> set_option (Option.bind (fst (rest_step env r st)) inserts_key) \<union> Y)
      (snd (rest_step env r st))"
  proof (cases r)
    case (Rest_Promote p src)
    obtain x st1 where pr: "promote_handshake (en_dbg env) (he_proposed_session_id p) src (he_handshake_id p)
        (he_app_id p) st = (x, st1)"
      by (cases "promote_handshake (en_dbg env) (he_proposed_session_id p) src (he_handshake_id p) (he_app_id p) st")
    show ?thesis using assms flat_promote_other [OF pr] key_promote [OF pr]
      by (auto simp: Rest_Promote initializer_promote_def pr keyed_but_def split: option.splits)
        (metis option.distinct(1))
  next
    case (Rest_Close_Key sid)
    have "key (close_key sid st) s = (if s = sid then None else key st s)" for s
      by (simp add: key_def close_key_def)
    then show ?thesis using assms
      by (auto simp: Rest_Close_Key keyed_but_def session_exists_flat flat_def connection_def close_key_def)
  qed (use assms in \<open>auto simp: keyed_but_def receiver_answered_def accept_enter_def accept_key_def
      initialize_key_def close_address_def flat_new_session session_exists_flat Let_def
      split: app_response.splits option.splits prod.splits if_splits\<close>)
qed

lemma key_to_come_suspend:
  "key_to_come (suspend x) = key_to_come (snd x) \<union> set_option (Option.bind (fst x) inserts_key)"
  by (cases x) (auto simp: key_to_come_def suspend_def split: option.splits)

lemma keyed_suspend [simp]: "keyed_but X (suspend x) = keyed_but X (snd x)"
  by (cases x) (simp add: keyed_but_def suspend_def split: option.splits)

lemma set_remove_nth: "i < length xs \<Longrightarrow> set xs = insert (xs ! i) (set (take i xs @ drop (Suc i) xs))"
  by (subst id_take_nth_drop [of i xs]) auto

lemma keyed_resume:
  assumes "keyed_but (late \<union> key_to_come st) st" and "i < length (pr_unfinished st)"
  shows "keyed_but (overtaken (On_Rest i) st late \<union> key_to_come (resume env i st)) (resume env i st)"
proof -
  define r where "r = pr_unfinished st ! i"
  define st0 where "st0 = st\<lparr>pr_unfinished := take i (pr_unfinished st) @ drop (Suc i) (pr_unfinished st)\<rparr>"
  have res: "resume env i st = suspend (rest_step env r st0)"
    by (simp add: resume_def Let_def r_def st0_def)
  have come: "key_to_come st = set_option (inserts_key r) \<union> key_to_come st0"
    using set_remove_nth [OF assms(2)]
    by (auto simp: key_to_come_def r_def st0_def)
  have ov: "overtaken (On_Rest i) st late = overtake r st0 late"
    by (cases r) (simp_all add: r_def [symmetric] st0_def session_exists_flat)
  have "keyed_but (late \<union> set_option (inserts_key r) \<union> key_to_come st0) st0"
    using assms(1) by (simp add: come keyed_but_def st0_def Un_assoc)
  note k = keyed_rest_step [OF this, of env]
  have same: "key_to_come (snd (rest_step env r st0)) = key_to_come st0"
    using k(2) by (simp add: key_to_come_def)
  show ?thesis using k(1) by (simp add: res ov key_to_come_suspend same Un_ac del: overtaken.simps)
qed

lemma key_run_keyed: "key_run late st \<Longrightarrow> keyed_but (late \<union> key_to_come st) st"
proof (induction rule: key_run.induct)
  case (key_run_init app)
  then show ?case by (simp add: keyed_but_def flat_def)
next
  case (key_run_step late st l st')
  note k = key_run_step.IH and s = key_run_step.hyps(2)
  show ?case
  proof (cases "\<forall>src x. l \<noteq> On_Packet src (HelloPacket x) \<and> l \<noteq> On_Hello src x")
    case plain: True
    show ?thesis
    proof (cases "\<forall>sid i. l \<noteq> On_Close sid \<and> l \<noteq> On_Rest i")
      case True
      have m: "moves (may_move l) st st'"
        using sessions_move [OF key_run_reachable [OF key_run_step.hyps(1)] s] .
      have stays: "may_move l sid None b \<Longrightarrow> b = None" for sid b
        using plain True
        by (cases l) (auto simp: data_move_def streaming_flat_def idle_flat_def
            elim!: command_move.elims packet_move.elims)
      have ks: "keeps_keys st st'" using keeps_step [OF s] plain True by simp
      have "overtaken l st late = late" using True by (cases l) simp_all
      moreover have "key_to_come st' = key_to_come st"
        using ks by (simp add: keeps_keys_def key_to_come_def)
      ultimately show ?thesis using keyed_keeps [OF k ks m] stays by simp
    next
      case False
      then show ?thesis using s k keyed_resume [OF k] keyed_begin [OF k]
        by (auto elim!: stepE simp del: keyed_suspend)
    qed
  next
    case False
    then show ?thesis using s k keyed_hello [OF k] keyed_begin [OF k]
      by (auto elim!: stepE simp: key_to_come_def simp del: keyed_suspend)
  qed
qed

section \<open>Sessions without a key\<close>

text \<open>A peer's hello, up to the entry of the session and up to the end; the session is closed up to its key.\<close>

definition demo_entered :: "(u8, u8) protocol" where
  "demo_entered = resume (demo_env 4) 0 (resume (demo_env 4) 0
     (suspend (hello_begin (demo_env 4) demo_hello demo_address (protocol_new [66]))))"

definition demo_keyed :: "(u8, u8) protocol" where
  "demo_keyed = resume (demo_env 4) 0 demo_entered"

definition demo_closing :: "(u8, u8) protocol" where
  "demo_closing = suspend (close_begin (demo_env 4) Close_By_Peer 7 demo_keyed)"

definition demo_half_closed :: "(u8, u8) protocol" where
  "demo_half_closed = resume (demo_env 4) 0 demo_closing"

text \<open>A second hello with the same id overtakes the end of that close.\<close>

definition demo_entered_again :: "(u8, u8) protocol" where
  "demo_entered_again = handle_packet (demo_env 4) demo_address (HelloPacket demo_hello) demo_half_closed"

definition demo_overtaken :: "(u8, u8) protocol" where
  "demo_overtaken = resume (demo_env 4) 0 demo_entered_again"

lemmas piece_defs = resume_def suspend_def Let_def hello_begin_def receiver_begin_def receiver_answered_def
  accept_enter_def close_begin_def close_unlink_def close_address_def close_key_def

lemma key_run_hello: "key_run late st \<Longrightarrow> key_run late (suspend (hello_begin env p src st))"
  using key_run_step [OF _ step_hello] by simp

lemma key_run_close: "key_run late st \<Longrightarrow> key_run late (suspend (close_begin env cause sid st))"
  using key_run_step [OF _ step_close] by simp

lemma key_run_packet: "key_run late st \<Longrightarrow> key_run late (handle_packet env src p st)"
  using key_run_step [OF _ step_packet] by simp

lemma key_run_rest:
  "\<lbrakk> key_run late st; pr_unfinished st = [r] \<rbrakk> \<Longrightarrow> key_run (overtake r st late) (resume env 0 st)"
  using key_run_step [OF _ step_rest, of late st 0 env] by simp

lemma send_hello_frame [simp]:
  "pr_address_session (send_hello env opts sid hid a st) = pr_address_session st"
  "pr_handshakes (send_hello env opts sid hid a st) = pr_handshakes st"
  by (simp_all add: send_hello_def send_packet_def attempt_def emit_def fail_task_def split: res.splits)

lemma connection_send_hello [simp]: "connection (send_hello env opts sid hid a st) s = connection st s"
  by (simp add: send_hello_def)

lemma prims_frame [simp]:
  "pr_address_session (insert_key s k st) = pr_address_session st" "pr_handshakes (insert_key s k st) = pr_handshakes st"
  "pr_address_session (emit es st) = pr_address_session st" "pr_handshakes (emit es st) = pr_handshakes st"
  "pr_address_session (drop_connection s st) = pr_address_session st"
  "pr_handshakes (drop_connection s st) = pr_handshakes st"
  "pr_handshakes (set_connection s c st) = pr_handshakes st"
  by (simp_all add: insert_key_def emit_def drop_connection_def set_connection_def)

definition demo_handshake :: connection_state where
  "demo_handshake = Handshake \<lparr>hs_session_id = 7, hs_response = 1, hs_signal = False, hs_app_id = [65],
     hs_address = demo_address\<rparr>"

lemma demo_entered_state:
  "pr_unfinished demo_entered = [Rest_Accept 7 demo_hello demo_address]"
  "connection demo_entered 7 = Some demo_handshake" "pr_encryption demo_entered = []"
  "pr_address_session demo_entered = [(demo_address, [7])]" "pr_handshakes demo_entered = []"
  by (simp_all add: demo_entered_def piece_defs demo_env_def demo_hello_def protocol_new_def hm_contains_def
      new_session_def session_exists_iff demo_handshake_def connection_def address_push_def hm_modify_or_def hm_insert_def hm_get_def
      set_connection_def emit_def)

lemma demo_keyed_state:
  "pr_unfinished demo_keyed = []" "connection demo_keyed 7 = Some demo_handshake"
  "pr_address_session demo_keyed = [(demo_address, [7])]" "pr_handshakes demo_keyed = []"
  by (simp_all add: demo_keyed_def resume_def Let_def suspend_def demo_entered_state accept_key_def)

lemma demo_closing_state:
  "pr_unfinished demo_closing = [Rest_Close_Address 7 demo_address]" "connection demo_closing 7 = None"
  "pr_address_session demo_closing = [(demo_address, [7])]" "pr_handshakes demo_closing = []"
  by (simp_all add: demo_closing_def suspend_def close_begin_def close_unlink_def demo_keyed_state demo_handshake_def cs_address_def)

lemma demo_address_removed: "address_remove demo_address 7 [(demo_address, [7])] = (Some 7, [])"
  by (simp add: address_remove_def hm_get_def hm_insert_def hm_remove_def swap_remove_def Let_def)

lemma demo_half_closed_state:
  "pr_unfinished demo_half_closed = [Rest_Close_Key 7]" "connection demo_half_closed 7 = None"
  "pr_handshakes demo_half_closed = []"
  by (simp_all add: demo_half_closed_def resume_def suspend_def demo_closing_state close_address_def
      demo_address_removed Let_def)

lemma demo_entered_again_state:
  "pr_unfinished demo_entered_again = [Rest_Close_Key 7]" "connection demo_entered_again 7 = Some demo_handshake"
  by (simp_all add: demo_entered_again_def received_hello_packet_def received_hello_as_receiver_alt key_accept
      hm_contains_def demo_half_closed_state demo_env_def demo_hello_def session_exists_iff Let_def)
    (simp add: accept_hello_alt new_session_def session_exists_iff demo_half_closed_state demo_handshake_def Let_def)

lemma demo_overtaken_state:
  "pr_unfinished demo_overtaken = []" "connection demo_overtaken 7 = Some demo_handshake"
  "encryption_get_cipher 7 (pr_encryption demo_overtaken) = None"
  by (simp_all add: demo_overtaken_def resume_def suspend_def demo_entered_again_state close_key_def Let_def
      encryption_get_cipher_def)

lemma demo_entered_run: "key_run {} demo_entered"
proof -
  have 1: "key_run {} (suspend (hello_begin (demo_env 4) demo_hello demo_address (protocol_new [66])))"
    by (rule key_run_hello [OF key_run_init])
  have u1: "pr_unfinished (suspend (hello_begin (demo_env 4) demo_hello demo_address (protocol_new [66])))
      = [Rest_Answer demo_hello demo_address 1]"
    by (simp add: piece_defs demo_env_def demo_hello_def protocol_new_def hm_contains_def)
  note 2 = key_run_rest [OF 1 u1, of "demo_env 4"]
  have u2: "pr_unfinished (resume (demo_env 4) 0
      (suspend (hello_begin (demo_env 4) demo_hello demo_address (protocol_new [66]))))
      = [Rest_Enter 7 demo_hello demo_address 1]"
    by (simp add: piece_defs demo_env_def demo_hello_def protocol_new_def hm_contains_def session_exists_def emit_def)
  show ?thesis
    using key_run_rest [OF 2 u2, of "demo_env 4"] by (simp add: demo_entered_def)
qed

lemma demo_overtaken_run: "key_run {7} demo_overtaken"
proof -
  have "key_run {} demo_keyed"
    using key_run_rest [OF demo_entered_run demo_entered_state(1), of "demo_env 4"] by (simp add: demo_keyed_def)
  then have "key_run {} demo_closing" unfolding demo_closing_def by (rule key_run_close)
  from key_run_rest [OF this demo_closing_state(1), of "demo_env 4"]
  have "key_run {} demo_half_closed" by (simp add: demo_half_closed_def)
  then have "key_run {} demo_entered_again" unfolding demo_entered_again_def by (rule key_run_packet)
  from key_run_rest [OF this demo_entered_again_state(1), of "demo_env 4"]
  show ?thesis by (simp add: demo_overtaken_def session_exists_iff demo_entered_again_state)
qed

text \<open>C5: In every run of the manager, whatever the order of commands, packets and the pieces of routines
  that wait for a lock, a session of the connection table has a key in the encryption table but for two
  cases: the routine that entered it has yet to insert its key, or the close of an earlier session with the
  same id ran its last piece, the removal of the key, after the session was entered, and no key
  was inserted since. Nothing else takes the key from a session.\<close>

theorem keyless_session_explained:
  assumes "key_run late st" and "connection st sid \<noteq> None"
    and "encryption_get_cipher sid (pr_encryption st) = None"
  shows "sid \<in> late \<or> (\<exists>r \<in> set (pr_unfinished st). inserts_key r = Some sid)"
  using key_run_keyed [OF assms(1)] assms(2,3)
  by (auto simp: keyed_but_def flat_def key_def encryption_get_cipher_def key_to_come_def)

text \<open>Both cases occur.\<close>

theorem keyless_session_explained_witness:
  "(\<exists>r \<in> set (pr_unfinished demo_entered). inserts_key r = Some 7)
   \<and> key_run {7} demo_overtaken \<and> pr_unfinished demo_overtaken = []
   \<and> connection demo_overtaken 7 = Some demo_handshake
   \<and> encryption_get_cipher 7 (pr_encryption demo_overtaken) = None"
  using keyless_session_explained [OF demo_entered_run, of 7] demo_overtaken_run demo_overtaken_state
  by (simp add: demo_entered_state encryption_get_cipher_def)

end
