(* ===== verification/Handshake_Run.thy ===== *)
theory Handshake_Run imports Session_Keys begin

text \<open>
  The handshake of two hosts: the caller's hello, the answer of the application and the hello of the
  other host, and the acknowledgement, each packet the only one its sender emits. Both hosts end
  with an established session under the same id and with the same key.
\<close>

text \<open>The packets that a step emits.\<close>

definition sent_since :: "('k, 's) protocol \<Rightarrow> ('k, 's) protocol \<Rightarrow> packet_wrapper list" where
  "sent_since st st' =
     List.map_filter (\<lambda>e. case e of Send w \<Rightarrow> Some w | _ \<Rightarrow> None) (drop (length (pr_out st)) (pr_out st'))"

lemma pr_app_id_prims [simp]:
  "pr_app_id (set_connection s c st) = pr_app_id st" "pr_app_id (emit es st) = pr_app_id st"
  "pr_app_id (insert_key s k st) = pr_app_id st"
  "pr_app_id (new_handshake hid a secret s ans st) = pr_app_id st"
  by (simp_all add: set_connection_def emit_def insert_key_def new_handshake_def)

text \<open>The packets of the exchange.\<close>

definition hello_of :: "('k, 's) env \<Rightarrow> options \<Rightarrow> session_id \<Rightarrow> handshake_id \<Rightarrow> bytes \<Rightarrow> hello" where
  "hello_of env opts sid hid app =
     \<lparr>he_version = CURRENT_VERSION, he_opts = opts, he_packet_type = PT_Host,
      he_control_type = Host Host_Hello, he_proposed_session_id = sid, he_handshake_id = hid,
      he_timestamp = en_now env, he_public_key = en_public_key env, he_app_id = app\<rparr>"

lemma send_hello_emits:
  "opt_valid opts \<Longrightarrow> send_hello env opts sid hid a st
     = emit [Send (wrap (HelloPacket (hello_of env opts sid hid (pr_app_id st))) a)] st"
  by (simp add: send_hello_def send_packet_def hello_new_def assert_opts_valid_def debug_assert_def
      attempt_def hello_of_def)

lemma connect_result:
  "connect env answer a st =
     emit [Send (wrap (HelloPacket (hello_of env opt_none (en_session_id env) (en_handshake_id env) (pr_app_id st))) a)]
       (new_handshake (en_handshake_id env) a (en_secret env) (en_session_id env) answer st)"
  by (simp add: connect_def send_hello_emits)

lemma accept_result:
  assumes "\<not> session_exists st sid"
  shows "accept_hello env sid p src st =
    emit [Send (wrap (HelloPacket (hello_of env (opt_construct [RequireAck]) sid (he_handshake_id p) (pr_app_id st))) src)]
      (insert_key sid (en_agree env (en_secret env) (he_public_key p))
        (new_session (en_dbg env) sid (en_ticket env) src (he_app_id p) st))"
proof -
  have "pr_app_id (new_session (en_dbg env) sid (en_ticket env) src (he_app_id p) st) = pr_app_id st"
    by (simp add: new_session_def unexpected_def fail_task_def Let_def)
  then show ?thesis using assms by (simp add: accept_hello_alt Let_def send_hello_emits)
qed

text \<open>One step of each host.\<close>

lemma answered_hello:
  assumes "en_app env = App_Approved" and "hm_get (pr_handshakes st) (he_handshake_id p) = None"
    and "connection st (he_proposed_session_id p) = None"
  shows "handle_packet env src (HelloPacket p) st =
    accept_hello env (he_proposed_session_id p) p src (emit [App_Incoming (he_app_id p) src (en_ticket env)] st)"
  using assms
  by (simp add: received_hello_packet_def received_hello_as_receiver_alt hm_contains_def session_exists_iff Let_def)

lemma promoted_hello:
  assumes "hm_get (pr_handshakes st) (he_handshake_id p) = Some h"
    and "connection st (he_proposed_session_id p) = None"
  shows "\<exists>st0. handle_packet env src (HelloPacket p) st =
      emit [Answer (hk_response h) (Connected (he_proposed_session_id p)),
            Send (wrap (HandshakeAckPacket (handshake_ack_new (en_now env) (he_proposed_session_id p)
              (he_handshake_id p))) src), Keep_Alive (he_proposed_session_id p)]
        (insert_key (he_proposed_session_id p) (en_agree env (hk_secret h) (he_public_key p)) st0)
    \<and> connection st0 (he_proposed_session_id p) = Some (established_new (hk_session_id h) src (he_app_id p))
    \<and> pr_out st0 = pr_out st
    \<and> pr_address_session st0 = address_push src (hk_session_id h) (pr_address_session st)"
  (is "\<exists>st0. ?P st0")
proof -
  have "?P (set_connection (he_proposed_session_id p) (established_new (hk_session_id h) src (he_app_id p))
      (st\<lparr>pr_handshakes := hm_remove (he_handshake_id p) (pr_handshakes st)\<rparr>)
      \<lparr>pr_address_session := address_push src (hk_session_id h) (pr_address_session st)\<rparr>)"
    using assms
    by (simp add: received_hello_packet_def received_hello_as_initializer_alt initialize_key_def hm_contains_def session_exists_iff
      promote_handshake_def take_handshake_def Let_def) (simp add: set_connection_def)
  then show ?thesis by (rule exI)
qed

lemma acknowledged:
  assumes "connection st sid = Some (Handshake h)" and "hs_session_id h = sid" and "ha_session_id p = sid"
  shows "handle_packet env src (HandshakeAckPacket p) st =
    emit [Answer (hs_response h) (Connected sid)]
      (set_connection sid (established_new sid (hs_address h) (hs_app_id h)) (drop_connection sid st))"
  using assms by (simp add: received_handshake_ack_def handshake_done_def)

section \<open>Establishing a session\<close>

text \<open>The two hosts, each given the first packet the other sent: the caller's state and the other's.\<close>

definition exchange ::
  "('k, 's) env \<Rightarrow> ('k, 't) env \<Rightarrow> ('k, 's) env \<Rightarrow> ('k, 't) env \<Rightarrow> ticket \<Rightarrow> address \<Rightarrow> address
     \<Rightarrow> ('k, 's) protocol \<Rightarrow> ('k, 't) protocol \<Rightarrow> ('k, 's) protocol \<times> ('k, 't) protocol" where
  "exchange ea eb ea' eb' caller addr_a addr_b sta stb =
     (let sta1 = connect ea caller addr_b sta;
          stb1 = handle_packet eb addr_a (pw_packet (hd (sent_since sta sta1))) stb;
          sta2 = handle_packet ea' addr_b (pw_packet (hd (sent_since stb stb1))) sta1;
          stb2 = handle_packet eb' addr_a (pw_packet (hd (sent_since sta1 sta2))) stb1
      in (sta2, stb2))"

lemma handshake_exchange:
  assumes "en_app eb = App_Approved"
    and "connection sta (en_session_id ea) = None" and "connection stb (en_session_id ea) = None"
    and "hm_get (pr_handshakes stb) (en_handshake_id ea) = None"
    and "en_agree ea' (en_secret ea) (en_public_key eb) = en_agree eb (en_secret eb) (en_public_key ea)"
  shows "\<exists>w1 w2 w3 sta1 stb1 sta2 stb2 k.
      sta1 = connect ea caller addr_b sta \<and> sent_since sta sta1 = [w1] \<and> pw_addr w1 = addr_b
    \<and> stb1 = handle_packet eb addr_a (pw_packet w1) stb \<and> sent_since stb stb1 = [w2] \<and> pw_addr w2 = addr_a
    \<and> sta2 = handle_packet ea' addr_b (pw_packet w2) sta1 \<and> sent_since sta1 sta2 = [w3] \<and> pw_addr w3 = addr_b
    \<and> stb2 = handle_packet eb' addr_a (pw_packet w3) stb1
    \<and> exchange ea eb ea' eb' caller addr_a addr_b sta stb = (sta2, stb2)
    \<and> connection sta2 (en_session_id ea) = Some (established_new (en_session_id ea) addr_b (pr_app_id stb))
    \<and> connection stb2 (en_session_id ea) = Some (established_new (en_session_id ea) addr_a (pr_app_id sta))
    \<and> key sta2 (en_session_id ea) = Some (enc_window_new k) \<and> key stb2 (en_session_id ea) = Some (enc_window_new k)
    \<and> Answer caller (Connected (en_session_id ea)) \<in> set (pr_out sta2)
    \<and> Answer (en_ticket eb) (Connected (en_session_id ea)) \<in> set (pr_out stb2)"
proof -
  let ?sid = "en_session_id ea" and ?hid = "en_handshake_id ea"
  define p1 where "p1 = hello_of ea opt_none ?sid ?hid (pr_app_id sta)"
  define sta1 where "sta1 = connect ea caller addr_b sta"
  define p2 where "p2 = hello_of eb (opt_construct [RequireAck]) ?sid ?hid (pr_app_id stb)"
  define k where "k = en_agree eb (en_secret eb) (en_public_key ea)"
  define st0 where "st0 = insert_key ?sid k (new_session (en_dbg eb) ?sid (en_ticket eb) addr_a (pr_app_id sta)
      (emit [App_Incoming (pr_app_id sta) addr_a (en_ticket eb)] stb))"
  define stb1 where "stb1 = emit [Send (wrap (HelloPacket p2) addr_a)] st0"
  define p3 where "p3 = handshake_ack_new (en_now ea') ?sid ?hid"
  have a1: "sta1 = emit [Send (wrap (HelloPacket p1) addr_b)]
      (new_handshake ?hid addr_b (en_secret ea) ?sid caller sta)"
    by (simp add: sta1_def connect_result p1_def)
  have free: "\<not> session_exists (emit [App_Incoming (pr_app_id sta) addr_a (en_ticket eb)] stb) ?sid"
    using assms(3) by (simp add: session_exists_iff)
  have f1: "he_handshake_id p1 = ?hid" "he_proposed_session_id p1 = ?sid" "he_app_id p1 = pr_app_id sta"
      "he_public_key p1 = en_public_key ea"
    by (simp_all add: p1_def hello_of_def)
  have b1: "handle_packet eb addr_a (HelloPacket p1) stb = stb1"
    using answered_hello [OF assms(1), of stb p1 addr_a] assms(3,4) accept_result [OF free, of eb p1 addr_a]
    by (simp add: f1 stb1_def st0_def p2_def k_def)
  have s0: "pr_out st0 = pr_out stb @ [App_Incoming (pr_app_id sta) addr_a (en_ticket eb)]"
    and c0: "connection st0 ?sid = Some (Handshake \<lparr>hs_session_id = ?sid, hs_response = en_ticket eb,
        hs_signal = False, hs_app_id = pr_app_id sta, hs_address = addr_a\<rparr>)"
    and k0: "key st0 ?sid = Some (enc_window_new k)"
    using free by (simp_all add: st0_def new_session_def session_exists_iff Let_def set_connection_def)
      (simp_all add: connection_def)
  have h: "hm_get (pr_handshakes sta1) ?hid = Some \<lparr>hk_peer_address = addr_b, hk_secret = en_secret ea,
      hk_session_id = ?sid, hk_response = caller\<rparr>"
    by (simp add: a1 new_handshake_def emit_def)
  have ca: "connection sta1 ?sid = None" using assms(2) by (simp add: a1 new_handshake_def)
  have f2: "he_handshake_id p2 = ?hid" "he_proposed_session_id p2 = ?sid" "he_app_id p2 = pr_app_id stb"
      "he_public_key p2 = en_public_key eb"
    by (simp_all add: p2_def hello_of_def)
  obtain st2 where a2: "handle_packet ea' addr_b (HelloPacket p2) sta1 =
        emit [Answer caller (Connected ?sid), Send (wrap (HandshakeAckPacket p3) addr_b), Keep_Alive ?sid]
          (insert_key ?sid k st2)"
      "connection st2 ?sid = Some (established_new ?sid addr_b (pr_app_id stb))" "pr_out st2 = pr_out sta1"
    using promoted_hello [of sta1 p2 _ ea' addr_b] h ca assms(5) by (simp add: f2 p3_def k_def) blast
  have b2: "handle_packet eb' addr_a (HandshakeAckPacket p3) stb1 =
      emit [Answer (en_ticket eb) (Connected ?sid)]
        (set_connection ?sid (established_new ?sid addr_a (pr_app_id sta)) (drop_connection ?sid stb1))"
    using acknowledged [of stb1 ?sid _ p3 eb' addr_a] c0 by (simp add: stb1_def p3_def handshake_ack_new_def)
  define w1 where "w1 = wrap (HelloPacket p1) addr_b"
  define w2 where "w2 = wrap (HelloPacket p2) addr_a"
  define w3 where "w3 = wrap (HandshakeAckPacket p3) addr_b"
  define sta2 where "sta2 = handle_packet ea' addr_b (pw_packet w2) sta1"
  define stb2 where "stb2 = handle_packet eb' addr_a (pw_packet w3) stb1"
  have w: "pw_addr w1 = addr_b" "pw_addr w2 = addr_a" "pw_addr w3 = addr_b"
    by (simp_all add: w1_def w2_def w3_def wrap_def)
  have e1: "sent_since sta sta1 = [w1]" by (simp add: a1 sent_since_def w1_def map_filter_simps)
  have e2: "sent_since stb stb1 = [w2]" by (simp add: stb1_def s0 sent_since_def w2_def map_filter_simps)
  have b1': "stb1 = handle_packet eb addr_a (pw_packet w1) stb"
    using b1 by (simp only: w1_def wrap_def packet_wrapper.simps)
  have a2': "sta2 = emit [Answer caller (Connected ?sid), Send w3, Keep_Alive ?sid] (insert_key ?sid k st2)"
    using a2(1) by (simp only: sta2_def w2_def w3_def wrap_def packet_wrapper.simps)
  have b2': "stb2 = emit [Answer (en_ticket eb) (Connected ?sid)]
      (set_connection ?sid (established_new ?sid addr_a (pr_app_id sta)) (drop_connection ?sid stb1))"
    using b2 by (simp only: stb2_def w3_def wrap_def packet_wrapper.simps)
  have e3: "sent_since sta1 sta2 = [w3]" by (simp add: a2' a2(3) sent_since_def map_filter_simps)
  have ends: "connection sta2 ?sid = Some (established_new ?sid addr_b (pr_app_id stb))"
      "connection stb2 ?sid = Some (established_new ?sid addr_a (pr_app_id sta))"
      "key sta2 ?sid = Some (enc_window_new k)" "key stb2 ?sid = Some (enc_window_new k)"
      "Answer caller (Connected ?sid) \<in> set (pr_out sta2)"
      "Answer (en_ticket eb) (Connected ?sid) \<in> set (pr_out stb2)"
    using k0 a2(2) by (simp_all add: a2' b2' stb1_def)
  have ex: "exchange ea eb ea' eb' caller addr_a addr_b sta stb = (sta2, stb2)"
    by (simp add: exchange_def Let_def sta1_def [symmetric] e1 b1' [symmetric] e2 sta2_def [symmetric] e3
        stb2_def [symmetric])
  show ?thesis
    using sta1_def e1 w b1' e2 sta2_def e3 ex stb2_def ends by blast
qed

text \<open>C2: A handshake over three packets, each the only one its sender emits, establishes the session on
  both hosts: both enter it under the id the caller proposed, each with the address and the application id
  of the other and with the same key, and both callers are told. The hypotheses: the application of
  the second host approves, the id is free on both hosts, the handshake id is not one of the second
  host's own, and the key agreement gives both sides the same secret.\<close>

theorem handshake_establishes:
  assumes "en_app eb = App_Approved"
    and "connection sta (en_session_id ea) = None" and "connection stb (en_session_id ea) = None"
    and "hm_get (pr_handshakes stb) (en_handshake_id ea) = None"
    and "en_agree ea' (en_secret ea) (en_public_key eb) = en_agree eb (en_secret eb) (en_public_key ea)"
  shows "\<exists>w1 w2 w3 sta1 stb1 sta2 stb2 k.
      sta1 = connect ea caller addr_b sta \<and> sent_since sta sta1 = [w1] \<and> pw_addr w1 = addr_b
    \<and> stb1 = handle_packet eb addr_a (pw_packet w1) stb \<and> sent_since stb stb1 = [w2] \<and> pw_addr w2 = addr_a
    \<and> sta2 = handle_packet ea' addr_b (pw_packet w2) sta1 \<and> sent_since sta1 sta2 = [w3] \<and> pw_addr w3 = addr_b
    \<and> stb2 = handle_packet eb' addr_a (pw_packet w3) stb1
    \<and> connection sta2 (en_session_id ea) = Some (established_new (en_session_id ea) addr_b (pr_app_id stb))
    \<and> connection stb2 (en_session_id ea) = Some (established_new (en_session_id ea) addr_a (pr_app_id sta))
    \<and> key sta2 (en_session_id ea) = Some (enc_window_new k) \<and> key stb2 (en_session_id ea) = Some (enc_window_new k)
    \<and> Answer caller (Connected (en_session_id ea)) \<in> set (pr_out sta2)
    \<and> Answer (en_ticket eb) (Connected (en_session_id ea)) \<in> set (pr_out stb2)"
  using handshake_exchange [OF assms, of caller addr_b addr_a eb'] by blast

theorem handshake_establishes_witness:
  "\<exists>sta2 stb2 k. connection (sta2 :: (u8, u8) protocol) 7 = Some (established_new 7 demo_address [66])
    \<and> connection (stb2 :: (u8, u8) protocol) 7 = Some (established_new 7 demo_address [65])
    \<and> key sta2 7 = Some (enc_window_new k) \<and> key stb2 7 = Some (enc_window_new k)
    \<and> Answer 2 (Connected 7) \<in> set (pr_out sta2) \<and> Answer 1 (Connected 7) \<in> set (pr_out stb2)"
proof -
  have ids: "en_session_id (demo_env s) = 7" "en_app (demo_env s) = App_Approved"
      "en_ticket (demo_env s) = 1" "en_agree (demo_env s) = (\<lambda>s pk. s XOR hd pk)"
      "en_secret (demo_env s) = s" "en_public_key (demo_env s) = replicate 32 s" for s
    by (simp_all add: demo_env_def)
  have app: "pr_app_id (protocol_new a :: (u8, u8) protocol) = a" for a by (simp add: protocol_new_def)
  have hs: "hm_get (pr_handshakes (protocol_new a :: (u8, u8) protocol)) i = None" for a i
    by (simp add: protocol_new_def)
  have "(3 :: u8) XOR 4 = 4 XOR 3" by simp
  then show ?thesis
    using handshake_establishes [of "demo_env 4" "protocol_new [65]" "demo_env 3" "protocol_new [66]" "demo_env 3"
        2 demo_address demo_address "demo_env 4"]
    unfolding ids app hs connection_new by (simp only: numeral_eq_Suc replicate.simps list.sel simp_thms) blast
qed

section \<open>Nonces\<close>

text \<open>
  A cipher in counter mode, as AES-GCM is: each byte of the plaintext is combined with a byte
  of a key stream that depends on the key and the nonce only.
\<close>

definition counter_mode :: "'k aead \<Rightarrow> ('k \<Rightarrow> bytes \<Rightarrow> nat \<Rightarrow> u8) \<Rightarrow> bool" where
  "counter_mode A ks \<longleftrightarrow> (\<forall>k n a p c. seal A k n a p = Some c \<longrightarrow>
     length p \<le> length c \<and> (\<forall>i < length p. c ! i = p ! i XOR ks k n i))"

text \<open>The table of a host after it has sealed or tagged \<open>n\<close> packets of a session.\<close>

primrec sealed_before :: "nat \<Rightarrow> session_id \<Rightarrow> 'k enc_table \<Rightarrow> 'k enc_table" where
  "sealed_before 0 sid t = t"
| "sealed_before (Suc n) sid t = snd (encryption_get sid (sealed_before n sid t))"

lemma window_after:
  "hm_get t sid = Some (enc_window_new k)
    \<Longrightarrow> hm_get (sealed_before n sid t) sid = Some \<lparr>ew_cipher = k, ew_nonce = of_nat n\<rparr>"
  by (induction n) (simp_all add: enc_window_new_def encryption_get_def enc_window_get_def Let_def add.commute)

lemma encrypt_after:
  assumes "hm_get t sid = Some (enc_window_new k)" and "aead_total A"
    and "length aad \<le> AEAD_MAX" and "length p \<le> AEAD_MAX"
  shows "\<exists>c t'. seal A k (get_nonce sid (int_bytes (of_nat n :: u64))) aad p = Some c
    \<and> encrypt A sid (sealed_before n sid t) aad p = (True, c @ int_bytes (of_nat n :: u64), t')"
proof -
  obtain c where "seal A k (get_nonce sid (int_bytes (of_nat n :: u64))) aad p = Some c"
    using assms(2-4) unfolding aead_total_def by blast
  then show ?thesis
    by (simp add: encrypt_def encryption_get_def enc_window_get_def window_after [OF assms(1)] Let_def)
qed

text \<open>C38: After the handshake the two hosts seal their packets with the same key and the same nonces: both
  windows start at zero and no packet of the handshake is sealed. So for every \<open>n\<close>, once each host has sealed
  \<open>n\<close> packets of the session, the next packet of one and the next packet of the other, with whatever
  headers and payloads, are encrypted under one key stream: the exclusive or of the two ciphertexts is that of the two
  payloads, which whoever listens can compute.\<close>

theorem handshake_shares_nonces:
  assumes "en_app eb = App_Approved"
    and "connection sta (en_session_id ea) = None" and "connection stb (en_session_id ea) = None"
    and "hm_get (pr_handshakes stb) (en_handshake_id ea) = None"
    and "en_agree ea' (en_secret ea) (en_public_key eb) = en_agree eb (en_secret eb) (en_public_key ea)"
    and "exchange ea eb ea' eb' caller addr_a addr_b sta stb = (sta2, stb2)"
    and "aead_total A" and "counter_mode A ks"
    and "length aad \<le> AEAD_MAX" and "length aad' \<le> AEAD_MAX"
    and "length p \<le> AEAD_MAX" and "length p' \<le> AEAD_MAX"
  shows "\<exists>c t c' t'.
      encrypt A (en_session_id ea) (sealed_before n (en_session_id ea) (pr_encryption sta2)) aad p = (True, c, t)
    \<and> encrypt A (en_session_id ea) (sealed_before n (en_session_id ea) (pr_encryption stb2)) aad' p' = (True, c', t')
    \<and> (\<forall>i < min (length p) (length p'). c ! i XOR c' ! i = p ! i XOR p' ! i)"
proof -
  let ?sid = "en_session_id ea" and ?ctr = "int_bytes (of_nat n :: u64)"
  obtain k where k: "hm_get (pr_encryption sta2) ?sid = Some (enc_window_new k)"
      "hm_get (pr_encryption stb2) ?sid = Some (enc_window_new k)"
    using handshake_exchange [OF assms(1-5), of caller addr_b addr_a eb'] assms(6) by (auto simp: key_def)
  obtain c t where c: "seal A k (get_nonce ?sid ?ctr) aad p = Some c"
      "encrypt A ?sid (sealed_before n ?sid (pr_encryption sta2)) aad p = (True, c @ ?ctr, t)"
    using encrypt_after [OF k(1) assms(7,9,11)] by blast
  obtain c' t' where c': "seal A k (get_nonce ?sid ?ctr) aad' p' = Some c'"
      "encrypt A ?sid (sealed_before n ?sid (pr_encryption stb2)) aad' p' = (True, c' @ ?ctr, t')"
    using encrypt_after [OF k(2) assms(7,10,12)] by blast
  have "(c @ ?ctr) ! i XOR (c' @ ?ctr) ! i = p ! i XOR p' ! i" if "i < min (length p) (length p')" for i
  proof -
    have "length p \<le> length c" "length p' \<le> length c'"
        "c ! i = p ! i XOR ks k (get_nonce ?sid ?ctr) i" "c' ! i = p' ! i XOR ks k (get_nonce ?sid ?ctr) i"
      using assms(8) c(1) c'(1) that unfolding counter_mode_def by auto
    then show ?thesis using that by (simp add: nth_append ac_simps)
  qed
  then show ?thesis using c(2) c'(2) by blast
qed

definition demo_exchange :: "(u8, u8) protocol \<times> (u8, u8) protocol" where
  "demo_exchange = exchange (demo_env 4) (demo_env 3) (demo_env 4) (demo_env 3) 2 demo_address demo_address
     (protocol_new [65]) (protocol_new [66])"

theorem handshake_shares_nonces_witness:
  "\<exists>c t c' t'. encrypt demo_aead 7 (sealed_before 1 7 (pr_encryption (fst demo_exchange))) [] [5] = (True, c, t)
    \<and> encrypt demo_aead 7 (sealed_before 1 7 (pr_encryption (snd demo_exchange))) [1] [6] = (True, c', t')
    \<and> c ! 0 XOR c' ! 0 = 5 XOR 6"
proof -
  have ids: "en_session_id (demo_env s) = 7" "en_app (demo_env s) = App_Approved"
      "en_agree (demo_env s) = (\<lambda>s pk. s XOR hd pk)"
      "en_secret (demo_env s) = s" "en_public_key (demo_env s) = replicate 32 s" for s
    by (simp_all add: demo_env_def)
  have hs: "hm_get (pr_handshakes (protocol_new a :: (u8, u8) protocol)) i = None" for a i
    by (simp add: protocol_new_def)
  have agree: "en_agree (demo_env 4) (en_secret (demo_env 4)) (en_public_key (demo_env 3))
      = en_agree (demo_env 3) (en_secret (demo_env 3)) (en_public_key (demo_env 4))"
    by (simp add: ids)
  have ex: "exchange (demo_env 4) (demo_env 3) (demo_env 4) (demo_env 3) 2 demo_address demo_address
      (protocol_new [65]) (protocol_new [66]) = (fst demo_exchange, snd demo_exchange)"
    by (simp add: demo_exchange_def)
  have cm: "counter_mode demo_aead (\<lambda>_ _ _. 0)" by (simp add: counter_mode_def demo_aead_def nth_append)
  show ?thesis
    using handshake_shares_nonces [OF ids(2) connection_new connection_new hs agree ex demo_aead_total cm,
        of "[]" "[1]" "[5]" "[6]" 1]
    unfolding ids by (simp add: AEAD_MAX_def del: sealed_before.simps)
qed

end
