(* ===== verification/Outbound.thy ===== *)
theory Outbound imports Encryption Windows Fec_Recovery begin

text \<open>
  The outbound half of the packet processor (\<open>src/src/packet_processor/outbound.rs\<close>): a
  packet of the manager becomes the bytes of a datagram.

  \<open>outbound_handle\<close> is \<open>handle_packet\<close>. It returns what the task causes, in the order it
  does so: a packet handed to the window of pending acknowledgements, a data packet handed
  to the error correction (the task \<open>handle_fec\<close>, a definition of its own), and the
  datagram handed to the transport layer. The encryption table is threaded through.
\<close>

record processed_packet =
  pp_dest_addr :: address
  pp_packet_type :: packet_type
  pp_data :: bytes
  pp_duplicate_count :: nat

datatype outbound_effect =
    AddPending packet
  | DispatchFec data_packet
  | ToTransport processed_packet

text \<open>
  The macro \<open>serialize!\<close>: a zeroed buffer of the packet's size, whose contents are what
  \<open>serialize\<close> leaves in it. No derived \<open>serialize\<close> fails on a buffer of that size.
\<close>

definition serialize_packet :: "field list \<Rightarrow> bytes ures" where
  "serialize_packet fs =
     (let buf = replicate (struct_sized fs) 0 in
      case struct_serialize fs buf of Ok b \<Rightarrow> Ok b | Err _ \<Rightarrow> Ok buf | Panic \<Rightarrow> Panic)"

text \<open>The macro \<open>processed!\<close>.\<close>

definition processed :: "address \<Rightarrow> packet_type \<Rightarrow> nat \<Rightarrow> bytes \<Rightarrow> processed_packet" where
  "processed addr pt n data =
     \<lparr>pp_dest_addr = addr, pp_packet_type = pt, pp_data = data, pp_duplicate_count = n\<rparr>"

text \<open>The macro \<open>add_ack!\<close>: the options afterwards, and whether the packet becomes pending.\<close>

definition add_ack :: "options \<Rightarrow> options \<times> bool" where
  "add_ack opts =
     (if opt_contains opts RequireAck
      then if opt_contains opts Resend then (opt_unset opts Resend, False) else (opts, True)
      else (opts, False))"

definition pending_if :: "bool \<Rightarrow> packet \<Rightarrow> outbound_effect list" where
  "pending_if b p = (if b then [AddPending p] else [])"

text \<open>
  \<open>process_encrypted\<close>: encrypt the payload with the headers as associated data and
  serialize. \<open>mk\<close> puts the payload back into the packet.
\<close>

definition process_encrypted ::
  "'k aead \<Rightarrow> session_id \<Rightarrow> 'k enc_table \<Rightarrow> field list \<Rightarrow> bytes \<Rightarrow> (bytes \<Rightarrow> field list)
     \<Rightarrow> bytes ures \<times> 'k enc_table" where
  "process_encrypted A sid t fs payload mk =
     (case headers fs of
        Ok aad \<Rightarrow> (let (done, payload, t) = encrypt A sid t aad payload
                  in (serialize_packet (mk payload), t))
      | Err e \<Rightarrow> (Err e, t)
      | Panic \<Rightarrow> (Panic, t))"

definition process_authenticated ::
  "'k aead \<Rightarrow> session_id \<Rightarrow> 'k enc_table \<Rightarrow> field list \<Rightarrow> bytes ures \<times> 'k enc_table" where
  "process_authenticated A sid t fs =
     (case serialize_packet fs of
        Ok b \<Rightarrow> (let (done, b, t) = tag A sid t b in (Ok b, t))
      | Err e \<Rightarrow> (Err e, t)
      | Panic \<Rightarrow> (Panic, t))"

text \<open>The last step of every branch: \<open>send_packet_to_transport\<close>.\<close>

definition finish ::
  "address \<Rightarrow> packet_type \<Rightarrow> nat \<Rightarrow> outbound_effect list \<Rightarrow> bytes ures \<times> 'k enc_table
     \<Rightarrow> outbound_effect list ures \<times> 'k enc_table" where
  "finish addr pt n effects r =
     (map_res (\<lambda>data. effects @ [ToTransport (processed addr pt n data)]) (fst r), snd r)"

fun outbound_handle ::
  "'k aead \<Rightarrow> 'k enc_table \<Rightarrow> packet \<Rightarrow> address \<Rightarrow> outbound_effect list ures \<times> 'k enc_table" where
  "outbound_handle A t (DataPacket p) addr =
     (let (opts, add) = add_ack (da_opts p);
          p = p\<lparr>da_opts := opts\<rparr>
      in finish addr PT_Data 1 (pending_if add (DataPacket p) @ [DispatchFec p])
           (process_encrypted A (da_session_id p) t (data_packet_fields p) (da_payload p)
              (\<lambda>pl. data_packet_fields (p\<lparr>da_payload := pl\<rparr>))))"
| "outbound_handle A t (TrackRequestPacket p) addr =
     (let (opts, add) = add_ack (tr_opts p);
          p = p\<lparr>tr_opts := opts\<rparr>
      in finish addr PT_Session 3 (pending_if add (TrackRequestPacket p))
           (process_encrypted A (tr_session_id p) t (track_request_fields p) (tr_payload p)
              (\<lambda>pl. track_request_fields (p\<lparr>tr_payload := pl\<rparr>))))"
| "outbound_handle A t (TrackRejectionPacket p) addr =
     (let (opts, add) = add_ack (tj_opts p);
          p = p\<lparr>tj_opts := opts\<rparr>
      in finish addr PT_Error 3 (pending_if add (TrackRejectionPacket p))
           (process_encrypted A (tj_session_id p) t (track_rejection_fields p) (tj_payload p)
              (\<lambda>pl. track_rejection_fields (p\<lparr>tj_payload := pl\<rparr>))))"
| "outbound_handle A t (RetransmitPacket p) addr =
     (let (opts, add) = add_ack (re_opts p);
          p = p\<lparr>re_opts := opts\<rparr>
      in finish addr PT_Session 3 (pending_if add (RetransmitPacket p))
           (process_authenticated A (re_session_id p) t (retransmit_fields p)))"
| "outbound_handle A t (PlaybackControlPacket p) addr =
     (let (opts, add) = add_ack (pc_opts p);
          p = p\<lparr>pc_opts := opts\<rparr>
      in finish addr PT_Playback 3 (pending_if add (PlaybackControlPacket p))
           (process_authenticated A (pc_session_id p) t (playback_control_fields p)))"
| "outbound_handle A t (CloseSessionPacket p) addr =
     finish addr PT_Session 3 []
       (process_authenticated A (cs_session_id p) t (close_session_fields p))"
| "outbound_handle A t (SessionDoesNotExistErrorPacket p) addr =
     (let (opts, add) = add_ack (sd_opts p);
          p = p\<lparr>sd_opts := opts\<rparr>
      in finish addr PT_Error 3 (pending_if add (SessionDoesNotExistErrorPacket p))
           (process_authenticated A (sd_session_id p) t (session_does_not_exist_fields p)))"
| "outbound_handle A t (KeepAlivePacket p) addr =
     finish addr PT_KeepAlive 3 []
       (process_authenticated A (ka_session_id p) t (keep_alive_fields p))"
| "outbound_handle A t (UnexpectedPacketErrorPacket p) addr =
     finish addr PT_Error 3 []
       (process_authenticated A (up_session_id p) t (unexpected_packet_fields p))"
| "outbound_handle A t (AckPacket p) addr =
     finish addr PT_Ack 3 []
       (process_authenticated A (ak_session_id p) t (ack_packet_fields p))"
| "outbound_handle A t (HelloPacket p) addr =
     finish addr PT_Host 7 [] (serialize_packet (hello_fields p), t)"
| "outbound_handle A t (HandshakeRejection p) addr =
     finish addr PT_Host 3 [] (serialize_packet (handshake_rejection_fields p), t)"
| "outbound_handle A t (HandshakeAckPacket p) addr =
     finish addr PT_HandshakeAck 3 [] (serialize_packet (handshake_ack_fields p), t)"
| "outbound_handle A t (IncompatibleVersionPacket p) addr =
     finish addr PT_Host 7 [] (serialize_packet (incompatible_version_fields p), t)"
| "outbound_handle A t (MetadataPacket p) addr = (Ok [], t)"
| "outbound_handle A t (ParityPacket p) addr = (Panic, t)"

text \<open>\<open>handle_parity\<close> and \<open>handle_fec\<close>, the parity packets one after the other.\<close>

definition handle_parity ::
  "'k aead \<Rightarrow> 'k enc_table \<Rightarrow> parity_packet \<Rightarrow> address \<Rightarrow> processed_packet ures \<times> 'k enc_table" where
  "handle_parity A t p addr =
     (let (r, t) = process_encrypted A (pa_session_id p) t (parity_packet_fields p) (pa_payload p)
                     (\<lambda>pl. parity_packet_fields (p\<lparr>pa_payload := pl\<rparr>))
      in (map_res (processed addr PT_Parity 1) r, t))"

fun handle_parities ::
  "'k aead \<Rightarrow> 'k enc_table \<Rightarrow> parity_packet list \<Rightarrow> address \<Rightarrow> processed_packet ures list \<times> 'k enc_table" where
  "handle_parities A t [] addr = ([], t)"
| "handle_parities A t (p # ps) addr =
     (let (r, t) = handle_parity A t p addr; (rs, t) = handle_parities A t ps addr in (r # rs, t))"

definition handle_fec ::
  "bool \<Rightarrow> timestamp \<Rightarrow> 'k aead \<Rightarrow> 'k enc_table \<Rightarrow> xor_state \<Rightarrow> data_packet \<Rightarrow> address
     \<Rightarrow> processed_packet ures list ures \<times> 'k enc_table \<times> xor_state" where
  "handle_fec dbg now A t st p addr =
     (case fec_of_data dbg p of
        Ok f \<Rightarrow>
          (let (r, st) = xor_sent dbg now f st in
           case r of
             Ok (Some parities) \<Rightarrow>
               (let (out, t) = handle_parities A t parities addr in (Ok out, t, st))
           | Ok None \<Rightarrow> (Ok [], t, st)
           | Err e \<Rightarrow> (Err e, t, st)
           | Panic \<Rightarrow> (Panic, t, st))
      | Err e \<Rightarrow> (Err e, t, st)
      | Panic \<Rightarrow> (Panic, t, st))"

section \<open>The receive loop\<close>

text \<open>
  \<open>init\<close>: packets are dispatched until \<open>Close\<close>, which ends the loop; the two variants that
  travel upwards are a panic, and a closed channel an error.
\<close>

datatype processing_message =
    SendPacket packet_wrapper
  | ReceivedPacket bytes address
  | Close
  | Closed

datatype loop_end = GracefulClose | ChannelClosed | LoopPanic

fun outbound_loop :: "processing_message list \<Rightarrow> packet_wrapper list \<times> loop_end" where
  "outbound_loop [] = ([], ChannelClosed)"
| "outbound_loop (SendPacket p # ms) = (let (ps, e) = outbound_loop ms in (p # ps, e))"
| "outbound_loop (Close # ms) = ([], GracefulClose)"
| "outbound_loop (ReceivedPacket d a # ms) = ([], LoopPanic)"
| "outbound_loop (Closed # ms) = ([], LoopPanic)"

section \<open>Lemmas\<close>

lemma serialize_packet_concat:
  "encodes fs es \<Longrightarrow> serialize_packet fs = Ok (concat es)"
  by (simp add: serialize_packet_def struct_serialize_concat Let_def)

lemma opt_unset_set: "\<not> opt_contains x f \<Longrightarrow> opt_unset (opt_set x f) f = x"
  by (rule bit_word_eqI)
    (auto simp: opt_contains_bit flags_unset_def flags_set_def flag_bit_pos bit_simps)

text \<open>
  A resend is stripped of its flag on the way out, so what leaves is the packet as it was
  sent the first time, and it does not become pending again.
\<close>

lemma add_ack_resend:
  "\<lbrakk> opt_contains x RequireAck; \<not> opt_contains x Resend \<rbrakk> \<Longrightarrow> add_ack (opt_set x Resend) = (x, False)"
  by (simp add: add_ack_def opt_unset_set)

lemma add_ack_first:
  "\<lbrakk> opt_contains x RequireAck; \<not> opt_contains x Resend \<rbrakk> \<Longrightarrow> add_ack x = (x, True)"
  by (simp add: add_ack_def)

fun ackable :: "packet \<Rightarrow> bool" where
  "ackable (DataPacket p) = True"
| "ackable (TrackRequestPacket p) = True"
| "ackable (TrackRejectionPacket p) = True"
| "ackable (RetransmitPacket p) = True"
| "ackable (PlaybackControlPacket p) = True"
| "ackable p = False"

definition first_sent :: "packet \<Rightarrow> bool" where
  "first_sent p \<longleftrightarrow>
     (case packet_opts p of
        Some x \<Rightarrow> opt_contains x RequireAck \<and> \<not> opt_contains x Resend
      | None \<Rightarrow> False)"

definition drop_pending :: "outbound_effect list \<Rightarrow> outbound_effect list" where
  "drop_pending = filter (\<lambda>e. case e of AddPending p \<Rightarrow> False | _ \<Rightarrow> True)"

lemma finish_drop_pending:
  "finish addr pt n effs r = (map_res drop_pending (fst (finish addr pt n (pending_if True p @ effs) r)),
     snd (finish addr pt n (pending_if True p @ effs) r))"
  if "drop_pending effs = effs"
  using that by (cases "fst r") (simp_all add: finish_def pending_if_def drop_pending_def)

lemmas finish_drop_pending_Nil = finish_drop_pending [where effs = "[]", simplified]

section \<open>Properties\<close>

text \<open>C34: Resending is transparent. For a packet that requires an acknowledgement, the copy
  the window of pending acknowledgements stores (marked as a resend) goes out exactly as the
  packet itself did, through the same encryption, except that it does not become pending a
  second time.\<close>

theorem resend_transparent:
  assumes "ackable p" "first_sent p"
  shows "outbound_handle A t (mark_resend p) addr
    = (map_res drop_pending (fst (outbound_handle A t p addr)), snd (outbound_handle A t p addr))"
proof (cases p)
  case (DataPacket q)
  then show ?thesis
    using assms finish_drop_pending [where effs = "[DispatchFec q]" and p = p and addr = addr]
    by (simp add: first_sent_def add_ack_resend add_ack_first pending_if_def drop_pending_def)
next
  case (TrackRequestPacket q)
  then show ?thesis
    using assms finish_drop_pending_Nil [where p = p and addr = addr]
    by (simp add: first_sent_def add_ack_resend add_ack_first pending_if_def drop_pending_def)
next
  case (TrackRejectionPacket q)
  then show ?thesis
    using assms finish_drop_pending_Nil [where p = p and addr = addr]
    by (simp add: first_sent_def add_ack_resend add_ack_first pending_if_def drop_pending_def)
next
  case (RetransmitPacket q)
  then show ?thesis
    using assms finish_drop_pending_Nil [where p = p and addr = addr]
    by (simp add: first_sent_def add_ack_resend add_ack_first pending_if_def drop_pending_def)
next
  case (PlaybackControlPacket q)
  then show ?thesis
    using assms finish_drop_pending_Nil [where p = p and addr = addr]
    by (simp add: first_sent_def add_ack_resend add_ack_first pending_if_def drop_pending_def)
qed (use assms in simp_all)

theorem resend_transparent_witness:
  "outbound_handle demo_aead [] (mark_resend (PlaybackControlPacket demo_playback)) \<lparr>sa_ip = [1, 2, 3, 4], sa_port = 5\<rparr>
    = (map_res drop_pending (fst (outbound_handle demo_aead [] (PlaybackControlPacket demo_playback) \<lparr>sa_ip = [1, 2, 3, 4], sa_port = 5\<rparr>)),
       snd (outbound_handle demo_aead [] (PlaybackControlPacket demo_playback) \<lparr>sa_ip = [1, 2, 3, 4], sa_port = 5\<rparr>))"
  by (rule resend_transparent)
    (simp_all add: first_sent_def demo_playback_def opt_contains_bit bit_1_iff)

end
