(* ===== verification/Inbound.thy ===== *)
theory Inbound imports Outbound begin

text \<open>
  The inbound half of the packet processor (\<open>src/src/packet_processor/inbound.rs\<close>): the
  bytes of a datagram become a packet for the manager, or nothing.

  \<open>inbound_handle\<close> is \<open>handle_packet\<close>: a result \<open>Ok None\<close> is an early return without a
  message, \<open>Panic\<close> a slice beyond the end of the datagram. The window of fingerprints is
  threaded through; the encryption table is only read. The build profile \<open>dbg\<close> matters to
  the application id alone.
\<close>

definition SESSION_ID_OFFSET :: nat where
  "SESSION_ID_OFFSET = 8"

definition PACKET_TYPE_OFFSET :: nat where
  "PACKET_TYPE_OFFSET = 4"

definition SECONDARY_TYPE_OFFSET :: nat where
  "SECONDARY_TYPE_OFFSET = 5"

text \<open>\<open>&data[n..]\<close>.\<close>

definition slice_from :: "nat \<Rightarrow> bytes \<Rightarrow> bytes ures" where
  "slice_from n data = (if length data < n then Panic else Ok (drop n data))"

definition incompatible_version_de :: "bytes \<Rightarrow> packet ures" where
  "incompatible_version_de data = map_res IncompatibleVersionPacket (incompatible_version_deserialize data)"

text \<open>
  \<open>dedup_no_payload\<close> and \<open>dedup_with_payload\<close>: \<open>contains\<close>, then \<open>add\<close>, whose own verdict
  is ignored. The result says whether the packet is kept.
\<close>

definition dedup :: "timestamp \<Rightarrow> fingerprint \<Rightarrow> fp_window \<Rightarrow> bool \<times> fp_window" where
  "dedup now fp w = (if fw_contains fp w then (False, w) else (True, snd (fw_add now fp w)))"

definition dedup_no_payload ::
  "(bytes \<Rightarrow> fingerprint) \<Rightarrow> timestamp \<Rightarrow> bytes \<Rightarrow> fp_window \<Rightarrow> bytes ures \<times> fp_window" where
  "dedup_no_payload xxh now data w =
     (let (keep, w) = dedup now (fingerprint_bytes xxh data) w
      in (if keep then Ok data else Err (), w))"

definition dedup_with_payload ::
  "(bytes \<Rightarrow> fingerprint) \<Rightarrow> timestamp \<Rightarrow> field list \<Rightarrow> packet \<Rightarrow> fp_window \<Rightarrow> packet ures \<times> fp_window" where
  "dedup_with_payload xxh now fs p w =
     (case fingerprint_headers xxh fs of
        Ok fp \<Rightarrow> (let (keep, w) = dedup now fp w in (if keep then Ok p else Err (), w))
      | Err e \<Rightarrow> (Err e, w)
      | Panic \<Rightarrow> (Panic, w))"

text \<open>The local \<open>authenticate\<close>: the data without tag and counter, or an error.\<close>

definition authenticated ::
  "'k aead \<Rightarrow> session_id \<Rightarrow> 'k enc_table \<Rightarrow> bytes \<Rightarrow> bytes ures" where
  "authenticated A sid t data =
     (case authenticate A sid t data of
        Ok (True, data) \<Rightarrow> Ok data
      | Ok (False, data) \<Rightarrow> Err ()
      | Err e \<Rightarrow> Err e
      | Panic \<Rightarrow> Panic)"

text \<open>\<open>encryption::decrypt\<close> on a packet with the given fields and payload.\<close>

definition decrypted ::
  "'k aead \<Rightarrow> session_id \<Rightarrow> 'k enc_table \<Rightarrow> field list \<Rightarrow> bytes \<Rightarrow> bytes ures" where
  "decrypted A sid t fs payload = and_then (headers fs) (\<lambda>aad. decrypt A sid t aad payload)"

text \<open>A step that may end the task, followed by one on the window.\<close>

definition then_win :: "'a ures \<Rightarrow> ('a \<Rightarrow> 'w \<Rightarrow> 'b ures \<times> 'w) \<Rightarrow> 'w \<Rightarrow> 'b ures \<times> 'w" where
  "then_win r k w = (case r of Ok x \<Rightarrow> k x w | Err e \<Rightarrow> (Err e, w) | Panic \<Rightarrow> (Panic, w))"

text \<open>Authenticate, drop duplicates of the bytes, deserialize.\<close>

definition auth_dedup_then ::
  "'k aead \<Rightarrow> (bytes \<Rightarrow> fingerprint) \<Rightarrow> timestamp \<Rightarrow> session_id \<Rightarrow> 'k enc_table \<Rightarrow> bytes
     \<Rightarrow> (bytes \<Rightarrow> packet ures) \<Rightarrow> fp_window \<Rightarrow> packet ures \<times> fp_window" where
  "auth_dedup_then A xxh now sid t data de =
     then_win (authenticated A sid t data) (\<lambda>data w.
       let (r, w) = dedup_no_payload xxh now data w in (and_then r de, w))"

fun control_handle ::
  "bool \<Rightarrow> 'k aead \<Rightarrow> (bytes \<Rightarrow> fingerprint) \<Rightarrow> timestamp \<Rightarrow> session_id \<Rightarrow> 'k enc_table \<Rightarrow> bytes
     \<Rightarrow> control_type \<Rightarrow> fp_window \<Rightarrow> packet ures \<times> fp_window" where
  "control_handle dbg A xxh now sid t data (Host Host_Hello) =
     then_win (hello_deserialize dbg data) (\<lambda>p.
       dedup_with_payload xxh now (hello_fields p) (HelloPacket p))"
| "control_handle dbg A xxh now sid t data (Host Host_HandshakeReject) =
     Pair (map_res HandshakeRejection (handshake_rejection_deserialize data))"
| "control_handle dbg A xxh now sid t data (Session Sess_Retransmit) =
     then_win (and_then (authenticated A sid t data) retransmit_deserialize) (\<lambda>p.
       dedup_with_payload xxh now (retransmit_fields p) (RetransmitPacket p))"
| "control_handle dbg A xxh now sid t data (Session Sess_TrackRequest) =
     then_win (and_then (track_request_deserialize data) (\<lambda>p.
         map_res (\<lambda>pl. p\<lparr>tr_payload := pl\<rparr>)
           (decrypted A sid t (track_request_fields p) (tr_payload p)))) (\<lambda>p.
       dedup_with_payload xxh now (track_request_fields p) (TrackRequestPacket p))"
| "control_handle dbg A xxh now sid t data (Session Sess_MetadataRequest) = Pair (Err ())"
| "control_handle dbg A xxh now sid t data (Session Sess_Close) =
     auth_dedup_then A xxh now sid t data (\<lambda>d. map_res CloseSessionPacket (close_session_deserialize d))"
| "control_handle dbg A xxh now sid t data (Session Sess_TrackReject) =
     then_win (and_then (track_rejection_deserialize data) (\<lambda>p.
         map_res (\<lambda>pl. p\<lparr>tj_payload := pl\<rparr>)
           (decrypted A sid t (track_rejection_fields p) (tj_payload p)))) (\<lambda>p.
       dedup_with_payload xxh now (track_rejection_fields p) (TrackRejectionPacket p))"
| "control_handle dbg A xxh now sid t data (Playback c) =
     auth_dedup_then A xxh now sid t data
       (\<lambda>d. map_res PlaybackControlPacket (playback_control_deserialize d))"

definition deserialize_control ::
  "bool \<Rightarrow> 'k aead \<Rightarrow> (bytes \<Rightarrow> fingerprint) \<Rightarrow> timestamp \<Rightarrow> session_id \<Rightarrow> 'k enc_table \<Rightarrow> bytes
     \<Rightarrow> fp_window \<Rightarrow> packet ures \<times> fp_window" where
  "deserialize_control dbg A xxh now sid t data =
     then_win (and_then (slice_from SECONDARY_TYPE_OFFSET data) control_deserialize)
       (control_handle dbg A xxh now sid t data)"

definition deserialize_error ::
  "'k aead \<Rightarrow> (bytes \<Rightarrow> fingerprint) \<Rightarrow> timestamp \<Rightarrow> session_id \<Rightarrow> 'k enc_table \<Rightarrow> bytes
     \<Rightarrow> fp_window \<Rightarrow> packet ures \<times> fp_window" where
  "deserialize_error A xxh now sid t data =
     then_win (and_then (slice_from SECONDARY_TYPE_OFFSET data) (enum_deserialize error_type_variants))
       (\<lambda>e. auth_dedup_then A xxh now sid t data
          (case e of
             SessionDoesNotExist \<Rightarrow>
               (\<lambda>d. map_res SessionDoesNotExistErrorPacket (session_does_not_exist_deserialize d))
           | _ \<Rightarrow> (\<lambda>d. map_res UnexpectedPacketErrorPacket (unexpected_packet_deserialize d))))"

definition deserialize_and_decrypt ::
  "bool \<Rightarrow> 'k aead \<Rightarrow> (bytes \<Rightarrow> fingerprint) \<Rightarrow> timestamp \<Rightarrow> 'k enc_table \<Rightarrow> packet_type \<Rightarrow> bytes
     \<Rightarrow> fp_window \<Rightarrow> packet ures \<times> fp_window" where
  "deserialize_and_decrypt dbg A xxh now t ptype data =
     then_win (and_then (slice_from SESSION_ID_OFFSET data) int_deserialize) (\<lambda>sid.
       case ptype of
         PT_Data \<Rightarrow>
           Pair (and_then (data_packet_deserialize data) (\<lambda>p.
             map_res (\<lambda>pl. DataPacket (p\<lparr>da_payload := pl\<rparr>))
               (decrypted A (da_session_id p) t (data_packet_fields p) (da_payload p))))
       | PT_Parity \<Rightarrow>
           Pair (and_then (parity_packet_deserialize data) (\<lambda>p.
             map_res (\<lambda>pl. ParityPacket (p\<lparr>pa_payload := pl\<rparr>))
               (decrypted A (pa_session_id p) t (parity_packet_fields p) (pa_payload p))))
       | PT_Ack \<Rightarrow> Pair (map_res AckPacket (ack_packet_deserialize data))
       | PT_KeepAlive \<Rightarrow>
           Pair (and_then (authenticated A sid t data) (\<lambda>data.
             map_res KeepAlivePacket (keep_alive_deserialize data)))
       | PT_HandshakeAck \<Rightarrow>
           (\<lambda>w. let (r, w) = dedup_no_payload xxh now data w
                in (and_then r (\<lambda>data. map_res HandshakeAckPacket (handshake_ack_deserialize data)), w))
       | PT_Host \<Rightarrow> deserialize_control dbg A xxh now sid t data
       | PT_Session \<Rightarrow> deserialize_control dbg A xxh now sid t data
       | PT_Playback \<Rightarrow> deserialize_control dbg A xxh now sid t data
       | PT_Error \<Rightarrow> deserialize_error A xxh now sid t data
       | PT_Metadata \<Rightarrow> Pair (Err ()))"

text \<open>The messages to the manager.\<close>

datatype inbound_message =
    UpPacket packet_wrapper
  | UpIncompatibleVersion version address

text \<open>The address of a keep-alive packet is the source of its datagram.\<close>

fun with_source :: "address \<Rightarrow> packet \<Rightarrow> packet" where
  "with_source src (KeepAlivePacket p) = KeepAlivePacket (p\<lparr>ka_address := Some src\<rparr>)"
| "with_source src p = p"

definition inbound_handle ::
  "bool \<Rightarrow> 'k aead \<Rightarrow> (bytes \<Rightarrow> fingerprint) \<Rightarrow> timestamp \<Rightarrow> 'k enc_table \<Rightarrow> bytes \<Rightarrow> address
     \<Rightarrow> fp_window \<Rightarrow> inbound_message option ures \<times> fp_window" where
  "inbound_handle dbg A xxh now t data src w =
     (case int_deserialize data :: version ures of
        Err _ \<Rightarrow> (Ok None, w)
      | Panic \<Rightarrow> (Panic, w)
      | Ok version \<Rightarrow>
          if version_is_zero version
          then (case incompatible_version_de data of
                  Ok p \<Rightarrow> (Ok (Some (UpPacket (wrap p src))), w)
                | Err _ \<Rightarrow> (Ok None, w)
                | Panic \<Rightarrow> (Panic, w))
          else if \<not> version_is_compatible version
          then (Ok (Some (UpIncompatibleVersion version src)), w)
          else case and_then (slice_from PACKET_TYPE_OFFSET data) (enum_deserialize packet_type_variants) of
                 Err _ \<Rightarrow> (Ok None, w)
               | Panic \<Rightarrow> (Panic, w)
               | Ok ptype \<Rightarrow>
                   (case deserialize_and_decrypt dbg A xxh now t ptype data w of
                      (Ok p, w) \<Rightarrow> (Ok (Some (UpPacket (wrap (with_source src p) src))), w)
                    | (Err _, w) \<Rightarrow> (Ok None, w)
                    | (Panic, w) \<Rightarrow> (Panic, w)))"

end
