(* ===== verification/Delivery.thy ===== *)
theory Delivery imports Inbound begin

text \<open>
  What the two halves of the packet processor do together: the datagram the outbound half of
  one peer produces for a packet is turned into that packet by the inbound half of the other
  peer, if the two share the session key; a second copy of it is dropped.

  \<open>deliverable\<close> collects what the constructors guarantee of a packet of each kind;
  \<open>wire_form\<close> is the packet as it leaves (without the internal \<open>Resend\<close> flag);
  \<open>dedup_bytes\<close> are the bytes whose hash the receiver uses to recognise a duplicate.
\<close>

section \<open>Packets that can be delivered\<close>

fun deliverable :: "bool \<Rightarrow> packet \<Rightarrow> bool" where
  "deliverable dbg (HelloPacket p) \<longleftrightarrow>
     he_version p \<noteq> 0 \<and> he_packet_type p = PT_Host \<and> he_control_type p = Host Host_Hello
     \<and> hello_valid dbg p"
| "deliverable dbg (TrackRequestPacket p) \<longleftrightarrow>
     tr_version p \<noteq> 0 \<and> tr_packet_type p = PT_Session \<and> tr_control_type p = Session Sess_TrackRequest
     \<and> tr_payload p \<noteq> [] \<and> length (tr_payload p) \<le> MAX_PAYLOAD_LENGTH"
| "deliverable dbg (DataPacket p) \<longleftrightarrow>
     da_version p \<noteq> 0 \<and> da_packet_type p = PT_Data
     \<and> da_payload p \<noteq> [] \<and> length (da_payload p) \<le> MAX_PAYLOAD_LENGTH"
| "deliverable dbg (AckPacket p) \<longleftrightarrow>
     ak_version p \<noteq> 0 \<and> ak_packet_type p = PT_Ack \<and> ack_packet_valid p"
| "deliverable dbg (KeepAlivePacket p) \<longleftrightarrow>
     ka_version p \<noteq> 0 \<and> ka_packet_type p = PT_KeepAlive \<and> keep_alive_valid p"
| "deliverable dbg (HandshakeAckPacket p) \<longleftrightarrow>
     ha_version p \<noteq> 0 \<and> ha_packet_type p = PT_HandshakeAck"
| "deliverable dbg (RetransmitPacket p) \<longleftrightarrow>
     re_version p \<noteq> 0 \<and> re_packet_type p = PT_Session \<and> re_control_type p = Session Sess_Retransmit
     \<and> retransmit_valid p \<and> length (re_payload p) \<le> 228"
| "deliverable dbg (PlaybackControlPacket p) \<longleftrightarrow>
     pc_version p \<noteq> 0 \<and> pc_packet_type p = PT_Playback"
| "deliverable dbg (IncompatibleVersionPacket p) \<longleftrightarrow> iv_zero_version p = 0"
| "deliverable dbg (UnexpectedPacketErrorPacket p) \<longleftrightarrow>
     up_version p \<noteq> 0 \<and> up_packet_type p = PT_Error \<and> unexpected_packet_valid p"
| "deliverable dbg (TrackRejectionPacket p) \<longleftrightarrow>
     tj_version p \<noteq> 0 \<and> tj_packet_type p = PT_Session \<and> tj_control_type p = Session Sess_TrackReject
     \<and> tj_payload p \<noteq> [] \<and> length (tj_payload p) \<le> MAX_PAYLOAD_LENGTH"
| "deliverable dbg (CloseSessionPacket p) \<longleftrightarrow>
     cs_version p \<noteq> 0 \<and> cs_packet_type p = PT_Session \<and> cs_control_type p = Session Sess_Close"
| "deliverable dbg (HandshakeRejection p) \<longleftrightarrow>
     hr_version p \<noteq> 0 \<and> hr_packet_type p = PT_Host \<and> hr_control_type p = Host Host_HandshakeReject"
| "deliverable dbg (MetadataPacket p) \<longleftrightarrow> False"
| "deliverable dbg (ParityPacket p) \<longleftrightarrow> False"
| "deliverable dbg (SessionDoesNotExistErrorPacket p) \<longleftrightarrow> False"

fun wire_form :: "packet \<Rightarrow> packet" where
  "wire_form (DataPacket p) = DataPacket (p\<lparr>da_opts := fst (add_ack (da_opts p))\<rparr>)"
| "wire_form (TrackRequestPacket p) = TrackRequestPacket (p\<lparr>tr_opts := fst (add_ack (tr_opts p))\<rparr>)"
| "wire_form (TrackRejectionPacket p) = TrackRejectionPacket (p\<lparr>tj_opts := fst (add_ack (tj_opts p))\<rparr>)"
| "wire_form (RetransmitPacket p) = RetransmitPacket (p\<lparr>re_opts := fst (add_ack (re_opts p))\<rparr>)"
| "wire_form (PlaybackControlPacket p) = PlaybackControlPacket (p\<lparr>pc_opts := fst (add_ack (pc_opts p))\<rparr>)"
| "wire_form p = p"

text \<open>The session whose key a packet is encrypted or authenticated with.\<close>

fun keyed_session :: "packet \<Rightarrow> session_id option" where
  "keyed_session (DataPacket p) = Some (da_session_id p)"
| "keyed_session (TrackRequestPacket p) = Some (tr_session_id p)"
| "keyed_session (TrackRejectionPacket p) = Some (tj_session_id p)"
| "keyed_session (RetransmitPacket p) = Some (re_session_id p)"
| "keyed_session (PlaybackControlPacket p) = Some (pc_session_id p)"
| "keyed_session (CloseSessionPacket p) = Some (cs_session_id p)"
| "keyed_session (KeepAlivePacket p) = Some (ka_session_id p)"
| "keyed_session (UnexpectedPacketErrorPacket p) = Some (up_session_id p)"
| "keyed_session (AckPacket p) = Some (ak_session_id p)"
| "keyed_session p = None"

definition shared_key :: "'k enc_table \<Rightarrow> 'k enc_table \<Rightarrow> session_id \<Rightarrow> bool" where
  "shared_key ts tr sid \<longleftrightarrow>
     encryption_get_cipher sid ts \<noteq> None \<and> encryption_get_cipher sid tr = encryption_get_cipher sid ts"

fun dedup_bytes :: "packet \<Rightarrow> bytes option" where
  "dedup_bytes (HelloPacket p) = Some (concat (hello_encs p))"
| "dedup_bytes (TrackRequestPacket p) = Some (concat (butlast (track_request_encs p)))"
| "dedup_bytes (TrackRejectionPacket p) = Some (concat (butlast (track_rejection_encs p)))"
| "dedup_bytes (RetransmitPacket p) = Some (concat (butlast (retransmit_encs p)))"
| "dedup_bytes (PlaybackControlPacket p) = Some (concat (playback_control_encs p))"
| "dedup_bytes (CloseSessionPacket p) = Some (concat (close_session_encs p))"
| "dedup_bytes (UnexpectedPacketErrorPacket p) = Some (concat (unexpected_packet_encs p))"
| "dedup_bytes (HandshakeAckPacket p) = Some (concat (handshake_ack_encs p))"
| "dedup_bytes p = None"

section \<open>Headers\<close>

lemma hello_headers: "hello_valid dbg p \<Longrightarrow> headers (hello_fields p) = Ok (concat (hello_encs p))"
  by (rule headers_concat)
    (simp add: header_fields_def hello_fields_def hello_encs_def hello_valid_def packet)

lemma data_headers: "headers (data_packet_fields p) = Ok (concat (butlast (data_packet_encs p)))"
  by (rule headers_concat) (simp add: header_fields_def data_packet_fields_def data_packet_encs_def packet)

lemma parity_headers: "headers (parity_packet_fields p) = Ok (concat (butlast (parity_packet_encs p)))"
  by (rule headers_concat) (simp add: header_fields_def parity_packet_fields_def parity_packet_encs_def packet)

lemma track_request_headers:
  "headers (track_request_fields p) = Ok (concat (butlast (track_request_encs p)))"
  by (rule headers_concat) (simp add: header_fields_def track_request_fields_def track_request_encs_def packet)

lemma track_rejection_headers:
  "headers (track_rejection_fields p) = Ok (concat (butlast (track_rejection_encs p)))"
  by (rule headers_concat) (simp add: header_fields_def track_rejection_fields_def track_rejection_encs_def packet)

lemma retransmit_headers:
  "headers (retransmit_fields p) = Ok (concat (butlast (retransmit_encs p)))"
  by (rule headers_concat) (simp add: header_fields_def retransmit_fields_def retransmit_encs_def packet)

section \<open>The layout the inbound half reads\<close>

text \<open>Version, options, packet type, three bytes, session id.\<close>

definition layout :: "bytes \<Rightarrow> version \<Rightarrow> packet_type \<Rightarrow> bytes \<Rightarrow> session_id \<Rightarrow> bool" where
  "layout data v pt mid sid \<longleftrightarrow>
     (\<exists>x rest. data = int_bytes v @ int_bytes (x :: options) @ int_bytes (as_u8 packet_type_variants pt)
        @ mid @ int_bytes sid @ rest) \<and> length mid = 3"

lemma packet_type_deserialize [simp]:
  "enum_match (enum_variants packet_type_variants) (as_u8 packet_type_variants pt) = Ok pt"
  by (rule de_enum_match) simp

lemma inbound_layout:
  assumes "layout data v pt mid sid" "v \<noteq> 0"
  shows "inbound_handle dbg A xxh now t data src w =
    (case deserialize_and_decrypt dbg A xxh now t pt data w of
       (Ok p, w) \<Rightarrow> (Ok (Some (UpPacket (wrap (with_source src p) src))), w)
     | (Err _, w) \<Rightarrow> (Ok None, w)
     | (Panic, w) \<Rightarrow> (Panic, w))"
proof -
  obtain x rest where data: "data = int_bytes v @ int_bytes (x :: options)
      @ int_bytes (as_u8 packet_type_variants pt) @ mid @ int_bytes sid @ rest"
    using assms(1) by (auto simp: layout_def)
  have "version_is_compatible v" "\<not> version_is_zero v"
    using assms(2) by (simp_all add: version_compatible_iff version_is_zero_def)
  then show ?thesis
    by (simp add: inbound_handle_def data slice_from_def PACKET_TYPE_OFFSET_def)
qed

lemma layout_session_id:
  "layout data v pt mid sid \<Longrightarrow> and_then (slice_from SESSION_ID_OFFSET data) int_deserialize = Ok sid"
  by (auto simp: layout_def slice_from_def SESSION_ID_OFFSET_def)

lemma layout_append: "layout data v pt mid sid \<Longrightarrow> layout (data @ suffix) v pt mid sid"
  by (force simp: layout_def)

lemma int_bytes_surj: "length b = 8 \<Longrightarrow> \<exists>w :: u64. b = int_bytes w"
proof -
  assume b: "length b = 8"
  have "be_value b = be_value (be_digits 8 (be_value b))"
    using be_digits_value [of b] b by simp
  then have "be_value b < 256 ^ 8"
    by (metis be_value_digits mod_less_divisor zero_less_numeral zero_less_power)
  then have "unat (word_of_nat (be_value b) :: u64) = be_value b" by (simp add: unat_of_nat)
  then have "b = int_bytes (word_of_nat (be_value b) :: u64)"
    using be_digits_value [of b] b by (simp add: int_bytes_def)
  then show ?thesis by blast
qed

lemma layout_any:
  assumes "11 \<le> length rest"
  shows "\<exists>mid sid. layout (int_bytes v @ int_bytes (x :: options)
     @ int_bytes (as_u8 packet_type_variants pt) @ rest) v pt mid sid"
proof -
  obtain sid :: u64 where sid: "take 8 (drop 3 rest) = int_bytes sid"
    using int_bytes_surj [of "take 8 (drop 3 rest)"] assms by auto
  have "drop 3 rest = int_bytes sid @ drop 8 (drop 3 rest)"
    using append_take_drop_id [of 8 "drop 3 rest"] sid by simp
  then have "rest = take 3 rest @ int_bytes sid @ drop 8 (drop 3 rest)"
    using append_take_drop_id [of 3 rest] by simp
  moreover have "length (take 3 rest) = 3" using assms by simp
  ultimately have "layout (int_bytes v @ int_bytes x @ int_bytes (as_u8 packet_type_variants pt) @ rest)
      v pt (take 3 rest) sid"
    unfolding layout_def by blast
  then show ?thesis by blast
qed

lemma layout_secondary:
  assumes "layout data v pt (int_bytes (b :: u8) @ r) sid"
  shows "slice_from SECONDARY_TYPE_OFFSET data = Ok (int_bytes b @ drop 6 data)"
  using assms by (auto simp: layout_def slice_from_def SECONDARY_TYPE_OFFSET_def)

section \<open>One direction\<close>

lemma process_authenticated_ok:
  assumes A: "aead_correct A" "aead_total A" and k: "shared_key ts tr sid"
    and fs: "encodes fs es" "length (concat es) \<le> AEAD_MAX"
  obtains suffix ts' where "process_authenticated A sid ts fs = (Ok (concat es @ suffix), ts')"
    and "authenticated A sid tr (concat es @ suffix) = Ok (concat es)"
proof -
  obtain w where w: "hm_get ts sid = Some w" and r: "encryption_get_cipher sid tr = Some (ew_cipher w)"
    using k by (auto simp: shared_key_def encryption_get_cipher_def)
  obtain c where c: "seal A (ew_cipher w) (get_nonce sid (int_bytes (ew_nonce w))) (concat es) [] = Some c"
    by (rule aead_sealE [OF A(2) fs(2), where p = "[]"]) simp_all
  have t: "fst (snd (tag A sid ts (concat es))) = concat es @ c @ int_bytes (ew_nonce w)"
    by (simp add: tag_def encryption_get_Some [OF w] c)
  have "authenticated A sid tr (concat es @ c @ int_bytes (ew_nonce w)) = Ok (concat es)"
    using authenticate_tag [OF A fs(2) w r] by (simp add: authenticated_def t)
  moreover have "process_authenticated A sid ts fs
      = (Ok (concat es @ c @ int_bytes (ew_nonce w)), snd (snd (tag A sid ts (concat es))))"
    by (simp add: process_authenticated_def serialize_packet_concat [OF fs(1)] Let_def t
        split: prod.splits) (metis fst_conv snd_conv t)
  ultimately show thesis using that by blast
qed

lemma process_encrypted_ok:
  assumes A: "aead_correct A" "aead_total A" and k: "shared_key ts tr sid"
    and h: "headers fs = Ok aad" "length aad \<le> AEAD_MAX"
    and pl: "pl \<noteq> []" "length pl \<le> AEAD_MAX"
  obtains ct ts' where "process_encrypted A sid ts fs pl mk = (serialize_packet (mk ct), ts')"
    and "decrypt A sid tr aad ct = Ok pl"
proof -
  obtain w where w: "hm_get ts sid = Some w" and r: "encryption_get_cipher sid tr = Some (ew_cipher w)"
    using k by (auto simp: shared_key_def encryption_get_cipher_def)
  let ?e = "encrypt A sid ts aad pl"
  have "decrypt A sid tr aad (fst (snd ?e)) = Ok pl"
    using decrypt_encrypt [OF A h(2) _ pl(2) w r] pl(1) by simp
  moreover have "process_encrypted A sid ts fs pl mk = (serialize_packet (mk (fst (snd ?e))), snd (snd ?e))"
    by (simp add: process_encrypted_def h Let_def split: prod.splits)
  ultimately show thesis using that by blast
qed

text \<open>The result of the inbound half for a packet \<open>q\<close> whose hash may be known already.\<close>

definition dedup_result ::
  "(bytes \<Rightarrow> fingerprint) \<Rightarrow> timestamp \<Rightarrow> packet \<Rightarrow> fp_window \<Rightarrow> packet ures \<times> fp_window" where
  "dedup_result xxh now q w =
     (case dedup_bytes q of
        None \<Rightarrow> (Ok q, w)
      | Some b \<Rightarrow> (let (keep, w) = dedup now (xxh b) w in (if keep then Ok q else Err (), w)))"

definition received_as ::
  "bool \<Rightarrow> 'k aead \<Rightarrow> (bytes \<Rightarrow> fingerprint) \<Rightarrow> 'k enc_table \<Rightarrow> bytes \<Rightarrow> packet \<Rightarrow> bool" where
  "received_as dbg A xxh tr data q \<longleftrightarrow>
     (\<exists>v pt mid sid. layout data v pt mid sid \<and> v \<noteq> 0
        \<and> (\<forall>now w. deserialize_and_decrypt dbg A xxh now tr pt data w = dedup_result xxh now q w))"

lemma received_asI:
  "\<lbrakk> layout data v pt mid sid; v \<noteq> 0;
     \<And>now w. deserialize_and_decrypt dbg A xxh now tr pt data w = dedup_result xxh now q w \<rbrakk> \<Longrightarrow>
   received_as dbg A xxh tr data q"
  by (auto simp: received_as_def)

lemma deserialize_layout:
  assumes "layout data v pt mid sid"
  shows "deserialize_and_decrypt dbg A xxh now t pt data w =
    (case pt of
         PT_Data \<Rightarrow>
           Pair (and_then (data_packet_deserialize data) (\<lambda>p.
             map_res (\<lambda>pl. DataPacket (p\<lparr>da_payload := pl\<rparr>))
               (decrypted A (da_session_id p) t (data_packet_fields p) (da_payload p))))
       | PT_Parity \<Rightarrow>
           Pair (and_then (parity_packet_deserialize data) (\<lambda>p.
             map_res (\<lambda>pl. ParityPacket (p\<lparr>pa_payload := pl\<rparr>))
               (decrypted A (pa_session_id p) t (parity_packet_fields p) (pa_payload p))))
       | PT_Ack \<Rightarrow> Pair (map_res AckPacket (ack_packet_deserialize data))
       | PT_KeepAlive \<Rightarrow>
           Pair (and_then (authenticated A sid t data) (\<lambda>data.
             map_res KeepAlivePacket (keep_alive_deserialize data)))
       | PT_HandshakeAck \<Rightarrow>
           (\<lambda>w. let (r, w) = dedup_no_payload xxh now data w
                in (and_then r (\<lambda>data. map_res HandshakeAckPacket (handshake_ack_deserialize data)), w))
       | PT_Host \<Rightarrow> deserialize_control dbg A xxh now sid t data
       | PT_Session \<Rightarrow> deserialize_control dbg A xxh now sid t data
       | PT_Playback \<Rightarrow> deserialize_control dbg A xxh now sid t data
       | PT_Error \<Rightarrow> deserialize_error A xxh now sid t data
       | PT_Metadata \<Rightarrow> Pair (Err ())) w"
  using layout_session_id [OF assms]
  by (simp add: deserialize_and_decrypt_def then_win_def)

lemma control_layout:
  assumes "layout data v pt (int_bytes (control_u8 c) @ r) sid"
  shows "deserialize_control dbg A xxh now sid t data w = control_handle dbg A xxh now sid t data c w"
  using layout_secondary [OF assms]
  by (simp add: deserialize_control_def control_deserialize_u8 then_win_def)

lemma AEAD_MAX_less: "n \<le> 68719476736 \<Longrightarrow> n \<le> AEAD_MAX"
  by (simp add: AEAD_MAX_def)

text \<open>What \<open>outbound_handle\<close> sends for a packet, and how the other side reads it.\<close>

definition delivers ::
  "bool \<Rightarrow> 'k aead \<Rightarrow> (bytes \<Rightarrow> fingerprint) \<Rightarrow> 'k enc_table \<Rightarrow> 'k enc_table \<Rightarrow> packet \<Rightarrow> address \<Rightarrow> bool" where
  "delivers dbg A xxh ts tr p addr \<longleftrightarrow>
     (\<exists>effs pp. fst (outbound_handle A ts p addr) = Ok (effs @ [ToTransport pp])
        \<and> pp_dest_addr pp = addr
        \<and> received_as dbg A xxh tr (pp_data pp) (wire_form p))"

lemma deliversI:
  "\<lbrakk> outbound_handle A ts p addr = finish addr pt n effs (Ok data, ts');
     received_as dbg A xxh tr data (wire_form p) \<rbrakk> \<Longrightarrow> delivers dbg A xxh ts tr p addr"
  by (auto simp: delivers_def finish_def processed_def)

lemma dedup_with_payload_result:
  "\<lbrakk> headers fs = Ok b; dedup_bytes q = Some b \<rbrakk> \<Longrightarrow>
   dedup_with_payload xxh now fs q w = dedup_result xxh now q w"
  by (simp add: dedup_with_payload_def fingerprint_headers_def dedup_result_def)

lemma dedup_no_payload_result:
  "\<lbrakk> dedup_bytes q = Some data; de data = Ok q \<rbrakk> \<Longrightarrow>
   (case dedup_no_payload xxh now data w of (r, w) \<Rightarrow> (and_then r de, w)) = dedup_result xxh now q w"
  by (simp add: dedup_no_payload_def dedup_result_def fingerprint_bytes_def Let_def split: prod.splits)

lemma auth_dedup_result:
  "\<lbrakk> authenticated A sid t data = Ok d; dedup_bytes q = Some d; de d = Ok q \<rbrakk> \<Longrightarrow>
   auth_dedup_then A xxh now sid t data de w = dedup_result xxh now q w"
  using dedup_no_payload_result [of q d de xxh now w]
  by (simp add: auth_dedup_then_def then_win_def)

text \<open>The packets that carry a tag.\<close>

lemma deliver_authenticated:
  assumes A: "aead_correct A" "aead_total A" and k: "shared_key ts tr sid"
    and fs: "encodes fs es" "length (concat es) \<le> AEAD_MAX"
    and lay: "layout (concat es) v pt mid sid" and v: "v \<noteq> 0"
    and out: "outbound_handle A ts p addr = finish addr pt' n effs (process_authenticated A sid ts fs)"
    and inb: "\<And>data suffix now w. \<lbrakk> data = concat es @ suffix; layout data v pt mid sid; authenticated A sid tr data = Ok (concat es) \<rbrakk> \<Longrightarrow>
       deserialize_and_decrypt dbg A xxh now tr pt data w = dedup_result xxh now (wire_form p) w"
  shows "delivers dbg A xxh ts tr p addr"
proof -
  obtain suffix ts' where s: "process_authenticated A sid ts fs = (Ok (concat es @ suffix), ts')"
    and a: "authenticated A sid tr (concat es @ suffix) = Ok (concat es)"
    by (rule process_authenticated_ok [OF A k fs])
  have "received_as dbg A xxh tr (concat es @ suffix) (wire_form p)"
    by (rule received_asI [OF layout_append [OF lay] v]) (rule inb [OF refl layout_append [OF lay] a])
  then show ?thesis using out s by (intro deliversI) simp_all
qed

lemma deliver_data:
  assumes A: "aead_correct A" "aead_total A" and k: "shared_key ts tr (da_session_id p)"
    and p: "deliverable dbg (DataPacket p)"
  shows "delivers dbg A xxh ts tr (DataPacket p) addr"
proof -
  let ?q = "p\<lparr>da_opts := fst (add_ack (da_opts p))\<rparr>"
  let ?aad = "concat (butlast (data_packet_encs ?q))"
  have "length ?aad \<le> AEAD_MAX"
    by (rule AEAD_MAX_less) (simp add: data_packet_encs_def packet)
  moreover have "length (da_payload p) \<le> AEAD_MAX"
    using p by (intro AEAD_MAX_less) (simp add: MAX_PAYLOAD_LENGTH_def)
  ultimately obtain ct ts' where e: "process_encrypted A (da_session_id p) ts (data_packet_fields ?q) (da_payload p)
      (\<lambda>pl. data_packet_fields (?q\<lparr>da_payload := pl\<rparr>)) = (serialize_packet (data_packet_fields (?q\<lparr>da_payload := ct\<rparr>)), ts')"
    and d: "decrypt A (da_session_id p) tr ?aad ct = Ok (da_payload p)"
    using process_encrypted_ok [OF A k data_headers] p by (metis deliverable.simps(3))
  let ?c = "?q\<lparr>da_payload := ct\<rparr>"
  let ?data = "concat (data_packet_encs ?c)"
  have s: "serialize_packet (data_packet_fields ?c) = Ok ?data"
    by (rule serialize_packet_concat) (simp add: data_packet_fields_def data_packet_encs_def packet)
  have de: "data_packet_deserialize ?data = Ok ?c"
    by (rule data_packet_w.de_enc) (simp add: data_packet_valid_def)
  have "headers (data_packet_fields ?c) = Ok ?aad"
    by (simp add: data_headers data_packet_encs_def)
  then have dec: "decrypted A (da_session_id p) tr (data_packet_fields ?c) ct = Ok (da_payload p)"
    using d by (simp add: decrypted_def)
  obtain mid sid where lay: "layout ?data (da_version p) PT_Data mid sid"
    using p layout_any [of "int_bytes (da_batch_id p) @ fec_info_bytes (da_fec_info p) @ int_bytes (da_session_id p) @ int_bytes (da_timestamp p) @ int_bytes (da_byte_range_start p) @ ct"
        "da_version p" "fst (add_ack (da_opts p))" PT_Data]
    by (auto simp: data_packet_encs_def packet)
  have "received_as dbg A xxh tr ?data (wire_form (DataPacket p))"
    using p by (intro received_asI [OF lay])
      (simp_all add: deserialize_layout [OF lay] de dec dedup_result_def)
  then show ?thesis
    using e s by (auto simp: delivers_def Let_def finish_def processed_def split_beta)
qed

lemma deliver_playback:
  assumes A: "aead_correct A" "aead_total A" and k: "shared_key ts tr (pc_session_id p)"
    and p: "deliverable dbg (PlaybackControlPacket p)"
  shows "delivers dbg A xxh ts tr (PlaybackControlPacket p) addr"
proof -
  let ?q = "p\<lparr>pc_opts := fst (add_ack (pc_opts p))\<rparr>"
  let ?d = "concat (playback_control_encs ?q)"
  let ?mid = "int_bytes (control_u8 (Playback (pc_control_type p))) @ replicate 2 0"
  have valid: "playback_control_valid ?q" using p by (simp add: playback_control_valid_def)
  have de: "playback_control_deserialize ?d = Ok ?q" by (rule playback_control_w.de_enc [OF valid])
  have lay: "layout ?d (pc_version p) PT_Playback ?mid (pc_session_id p)"
    using p by (auto simp: layout_def playback_control_encs_def)
  show ?thesis
  proof (rule deliver_authenticated [OF A k _ _ lay])
    show "outbound_handle A ts (PlaybackControlPacket p) addr = finish addr PT_Playback 3 (pending_if (snd (add_ack (pc_opts p))) (PlaybackControlPacket ?q))
        (process_authenticated A (pc_session_id p) ts (playback_control_fields ?q))"
      by (simp add: Let_def split_beta)
    show "encodes (playback_control_fields ?q) (playback_control_encs ?q)"
      using valid by (simp add: playback_control_fields_def playback_control_encs_def playback_control_valid_def packet)
    show "length ?d \<le> AEAD_MAX"
      using p by (intro AEAD_MAX_less) (simp add: playback_control_encs_def playback_control_valid_def packet)
    show "pc_version p \<noteq> 0" using p by simp
    show "deserialize_and_decrypt dbg A xxh now tr PT_Playback data w
        = dedup_result xxh now (wire_form (PlaybackControlPacket p)) w"
      if "data = ?d @ suffix" "layout data (pc_version p) PT_Playback ?mid (pc_session_id p)"
        "authenticated A (pc_session_id p) tr data = Ok ?d" for data suffix now w
      by (simp add: deserialize_layout [OF that(2)] control_layout [OF that(2)])
        (rule auth_dedup_result [OF that(3)], simp_all add: de)
  qed
qed

lemma deliver_close_session:
  assumes A: "aead_correct A" "aead_total A" and k: "shared_key ts tr (cs_session_id p)"
    and p: "deliverable dbg (CloseSessionPacket p)"
  shows "delivers dbg A xxh ts tr (CloseSessionPacket p) addr"
proof -
  let ?q = "p"
  let ?d = "concat (close_session_encs ?q)"
  let ?mid = "int_bytes (control_u8 (Session Sess_Close)) @ replicate 2 0"
  have valid: "close_session_valid ?q" using p by (simp add: close_session_valid_def)
  have de: "close_session_deserialize ?d = Ok ?q" by (rule close_session_w.de_enc [OF valid])
  have lay: "layout ?d (cs_version p) PT_Session ?mid (cs_session_id p)"
    using p by (auto simp: layout_def close_session_encs_def)
  show ?thesis
  proof (rule deliver_authenticated [OF A k _ _ lay])
    show "outbound_handle A ts (CloseSessionPacket p) addr = finish addr PT_Session 3 []
        (process_authenticated A (cs_session_id p) ts (close_session_fields ?q))"
      by (simp add: Let_def split_beta)
    show "encodes (close_session_fields ?q) (close_session_encs ?q)"
      using valid by (simp add: close_session_fields_def close_session_encs_def close_session_valid_def packet)
    show "length ?d \<le> AEAD_MAX"
      using p by (intro AEAD_MAX_less) (simp add: close_session_encs_def close_session_valid_def packet)
    show "cs_version p \<noteq> 0" using p by simp
    show "deserialize_and_decrypt dbg A xxh now tr PT_Session data w
        = dedup_result xxh now (wire_form (CloseSessionPacket p)) w"
      if "data = ?d @ suffix" "layout data (cs_version p) PT_Session ?mid (cs_session_id p)"
        "authenticated A (cs_session_id p) tr data = Ok ?d" for data suffix now w
      by (simp add: deserialize_layout [OF that(2)] control_layout [OF that(2)])
        (rule auth_dedup_result [OF that(3)], simp_all add: de)
  qed
qed

lemma deliver_unexpected:
  assumes A: "aead_correct A" "aead_total A" and k: "shared_key ts tr (up_session_id p)"
    and p: "deliverable dbg (UnexpectedPacketErrorPacket p)"
  shows "delivers dbg A xxh ts tr (UnexpectedPacketErrorPacket p) addr"
proof -
  let ?q = "p"
  let ?d = "concat (unexpected_packet_encs ?q)"
  let ?mid = "int_bytes (as_u8 error_type_variants (up_error_type p)) @ replicate 2 0"
  have valid: "unexpected_packet_valid ?q" using p by (simp add: unexpected_packet_valid_def)
  have de: "unexpected_packet_deserialize ?d = Ok ?q" by (rule unexpected_packet_w.de_enc [OF valid])
  have lay: "layout ?d (up_version p) PT_Error ?mid (up_session_id p)"
    using p by (auto simp: layout_def unexpected_packet_encs_def)
  show ?thesis
  proof (rule deliver_authenticated [OF A k _ _ lay])
    show "outbound_handle A ts (UnexpectedPacketErrorPacket p) addr = finish addr PT_Error 3 []
        (process_authenticated A (up_session_id p) ts (unexpected_packet_fields ?q))"
      by (simp add: Let_def split_beta)
    show "encodes (unexpected_packet_fields ?q) (unexpected_packet_encs ?q)"
      using valid by (simp add: unexpected_packet_fields_def unexpected_packet_encs_def unexpected_packet_valid_def packet)
    show "length ?d \<le> AEAD_MAX"
      using p by (intro AEAD_MAX_less) (simp add: unexpected_packet_encs_def unexpected_packet_valid_def packet)
    show "up_version p \<noteq> 0" using p by simp
    show "deserialize_and_decrypt dbg A xxh now tr PT_Error data w
        = dedup_result xxh now (wire_form (UnexpectedPacketErrorPacket p)) w"
      if "data = ?d @ suffix" "layout data (up_version p) PT_Error ?mid (up_session_id p)"
        "authenticated A (up_session_id p) tr data = Ok ?d" for data suffix now w
    proof -
      have e: "enum_match (enum_variants error_type_variants) (as_u8 error_type_variants (up_error_type p))
          = Ok (up_error_type p)"
        using p by (intro de_enum_match) (simp add: error_type_ok unexpected_packet_valid_def)
      have "deserialize_error A xxh now (up_session_id p) tr data w
          = auth_dedup_then A xxh now (up_session_id p) tr data
              (\<lambda>d. map_res UnexpectedPacketErrorPacket (unexpected_packet_deserialize d)) w"
        using p e by (cases "up_error_type p")
          (simp_all add: deserialize_error_def layout_secondary [OF that(2)] then_win_def
            unexpected_packet_valid_def)
      then show ?thesis
        by (simp add: deserialize_layout [OF that(2)])
          (rule auth_dedup_result [OF that(3)], simp_all add: de)
    qed
  qed
qed

lemma deliver_keep_alive:
  assumes A: "aead_correct A" "aead_total A" and k: "shared_key ts tr (ka_session_id p)"
    and p: "deliverable dbg (KeepAlivePacket p)"
  shows "delivers dbg A xxh ts tr (KeepAlivePacket p) addr"
proof -
  let ?q = "p"
  let ?d = "concat (keep_alive_encs ?q)"
  let ?mid = "replicate 3 0"
  have valid: "keep_alive_valid ?q" using p by (simp add: keep_alive_valid_def)
  have de: "keep_alive_deserialize ?d = Ok ?q" by (rule keep_alive_w.de_enc [OF valid])
  have lay: "layout ?d (ka_version p) PT_KeepAlive ?mid (ka_session_id p)"
    using p by (auto simp: layout_def keep_alive_encs_def)
  show ?thesis
  proof (rule deliver_authenticated [OF A k _ _ lay])
    show "outbound_handle A ts (KeepAlivePacket p) addr = finish addr PT_KeepAlive 3 []
        (process_authenticated A (ka_session_id p) ts (keep_alive_fields ?q))"
      by (simp add: Let_def split_beta)
    show "encodes (keep_alive_fields ?q) (keep_alive_encs ?q)"
      using valid by (simp add: keep_alive_fields_def keep_alive_encs_def keep_alive_valid_def packet)
    show "length ?d \<le> AEAD_MAX"
      using p by (intro AEAD_MAX_less) (simp add: keep_alive_encs_def keep_alive_valid_def packet)
    show "ka_version p \<noteq> 0" using p by simp
    show "deserialize_and_decrypt dbg A xxh now tr PT_KeepAlive data w
        = dedup_result xxh now (wire_form (KeepAlivePacket p)) w"
      if "data = ?d @ suffix" "layout data (ka_version p) PT_KeepAlive ?mid (ka_session_id p)"
        "authenticated A (ka_session_id p) tr data = Ok ?d" for data suffix now w
      by (simp add: deserialize_layout [OF that(2)] that(3) de dedup_result_def)
  qed
qed

lemma deliver_ack:
  assumes A: "aead_correct A" "aead_total A" and k: "shared_key ts tr (ak_session_id p)"
    and p: "deliverable dbg (AckPacket p)"
  shows "delivers dbg A xxh ts tr (AckPacket p) addr"
proof -
  let ?q = "p"
  let ?d = "concat (ack_packet_encs ?q)"
  let ?mid = "replicate 3 0"
  have valid: "ack_packet_valid ?q" using p by (simp add: ack_packet_valid_def)
  have de: "ack_packet_deserialize ?d = Ok ?q" by (rule ack_packet_w.de_enc [OF valid])
  have lay: "layout ?d (ak_version p) PT_Ack ?mid (ak_session_id p)"
    using p by (auto simp: layout_def ack_packet_encs_def)
  show ?thesis
  proof (rule deliver_authenticated [OF A k _ _ lay])
    show "outbound_handle A ts (AckPacket p) addr = finish addr PT_Ack 3 []
        (process_authenticated A (ak_session_id p) ts (ack_packet_fields ?q))"
      by (simp add: Let_def split_beta)
    show "encodes (ack_packet_fields ?q) (ack_packet_encs ?q)"
      using valid by (simp add: ack_packet_fields_def ack_packet_encs_def ack_packet_valid_def packet)
    show "length ?d \<le> AEAD_MAX"
      using p by (intro AEAD_MAX_less) (simp add: ack_packet_encs_def ack_packet_valid_def packet)
    show "ak_version p \<noteq> 0" using p by simp
    show "deserialize_and_decrypt dbg A xxh now tr PT_Ack data w
        = dedup_result xxh now (wire_form (AckPacket p)) w"
      if "data = ?d @ suffix" "layout data (ak_version p) PT_Ack ?mid (ak_session_id p)"
        "authenticated A (ak_session_id p) tr data = Ok ?d" for data suffix now w
    proof -
      have "ack_packet_deserialize data = Ok p"
        using p by (simp add: that(1) ack_packet_deserialize_def ack_packet_encs_def ack_packet_valid_def packet)
      then show ?thesis by (simp add: deserialize_layout [OF that(2)] dedup_result_def)
    qed
  qed
qed

lemma deliver_retransmit:
  assumes A: "aead_correct A" "aead_total A" and k: "shared_key ts tr (re_session_id p)"
    and p: "deliverable dbg (RetransmitPacket p)"
  shows "delivers dbg A xxh ts tr (RetransmitPacket p) addr"
proof -
  let ?q = "p\<lparr>re_opts := fst (add_ack (re_opts p))\<rparr>"
  let ?d = "concat (retransmit_encs ?q)"
  let ?mid = "int_bytes (control_u8 (Session Sess_Retransmit)) @ int_bytes (opt_buffer_id_rep (re_buffer_id p))"
  have valid: "retransmit_valid ?q" using p by (simp add: retransmit_valid_def)
  have de: "retransmit_deserialize ?d = Ok ?q" by (rule retransmit_w.de_enc [OF valid])
  have lay: "layout ?d (re_version p) PT_Session ?mid (re_session_id p)"
    using p by (auto simp: layout_def retransmit_encs_def)
  show ?thesis
  proof (rule deliver_authenticated [OF A k _ _ lay])
    show "outbound_handle A ts (RetransmitPacket p) addr = finish addr PT_Session 3 (pending_if (snd (add_ack (re_opts p))) (RetransmitPacket ?q))
        (process_authenticated A (re_session_id p) ts (retransmit_fields ?q))"
      by (simp add: Let_def split_beta)
    show "encodes (retransmit_fields ?q) (retransmit_encs ?q)"
      using valid by (simp add: retransmit_fields_def retransmit_encs_def retransmit_valid_def packet)
    show "length ?d \<le> AEAD_MAX"
      using p by (intro AEAD_MAX_less) (simp add: retransmit_encs_def retransmit_valid_def packet)
    show "re_version p \<noteq> 0" using p by simp
    show "deserialize_and_decrypt dbg A xxh now tr PT_Session data w
        = dedup_result xxh now (wire_form (RetransmitPacket p)) w"
      if "data = ?d @ suffix" "layout data (re_version p) PT_Session ?mid (re_session_id p)"
        "authenticated A (re_session_id p) tr data = Ok ?d" for data suffix now w
      by (simp add: deserialize_layout [OF that(2)] control_layout [OF that(2)] that(3) de then_win_def)
        (rule dedup_with_payload_result [OF retransmit_headers], simp)
  qed
qed

text \<open>The packets that travel in the clear.\<close>

lemma deliver_plain:
  assumes fs: "encodes fs es"
    and lay: "layout (concat es) v pt mid sid" and v: "v \<noteq> 0"
    and out: "outbound_handle A ts p addr = finish addr pt' n [] (serialize_packet fs, ts)"
    and inb: "\<And>now w. deserialize_and_decrypt dbg A xxh now tr pt (concat es) w = dedup_result xxh now (wire_form p) w"
  shows "delivers dbg A xxh ts tr p addr"
  by (rule deliversI) (simp add: out serialize_packet_concat [OF fs], rule received_asI [OF lay v inb])


lemma deliver_hello:
  assumes p: "deliverable dbg (HelloPacket p)"
  shows "delivers dbg A xxh ts tr (HelloPacket p) addr"
proof -
  let ?d = "concat (hello_encs p)"
  let ?mid = "int_bytes (control_u8 (Host Host_Hello)) @ replicate 2 0"
  have valid: "hello_valid dbg p" using p by (simp add: hello_valid_def)
  have de: "hello_deserialize dbg ?d = Ok p" by (rule hello_w.de_enc [OF valid])
  have lay: "layout ?d (he_version p) PT_Host ?mid (he_proposed_session_id p)"
    using p by (auto simp: layout_def hello_encs_def)
  show ?thesis
  proof (rule deliver_plain [OF _ lay])
    show "encodes (hello_fields p) (hello_encs p)"
      using valid by (simp add: hello_fields_def hello_encs_def hello_valid_def packet)
    show "he_version p \<noteq> 0" using p by simp
    show "outbound_handle A ts (HelloPacket p) addr
        = finish addr PT_Host 7 [] (serialize_packet (hello_fields p), ts)" by simp
    show "deserialize_and_decrypt dbg A xxh now tr PT_Host ?d w
        = dedup_result xxh now (wire_form (HelloPacket p)) w" for now w
      by (simp add: deserialize_layout [OF lay] control_layout [OF lay] de then_win_def)
        (rule dedup_with_payload_result [OF hello_headers [OF valid]], simp)
  qed
qed

lemma deliver_handshake_rejection:
  assumes p: "deliverable dbg (HandshakeRejection p)"
  shows "delivers dbg A xxh ts tr (HandshakeRejection p) addr"
proof -
  let ?d = "concat (handshake_rejection_encs p)"
  let ?mid = "int_bytes (control_u8 (Host Host_HandshakeReject)) @ replicate 2 0"
  have valid: "handshake_rejection_valid p" using p by (simp add: handshake_rejection_valid_def)
  have de: "handshake_rejection_deserialize ?d = Ok p" by (rule handshake_rejection_w.de_enc [OF valid])
  have lay: "layout ?d (hr_version p) PT_Host ?mid (hr_session_id p)"
    using p by (auto simp: layout_def handshake_rejection_encs_def)
  show ?thesis
  proof (rule deliver_plain [OF _ lay])
    show "encodes (handshake_rejection_fields p) (handshake_rejection_encs p)"
      using valid by (simp add: handshake_rejection_fields_def handshake_rejection_encs_def handshake_rejection_valid_def packet)
    show "hr_version p \<noteq> 0" using p by simp
    show "outbound_handle A ts (HandshakeRejection p) addr
        = finish addr PT_Host 3 [] (serialize_packet (handshake_rejection_fields p), ts)" by simp
    show "deserialize_and_decrypt dbg A xxh now tr PT_Host ?d w
        = dedup_result xxh now (wire_form (HandshakeRejection p)) w" for now w
      by (simp add: deserialize_layout [OF lay] control_layout [OF lay] de dedup_result_def)
  qed
qed

lemma deliver_handshake_ack:
  assumes p: "deliverable dbg (HandshakeAckPacket p)"
  shows "delivers dbg A xxh ts tr (HandshakeAckPacket p) addr"
proof -
  let ?d = "concat (handshake_ack_encs p)"
  let ?mid = "replicate 3 0"
  have valid: "handshake_ack_valid p" using p by (simp add: handshake_ack_valid_def)
  have de: "handshake_ack_deserialize ?d = Ok p" by (rule handshake_ack_w.de_enc [OF valid])
  have lay: "layout ?d (ha_version p) PT_HandshakeAck ?mid (ha_session_id p)"
    using p by (auto simp: layout_def handshake_ack_encs_def)
  show ?thesis
  proof (rule deliver_plain [OF _ lay])
    show "encodes (handshake_ack_fields p) (handshake_ack_encs p)"
      using valid by (simp add: handshake_ack_fields_def handshake_ack_encs_def handshake_ack_valid_def packet)
    show "ha_version p \<noteq> 0" using p by simp
    show "outbound_handle A ts (HandshakeAckPacket p) addr
        = finish addr PT_HandshakeAck 3 [] (serialize_packet (handshake_ack_fields p), ts)" by simp
    show "deserialize_and_decrypt dbg A xxh now tr PT_HandshakeAck ?d w
        = dedup_result xxh now (wire_form (HandshakeAckPacket p)) w" for now w
      by (simp add: deserialize_layout [OF lay])
        (rule dedup_no_payload_result, simp_all add: de)
  qed
qed

lemma deliver_track_request:
  assumes A: "aead_correct A" "aead_total A" and k: "shared_key ts tr (tr_session_id p)"
    and p: "deliverable dbg (TrackRequestPacket p)"
  shows "delivers dbg A xxh ts tr (TrackRequestPacket p) addr"
proof -
  let ?q = "p\<lparr>tr_opts := fst (add_ack (tr_opts p))\<rparr>"
  let ?aad = "concat (butlast (track_request_encs ?q))"
  have "length ?aad \<le> AEAD_MAX"
    by (rule AEAD_MAX_less) (simp add: track_request_encs_def)
  moreover have "length (tr_payload p) \<le> AEAD_MAX"
    using p by (intro AEAD_MAX_less) (simp add: MAX_PAYLOAD_LENGTH_def)
  moreover have "tr_payload p \<noteq> []" using p by simp
  ultimately obtain ct ts' where e: "process_encrypted A (tr_session_id p) ts (track_request_fields ?q) (tr_payload p)
      (\<lambda>pl. track_request_fields (?q\<lparr>tr_payload := pl\<rparr>)) = (serialize_packet (track_request_fields (?q\<lparr>tr_payload := ct\<rparr>)), ts')"
    and d: "decrypt A (tr_session_id p) tr ?aad ct = Ok (tr_payload p)"
    using process_encrypted_ok [OF A k track_request_headers] by metis
  let ?c = "?q\<lparr>tr_payload := ct\<rparr>"
  let ?data = "concat (track_request_encs ?c)"
  have s: "serialize_packet (track_request_fields ?c) = Ok ?data"
    by (rule serialize_packet_concat) (simp add: track_request_fields_def track_request_encs_def packet)
  have de: "track_request_deserialize ?data = Ok ?c"
    by (rule track_request_w.de_enc) (simp add: track_request_valid_def)
  have "headers (track_request_fields ?c) = Ok ?aad"
    by (simp add: track_request_headers track_request_encs_def)
  then have dec: "decrypted A (tr_session_id p) tr (track_request_fields ?c) ct = Ok (tr_payload p)"
    using d by (simp add: decrypted_def)
  have lay: "layout ?data (tr_version p) PT_Session
      (int_bytes (control_u8 (Session Sess_TrackRequest)) @ replicate 2 0) (tr_session_id p)"
    using p by (auto simp: layout_def track_request_encs_def)
  have "received_as dbg A xxh tr ?data (wire_form (TrackRequestPacket p))"
    using p by (intro received_asI [OF lay])
      (simp, simp add: deserialize_layout [OF lay] control_layout [OF lay] de dec then_win_def,
        rule dedup_with_payload_result [OF track_request_headers], simp)
  then show ?thesis
    using e s by (auto simp: delivers_def Let_def finish_def processed_def split_beta)
qed

lemma deliver_track_rejection:
  assumes A: "aead_correct A" "aead_total A" and k: "shared_key ts tr (tj_session_id p)"
    and p: "deliverable dbg (TrackRejectionPacket p)"
  shows "delivers dbg A xxh ts tr (TrackRejectionPacket p) addr"
proof -
  let ?q = "p\<lparr>tj_opts := fst (add_ack (tj_opts p))\<rparr>"
  let ?aad = "concat (butlast (track_rejection_encs ?q))"
  have "length ?aad \<le> AEAD_MAX"
    by (rule AEAD_MAX_less) (simp add: track_rejection_encs_def)
  moreover have "length (tj_payload p) \<le> AEAD_MAX"
    using p by (intro AEAD_MAX_less) (simp add: MAX_PAYLOAD_LENGTH_def)
  moreover have "tj_payload p \<noteq> []" using p by simp
  ultimately obtain ct ts' where e: "process_encrypted A (tj_session_id p) ts (track_rejection_fields ?q) (tj_payload p)
      (\<lambda>pl. track_rejection_fields (?q\<lparr>tj_payload := pl\<rparr>)) = (serialize_packet (track_rejection_fields (?q\<lparr>tj_payload := ct\<rparr>)), ts')"
    and d: "decrypt A (tj_session_id p) tr ?aad ct = Ok (tj_payload p)"
    using process_encrypted_ok [OF A k track_rejection_headers] by metis
  let ?c = "?q\<lparr>tj_payload := ct\<rparr>"
  let ?data = "concat (track_rejection_encs ?c)"
  have s: "serialize_packet (track_rejection_fields ?c) = Ok ?data"
    by (rule serialize_packet_concat) (simp add: track_rejection_fields_def track_rejection_encs_def packet)
  have de: "track_rejection_deserialize ?data = Ok ?c"
    by (rule track_rejection_w.de_enc) (simp add: track_rejection_valid_def)
  have "headers (track_rejection_fields ?c) = Ok ?aad"
    by (simp add: track_rejection_headers track_rejection_encs_def)
  then have dec: "decrypted A (tj_session_id p) tr (track_rejection_fields ?c) ct = Ok (tj_payload p)"
    using d by (simp add: decrypted_def)
  have lay: "layout ?data (tj_version p) PT_Session
      (int_bytes (control_u8 (Session Sess_TrackReject)) @ replicate 2 0) (tj_session_id p)"
    using p by (auto simp: layout_def track_rejection_encs_def)
  have "received_as dbg A xxh tr ?data (wire_form (TrackRejectionPacket p))"
    using p by (intro received_asI [OF lay])
      (simp, simp add: deserialize_layout [OF lay] control_layout [OF lay] de dec then_win_def,
        rule dedup_with_payload_result [OF track_rejection_headers], simp)
  then show ?thesis
    using e s by (auto simp: delivers_def Let_def finish_def processed_def split_beta)
qed

section \<open>Both directions\<close>

lemma deliver_incompatible_version:
  assumes "iv_zero_version p = 0"
  shows "\<exists>effs pp. fst (outbound_handle A ts (IncompatibleVersionPacket p) addr) = Ok (effs @ [ToTransport pp])
     \<and> pp_dest_addr pp = addr
     \<and> fst (inbound_handle dbg A xxh now tr (pp_data pp) src w)
         = Ok (Some (UpPacket (wrap (IncompatibleVersionPacket p) src)))"
proof -
  let ?d = "concat (incompatible_version_encs p)"
  have s: "serialize_packet (incompatible_version_fields p) = Ok ?d"
    by (rule serialize_packet_concat)
      (simp add: incompatible_version_fields_def incompatible_version_encs_def packet)
  have de: "incompatible_version_deserialize ?d = Ok p"
    by (rule incompatible_version_w.de_enc) (simp add: incompatible_version_valid_def)
  have v: "int_deserialize ?d = (Ok 0 :: version ures)"
    using assms by (simp add: incompatible_version_encs_def)
  have "fst (inbound_handle dbg A xxh now tr ?d src w)
      = Ok (Some (UpPacket (wrap (IncompatibleVersionPacket p) src)))"
    by (simp add: inbound_handle_def v version_is_zero_def incompatible_version_de_def de)
  then show ?thesis by (simp add: finish_def s processed_def)
qed

definition key_ok :: "'k enc_table \<Rightarrow> 'k enc_table \<Rightarrow> packet \<Rightarrow> bool" where
  "key_ok ts tr p \<longleftrightarrow> (case keyed_session p of None \<Rightarrow> True | Some sid \<Rightarrow> shared_key ts tr sid)"

lemma delivers_all:
  assumes "aead_correct A" "aead_total A" "deliverable dbg p" "key_ok ts tr p"
    and "\<forall>q. p \<noteq> IncompatibleVersionPacket q"
  shows "delivers dbg A xxh ts tr p addr"
  using assms
  by (cases p)
    (simp_all only: key_ok_def keyed_session.simps option.case deliver_data deliver_track_request
      deliver_track_rejection deliver_retransmit deliver_playback deliver_close_session
      deliver_keep_alive deliver_unexpected deliver_ack deliver_hello deliver_handshake_ack
      deliver_handshake_rejection deliverable.simps simp_thms, blast+)

lemma inbound_received_as:
  assumes "received_as dbg A xxh tr data q"
  shows "inbound_handle dbg A xxh now tr data src w =
    (case dedup_result xxh now q w of
       (Ok p, w) \<Rightarrow> (Ok (Some (UpPacket (wrap (with_source src p) src))), w)
     | (Err _, w) \<Rightarrow> (Ok None, w)
     | (Panic, w) \<Rightarrow> (Panic, w))"
  using assms by (auto simp: received_as_def inbound_layout)

definition unseen :: "(bytes \<Rightarrow> fingerprint) \<Rightarrow> packet \<Rightarrow> fp_window \<Rightarrow> bool" where
  "unseen xxh p w \<longleftrightarrow>
     (case dedup_bytes (wire_form p) of None \<Rightarrow> True | Some b \<Rightarrow> \<not> fw_contains (xxh b) w)"

lemma inbound_unseen:
  assumes "received_as dbg A xxh tr data (wire_form p)" "unseen xxh p w"
  shows "fst (inbound_handle dbg A xxh now tr data src w)
    = Ok (Some (UpPacket (wrap (with_source src (wire_form p)) src)))"
  using assms(2) by (auto simp: inbound_received_as [OF assms(1)] dedup_result_def dedup_def
      unseen_def split: option.splits)

lemma inbound_remembers:
  assumes "received_as dbg A xxh tr data q" "dedup_bytes q = Some b" "fw_inv w" "\<not> fw_contains (xxh b) w"
  shows "held_since now (xxh b) (snd (inbound_handle dbg A xxh now tr data src w))"
  using assms(2-4) held_since_add [of w now "xxh b"]
  by (simp add: inbound_received_as [OF assms(1)] dedup_result_def dedup_def fw_add_verdict)

lemma inbound_seen:
  assumes "received_as dbg A xxh tr data q" "dedup_bytes q = Some b" "fw_contains (xxh b) w"
  shows "inbound_handle dbg A xxh now tr data src w = (Ok None, w)"
  using assms(2,3) by (simp add: inbound_received_as [OF assms(1)] dedup_result_def dedup_def)

section \<open>Properties\<close>

text \<open>A data packet and the tables of two peers, for the witnesses.\<close>

definition demo_data :: data_packet where
  "demo_data =
     \<lparr>da_version = 1, da_opts = 1, da_packet_type = PT_Data, da_batch_id = 3,
      da_fec_info = \<lparr>batch_size = 1, batch_pos = 0, recovery_count = 0\<rparr>, da_session_id = 9,
      da_timestamp = 4, da_byte_range_start = 0, da_payload = [1, 2, 3]\<rparr>"

definition demo_close :: close_session where
  "demo_close = close_session_new 4 opt_none 9"

definition demo_table :: "u8 enc_table" where
  "demo_table = [(9, enc_window_new 7)]"

definition demo_addr :: address where
  "demo_addr = \<lparr>sa_ip = [127, 0, 0, 1], sa_port = 1\<rparr>"

lemma demo_shared: "shared_key demo_table demo_table 9"
  by (simp add: shared_key_def encryption_get_cipher_def demo_table_def hm_get_def)

text \<open>Delivery. For every packet a constructor of the manager can build (all kinds but
  the metadata packets, which are dropped on purpose, and \<open>SessionDoesNotExist\<close>), the
  outbound half of the packet processor ends by handing exactly one datagram for the right
  address to the transport layer, and the inbound half of a peer that shares the session
  key, and has not seen the packet, turns that datagram into the packet it came from,
  without the internal \<open>Resend\<close> flag. No branch panics.\<close>

theorem packet_delivered:
  assumes "aead_correct A" "aead_total A"
    and "deliverable dbg p" "key_ok ts tr p" "unseen xxh p w"
  shows "\<exists>effs pp. fst (outbound_handle A ts p addr) = Ok (effs @ [ToTransport pp])
     \<and> pp_dest_addr pp = addr
     \<and> fst (inbound_handle dbg A xxh now tr (pp_data pp) src w)
         = Ok (Some (UpPacket (wrap (with_source src (wire_form p)) src)))"
proof (cases "\<exists>q. p = IncompatibleVersionPacket q")
  case True
  then show ?thesis using assms(3) deliver_incompatible_version by fastforce
next
  case False
  then have "delivers dbg A xxh ts tr p addr" using assms by (intro delivers_all) auto
  then show ?thesis using inbound_unseen assms(5) by (fastforce simp: delivers_def)
qed

theorem packet_delivered_witness:
  "\<exists>effs pp. fst (outbound_handle demo_aead demo_table (DataPacket demo_data) demo_addr)
       = Ok (effs @ [ToTransport pp])
     \<and> pp_dest_addr pp = demo_addr
     \<and> fst (inbound_handle False demo_aead (take 16) 0 demo_table (pp_data pp) demo_addr fw_default)
         = Ok (Some (UpPacket (wrap (with_source demo_addr (wire_form (DataPacket demo_data))) demo_addr)))"
  by (rule packet_delivered [OF demo_aead_correct demo_aead_total])
    (simp_all add: demo_data_def MAX_PAYLOAD_LENGTH_def key_ok_def demo_shared unseen_def)

text \<open>C25: Deduplication. Once a packet of a deduplicated kind (a hello or its acknowledgement, a track request
  or rejection, a request for chunks, a playback control, a close, a report of an unexpected packet) has been
  delivered, every further copy of its
  datagram that arrives within 500 ms is dropped, whatever packets are recorded and however
  often the window is pruned in between, and whoever sends the copy.\<close>

theorem duplicate_dropped:
  assumes "aead_correct A" "aead_total A"
    and "deliverable dbg p" "key_ok ts tr p" "unseen xxh p w"
    and "dedup_bytes (wire_form p) \<noteq> None" "fw_inv w"
    and "\<forall>op \<in> set ops. within_ttl now (fw_time op)"
    and "fst (outbound_handle A ts p addr) = Ok (effs @ [ToTransport pp])"
  shows "fst (inbound_handle dbg A xxh later tr (pp_data pp) src'
      (foldl fw_step (snd (inbound_handle dbg A xxh now tr (pp_data pp) src w)) ops)) = Ok None"
proof -
  obtain b where b: "dedup_bytes (wire_form p) = Some b" using assms(6) by blast
  then have "\<forall>q. p \<noteq> IncompatibleVersionPacket q" by auto
  then have "delivers dbg A xxh ts tr p addr" using assms by (intro delivers_all) auto
  then have r: "received_as dbg A xxh tr (pp_data pp) (wire_form p)"
    using assms(9) by (auto simp: delivers_def)
  have "held_since now (xxh b) (snd (inbound_handle dbg A xxh now tr (pp_data pp) src w))"
    using assms(5,7) b by (intro inbound_remembers [OF r]) (simp_all add: unseen_def)
  then have "fw_contains (xxh b) (foldl fw_step (snd (inbound_handle dbg A xxh now tr (pp_data pp) src w)) ops)"
    using held_since_run [OF _ assms(8)] by (simp add: held_since_def)
  then show ?thesis using inbound_seen [OF r b] by simp
qed

theorem duplicate_dropped_witness:
  "\<exists>effs pp. fst (outbound_handle demo_aead demo_table (CloseSessionPacket demo_close) demo_addr)
       = Ok (effs @ [ToTransport pp])
     \<and> fst (inbound_handle False demo_aead (take 16) 500 demo_table (pp_data pp) demo_addr
         (foldl fw_step (snd (inbound_handle False demo_aead (take 16) 100 demo_table (pp_data pp)
            demo_addr fw_default)) [FwAdd 120 [1], FwPrune 600])) = Ok None"
proof -
  have ok: "deliverable False (CloseSessionPacket demo_close)"
      "key_ok demo_table demo_table (CloseSessionPacket demo_close)"
      "unseen (take 16) (CloseSessionPacket demo_close) fw_default"
    by (simp_all add: demo_close_def close_session_new_def key_ok_def demo_shared unseen_def
        fw_contains_def fw_default_def)
  have "delivers False demo_aead (take 16) demo_table demo_table (CloseSessionPacket demo_close) demo_addr"
    using delivers_all [OF demo_aead_correct demo_aead_total ok(1,2)] by simp
  then obtain effs pp where o: "fst (outbound_handle demo_aead demo_table
      (CloseSessionPacket demo_close) demo_addr) = Ok (effs @ [ToTransport pp])"
    by (auto simp: delivers_def)
  have "fst (inbound_handle False demo_aead (take 16) 500 demo_table (pp_data pp) demo_addr
         (foldl fw_step (snd (inbound_handle False demo_aead (take 16) 100 demo_table (pp_data pp)
            demo_addr fw_default)) [FwAdd 120 [1], FwPrune 600])) = Ok None"
    by (rule duplicate_dropped [OF demo_aead_correct demo_aead_total ok _ _ _ o])
      (simp_all add: fw_inv_default within_ttl_def)
  then show ?thesis using o by blast
qed

text \<open>A \<open>SessionDoesNotExist\<close> packet never arrives. Whatever keys the two peers hold, the
  datagram the outbound half produces for it is dropped by the inbound half, because its
  error type is not readable.\<close>

theorem session_does_not_exist_dropped:
  assumes "sd_version p \<noteq> 0" "sd_packet_type p = PT_Error" "sd_error_type p = SessionDoesNotExist"
    and "fst (outbound_handle A ts (SessionDoesNotExistErrorPacket p) addr) = Ok (effs @ [ToTransport pp])"
  shows "inbound_handle dbg A xxh now tr (pp_data pp) src w = (Ok None, w)"
proof -
  let ?q = "p\<lparr>sd_opts := fst (add_ack (sd_opts p))\<rparr>"
  let ?d = "concat (session_does_not_exist_encs ?q)"
  let ?mid = "int_bytes (as_u8 error_type_variants SessionDoesNotExist) @ replicate 2 0"
  have s: "serialize_packet (session_does_not_exist_fields ?q) = Ok ?d"
    by (rule serialize_packet_concat)
      (simp add: session_does_not_exist_fields_def session_does_not_exist_encs_def packet)
  have tagged: "\<exists>suffix. fst (snd (tag A (sd_session_id p) ts ?d)) = ?d @ suffix"
    by (auto simp: tag_def Let_def split: prod.splits option.splits)
  have "\<exists>suffix. pp_data pp = ?d @ suffix"
    using assms(4) tagged
    by (auto simp: split_beta Let_def finish_def processed_def process_authenticated_def s)
  then obtain suffix where d: "pp_data pp = ?d @ suffix" by blast
  have "layout ?d (sd_version p) PT_Error ?mid (sd_session_id p)"
    using assms(2,3) by (auto simp: layout_def session_does_not_exist_encs_def)
  then have lay: "layout (pp_data pp) (sd_version p) PT_Error ?mid (sd_session_id p)"
    unfolding d by (rule layout_append)
  have "enum_match (enum_variants error_type_variants) (as_u8 error_type_variants SessionDoesNotExist) = Err ()"
    by (simp add: variants)
  then have "deserialize_error A xxh now (sd_session_id p) tr (pp_data pp) w = (Err (), w)"
    by (simp add: deserialize_error_def layout_secondary [OF lay] then_win_def)
  then show ?thesis
    by (simp add: inbound_layout [OF lay assms(1)] deserialize_layout [OF lay])
qed

theorem session_does_not_exist_dropped_witness:
  "\<exists>effs pp. fst (outbound_handle demo_aead demo_table (SessionDoesNotExistErrorPacket
        \<lparr>sd_version = 1, sd_opts = 0, sd_packet_type = PT_Error, sd_error_type = SessionDoesNotExist,
         sd_session_id = 9, sd_timestamp = 0\<rparr>) demo_addr) = Ok (effs @ [ToTransport pp])
     \<and> inbound_handle False demo_aead (take 16) 0 demo_table (pp_data pp) demo_addr fw_default
         = (Ok None, fw_default)"
proof -
  let ?p = "\<lparr>sd_version = 1, sd_opts = 0, sd_packet_type = PT_Error, sd_error_type = SessionDoesNotExist,
         sd_session_id = 9, sd_timestamp = 0\<rparr>"
  have "encodes (session_does_not_exist_fields ?p) (session_does_not_exist_encs ?p)"
    by (simp add: session_does_not_exist_fields_def session_does_not_exist_encs_def packet)
  from serialize_packet_concat [OF this]
  have s: "serialize_packet (session_does_not_exist_fields ?p) = Ok (concat (session_does_not_exist_encs ?p))" .
  have "add_ack 0 = (0, False)" by (simp add: add_ack_def opt_contains_bit)
  then have "\<exists>effs pp. fst (outbound_handle demo_aead demo_table
      (SessionDoesNotExistErrorPacket ?p) demo_addr) = Ok (effs @ [ToTransport pp])"
    by (simp add: finish_def process_authenticated_def s split_beta Let_def)
  then obtain effs pp where o: "fst (outbound_handle demo_aead demo_table
      (SessionDoesNotExistErrorPacket ?p) demo_addr) = Ok (effs @ [ToTransport pp])" by blast
  have "inbound_handle False demo_aead (take 16) 0 demo_table (pp_data pp) demo_addr fw_default
      = (Ok None, fw_default)"
    by (rule session_does_not_exist_dropped [OF _ _ _ o]) simp_all
  then show ?thesis using o by blast
qed

text \<open>C40: The inbound half panics on short datagrams. Every datagram of two or three bytes whose
  version is not zero ends the task with a slice out of range instead of an early return.\<close>

theorem short_datagram_panics:
  assumes "length data = 2 \<or> length data = 3" "int_deserialize data = (Ok v :: version ures)" "v \<noteq> 0"
  shows "inbound_handle dbg A xxh now t data src w = (Panic, w)"
  using assms by (auto simp: inbound_handle_def version_is_zero_def version_compatible_iff
      slice_from_def PACKET_TYPE_OFFSET_def)

theorem short_datagram_panics_witness:
  "inbound_handle False demo_aead (take 16) 0 demo_table [0, 1, 0] demo_addr fw_default = (Panic, fw_default)"
  by (rule short_datagram_panics [where v = 1]) (simp_all add: int_deserialize_def be_value_def)

end
