(* ===== verification/Session_Faults.thy ===== *)
theory Session_Faults imports Handshake_Run Delivery begin

text \<open>
  Where the session machine does not do what it means to: a rejection in the clear removes any
  session, a session that ends up under another id than the proposed one is lost to the address
  table, the close of one stream ends the next, and a stream completed by recovery
  keeps its session occupied.
\<close>

section \<open>Forged rejections\<close>

lemma rejection_bytes_delivered:
  assumes p: "deliverable dbg (HandshakeRejection p)"
  shows "inbound_handle dbg A xxh now t (concat (handshake_rejection_encs p)) src w =
    (Ok (Some (UpPacket (wrap (HandshakeRejection p) src))), w)"
proof -
  let ?d = "concat (handshake_rejection_encs p)"
  let ?mid = "int_bytes (control_u8 (Host Host_HandshakeReject)) @ replicate 2 0"
  have valid: "handshake_rejection_valid p" using p by (simp add: handshake_rejection_valid_def)
  have de: "handshake_rejection_deserialize ?d = Ok p" by (rule handshake_rejection_w.de_enc [OF valid])
  have lay: "layout ?d (hr_version p) PT_Host ?mid (hr_session_id p)"
    using p by (auto simp: layout_def handshake_rejection_encs_def)
  have "received_as dbg A xxh t ?d (HandshakeRejection p)"
    by (rule received_asI [OF lay])
      (use p in \<open>simp_all add: deserialize_layout [OF lay] control_layout [OF lay] de dedup_result_def\<close>)
  then show ?thesis by (simp add: inbound_received_as dedup_result_def)
qed

text \<open>C7: Anyone can end any session. For every session in the table, established ones that stream
  included, there are bytes without tag or encryption which the packet processor passes on whatever keys and
  windows it holds, and at which the manager drops the session: without a word to the application, without
  closing the stream, and leaving the key and the entry of the address table behind.\<close>

theorem forged_rejection_ends_session:
  assumes "connection st sid = Some (Established e)"
  shows "\<exists>data p. (\<forall>A t w. inbound_handle dbg (A :: 'k aead) xxh now t data src w
        = (Ok (Some (UpPacket (wrap (HandshakeRejection p) src))), w))
    \<and> connection (handle_packet env src (HandshakeRejection p) st) sid = None
    \<and> pr_out (handle_packet env src (HandshakeRejection p) st) = pr_out st
    \<and> pr_events (handle_packet env src (HandshakeRejection p) st) = pr_events st
    \<and> pr_encryption (handle_packet env src (HandshakeRejection p) st) = pr_encryption st
    \<and> pr_address_session (handle_packet env src (HandshakeRejection p) st) = pr_address_session st"
proof -
  let ?p = "handshake_rejection_new now opt_none sid Reject_IdCollision 0"
  have d: "deliverable dbg (HandshakeRejection ?p)"
    by (simp add: handshake_rejection_new_def CURRENT_VERSION_def version_new_def)
  have "handle_packet env src (HandshakeRejection ?p) st = drop_connection sid st"
    using assms by (simp add: received_handshake_rejected_def handshake_rejection_new_def Let_def)
  moreover have "\<forall>A t w. inbound_handle dbg (A :: 'k aead) xxh now t (concat (handshake_rejection_encs ?p)) src w
      = (Ok (Some (UpPacket (wrap (HandshakeRejection ?p) src))), w)"
    using rejection_bytes_delivered [OF d] by blast
  ultimately show ?thesis
    by (intro exI [of _ "concat (handshake_rejection_encs ?p)"] exI [of _ ?p])
      (simp add: drop_connection_def connection_def)
qed

section \<open>Renamed sessions\<close>

lemma index_of_None: "index_of x xs = None \<longleftrightarrow> x \<notin> set xs"
  by (induction xs) auto

lemma unlisted_not_free:
  assumes "\<forall>v. hm_get (pr_address_session st) a = Some v \<longrightarrow> sid \<notin> set v"
  shows "free_session st a \<noteq> Some sid"
  using assms by (auto simp: free_session_def find_Some_iff in_set_conv_nth split: option.splits)

lemma unlisted_keeps_key:
  assumes "connection st sid = Some c"
    and "\<forall>v. hm_get (pr_address_session st) (cs_address c) = Some v \<longrightarrow> sid \<notin> set v"
  shows "key (close_session_routine sid st) sid = key st sid"
proof -
  have "address_remove (cs_address c) sid (pr_address_session st) = (None, pr_address_session st)"
    using assms(2) by (cases "hm_get (pr_address_session st) (cs_address c)")
      (simp_all add: address_remove_def iffD2 [OF index_of_None])
  then show ?thesis using assms(1)
    by (cases c) (simp_all add: close_session_routine_alt Let_def drop_connection_def emit_def key_def)
qed

text \<open>C10: A session that the peer accepted under another id than the proposed one is lost to the
  address table: it is entered under the new id and gets its key, but the table lists the proposed id.
  So no target by address finds it, and when it is closed its key stays.\<close>

theorem renamed_session_lost:
  assumes "hm_get (pr_handshakes st) (he_handshake_id p) = Some h"
    and "hk_session_id h \<noteq> he_proposed_session_id p"
    and "connection st (he_proposed_session_id p) = None"
    and "\<forall>v. hm_get (pr_address_session st) src = Some v \<longrightarrow> he_proposed_session_id p \<notin> set v"
  shows "\<exists>st'. st' = handle_packet env src (HelloPacket p) st
    \<and> connection st' (he_proposed_session_id p) = Some (established_new (hk_session_id h) src (he_app_id p))
    \<and> free_session st' src \<noteq> Some (he_proposed_session_id p)
    \<and> connection (close_session_routine (he_proposed_session_id p) st') (he_proposed_session_id p) = None
    \<and> key (close_session_routine (he_proposed_session_id p) st') (he_proposed_session_id p) \<noteq> None"
proof -
  let ?sid = "he_proposed_session_id p"
  let ?st = "handle_packet env src (HelloPacket p) st"
  obtain st0 where r: "?st = emit [Answer (hk_response h) (Connected ?sid),
        Send (wrap (HandshakeAckPacket (handshake_ack_new (en_now env) ?sid (he_handshake_id p))) src), Keep_Alive ?sid]
        (insert_key ?sid (en_agree env (hk_secret h) (he_public_key p)) st0)"
      "connection st0 ?sid = Some (established_new (hk_session_id h) src (he_app_id p))"
      "pr_address_session st0 = address_push src (hk_session_id h) (pr_address_session st)"
    using promoted_hello [OF assms(1,3), of env src] by blast
  have t: "pr_address_session ?st = address_push src (hk_session_id h) (pr_address_session st)"
    unfolding r(1) by (simp add: emit_def insert_key_def r(3))
  have u: "\<forall>v. hm_get (pr_address_session ?st) src = Some v \<longrightarrow> ?sid \<notin> set v"
    unfolding t using assms(2,4) by (auto simp: address_push_def split: option.splits)
  have c: "connection ?st ?sid = Some (established_new (hk_session_id h) src (he_app_id p))"
    unfolding r(1) by (simp add: r(2))
  have k: "key ?st ?sid \<noteq> None" unfolding r(1) by simp
  have a: "cs_address (established_new (hk_session_id h) src (he_app_id p)) = src"
    by (simp add: cs_address_def established_new_def)
  have "key (close_session_routine ?sid ?st) ?sid \<noteq> None"
    using unlisted_keeps_key [OF c, unfolded a, OF u] k by simp
  moreover have "connection (close_session_routine ?sid ?st) ?sid = None"
    using flat_close_session [of ?sid ?st ?sid] by (simp add: flat_def)
  ultimately show ?thesis using c unlisted_not_free [OF u] by blast
qed

section \<open>The close of another stream\<close>

text \<open>C8: The close of a stream can end the next one. When a host closes a stream it sends and starts
  another on the session before the task of the first has taken the close out of its slot, that
  task, which never ends, closes whatever stream the session has: the new one goes back to idle and
  its handle is told that it is closed.\<close>

theorem stale_close_ends_next_stream:
  assumes "connection st sid = Some (Established e)" and "es_state e = Session_Streaming s"
    and "ss_streaming s = Streaming_To t" and "i < length (pr_tasks st)"
    and "tk_session (pr_tasks st ! i) = sid" and "tk_event (pr_tasks st ! i) = to_event t"
    and "to_event t < length (pr_events st)"
  shows "\<exists>st1 st2 st3. st1 = close_stream_routine sid st \<and> st2 = send_data dbg (To_Session sid) buffer msg reply st1
    \<and> st3 = task_event i st2
    \<and> Reply_Session reply (Ok sid) \<in> set (pr_out st2) \<and> flat st2 sid = Some Flat_StreamingTo
    \<and> flat st3 sid = Some Flat_Up \<and> pr_out st3 = pr_out st2 @ [Stream_Notice (msg\<lparr>sm_closed := True\<rparr>)]"
proof -
  let ?r = "to_event t" and ?n = "length (pr_events st)"
  define st1 where "st1 = close_stream_routine sid st"
  define st2 where "st2 = send_data dbg (To_Session sid) buffer msg reply st1"
  define s2 where "s2 = \<lparr>ss_streaming = Streaming_To \<lparr>to_buffer = buffer, to_current_batch = 0, to_event = ?n\<rparr>,
      ss_stream = msg, ss_fec = []\<rparr>"
  define e1 where "e1 = e\<lparr>es_state := Session_Up\<rparr>"
  have c1: "connection st1 sid = Some (Established e1)"
    and ev1: "pr_events st1 = (pr_events st)[?r := shared_update (Playback Act_Close) (pr_events st ! ?r)]"
    and tk1: "pr_tasks st1 = pr_tasks st"
    using assms by (simp_all add: st1_def close_stream_routine_def e1_def Let_def)
      (simp_all add: post_event_def set_connection_def emit_def)
  have res: "resolve_target (To_Session sid) st1 = Ok (sid, cs_address (Established e1))"
    by (simp add: resolve_target_def c1 is_free_def e1_def)
  have to: "cs_stream_to dbg ?n buffer msg (Established e1) = Ok (Established (e1\<lparr>es_state := Session_Streaming s2\<rparr>))"
    by (simp add: cs_stream_to_def e1_def s2_def)
  have n1: "length (pr_events st1) = ?n" by (simp add: ev1)
  have c1': "connection (emit es st1) sid = Some (Established e1)" for es using c1 by simp
  define st2' where "st2' = set_connection sid (Established (e1\<lparr>es_state := Session_Streaming s2\<rparr>))
        (emit [Reply_Session reply (Ok sid)] st1)"
  have sd: "sending_to (Some (Established (e1\<lparr>es_state := Session_Streaming s2\<rparr>)))
      = Some (e1\<lparr>es_state := Session_Streaming s2\<rparr>, s2, \<lparr>to_buffer = buffer, to_current_batch = 0, to_event = ?n\<rparr>)"
    by (simp add: sending_to_def s2_def)
  have st2: "st2 = st2'\<lparr>pr_events := pr_events st1 @ [shared_default],
      pr_tasks := pr_tasks st @ [sender_task_new sid ?n]\<rparr>"
    unfolding st2_def send_data_def res res.case prod.case send_on_session_def c1' option.case
    by (simp add: n1 attempt_def to sd Let_def tk1 flip: st2'_def) (simp add: st2'_def n1 tk1)
  have c2: "connection st2 sid = Some (Established (e1\<lparr>es_state := Session_Streaming s2\<rparr>))"
    by (simp add: st2 st2'_def)
  have slot: "pr_events st2 ! ?r = \<lparr>sh_value = Playback Act_Close, sh_signal = True\<rparr>"
    using assms(7) by (simp add: st2 ev1 nth_append shared_update_def)
  have tk2: "pr_tasks st2 ! i = pr_tasks st ! i" using assms(4) by (simp add: st2 nth_append)
  define st2s where "st2s = st2\<lparr>pr_events := (pr_events st2)[?r := \<lparr>sh_value = Playback Act_Close, sh_signal = False\<rparr>]\<rparr>"
  have t3: "task_event i st2 = (close_stream_routine sid st2s)
      \<lparr>pr_tasks := (pr_tasks (close_stream_routine sid st2s))[i := pr_tasks st ! i]\<rparr>"
    by (simp add: task_event_def tk2 assms(5,6) slot shared_listen_def handle_stream_event_def Let_def st2s_def)
  have c2s: "connection st2s sid = Some (Established (e1\<lparr>es_state := Session_Streaming s2\<rparr>))"
    by (simp add: st2s_def c2)
  have out3: "pr_out (close_stream_routine sid st2s) = pr_out st2 @ [Stream_Notice (msg\<lparr>sm_closed := True\<rparr>)]"
    by (simp add: close_stream_routine_def c2s Let_def) (simp add: s2_def st2s_def)
  have f2: "flat st2 sid = Some Flat_StreamingTo" by (simp add: flat_def c2 s2_def)
  have "flat (task_event i st2) sid = Some Flat_Up"
    unfolding t3 using f2 by (simp add: flat_close_stream streaming_flat_def st2s_def)
  moreover have "pr_out (task_event i st2) = pr_out st2 @ [Stream_Notice (msg\<lparr>sm_closed := True\<rparr>)]"
    unfolding t3 by (simp add: out3)
  moreover have "Reply_Session reply (Ok sid) \<in> set (pr_out st2)" by (simp add: st2 st2'_def)
  ultimately show ?thesis using st1_def st2_def f2 by blast
qed

section \<open>Streams completed by recovery\<close>

lemma recover_batch_completes:
  assumes "connection st sid = Some c" and "receiving c = Some (e, s, sf)"
    and "recovered_writes (en_dbg env) ps sf ((ss_stream s)\<lparr>sm_approved := Some True\<rparr>) = (Ok (), sf', m)"
    and "declare_done m (from_buffer sf')"
    and "xor_recover (en_dbg env) bid sid (pr_fec st) = (Ok (Some ps), fs)"
  obtains w pc where "recover_batch env bid sid st = (Ok (), emit [Send w] (set_connection sid
      (with_stream e (s\<lparr>ss_streaming := Streaming_From sf', ss_stream := m\<lparr>sm_closed := True\<rparr>,
        ss_fec := session_fec_evict bid (ss_fec s)\<rparr>)) (st\<lparr>pr_fec := fs\<rparr>)))"
    and "w = wrap (PlaybackControlPacket pc) (es_address e)" "pc_control_type pc = Play_Done"
proof -
  obtain pc where pc: "done_packet (en_dbg env) (en_now env) (es_session_id e) (es_address e)
      = Ok [Send (wrap (PlaybackControlPacket pc) (es_address e))]" "pc_control_type pc = Play_Done"
    by (simp add: done_packet_def playback_done_def playback_new_def assert_opts_valid_def debug_assert_def Let_def)
  show thesis
    by (rule that [OF _ refl pc(2)])
      (simp add: recover_batch_def cs_recovered_def assms pc(1) Let_def)
qed

text \<open>C11: A stream completed by a recovered packet is announced as done to the peer and as closed to the
  application, but the session stays in the stream and is not free for another one.\<close>

theorem recovery_keeps_session_occupied:
  assumes "connection st sid = Some c" and "receiving c = Some (e, s, sf)"
    and "recovered_writes (en_dbg env) ps sf ((ss_stream s)\<lparr>sm_approved := Some True\<rparr>) = (Ok (), sf', m)"
    and "declare_done m (from_buffer sf')"
    and "xor_recover (en_dbg env) bid sid (pr_fec st) = (Ok (Some ps), fs)"
  shows "\<exists>st' w. recover_batch env bid sid st = (Ok (), st') \<and> pr_out st' = pr_out st @ [Send w]
    \<and> (\<exists>pc. pw_packet w = PlaybackControlPacket pc \<and> pc_control_type pc = Play_Done)
    \<and> flat st' sid = Some Flat_StreamingFrom
    \<and> resolve_target (To_Session sid) st' = Err AE_SessionOccupied"
proof -
  obtain w pc where rb: "recover_batch env bid sid st
      = (Ok (), emit [Send w] (set_connection sid
      (with_stream e (s\<lparr>ss_streaming := Streaming_From sf', ss_stream := m\<lparr>sm_closed := True\<rparr>,
        ss_fec := session_fec_evict bid (ss_fec s)\<rparr>)) (st\<lparr>pr_fec := fs\<rparr>)))" (is "_ = (Ok (), ?st')")
    and w: "w = wrap (PlaybackControlPacket pc) (es_address e)" "pc_control_type pc = Play_Done"
    by (rule recover_batch_completes [OF assms])
  have "pw_packet w = PlaybackControlPacket pc" by (simp add: w(1) wrap_def)
  moreover have "resolve_target (To_Session sid) ?st' = Err AE_SessionOccupied"
    by (simp add: resolve_target_def is_free_def with_stream_def)
  moreover have "pr_out ?st' = pr_out st @ [Send w]" "flat ?st' sid = Some Flat_StreamingFrom" by simp_all
  ultimately show ?thesis using rb w(2) by blast
qed

section \<open>Witnesses\<close>

text \<open>A batch of one packet of which only the parity has arrived.\<close>

definition demo_batch_of_one :: xor_state where
  "demo_batch_of_one = \<lparr>xs_inbound = [((3, 7), (inbound_new 0 1)\<lparr>ib_parity := Some (block_of True demo_data)\<rparr>)],
     xs_outbound = []\<rparr>"

lemma demo_recover: "xor_recover True 3 7 demo_batch_of_one
    = (Ok (Some [\<lparr>rp_byte_range_start = 0, rp_payload = [1, 2, 3]\<rparr>]), \<lparr>xs_inbound = [], xs_outbound = []\<rparr>)"
proof -
  have len: "length (da_payload demo_data) \<le> MAX_PAYLOAD_LENGTH"
    by (simp add: demo_data_def MAX_PAYLOAD_LENGTH_def)
  have "data_xor fec_data_zero (block_of True demo_data) = block_of True demo_data"
    by (rule blocks.add_zero) (simp only: is_block_of [OF len])
  then show ?thesis
    by (simp add: xor_recover_def demo_batch_of_one_def inbound_recover_def inbound_new_def hm_get_def hm_remove_def
        recovered_of_block [OF len] block_payload_def) (simp add: demo_data_def)
qed

lemma demo_write:
  "wb_write True 0 [1, 2, 3] (wb_from [0, 0, 0]) = (Ok (0, 3),
     \<lparr>wb_data = [1, 2, 3], wb_head = 3, wb_map = [True], wb_invalid = []\<rparr>)"
  by (simp add: wb_write_def wb_from_def wb_len_def position_to_index_def position_occupied_def occupy_def
      advance_head_def area_contains_def advance_loop.simps [of "[True]"] MAX_PAYLOAD_LENGTH_def Let_def)

theorem forged_rejection_ends_session_witness:
  "\<exists>data p. (\<forall>A t w. inbound_handle True (A :: u8 aead) (\<lambda>_. []) 0 t data demo_address w
        = (Ok (Some (UpPacket (wrap (HandshakeRejection p) demo_address))), w))
    \<and> connection (handle_packet (demo_env 4) demo_address (HandshakeRejection p) demo_up) 7 = None"
proof -
  have "connection demo_up 7 = Some (Established \<lparr>es_session_id = 7, es_last_activity = 0, es_connection = True,
      es_state = Session_Up, es_address = demo_address, es_app_id = [65]\<rparr>)"
    using demo_up_connection by (simp add: established_new_def)
  from forged_rejection_ends_session [OF this, of True "\<lambda>_. []" 0 demo_address "demo_env 4"]
  show ?thesis by blast
qed

text \<open>A host that has proposed the session 8, and the peer's answer with the session 7.\<close>

definition demo_calling :: "(u8, u8) protocol" where
  "demo_calling = new_handshake 5 demo_address 4 8 1 (protocol_new [66])"

theorem renamed_session_lost_witness:
  "\<exists>st'. st' = handle_packet (demo_env 4) demo_address (HelloPacket demo_hello) demo_calling
    \<and> connection st' 7 \<noteq> None \<and> free_session st' demo_address \<noteq> Some 7
    \<and> key (close_session_routine 7 st') 7 \<noteq> None"
proof -
  have h: "hm_get (pr_handshakes demo_calling) (he_handshake_id demo_hello)
      = Some \<lparr>hk_peer_address = demo_address, hk_secret = 4, hk_session_id = 8, hk_response = 1\<rparr>"
    by (simp add: demo_calling_def new_handshake_def demo_hello_def)
  have c: "connection demo_calling (he_proposed_session_id demo_hello) = None"
    by (simp add: demo_calling_def new_handshake_def)
  have t: "pr_address_session demo_calling = []"
    by (simp add: demo_calling_def new_handshake_def protocol_new_def)
  have p: "he_proposed_session_id demo_hello = 7" by (simp add: demo_hello_def)
  show ?thesis
    using renamed_session_lost [OF h _ c, of demo_address "demo_env 4"] by (simp add: p t)
qed

text \<open>A host with a stream it sends on the session 7, and the task of the stream.\<close>

definition demo_sending :: "(u8, u8) protocol" where
  "demo_sending = (set_connection 7 (Established (demo_established\<lparr>es_state :=
      Session_Streaming (demo_sender [1, 2, 3])\<rparr>)) demo_up)
     \<lparr>pr_events := [shared_default], pr_tasks := [sender_task_new 7 0]\<rparr>"

theorem stale_close_ends_next_stream_witness:
  "\<exists>st1 st2 st3. st1 = close_stream_routine 7 demo_sending
    \<and> st2 = send_data True (To_Session 7) (rb_from [4]) stream_message_default 3 st1
    \<and> st3 = task_event 0 st2
    \<and> flat st2 7 = Some Flat_StreamingTo \<and> flat st3 7 = Some Flat_Up"
proof -
  have "connection demo_sending 7 = Some (Established (demo_established\<lparr>es_state :=
      Session_Streaming (demo_sender [1, 2, 3])\<rparr>))"
    by (simp add: demo_sending_def)
  moreover have "ss_streaming (demo_sender [1, 2, 3])
      = Streaming_To \<lparr>to_buffer = rb_from [1, 2, 3], to_current_batch = 0, to_event = 0\<rparr>"
    by (simp add: demo_sender_def)
  ultimately show ?thesis
    using stale_close_ends_next_stream [of demo_sending 7 _ "demo_sender [1, 2, 3]" _ 0 True "rb_from [4]"
        stream_message_default 3]
    by (simp add: demo_sending_def sender_task_new_def)
qed

definition demo_filled :: "wbuffer" where
  "demo_filled = \<lparr>wb_data = [1, 2, 3], wb_head = 3, wb_map = [True], wb_invalid = []\<rparr>"

theorem recovery_keeps_session_occupied_witness:
  "\<exists>st'. recover_batch (demo_env 4) 3 7 (demo_receiving\<lparr>pr_fec := demo_batch_of_one\<rparr>) = (Ok (), st')
    \<and> resolve_target (To_Session 7) st' = Err AE_SessionOccupied"
proof -
  let ?st = "demo_receiving\<lparr>pr_fec := demo_batch_of_one\<rparr>"
  let ?m = "(ss_stream demo_stream)\<lparr>sm_approved := Some True\<rparr>"
  let ?ps = "[\<lparr>rp_byte_range_start = 0, rp_payload = [1, 2, 3]\<rparr>]"
  have r: "receiving (Established demo_established)
      = Some (demo_established, demo_stream, streaming_from_new (wb_from [0, 0, 0]))"
    by (simp add: receiving_def demo_established_def demo_stream_def)
  have w: "recovered_writes (en_dbg (demo_env 4)) ?ps (streaming_from_new (wb_from [0, 0, 0])) ?m
      = (Ok (), \<lparr>from_buffer = demo_filled, from_pending = []\<rparr>, ?m\<lparr>sm_head := 3\<rparr>)"
    by (simp add: demo_env_def streaming_from_new_def demo_write demo_filled_def clear_pending_def hm_remove_def)
  have d: "declare_done (?m\<lparr>sm_head := 3\<rparr>) (from_buffer \<lparr>from_buffer = demo_filled, from_pending = []\<rparr>)"
    by (simp add: declare_done_def wb_is_done_def wb_head_at_end_def demo_filled_def wb_len_def)
  have x: "xor_recover (en_dbg (demo_env 4)) 3 7 (pr_fec ?st) = (Ok (Some ?ps), \<lparr>xs_inbound = [], xs_outbound = []\<rparr>)"
    by (simp add: demo_env_def demo_recover)
  have c: "connection ?st 7 = Some (Established demo_established)" by (simp add: demo_receiving_connection)
  show ?thesis using recovery_keeps_session_occupied [OF c r w d x] by blast
qed

end
