(* ===== verification/Tasks.thy ===== *)
theory Tasks imports Prelude begin

text \<open>
  The accounting of tasks (\<open>HandleMonitor\<close> of \<open>src/src/utils/mod.rs\<close>) and the shutdown that waits on
  it (\<open>init\<close> of \<open>src/src/manager/outbound.rs\<close>): a counter of running tasks, the single permit of a
  \<open>Notify\<close>, and a flush that waits until the counter is zero. The atomic operations and the wake-up
  are steps of their own, so that every interleaving of one flush with the tasks is covered.
\<close>

section \<open>The monitor\<close>

text \<open>Where the loop of \<open>flush\<close> is: about to load the counter, waiting for a permit, or returned.\<close>

datatype flusher = Checking | Waiting | Returned

text \<open>
  \<open>mo_notifying\<close> counts the tasks between their \<open>fetch_sub\<close> that found 1 and their \<open>notify_one\<close>,
  \<open>mo_lost\<close> those that panicked, which never count down.
\<close>

record monitor =
  mo_running :: nat
  mo_permit :: bool
  mo_notifying :: nat
  mo_lost :: nat
  mo_flush :: flusher

definition monitor_default :: monitor where
  "monitor_default = \<lparr>mo_running = 0, mo_permit = False, mo_notifying = 0, mo_lost = 0, mo_flush = Checking\<rparr>"

definition mo_dispatch :: "monitor \<Rightarrow> monitor" where
  "mo_dispatch m = m\<lparr>mo_running := mo_running m + 1\<rparr>"

definition mo_finish :: "monitor \<Rightarrow> monitor" where
  "mo_finish m = m\<lparr>mo_running := mo_running m - 1,
     mo_notifying := (if mo_running m = 1 then mo_notifying m + 1 else mo_notifying m)\<rparr>"

definition mo_notify :: "monitor \<Rightarrow> monitor" where
  "mo_notify m = m\<lparr>mo_notifying := mo_notifying m - 1, mo_permit := True\<rparr>"

definition mo_panic :: "monitor \<Rightarrow> monitor" where
  "mo_panic m = m\<lparr>mo_lost := mo_lost m + 1\<rparr>"

definition mo_flush_step :: "monitor \<Rightarrow> monitor option" where
  "mo_flush_step m =
     (case mo_flush m of
        Checking \<Rightarrow> Some (m\<lparr>mo_flush := (if mo_running m = 0 then Returned else Waiting)\<rparr>)
      | Waiting \<Rightarrow> if mo_permit m then Some (m\<lparr>mo_permit := False, mo_flush := Checking\<rparr>) else None
      | Returned \<Rightarrow> None)"

text \<open>What the tasks and the flush do without new tasks and without panics, and with both.\<close>

inductive drain_step :: "monitor \<Rightarrow> monitor \<Rightarrow> bool" where
  drain_finish: "mo_lost m < mo_running m \<Longrightarrow> drain_step m (mo_finish m)"
| drain_notify: "0 < mo_notifying m \<Longrightarrow> drain_step m (mo_notify m)"
| drain_flush: "mo_flush_step m = Some m' \<Longrightarrow> drain_step m m'"

inductive monitor_step :: "monitor \<Rightarrow> monitor \<Rightarrow> bool" where
  monitor_drain: "drain_step m m' \<Longrightarrow> monitor_step m m'"
| monitor_dispatch: "monitor_step m (mo_dispatch m)"
| monitor_panic: "mo_lost m < mo_running m \<Longrightarrow> monitor_step m (mo_panic m)"

inductive_cases drain_stepE: "drain_step m m'"
inductive_cases monitor_stepE: "monitor_step m m'"

text \<open>
  A flush that waits while nothing runs has a permit, or one is on its way; panicked tasks stay
  counted.
\<close>

definition monitor_inv :: "monitor \<Rightarrow> bool" where
  "monitor_inv m \<longleftrightarrow> mo_lost m \<le> mo_running m
     \<and> (mo_flush m = Waiting \<longrightarrow> mo_running m = 0 \<longrightarrow> mo_permit m \<or> 0 < mo_notifying m)"

lemma mo_flush_step_Some:
  "mo_flush_step m = Some m' \<longleftrightarrow>
     mo_flush m = Checking \<and> m' = m\<lparr>mo_flush := (if mo_running m = 0 then Returned else Waiting)\<rparr>
     \<or> mo_flush m = Waiting \<and> mo_permit m \<and> m' = m\<lparr>mo_permit := False, mo_flush := Checking\<rparr>"
  by (auto simp: mo_flush_step_def split: flusher.splits)

lemma monitor_inv_drain: "\<lbrakk> drain_step m m'; monitor_inv m \<rbrakk> \<Longrightarrow> monitor_inv m'"
  by (erule drain_stepE)
    (auto simp: monitor_inv_def mo_finish_def mo_notify_def mo_flush_step_Some)

lemma monitor_inv_step: "\<lbrakk> monitor_step m m'; monitor_inv m \<rbrakk> \<Longrightarrow> monitor_inv m'"
  by (erule monitor_stepE)
    (auto simp: monitor_inv_drain, auto simp: monitor_inv_def mo_dispatch_def mo_panic_def)

lemma monitor_inv_default: "monitor_inv monitor_default"
  by (simp add: monitor_inv_def monitor_default_def)

lemma monitor_inv_reachable: "monitor_step\<^sup>*\<^sup>* monitor_default m \<Longrightarrow> monitor_inv m"
  by (induction rule: rtranclp_induct) (blast intro: monitor_inv_default monitor_inv_step)+

definition drain_measure :: "monitor \<Rightarrow> nat" where
  "drain_measure m = 8 * mo_running m + 4 * mo_notifying m + (if mo_permit m then 2 else 0)
     + (case mo_flush m of Checking \<Rightarrow> 1 | _ \<Rightarrow> 0)"

lemma drain_decreases: "drain_step m m' \<Longrightarrow> drain_measure m' < drain_measure m"
  by (erule drain_stepE)
    (auto simp: drain_measure_def mo_finish_def mo_notify_def mo_flush_step_Some split: flusher.splits if_splits)

lemma drain_stuck:
  assumes "monitor_inv m" and "mo_lost m = 0" and "\<forall>m'. \<not> drain_step m m'"
  shows "mo_flush m = Returned \<and> mo_running m = 0"
proof -
  have r: "mo_running m = 0" using assms(2,3) drain_finish [of m] by auto
  have n: "mo_notifying m = 0" using assms(3) drain_notify [of m] by auto
  have f: "mo_flush_step m = None" using assms(3) drain_flush [of m] by (cases "mo_flush_step m") auto
  show ?thesis using assms(1) r n f
    by (cases "mo_flush m") (auto simp: monitor_inv_def mo_flush_step_def)
qed

text \<open>C19: A flush ends if the tasks do: provided that every task that was dispatched ends, and without a panic,
  and that no new task is dispatched, the tasks and the flush take a bounded number of steps in whatever order, and when none
  of them can move the flush has returned and no task runs: the wake-up is never lost.\<close>

theorem flush_returns:
  assumes "monitor_step\<^sup>*\<^sup>* monitor_default m" and "mo_lost m = 0"
  shows "(\<forall>n m'. (drain_step ^^ n) m m' \<longrightarrow> n \<le> drain_measure m)
    \<and> (\<forall>m'. drain_step\<^sup>*\<^sup>* m m' \<longrightarrow> (\<forall>m''. \<not> drain_step m' m'') \<longrightarrow> mo_flush m' = Returned \<and> mo_running m' = 0)"
proof -
  have "n + drain_measure m' \<le> drain_measure m" if "(drain_step ^^ n) m m'" for n m'
    using that
  proof (induction n arbitrary: m')
    case (Suc n)
    then obtain m1 where "(drain_step ^^ n) m m1" "drain_step m1 m'" by auto
    then show ?case using Suc.IH [of m1] drain_decreases [of m1 m'] by simp
  qed simp
  then have a: "(drain_step ^^ n) m m' \<longrightarrow> n \<le> drain_measure m" for n m' by fastforce
  have lost: "drain_step x y \<Longrightarrow> mo_lost y = mo_lost x" for x y
    by (erule drain_stepE) (auto simp: mo_finish_def mo_notify_def mo_flush_step_Some)
  have "monitor_inv m' \<and> mo_lost m' = 0" if "drain_step\<^sup>*\<^sup>* m m'" for m'
    using that
  proof (induction rule: rtranclp_induct)
    case base
    then show ?case using monitor_inv_reachable [OF assms(1)] assms(2) by simp
  next
    case (step y z)
    then show ?case using monitor_inv_drain [of y z] lost [of y z] by simp
  qed
  then show ?thesis using a drain_stuck by blast
qed

theorem flush_returns_witness:
  "\<exists>m'. drain_step\<^sup>*\<^sup>* (mo_dispatch monitor_default) m' \<and> mo_permit m' \<and> mo_flush m' = Returned"
proof -
  let ?m = "mo_dispatch monitor_default"
  let ?e = "mo_notify (mo_finish ?m)"
  let ?r = "?e\<lparr>mo_flush := Returned\<rparr>"
  have 1: "drain_step ?m (mo_finish ?m)" by (rule drain_finish) (simp add: mo_dispatch_def monitor_default_def)
  have 2: "drain_step (mo_finish ?m) ?e"
    by (rule drain_notify) (simp add: mo_finish_def mo_dispatch_def monitor_default_def)
  have 3: "drain_step ?e ?r"
    by (rule drain_flush)
      (simp add: mo_flush_step_def mo_notify_def mo_finish_def mo_dispatch_def monitor_default_def)
  have r: "drain_step\<^sup>*\<^sup>* ?m ?r" using 1 2 3 by (meson converse_rtranclp_into_rtranclp rtranclp.rtrancl_refl)
  have stuck: "\<forall>m''. \<not> drain_step ?r m''"
    by (auto elim!: drain_stepE
        simp: mo_flush_step_Some mo_notify_def mo_finish_def mo_dispatch_def monitor_default_def)
  have "monitor_step\<^sup>*\<^sup>* monitor_default ?m" by (blast intro: monitor_dispatch)
  moreover have "mo_lost ?m = 0" by (simp add: mo_dispatch_def monitor_default_def)
  ultimately have "mo_flush ?r = Returned"
    using r stuck conjunct2 [OF flush_returns, of ?m] by blast
  moreover have "mo_permit ?r" by (simp add: mo_notify_def)
  ultimately show ?thesis using r by blast
qed

text \<open>A panicked task blocks every flush for good: the counter never reaches zero again, so a flush
  that has not returned when the task panics never does.\<close>

theorem panic_blocks_flush:
  assumes "monitor_step\<^sup>*\<^sup>* monitor_default m" and "0 < mo_lost m" and "mo_flush m \<noteq> Returned"
    and "monitor_step\<^sup>*\<^sup>* m m'"
  shows "mo_flush m' \<noteq> Returned \<and> 0 < mo_running m'"
proof -
  have "monitor_inv m' \<and> 0 < mo_lost m' \<and> mo_flush m' \<noteq> Returned"
    using assms(4)
  proof (induction rule: rtranclp_induct)
    case base
    then show ?case using monitor_inv_reachable [OF assms(1)] assms(2,3) by simp
  next
    case (step y z)
    then have inv: "monitor_inv z" "0 < mo_running y" using monitor_inv_step [of y z] by (auto simp: monitor_inv_def)
    from step(2) have "mo_lost y \<le> mo_lost z \<and> (mo_flush z = Returned \<longrightarrow> mo_flush y = Returned \<or> mo_running y = 0)"
      by (elim monitor_stepE drain_stepE)
        (auto simp: mo_finish_def mo_notify_def mo_flush_step_Some mo_dispatch_def mo_panic_def split: if_splits)
    then show ?case using step inv by auto
  qed
  then show ?thesis by (auto simp: monitor_inv_def)
qed

theorem panic_blocks_flush_witness:
  "\<exists>m'. monitor_step (mo_panic (mo_dispatch monitor_default)) m' \<and> 1 < mo_running m' \<and> mo_flush m' \<noteq> Returned"
proof -
  have "monitor_step (mo_dispatch monitor_default) (mo_panic (mo_dispatch monitor_default))"
    by (rule monitor_panic) (simp add: mo_dispatch_def monitor_default_def)
  then have "monitor_step\<^sup>*\<^sup>* monitor_default (mo_panic (mo_dispatch monitor_default))"
    using monitor_dispatch [of monitor_default] by (meson r_into_rtranclp rtranclp.rtrancl_into_rtrancl)
  moreover have "0 < mo_lost (mo_panic (mo_dispatch monitor_default))"
    "mo_flush (mo_panic (mo_dispatch monitor_default)) \<noteq> Returned"
    by (simp_all add: mo_panic_def mo_dispatch_def monitor_default_def)
  moreover have n: "monitor_step (mo_panic (mo_dispatch monitor_default))
      (mo_dispatch (mo_panic (mo_dispatch monitor_default)))"
    by (rule monitor_dispatch)
  ultimately have "mo_flush (mo_dispatch (mo_panic (mo_dispatch monitor_default))) \<noteq> Returned"
    using panic_blocks_flush by blast
  moreover have "1 < mo_running (mo_dispatch (mo_panic (mo_dispatch monitor_default)))"
    by (simp add: mo_panic_def mo_dispatch_def monitor_default_def)
  ultimately show ?thesis using n by blast
qed

end
