(* ===== verification/Shutdown.thy ===== *)
theory Shutdown imports Tasks begin

text \<open>
  The close of the protocol (the arm \<open>ApiCommand::Close\<close> of \<open>src/src/manager/outbound.rs\<close>) with the
  tasks it waits for: the routines of commands, the tasks of senders (\<open>send_on_session\<close>), and the tasks
  of the global monitor, three of which are the pruning loops started by \<open>init\<close> of
  \<open>src/src/manager/mod.rs\<close>. A flush ends when no task of its monitor runs (\<open>flush_returns\<close> in the
  theory \<open>Tasks\<close>).
\<close>

text \<open>A task of the command loop: a routine that ends, or a sender, whose loop has no exit.\<close>

datatype command_task = Short_Routine | Sender_Loop

datatype global_task = Ack_Prune_Loop | Fec_Prune_Loop | Fingerprint_Prune_Loop | Global_Routine

datatype close_phase = Serving | Flushing_Commands | Flushing_Global | Closing_Layers | Closed_Down

record shutdown =
  sd_phase :: close_phase
  sd_ack_canceled :: bool
  sd_fec_canceled :: bool
  sd_fingerprint_canceled :: bool
  sd_commands :: "command_task list"
  sd_global :: "global_task list"

definition shutdown_init :: shutdown where
  "shutdown_init =
     \<lparr>sd_phase = Serving, sd_ack_canceled = False, sd_fec_canceled = False, sd_fingerprint_canceled = False,
      sd_commands = [], sd_global = [Ack_Prune_Loop, Fec_Prune_Loop, Fingerprint_Prune_Loop]\<rparr>"

text \<open>A pruning loop ends when its window is cancelled.\<close>

fun may_end :: "shutdown \<Rightarrow> global_task \<Rightarrow> bool" where
  "may_end s Ack_Prune_Loop = sd_ack_canceled s"
| "may_end s Fec_Prune_Loop = sd_fec_canceled s"
| "may_end s Fingerprint_Prune_Loop = sd_fingerprint_canceled s"
| "may_end s Global_Routine = True"

definition cancel_windows :: "shutdown \<Rightarrow> shutdown" where
  "cancel_windows s = s\<lparr>sd_ack_canceled := True, sd_fec_canceled := True\<rparr>"

inductive shutdown_step :: "shutdown \<Rightarrow> shutdown \<Rightarrow> bool" where
  sd_command: "sd_phase s = Serving \<Longrightarrow> shutdown_step s (s\<lparr>sd_commands := t # sd_commands s\<rparr>)"
| sd_command_end: "Short_Routine \<in> set (sd_commands s)
    \<Longrightarrow> shutdown_step s (s\<lparr>sd_commands := remove1 Short_Routine (sd_commands s)\<rparr>)"
| sd_routine: "shutdown_step s (s\<lparr>sd_global := Global_Routine # sd_global s\<rparr>)"
| sd_global_end: "\<lbrakk> t \<in> set (sd_global s); may_end s t \<rbrakk>
    \<Longrightarrow> shutdown_step s (s\<lparr>sd_global := remove1 t (sd_global s)\<rparr>)"
| sd_close: "sd_phase s = Serving \<Longrightarrow> shutdown_step s (s\<lparr>sd_phase := Flushing_Commands\<rparr>)"
| sd_flushed: "\<lbrakk> sd_phase s = Flushing_Commands; sd_commands s = [] \<rbrakk>
    \<Longrightarrow> shutdown_step s (cancel_windows (s\<lparr>sd_phase := Flushing_Global\<rparr>))"
| sd_global_flushed: "\<lbrakk> sd_phase s = Flushing_Global; sd_global s = [] \<rbrakk>
    \<Longrightarrow> shutdown_step s (s\<lparr>sd_phase := Closing_Layers\<rparr>)"
| sd_joined: "sd_phase s = Closing_Layers \<Longrightarrow> shutdown_step s (s\<lparr>sd_phase := Closed_Down\<rparr>)"

inductive_cases shutdown_stepE: "shutdown_step s s'"

definition never_closes :: "shutdown \<Rightarrow> bool" where
  "never_closes s \<longleftrightarrow> sd_phase s \<noteq> Closing_Layers \<and> sd_phase s \<noteq> Closed_Down
     \<and> \<not> sd_fingerprint_canceled s \<and> Fingerprint_Prune_Loop \<in> set (sd_global s)"

lemma in_remove1: "\<lbrakk> x \<in> set xs; x \<noteq> t \<rbrakk> \<Longrightarrow> x \<in> set (remove1 t xs)"
  by (simp add: in_set_remove1)

lemma never_closes_step: "\<lbrakk> shutdown_step s s'; never_closes s \<rbrakk> \<Longrightarrow> never_closes s'"
  by (erule shutdown_stepE) (auto simp: never_closes_def cancel_windows_def intro: in_remove1)

text \<open>A sender keeps the command loop from its first flush on.\<close>

definition sender_runs :: "shutdown \<Rightarrow> bool" where
  "sender_runs s \<longleftrightarrow> Sender_Loop \<in> set (sd_commands s) \<and> (sd_phase s = Serving \<or> sd_phase s = Flushing_Commands)"

lemma sender_runs_step: "\<lbrakk> shutdown_step s s'; sender_runs s \<rbrakk> \<Longrightarrow> sender_runs s'"
  by (erule shutdown_stepE) (auto simp: sender_runs_def cancel_windows_def intro: in_remove1)

text \<open>C22: The close of the protocol never completes. Nothing cancels the window of fingerprints, whose
  pruning loop the global monitor counts, so in no reachable state, after whatever commands and whatever
  routines have ended, are the lower layers told to close. Once a stream has been sent the close does not even
  get past its first flush, as the task of a sender has no exit.\<close>

theorem close_never_completes:
  "(shutdown_step\<^sup>*\<^sup>* shutdown_init s \<longrightarrow> sd_phase s \<noteq> Closing_Layers \<and> sd_phase s \<noteq> Closed_Down)
   \<and> (shutdown_step\<^sup>*\<^sup>* shutdown_init s \<longrightarrow> Sender_Loop \<in> set (sd_commands s) \<longrightarrow> sd_phase s = Serving
        \<longrightarrow> (\<forall>s'. shutdown_step\<^sup>*\<^sup>* s s' \<longrightarrow> sd_phase s' \<noteq> Flushing_Global))"
proof (intro conjI impI allI)
  have "never_closes s" if "shutdown_step\<^sup>*\<^sup>* shutdown_init s"
    using that
    by (induction rule: rtranclp_induct)
      (simp add: never_closes_def shutdown_init_def, blast intro: never_closes_step)
  then show "shutdown_step\<^sup>*\<^sup>* shutdown_init s \<Longrightarrow> sd_phase s \<noteq> Closing_Layers"
    and "shutdown_step\<^sup>*\<^sup>* shutdown_init s \<Longrightarrow> sd_phase s \<noteq> Closed_Down"
    by (auto simp: never_closes_def)
  fix s'
  assume s: "Sender_Loop \<in> set (sd_commands s)" "sd_phase s = Serving" and r: "shutdown_step\<^sup>*\<^sup>* s s'"
  have "sender_runs s'"
    using r by (induction rule: rtranclp_induct) (simp add: sender_runs_def s, blast intro: sender_runs_step)
  then show "sd_phase s' \<noteq> Flushing_Global" by (auto simp: sender_runs_def)
qed

theorem close_never_completes_witness:
  "\<exists>s. shutdown_step\<^sup>*\<^sup>* shutdown_init s \<and> sd_commands s = [Sender_Loop]
    \<and> sd_phase s \<noteq> Closed_Down \<and> (\<exists>s'. shutdown_step\<^sup>*\<^sup>* s s' \<and> sd_phase s' = Flushing_Commands \<and> sd_phase s' \<noteq> Flushing_Global)"
proof -
  let ?s = "shutdown_init\<lparr>sd_commands := [Sender_Loop]\<rparr>"
  let ?t = "?s\<lparr>sd_phase := Flushing_Commands\<rparr>"
  have s: "shutdown_step\<^sup>*\<^sup>* shutdown_init ?s"
    using sd_command [of shutdown_init Sender_Loop] by (simp add: shutdown_init_def r_into_rtranclp)
  have t: "shutdown_step\<^sup>*\<^sup>* ?s ?t"
    using sd_close [of ?s] by (simp add: shutdown_init_def r_into_rtranclp)
  have c: "Sender_Loop \<in> set (sd_commands ?s)" "sd_phase ?s = Serving" by (simp_all add: shutdown_init_def)
  have "sd_phase ?s \<noteq> Closed_Down" "sd_phase ?t \<noteq> Flushing_Global"
    using close_never_completes [of ?s] s t c by blast+
  then show ?thesis using s t by (intro exI [of _ ?s]) auto
qed

end
