(* ===== verification/Locks.thy ===== *)
theory Locks imports Prelude begin

text \<open>
  The order in which the routines of the manager take the locks of \<open>ProtocolState\<close>
  (\<open>src/src/manager/state.rs\<close>, \<open>routines/received.rs\<close>, \<open>routines/endpoints.rs\<close>). Every routine that
  takes a lock of the tables, of a session or of a window while it may hold another one has its
  sequence of acquisitions and releases here, on its longest path; a guard is released where its scope
  or its statement ends. An early return releases what is held: \<open>cut_short\<close>.

  All but one routine take the locks in the order \<open>lock_rank\<close>, and no interleaving of those
  routines is ever stuck. The exception is \<open>free_session\<close>.
\<close>

section \<open>Locks, paths and their interleaving\<close>

text \<open>The locks of the tables, of one session (by its number) and of the windows.\<close>

datatype manager_lock =
    Handshakes_Lock | Connections_Lock | Address_Session_Lock | Encryption_Lock
  | Session_Address_Lock nat | Last_Activity_Lock nat | Event_Lock nat
  | Fec_Inbound_Lock | Fec_Entry_Lock | Ack_Queue_Lock | Ack_Pending_Lock

text \<open>A read guard is shared; a write guard, or the guard of a mutex, is exclusive.\<close>

datatype access = Shared_Guard | Exclusive_Guard

datatype lock_action = Acquire manager_lock access | Release manager_lock

abbreviation reads_lock :: "manager_lock \<Rightarrow> lock_action" where
  "reads_lock l \<equiv> Acquire l Shared_Guard"

abbreviation writes_lock :: "manager_lock \<Rightarrow> lock_action" where
  "writes_lock l \<equiv> Acquire l Exclusive_Guard"

type_synonym guards = "(manager_lock \<times> access) list"
type_synonym lock_task = "guards \<times> lock_action list"

fun take_action :: "lock_action \<Rightarrow> guards \<Rightarrow> guards" where
  "take_action (Acquire l a) h = (l, a) # h"
| "take_action (Release l) h = filter (\<lambda>g. fst g \<noteq> l) h"

definition guards_after :: "lock_action list \<Rightarrow> guards \<Rightarrow> guards" where
  "guards_after p h = fold take_action p h"

text \<open>A return after \<open>n\<close> actions drops the guards that are held there.\<close>

definition cut_short :: "nat \<Rightarrow> lock_action list \<Rightarrow> lock_action list" where
  "cut_short n p = take n p @ map (Release \<circ> fst) (guards_after (take n p) [])"

text \<open>A task is held up by the guards of another task.\<close>

definition held_against :: "lock_task list \<Rightarrow> nat \<Rightarrow> manager_lock \<Rightarrow> access \<Rightarrow> bool" where
  "held_against ts i l a \<longleftrightarrow> (\<exists>j<length ts. j \<noteq> i
     \<and> (\<exists>b. (l, b) \<in> set (fst (ts ! j)) \<and> (a = Exclusive_Guard \<or> b = Exclusive_Guard)))"

definition blocked :: "lock_task list \<Rightarrow> nat \<Rightarrow> bool" where
  "blocked ts i = (case snd (ts ! i) of Acquire l a # _ \<Rightarrow> held_against ts i l a | _ \<Rightarrow> False)"

text \<open>The lock is fair: a reader may also have to wait for a writer that waits before it.\<close>

definition queued_against :: "lock_task list \<Rightarrow> nat \<Rightarrow> manager_lock \<Rightarrow> bool" where
  "queued_against ts i l \<longleftrightarrow> (\<exists>j<length ts. j \<noteq> i \<and> (\<exists>p. snd (ts ! j) = writes_lock l # p))"

definition may_wait :: "lock_task list \<Rightarrow> nat \<Rightarrow> bool" where
  "may_wait ts i \<longleftrightarrow> blocked ts i
     \<or> (case snd (ts ! i) of Acquire l Shared_Guard # _ \<Rightarrow> queued_against ts i l | _ \<Rightarrow> False)"

fun advance_task :: "lock_task \<Rightarrow> lock_task" where
  "advance_task (h, []) = (h, [])"
| "advance_task (h, x # p) = (take_action x h, p)"

inductive lock_step :: "lock_task list \<Rightarrow> lock_task list \<Rightarrow> bool" where
  lock_step_task: "\<lbrakk> i < length ts; snd (ts ! i) \<noteq> []; \<not> blocked ts i \<rbrakk>
    \<Longrightarrow> lock_step ts (ts[i := advance_task (ts ! i)])"

inductive_cases lock_stepE: "lock_step ts ts'"

section \<open>The paths of the routines\<close>

text \<open>Of the state (\<open>state.rs\<close>); \<open>s\<close> is the session.\<close>

definition promote_handshake_locks :: "lock_action list" where
  "promote_handshake_locks =
     [writes_lock Handshakes_Lock, Release Handshakes_Lock,
      writes_lock Connections_Lock, writes_lock Address_Session_Lock,
      Release Address_Session_Lock, Release Connections_Lock]"

definition reuse_handshake_locks :: "lock_action list" where
  "reuse_handshake_locks =
     [writes_lock Handshakes_Lock, Release Handshakes_Lock,
      reads_lock Handshakes_Lock, Release Handshakes_Lock,
      writes_lock Handshakes_Lock, Release Handshakes_Lock]"

definition handshake_done_locks :: "lock_action list" where
  "handshake_done_locks = [writes_lock Connections_Lock, Release Connections_Lock]"

definition new_session_locks :: "lock_action list" where
  "new_session_locks =
     [writes_lock Connections_Lock, writes_lock Address_Session_Lock,
      Release Address_Session_Lock, Release Connections_Lock]"

definition advertise_closed_locks :: "nat \<Rightarrow> lock_action list" where
  "advertise_closed_locks s =
     [writes_lock Connections_Lock, reads_lock (Session_Address_Lock s),
      Release (Session_Address_Lock s), Release Connections_Lock]"

definition close_session_locks :: "nat \<Rightarrow> lock_action list" where
  "close_session_locks s =
     [writes_lock Connections_Lock, Release Connections_Lock,
      reads_lock (Session_Address_Lock s), Release (Session_Address_Lock s),
      writes_lock Address_Session_Lock, Release Address_Session_Lock,
      writes_lock Encryption_Lock, Release Encryption_Lock]"

definition close_stream_locks :: "nat \<Rightarrow> lock_action list" where
  "close_stream_locks s =
     [writes_lock Connections_Lock, writes_lock (Event_Lock s),
      Release (Event_Lock s), Release Connections_Lock]"

definition update_address_locks :: "nat \<Rightarrow> lock_action list" where
  "update_address_locks s =
     [reads_lock Connections_Lock, reads_lock (Session_Address_Lock s),
      Release (Session_Address_Lock s), Release Connections_Lock,
      writes_lock Address_Session_Lock, Release Address_Session_Lock,
      writes_lock Address_Session_Lock, Release Address_Session_Lock,
      writes_lock Connections_Lock, writes_lock (Session_Address_Lock s),
      Release (Session_Address_Lock s), Release Connections_Lock]"

definition keep_alive_locks :: "nat \<Rightarrow> lock_action list" where
  "keep_alive_locks s =
     [reads_lock Connections_Lock, reads_lock (Session_Address_Lock s),
      Release (Session_Address_Lock s), Release Connections_Lock]"

definition send_on_session_locks :: "lock_action list" where
  "send_on_session_locks = [writes_lock Connections_Lock, Release Connections_Lock]"

definition send_stream_locks :: "nat \<Rightarrow> lock_action list" where
  "send_stream_locks s =
     [writes_lock Connections_Lock, reads_lock (Session_Address_Lock s),
      Release (Session_Address_Lock s), Release Connections_Lock]"

definition seek_action_locks :: "lock_action list" where
  "seek_action_locks = [writes_lock Connections_Lock, Release Connections_Lock]"

definition free_session_locks :: "lock_action list" where
  "free_session_locks =
     [reads_lock Address_Session_Lock, reads_lock Connections_Lock,
      Release Connections_Lock, Release Address_Session_Lock]"

definition ack_prune_locks :: "nat \<Rightarrow> lock_action list" where
  "ack_prune_locks s =
     [writes_lock Ack_Queue_Lock, Release Ack_Queue_Lock,
      reads_lock Ack_Pending_Lock, Release Ack_Pending_Lock,
      reads_lock Connections_Lock, reads_lock (Session_Address_Lock s),
      Release (Session_Address_Lock s), Release Connections_Lock,
      writes_lock Ack_Queue_Lock, Release Ack_Queue_Lock,
      writes_lock Ack_Pending_Lock, Release Ack_Pending_Lock]"

definition fec_prune_locks :: "nat \<Rightarrow> lock_action list" where
  "fec_prune_locks s =
     [writes_lock Connections_Lock, reads_lock (Session_Address_Lock s),
      Release (Session_Address_Lock s), Release Connections_Lock]"

text \<open>Of the forward error correction (\<open>fec/xor.rs\<close>), which routines call under the connections table.\<close>

definition fec_received_locks :: "lock_action list" where
  "fec_received_locks =
     [writes_lock Fec_Inbound_Lock, Release Fec_Inbound_Lock, writes_lock Fec_Entry_Lock, Release Fec_Entry_Lock]"

definition fec_recover_locks :: "lock_action list" where
  "fec_recover_locks =
     [writes_lock Fec_Inbound_Lock, Release Fec_Inbound_Lock, writes_lock Fec_Entry_Lock, Release Fec_Entry_Lock]"

text \<open>Of the reactions to packets (\<open>received.rs\<close>).\<close>

definition requires_ack_locks :: "nat \<Rightarrow> lock_action list" where
  "requires_ack_locks s =
     [reads_lock Connections_Lock, reads_lock (Session_Address_Lock s),
      Release (Session_Address_Lock s), Release Connections_Lock]"

definition update_last_activity_locks :: "nat \<Rightarrow> lock_action list" where
  "update_last_activity_locks s =
     [reads_lock Connections_Lock, writes_lock (Last_Activity_Lock s),
      Release (Last_Activity_Lock s), Release Connections_Lock]"

definition notify_and_close_locks :: "nat \<Rightarrow> lock_action list" where
  "notify_and_close_locks s =
     [reads_lock Connections_Lock, Release Connections_Lock] @ close_session_locks s"

definition failed_to_deref_locks :: "nat \<Rightarrow> lock_action list" where
  "failed_to_deref_locks s =
     [writes_lock Connections_Lock, Release Connections_Lock] @ close_session_locks s"

definition received_retransmit_locks :: "nat \<Rightarrow> lock_action list" where
  "received_retransmit_locks s = requires_ack_locks s
     @ [reads_lock Connections_Lock, writes_lock (Event_Lock s),
        Release (Event_Lock s), Release Connections_Lock]"

definition received_parity_locks :: "nat \<Rightarrow> lock_action list" where
  "received_parity_locks s = fec_received_locks @ [writes_lock Connections_Lock] @ fec_recover_locks
     @ [reads_lock (Session_Address_Lock s), Release (Session_Address_Lock s), Release Connections_Lock]
     @ failed_to_deref_locks s"

text \<open>The connection writes its chunk and gives the packet to the batch under the write guard.\<close>

definition received_data_locks :: "nat \<Rightarrow> lock_action list" where
  "received_data_locks s =
     [reads_lock Connections_Lock, Release Connections_Lock] @ requires_ack_locks s
     @ [writes_lock Connections_Lock, reads_lock (Session_Address_Lock s), Release (Session_Address_Lock s)]
     @ fec_received_locks @ [Release Connections_Lock]
     @ fec_recover_locks
     @ [writes_lock Connections_Lock, reads_lock (Session_Address_Lock s),
        Release (Session_Address_Lock s), Release Connections_Lock]
     @ failed_to_deref_locks s"

definition hello_as_receiver_locks :: "lock_action list" where
  "hello_as_receiver_locks =
     [reads_lock Handshakes_Lock, Release Handshakes_Lock, reads_lock Connections_Lock, Release Connections_Lock]
     @ new_session_locks @ [writes_lock Encryption_Lock, Release Encryption_Lock]"

definition hello_as_initializer_locks :: "lock_action list" where
  "hello_as_initializer_locks =
     [reads_lock Handshakes_Lock, Release Handshakes_Lock, reads_lock Connections_Lock, Release Connections_Lock]
     @ promote_handshake_locks @ [writes_lock Encryption_Lock, Release Encryption_Lock]"

definition playback_control_locks :: "nat \<Rightarrow> lock_action list" where
  "playback_control_locks s =
     [reads_lock Connections_Lock, writes_lock (Event_Lock s), Release (Event_Lock s), Release Connections_Lock]"

text \<open>Of the commands (\<open>endpoints.rs\<close>); the packet of a close is sent under the read guard.\<close>

definition resolve_session_locks :: "nat \<Rightarrow> lock_action list" where
  "resolve_session_locks s =
     [reads_lock Connections_Lock, reads_lock (Session_Address_Lock s),
      Release (Session_Address_Lock s), Release Connections_Lock]"

definition close_session_command_locks :: "nat \<Rightarrow> lock_action list" where
  "close_session_command_locks s =
     [reads_lock Connections_Lock, reads_lock (Session_Address_Lock s),
      Release (Session_Address_Lock s), Release Connections_Lock] @ close_session_locks s"

definition close_stream_command_locks :: "nat \<Rightarrow> lock_action list" where
  "close_stream_command_locks s = close_stream_locks s
     @ [reads_lock Connections_Lock, reads_lock (Session_Address_Lock s),
        Release (Session_Address_Lock s), Release Connections_Lock]"

definition playback_command_locks :: "nat \<Rightarrow> lock_action list" where
  "playback_command_locks s =
     [reads_lock Connections_Lock, reads_lock (Session_Address_Lock s),
      Release (Session_Address_Lock s), Release Connections_Lock,
      writes_lock Connections_Lock, Release Connections_Lock]"

text \<open>A task of a routine: the paths of \<open>free_session\<close> apart, and all of them.\<close>

definition ordered_paths :: "nat \<Rightarrow> lock_action list list" where
  "ordered_paths s =
     [promote_handshake_locks, reuse_handshake_locks, handshake_done_locks, new_session_locks,
      advertise_closed_locks s, close_session_locks s, close_stream_locks s, update_address_locks s,
      keep_alive_locks s, send_on_session_locks, send_stream_locks s, seek_action_locks,
      ack_prune_locks s, fec_prune_locks s, fec_received_locks, fec_recover_locks,
      requires_ack_locks s, update_last_activity_locks s, notify_and_close_locks s,
      failed_to_deref_locks s, received_retransmit_locks s, received_parity_locks s,
      received_data_locks s, hello_as_receiver_locks, hello_as_initializer_locks,
      playback_control_locks s, resolve_session_locks s, close_session_command_locks s,
      close_stream_command_locks s, playback_command_locks s]"

definition manager_paths :: "nat \<Rightarrow> lock_action list list" where
  "manager_paths s = free_session_locks # ordered_paths s"

definition task_of :: "lock_action list \<Rightarrow> nat \<Rightarrow> lock_task" where
  "task_of p n = ([], cut_short n p)"

section \<open>Ordered paths are never stuck\<close>

text \<open>The order of acquisition.\<close>

fun lock_rank :: "manager_lock \<Rightarrow> nat" where
  "lock_rank Handshakes_Lock = 0"
| "lock_rank Connections_Lock = 1"
| "lock_rank Address_Session_Lock = 2"
| "lock_rank _ = 3"

fun disciplined :: "guards \<Rightarrow> lock_action list \<Rightarrow> bool" where
  "disciplined h [] = (h = [])"
| "disciplined h (Acquire l a # p) =
     (list_all (\<lambda>g. lock_rank (fst g) < lock_rank l) h \<and> disciplined ((l, a) # h) p)"
| "disciplined h (Release l # p) = disciplined (filter (\<lambda>g. fst g \<noteq> l) h) p"

text \<open>What is held when a path is left is released: a shortened path is disciplined too.\<close>

lemma disciplined_release_all: "disciplined h (map (Release \<circ> fst) h)"
proof -
  have "disciplined (filter (\<lambda>g. fst g \<notin> set ls) h) (map Release ms)"
    if "fst ` set h \<subseteq> set ls \<union> set ms" for ls ms
    using that
  proof (induction ms arbitrary: ls)
    case Nil
    then show ?case by (auto simp: filter_empty_conv)
  next
    case (Cons m ms)
    have "filter (\<lambda>g. fst g \<noteq> m) (filter (\<lambda>g. fst g \<notin> set ls) h) = filter (\<lambda>g. fst g \<notin> set (m # ls)) h"
      by (auto intro!: filter_cong)
    then show ?case using Cons.IH [of "m # ls"] Cons.prems by auto
  qed
  from this [of "[]" "map fst h"] show ?thesis by simp
qed

lemma disciplined_take:
  "disciplined h p \<Longrightarrow> disciplined h (take n p @ map (Release \<circ> fst) (guards_after (take n p) h))"
proof (induction h p arbitrary: n rule: disciplined.induct)
  case (1 h)
  then show ?case by (simp add: guards_after_def)
next
  case (2 h l a p)
  then show ?case by (cases n) (simp_all add: guards_after_def disciplined_release_all [unfolded comp_def])
next
  case (3 h l p)
  then show ?case by (cases n) (simp_all add: guards_after_def disciplined_release_all [unfolded comp_def])
qed

lemma disciplined_cut_short: "disciplined [] p \<Longrightarrow> disciplined [] (cut_short n p)"
  unfolding cut_short_def by (rule disciplined_take)

lemmas path_defs =
  promote_handshake_locks_def reuse_handshake_locks_def handshake_done_locks_def new_session_locks_def
  advertise_closed_locks_def close_session_locks_def close_stream_locks_def update_address_locks_def
  keep_alive_locks_def send_on_session_locks_def send_stream_locks_def seek_action_locks_def
  ack_prune_locks_def fec_prune_locks_def fec_received_locks_def fec_recover_locks_def
  requires_ack_locks_def update_last_activity_locks_def notify_and_close_locks_def
  failed_to_deref_locks_def received_retransmit_locks_def received_parity_locks_def
  received_data_locks_def hello_as_receiver_locks_def hello_as_initializer_locks_def
  playback_control_locks_def resolve_session_locks_def close_session_command_locks_def
  close_stream_command_locks_def playback_command_locks_def

lemma ordered_paths_disciplined: "p \<in> set (ordered_paths s) \<Longrightarrow> disciplined [] p"
  by (auto simp: ordered_paths_def path_defs)

lemma disciplined_nonempty: "\<lbrakk> disciplined h p; h \<noteq> [] \<rbrakk> \<Longrightarrow> p \<noteq> []"
  by auto

definition disciplined_task :: "lock_task \<Rightarrow> bool" where
  "disciplined_task t = disciplined (fst t) (snd t)"

lemma disciplined_advance: "disciplined_task t \<Longrightarrow> disciplined_task (advance_task t)"
  by (cases t rule: advance_task.cases)
    (auto simp: disciplined_task_def split: lock_action.splits, rename_tac x p, case_tac x, auto)

lemma disciplined_reachable:
  "\<lbrakk> lock_step\<^sup>*\<^sup>* ts ts'; list_all disciplined_task ts \<rbrakk> \<Longrightarrow> list_all disciplined_task ts'"
proof (induction rule: rtranclp_induct)
  case (step y z)
  then show ?case
    by (auto elim!: lock_stepE simp: list_all_length nth_list_update disciplined_advance)
qed simp

text \<open>A task that may have to wait waits for a lock that some other task holds.\<close>

lemma may_wait_holder:
  assumes "may_wait ts i" and "\<forall>k<length ts. snd (ts ! k) \<noteq> [] \<longrightarrow> may_wait ts k" and "i < length ts"
  shows "\<exists>l a p j b. snd (ts ! i) = Acquire l a # p \<and> j < length ts \<and> (l, b) \<in> set (fst (ts ! j))"
proof -
  have *: "\<exists>a p j b. snd (ts ! k) = Acquire l a # p \<and> j < length ts \<and> (l, b) \<in> set (fst (ts ! j))"
    if "blocked ts k" "snd (ts ! k) = Acquire l a # p" for k l a p
    using that by (auto simp: blocked_def held_against_def)
  from assms(1) consider "blocked ts i"
    | l p where "snd (ts ! i) = reads_lock l # p" "queued_against ts i l"
    by (auto simp: may_wait_def split: list.splits lock_action.splits access.splits)
  then show ?thesis
  proof cases
    case 1
    then obtain l a p where "snd (ts ! i) = Acquire l a # p"
      by (auto simp: blocked_def split: list.splits lock_action.splits)
    with * [OF 1 this] show ?thesis by blast
  next
    case 2
    then obtain k q where k: "k < length ts" "snd (ts ! k) = writes_lock l # q"
      by (auto simp: queued_against_def)
    then have "may_wait ts k" using assms(2) by simp
    then have "blocked ts k" using k(2) by (simp add: may_wait_def)
    from * [OF this k(2)] 2(1) show ?thesis by blast
  qed
qed

lemma disciplined_progress:
  assumes d: "list_all disciplined_task ts" and u: "i < length ts" "snd (ts ! i) \<noteq> []"
  shows "\<exists>j<length ts. snd (ts ! j) \<noteq> [] \<and> \<not> may_wait ts j"
proof (rule ccontr)
  assume "\<not> ?thesis"
  then have w: "\<forall>k<length ts. snd (ts ! k) \<noteq> [] \<longrightarrow> may_wait ts k" by blast
  define want where "want k = (case snd (ts ! k) of Acquire l a # _ \<Rightarrow> lock_rank l | _ \<Rightarrow> 0)" for k
  let ?I = "{k. k < length ts \<and> snd (ts ! k) \<noteq> []}"
  have fin: "finite (want ` ?I)" by simp
  have "Max (want ` ?I) \<in> want ` ?I" using u fin by (intro Max_in) auto
  then obtain m where m: "m < length ts" "snd (ts ! m) \<noteq> []" "want m = Max (want ` ?I)" by auto
  then obtain l a p j b where h: "snd (ts ! m) = Acquire l a # p" "j < length ts" "(l, b) \<in> set (fst (ts ! j))"
    using may_wait_holder [of ts m] w by blast
  have dj: "disciplined (fst (ts ! j)) (snd (ts ! j))"
    using d h(2) by (simp add: list_all_length disciplined_task_def)
  then have j: "snd (ts ! j) \<noteq> []" using h(3) by (intro disciplined_nonempty) auto
  then obtain l' a' p' where n: "snd (ts ! j) = Acquire l' a' # p'"
    using may_wait_holder [of ts j] w h(2) by blast
  then have "lock_rank l < lock_rank l'" using dj h(3) by (auto simp: list_all_iff)
  moreover have "want j \<le> Max (want ` ?I)" using fin h(2) j by (intro Max_ge) auto
  ultimately show False using m(3) h(1) n by (simp add: want_def)
qed

lemma ordered_task_disciplined:
  "p \<in> set (ordered_paths s) \<Longrightarrow> disciplined_task (task_of p n)"
  by (simp add: disciplined_task_def task_of_def disciplined_cut_short ordered_paths_disciplined)

text \<open>C12: Without \<open>free_session\<close> the routines never lock each other out: any number of tasks, each
  running any other path for any session and returning from it wherever it likes, keep making progress. In
  every state they reach, while some task has not ended, some task that has not ended does not wait, even
  where a reader queues behind a waiting writer.\<close>

theorem ordered_locks_progress:
  assumes "lock_step\<^sup>*\<^sup>* ts ts'"
    and "\<forall>t\<in>set ts. \<exists>s n. \<exists>p\<in>set (ordered_paths s). t = task_of p n"
    and "i < length ts'" and "snd (ts' ! i) \<noteq> []"
  shows "\<exists>j<length ts'. snd (ts' ! j) \<noteq> [] \<and> \<not> may_wait ts' j"
proof -
  have "list_all disciplined_task ts"
    unfolding list_all_iff using assms(2) ordered_task_disciplined by metis
  with assms(1) have "list_all disciplined_task ts'" by (rule disciplined_reachable)
  then show ?thesis using assms(3,4) by (rule disciplined_progress)
qed

section \<open>A stuck state\<close>

text \<open>A track is sent or requested by address while a hello is accepted.\<close>

definition racing_tasks :: "lock_task list" where
  "racing_tasks = [task_of free_session_locks 4, task_of new_session_locks 4]"

definition racing_stuck :: "lock_task list" where
  "racing_stuck =
     [([(Address_Session_Lock, Shared_Guard)], tl free_session_locks),
      ([(Connections_Lock, Exclusive_Guard)], tl new_session_locks)]"

lemmas racing_defs = racing_tasks_def racing_stuck_def task_of_def cut_short_def guards_after_def
  free_session_locks_def new_session_locks_def

lemma held_against_pair [simp]:
  "held_against [t, u] 0 l a \<longleftrightarrow> (\<exists>b. (l, b) \<in> set (fst u) \<and> (a = Exclusive_Guard \<or> b = Exclusive_Guard))"
  "held_against [t, u] (Suc 0) l a \<longleftrightarrow> (\<exists>b. (l, b) \<in> set (fst t) \<and> (a = Exclusive_Guard \<or> b = Exclusive_Guard))"
  by (simp_all add: held_against_def Ex_less_Suc)

lemma racing_reaches_stuck: "lock_step\<^sup>*\<^sup>* racing_tasks racing_stuck"
proof -
  let ?mid = "[([(Address_Session_Lock, Shared_Guard)], tl free_session_locks), racing_tasks ! 1]"
  have "lock_step racing_tasks (racing_tasks[0 := advance_task (racing_tasks ! 0)])"
    by (rule lock_step_task) (simp_all add: racing_defs blocked_def)
  moreover have "racing_tasks[0 := advance_task (racing_tasks ! 0)] = ?mid"
    by (simp add: racing_defs)
  moreover have "lock_step ?mid (?mid[1 := advance_task (?mid ! 1)])"
    by (rule lock_step_task) (simp_all add: racing_defs blocked_def)
  moreover have "?mid[1 := advance_task (?mid ! 1)] = racing_stuck"
    by (simp add: racing_defs)
  ultimately show ?thesis by (metis r_into_rtranclp rtranclp.rtrancl_into_rtrancl)
qed

text \<open>C13: Looking up a free session by address while a session is created can stop both for good:
  \<open>free_session\<close> holds the address table and waits for the connections, \<open>new_session\<close> holds the
  connections and waits for the address table. From the two tasks a state is reached where each has locks
  left to take, both are held up by a guard of the other, and no step is possible.\<close>

theorem free_session_deadlocks:
  "\<exists>ts. lock_step\<^sup>*\<^sup>* [task_of free_session_locks 4, task_of new_session_locks 4] ts
     \<and> length ts = 2 \<and> blocked ts 0 \<and> blocked ts 1 \<and> \<not> (\<exists>ts'. lock_step ts ts')"
proof -
  have b: "blocked racing_stuck 0" "blocked racing_stuck (Suc 0)"
    by (auto simp: racing_defs blocked_def)
  then have "\<not> lock_step racing_stuck ts'" for ts'
    by (auto elim!: lock_stepE simp: less_Suc_eq racing_stuck_def)
  moreover have "length racing_stuck = 2" by (simp add: racing_stuck_def)
  ultimately show ?thesis
    using racing_reaches_stuck b unfolding racing_tasks_def by (intro exI [of _ racing_stuck]) simp
qed

theorem ordered_locks_progress_witness:
  "\<exists>ts. lock_step\<^sup>*\<^sup>* [task_of new_session_locks 4, task_of (keep_alive_locks 7) 4] ts
     \<and> snd (ts ! 0) \<noteq> [] \<and> (\<exists>j<length ts. snd (ts ! j) \<noteq> [] \<and> \<not> may_wait ts j)"
proof -
  let ?ts = "[task_of new_session_locks 4, task_of (keep_alive_locks 7) 4]"
  have "\<forall>t\<in>set ?ts. \<exists>s n. \<exists>p\<in>set (ordered_paths s). t = task_of p n"
    by (auto simp: ordered_paths_def)
  moreover have n: "0 < length ?ts" "snd (?ts ! 0) \<noteq> []" by (simp_all add: racing_defs)
  ultimately have "\<exists>j<length ?ts. snd (?ts ! j) \<noteq> [] \<and> \<not> may_wait ?ts j"
    by (intro ordered_locks_progress [of ?ts ?ts 0]) simp_all
  then show ?thesis using n by (intro exI [of _ ?ts]) simp
qed

end
