(* ===== verification/Stream_Transfer.thy ===== *)
theory Stream_Transfer imports Session_Faults Delivery begin

text \<open>
  A stream from one host to another: the data packets of the sender's ticks, the datagrams the outbound half of
  its packet processor makes of them, a network that reorders and repeats, the inbound half of the receiver's
  packet processor, and the receiver's manager, which writes them to the memory of the application.
\<close>

section \<open>The receiving session\<close>

text \<open>A session that is receiving \<open>src\<close> and has the chunks \<open>ks\<close> of it.\<close>

definition receives :: "bytes \<Rightarrow> nat set \<Rightarrow> connection_state \<Rightarrow> bool" where
  "receives src ks c \<longleftrightarrow> (\<exists>e s sf. receiving c = Some (e, s, sf) \<and> tr_inv src ks (from_buffer sf)
     \<and> sm_complete (ss_stream s) \<noteq> Some True)"

definition no_parity :: "session_id \<Rightarrow> xor_state \<Rightarrow> bool" where
  "no_parity sid fs \<longleftrightarrow> (\<forall>bid b. hm_get (xs_inbound fs) (bid, sid) = Some b \<longrightarrow> ib_parity b = None)"

text \<open>A data packet of the session that carries chunk \<open>k\<close>.\<close>

definition carries :: "bytes \<Rightarrow> session_id \<Rightarrow> nat \<Rightarrow> data_packet \<Rightarrow> bool" where
  "carries src sid k p \<longleftrightarrow> k < chunk_count src \<and> (da_byte_range_start p, da_payload p) = chunk_of src k
     \<and> da_session_id p = sid \<and> da_opts p = opt_none \<and> batch_pos (da_fec_info p) \<noteq> 255"

text \<open>A packet at the place of chunk \<open>k\<close>, with its bytes unless the receiver has the chunk already.\<close>

definition fits_chunk :: "bytes \<Rightarrow> session_id \<Rightarrow> nat set \<Rightarrow> nat \<Rightarrow> data_packet \<Rightarrow> bool" where
  "fits_chunk src sid ks k p \<longleftrightarrow> k < chunk_count src \<and> da_byte_range_start p = fst (chunk_of src k)
     \<and> (k \<notin> ks \<longrightarrow> da_payload p = snd (chunk_of src k))
     \<and> da_session_id p = sid \<and> da_opts p = opt_none \<and> batch_pos (da_fec_info p) \<noteq> 255"

lemma carries_fits: "carries src sid k p \<Longrightarrow> fits_chunk src sid ks k p"
  by (auto simp: carries_def fits_chunk_def prod_eq_iff)

lemma fits_more: "fits_chunk src sid ks k p \<Longrightarrow> ks \<subseteq> ks' \<Longrightarrow> fits_chunk src sid ks' k p"
  by (auto simp: fits_chunk_def)

definition completes :: "bytes \<Rightarrow> nat set \<Rightarrow> nat \<Rightarrow> bool" where
  "completes src ks k \<longleftrightarrow> k \<notin> ks \<and> insert k ks = {..<chunk_count src}"

lemma chunk_count_partial:
  assumes "length src mod MAX_PAYLOAD_LENGTH \<noteq> 0"
  shows "chunk_count src = length src div MAX_PAYLOAD_LENGTH + 1"
proof -
  let ?q = "length src div MAX_PAYLOAD_LENGTH"
  have n: "?q * MAX_PAYLOAD_LENGTH + length src mod MAX_PAYLOAD_LENGTH = length src"
    by (rule div_mult_mod_eq)
  then have "?q < chunk_count src" using assms unfolding chunk_count_less by linarith
  moreover have "\<not> Suc ?q < chunk_count src"
    using n mod_less_divisor [OF MPL_pos, of "length src"] unfolding chunk_count_less mult_Suc by linarith
  ultimately show ?thesis by simp
qed

lemma tr_inv_done:
  assumes "tr_inv src ks b" and "length src mod MAX_PAYLOAD_LENGTH \<noteq> 0" and "ks \<subseteq> {..<chunk_count src}"
  shows "wb_is_done b \<longleftrightarrow> ks = {..<chunk_count src}"
proof
  assume "wb_is_done b"
  moreover have "length (wb_map b) = chunk_count src"
    using assms by (simp add: tr_inv_def wb_inv_def chunk_count_partial)
  ultimately show "ks = {..<chunk_count src}" using assms
    by (auto simp: wb_is_done_def tr_inv_def list_all_length)
next
  assume "ks = {..<chunk_count src}"
  then show "wb_is_done b" using assms tr_inv_complete by blast
qed

lemma no_parity_received:
  assumes "no_parity sid fs" and "xor_received dbg now fp fs = (r, fs')" and "\<not> fp_is_parity fp"
    and "fp_session_id fp = sid"
  shows "no_parity sid fs' \<and> r \<noteq> Ok True"
proof -
  let ?old = "case hm_get (xs_inbound fs) (fec_key fp) of Some b \<Rightarrow> b | None \<Rightarrow> inbound_new now (batch_size (fp_fec_info fp))"
  have "ib_parity ?old = None"
    using assms(1,4) by (auto simp: no_parity_def fec_key_def inbound_new_def split: option.splits)
  then have "ib_parity (snd (inbound_add fp ?old)) = None"
    by (auto simp: inbound_add_def Let_def split: option.splits)
  moreover have "fs' = fs\<lparr>xs_inbound := hm_insert (fec_key fp) (snd (inbound_add fp ?old)) (xs_inbound fs)\<rparr>"
    and "r = (if dbg \<and> ib_batch_size (snd (inbound_add fp ?old)) = 0 then Panic
      else Ok (ib_data_received (snd (inbound_add fp ?old)) = ib_batch_size (snd (inbound_add fp ?old)) - 1
        \<and> ib_parity (snd (inbound_add fp ?old)) \<noteq> None))"
    using assms(2,3) by (auto simp: xor_received_def Let_def split: option.splits)
  ultimately show ?thesis using assms(1) by (auto simp: no_parity_def)
qed

section \<open>One data packet\<close>

lemma chunk_index:
  assumes "k < chunk_count src" and "length src + MAX_PAYLOAD_LENGTH < 2 ^ 32"
  shows "unat (fst (chunk_of src k)) div MAX_PAYLOAD_LENGTH = k"
  using assms MPL_pos by (simp add: chunk_count_less unat_chunk_of)

lemma write_new:
  assumes b: "tr_inv src ks b" and k: "k < chunk_count src" and len: "length src + MAX_PAYLOAD_LENGTH < 2 ^ 32"
    and w: "wb_write dbg (fst (chunk_of src k)) d b = (r, b')" and d: "k \<notin> ks \<longrightarrow> d = snd (chunk_of src k)"
  shows "tr_inv src (insert k ks) b' \<and> ((\<exists>x. r = Ok x) \<and> k \<notin> ks \<or> r = Err Occupied \<and> k \<in> ks \<and> b' = b)"
proof -
  have inv: "wb_inv b" using b by (simp add: tr_inv_def)
  have mk: "\<forall>j < length (wb_map b). wb_map b ! j \<longleftrightarrow> j \<in> ks" using b by (simp add: tr_inv_def)
  have "k * MAX_PAYLOAD_LENGTH < wb_len b" "wb_len b = length src"
    using k b by (simp_all add: chunk_count_less tr_inv_def)
  then have km: "k < length (wb_map b)" and ix: "position_to_index b (fst (chunk_of src k)) = Some k"
    using inv MPL_pos chunk_index [OF k len] len
    by (simp_all add: wb_inv_def less_Suc_eq_le less_eq_div_iff_mult_less_eq position_to_index_def unat_chunk_of)
  show ?thesis
  proof (cases "k \<in> ks")
    case True
    then show ?thesis using w mk km ix b by (simp add: wb_write_def position_occupied_def insert_absorb)
  next
    case False
    then have d: "d = snd (chunk_of src k)" and "tr_inv src (insert k ks) b'"
      using d w tr_inv_write [OF b k len, of dbg] by auto
    from inv show ?thesis
    proof (cases rule: wb_write_cases [of b dbg "fst (chunk_of src k)" "snd (chunk_of src k)"])
      case (rejected e)
      then have "tr_inv src (insert k ks) b" using \<open>tr_inv src (insert k ks) b'\<close> w d by simp
      then show ?thesis using False km mk by (auto simp: tr_inv_def)
    qed (use w d False \<open>tr_inv src (insert k ks) b'\<close> in auto)
  qed
qed

lemma stream_data_chunk:
  assumes b: "tr_inv src ks (from_buffer sf)" "ks \<subseteq> {..<chunk_count src}"
    and len: "length src + MAX_PAYLOAD_LENGTH < 2 ^ 32" "length src mod MAX_PAYLOAD_LENGTH \<noteq> 0"
    and p: "fits_chunk src sid ks k p" and m: "sm_complete (ss_stream s) \<noteq> Some True"
    and d: "stream_data dbg now p sf s = (r, s')"
  shows "if k \<notin> ks \<and> insert k ks = {..<chunk_count src}
    then r = Ok \<lparr>do_done = True, do_ranges = []\<rparr> \<and> (\<exists>sf'. ss_streaming s' = Streaming_From sf')
    else (\<forall>x. r = Ok x \<longrightarrow> \<not> do_done x) \<and> (\<forall>a b. r \<noteq> Err (StateMismatch a b)) \<and> r \<noteq> Err FailedToDerefError
      \<and> sm_complete (ss_stream s') \<noteq> Some True
      \<and> (\<exists>sf'. ss_streaming s' = Streaming_From sf' \<and> tr_inv src (insert k ks) (from_buffer sf'))"
proof -
  have k: "k < chunk_count src" and c: "da_byte_range_start p = fst (chunk_of src k)" "k \<notin> ks \<longrightarrow> da_payload p = snd (chunk_of src k)"
    and pos: "batch_pos (da_fec_info p) \<noteq> 255"
    using p by (auto simp: fits_chunk_def prod_eq_iff)
  obtain w b' where w: "wb_write dbg (fst (chunk_of src k)) (da_payload p) (from_buffer sf) = (w, b')"
    by (cases "wb_write dbg (fst (chunk_of src k)) (da_payload p) (from_buffer sf)")
  note new = write_new [OF b(1) k len(1) w c(2)]
  then have b': "tr_inv src (insert k ks) b'" by simp
  have "insert k ks \<subseteq> {..<chunk_count src}" using b(2) k by simp
  note fin = tr_inv_done [OF b' len(2) this]
  from conjunct2 [OF new] show ?thesis
  proof (elim disjE conjE exE)
    fix x assume "w = Ok x" "k \<notin> ks"
    then show ?thesis using d w c m fin b' pos
      by (auto simp: stream_data_def Let_def declare_done_def split: prod.splits res.splits if_splits
          dest: ask_ranges_buffer)
  next
    assume "w = Err Occupied" "k \<in> ks" "b' = from_buffer sf"
    then show ?thesis using d w c m b' by (auto simp: stream_data_def Let_def write_error_def)
  qed
qed

text \<open>What ends a stream: the message to the sender, and the notice to the handle of the application.\<close>

definition ends_stream :: "address \<Rightarrow> effect list \<Rightarrow> bool" where
  "ends_stream addr es \<longleftrightarrow> (\<exists>q m. es = [Send (wrap (PlaybackControlPacket q) addr), Stream_Notice m]
     \<and> pc_control_type q = Play_Done \<and> sm_closed m)"

lemma done_packet_Ok:
  "\<exists>q. done_packet dbg now sid addr = Ok [Send (wrap (PlaybackControlPacket q) addr)] \<and> pc_control_type q = Play_Done"
  by (simp add: done_packet_def playback_done_def playback_new_def assert_opts_valid_def debug_assert_def
      Let_def wrap_def)

lemma fec_of_data_Ok: "fec_of_data dbg p = Ok fp \<Longrightarrow> \<not> fp_is_parity fp \<and> fp_session_id fp = da_session_id p"
  by (auto simp: fec_of_data_def map_res_Ok_iff)

lemma data_chunk:
  assumes c: "receives src ks c" "ks \<subseteq> {..<chunk_count src}"
    and len: "length src + MAX_PAYLOAD_LENGTH < 2 ^ 32" "length src mod MAX_PAYLOAD_LENGTH \<noteq> 0"
    and p: "fits_chunk src sid ks k p" and fs: "no_parity sid fs"
    and d: "cs_received_data dbg now p c fs = (r, es, c', fs')"
  shows "no_parity sid fs' \<and> (if completes src ks k
    then r = Ok False \<and> ends_stream (cs_address c) es \<and> flat_state_of c' = Flat_Up
    else r \<noteq> Ok True \<and> (\<forall>a b. r \<noteq> Err (StateMismatch a b)) \<and> r \<noteq> Err FailedToDerefError
      \<and> receives src (insert k ks) c')"
proof -
  obtain e s sf where c': "receiving c = Some (e, s, sf)" "tr_inv src ks (from_buffer sf)"
    "sm_complete (ss_stream s) \<noteq> Some True" using c(1) by (auto simp: receives_def)
  have sid: "da_session_id p = sid" using p by (simp add: fits_chunk_def)
  obtain x s' where x: "stream_data dbg now p sf s = (x, s')" by (cases "stream_data dbg now p sf s")
  note chunk = stream_data_chunk [OF c'(2) c(2) len p c'(3) x, folded completes_def]
  have a: "cs_address c = es_address e" using c'(1) by (auto simp: receiving_Some cs_address_def)
  show ?thesis
  proof (cases "completes src ks k")
    case True
    obtain q where q: "done_packet dbg now sid (es_address e) = Ok [Send (wrap (PlaybackControlPacket q) (es_address e))]"
      "pc_control_type q = Play_Done" using done_packet_Ok by blast
    have "x = Ok \<lparr>do_done = True, do_ranges = []\<rparr>" "\<exists>sf'. ss_streaming s' = Streaming_From sf'"
      using chunk by (simp_all only: True simp_thms if_True)
    then obtain sf' where "x = Ok \<lparr>do_done = True, do_ranges = []\<rparr>" "ss_streaming s' = Streaming_From sf'" by blast
    then have "(r, es, c', fs') = (Ok False, [Send (wrap (PlaybackControlPacket q) (es_address e)),
        Stream_Notice ((ss_stream s')\<lparr>sm_closed := True\<rparr>)], Established (e\<lparr>es_state := Session_Up\<rparr>), fs)"
      using d c'(1) x q(1) sid
      by (simp add: cs_received_data_def cs_close_stream_def with_stream_def close_effects_def)
    then have "r = Ok False \<and> ends_stream (cs_address c) es \<and> flat_state_of c' = Flat_Up \<and> no_parity sid fs'"
      using q(2) fs a by (auto simp: ends_stream_def)
    then show ?thesis using True by (simp only: simp_thms if_True)
  next
    case False
    then have n: "\<forall>y. x = Ok y \<longrightarrow> \<not> do_done y" "\<forall>a b. x \<noteq> Err (StateMismatch a b)" "x \<noteq> Err FailedToDerefError"
      "receives src (insert k ks) (with_stream e s')"
      using chunk by (auto simp: receives_def with_stream_def receiving_Some)
    have "no_parity sid fs' \<and> c' = with_stream e s' \<and> r \<noteq> Ok True \<and> (\<forall>a b. r \<noteq> Err (StateMismatch a b))
      \<and> r \<noteq> Err FailedToDerefError"
    proof (cases x)
      case (Ok y)
      then have y: "\<not> do_done y" using n(1) by simp
      let ?w = "dispatch_retransmit_request dbg now sid (es_address e) (do_ranges y)"
      show ?thesis
      proof (cases ?w)
        case (Ok ws)
        show ?thesis
        proof (cases "fec_of_data dbg p")
          case (Ok fp)
          obtain v fs1 where v: "xor_received dbg now fp fs = (v, fs1)" by (cases "xor_received dbg now fp fs")
          have "no_parity sid fs1 \<and> v \<noteq> Ok True"
            using no_parity_received [OF fs v] fec_of_data_Ok [OF Ok] sid by simp
          moreover have "(r, es, c', fs') = (fec_result v, map Send ws, with_stream e s', fs1)"
            using d c'(1) x \<open>x = Ok y\<close> y \<open>?w = Ok ws\<close> Ok v sid by (simp add: cs_received_data_def)
          ultimately show ?thesis by (auto simp: fec_result_def split: res.splits)
        qed (use d c'(1) x \<open>x = Ok y\<close> y \<open>?w = Ok ws\<close> sid fs in \<open>simp_all add: cs_received_data_def\<close>)
      qed (use d c'(1) x Ok y sid fs in \<open>simp_all add: cs_received_data_def\<close>)
    qed (use d c'(1) x n(2,3) fs in \<open>auto simp: cs_received_data_def\<close>)
    then show ?thesis using False n(4) by simp
  qed
qed

section \<open>The receiving manager\<close>

text \<open>A manager that is receiving \<open>src\<close> in session \<open>sid\<close> and has seen no parity packet of it.\<close>

definition host_receives :: "bytes \<Rightarrow> session_id \<Rightarrow> nat set \<Rightarrow> ('k, 's) protocol \<Rightarrow> bool" where
  "host_receives src sid ks st \<longleftrightarrow>
     (\<exists>c. connection st sid = Some c \<and> receives src ks c) \<and> no_parity sid (pr_fec st)"

definition memory_of :: "('k, 's) protocol \<Rightarrow> session_id \<Rightarrow> wbuffer option" where
  "memory_of st sid = (case connection st sid of
     Some c \<Rightarrow> map_option (\<lambda>(e, s, sf). from_buffer sf) (receiving c) | None \<Rightarrow> None)"

lemma host_receives_memory: "host_receives src sid ks st \<Longrightarrow> \<exists>b. memory_of st sid = Some b \<and> tr_inv src ks b"
  by (auto simp: host_receives_def receives_def memory_of_def)

lemma receives_established: "receives src ks c \<Longrightarrow> \<exists>e. c = Established e"
  by (auto simp: receives_def receiving_Some)

lemma receives_activity:
  "receives src ks (Established e) \<Longrightarrow> receives src ks (Established (e\<lparr>es_last_activity := ts\<rparr>))"
  by (auto simp: receives_def receiving_Some)

lemma no_ack_required: "\<not> opt_contains opt_none RequireAck"
  by (simp add: opt_contains_none)

lemma update_activity_fields [simp]:
  "pr_fec (update_last_activity sid ts st) = pr_fec st"
  "pr_out (update_last_activity sid ts st) = pr_out st"
  "pr_encryption (update_last_activity sid ts st) = pr_encryption st"
  by (simp_all add: update_last_activity_def set_connection_def split: option.splits)

definition stream_ended :: "session_id \<Rightarrow> ('k, 's) protocol \<Rightarrow> ('k, 's) protocol \<Rightarrow> bool" where
  "stream_ended sid st st' \<longleftrightarrow> map_option flat_state_of (connection st' sid) = Some Flat_Up
     \<and> (\<exists>addr es. ends_stream addr es \<and> pr_out st' = pr_out st @ es)"

lemma ready_chunk:
  assumes st: "host_receives src sid ks st" "ks \<subseteq> {..<chunk_count src}"
    and len: "length src + MAX_PAYLOAD_LENGTH < 2 ^ 32" "length src mod MAX_PAYLOAD_LENGTH \<noteq> 0"
    and p: "fits_chunk src sid ks k p"
  shows "if completes src ks k
    then stream_ended sid st (data_packet_ready env p st)
    else host_receives src sid (insert k ks) (data_packet_ready env p st)
      \<and> pr_encryption (data_packet_ready env p st) = pr_encryption st"
proof -
  obtain c where c: "connection st sid = Some c" "receives src ks c" and fs: "no_parity sid (pr_fec st)"
    using st(1) by (auto simp: host_receives_def)
  have sid: "da_session_id p = sid" and opts: "da_opts p = opt_none" using p by (simp_all add: fits_chunk_def)
  obtain r es c' fs' where d: "cs_received_data (en_dbg env) (en_now env) p c (pr_fec st) = (r, es, c', fs')"
    by (cases "cs_received_data (en_dbg env) (en_now env) p c (pr_fec st)")
  note res = data_chunk [OF c(2) st(2) len p fs d]
  have ready: "data_packet_ready env p st =
    (case r of Ok True \<Rightarrow> data_packet_ready env p st
     | Ok False \<Rightarrow> emit es (set_connection sid c' (st\<lparr>pr_fec := fs'\<rparr>))
     | Err (StateMismatch _ _) \<Rightarrow> data_packet_ready env p st
     | Err FailedToDerefError \<Rightarrow> data_packet_ready env p st
     | Err IrrelevantError \<Rightarrow> emit es (set_connection sid c' (st\<lparr>pr_fec := fs'\<rparr>))
     | Panic \<Rightarrow> fail_task (emit es (set_connection sid c' (st\<lparr>pr_fec := fs'\<rparr>))))"
    by (simp add: data_packet_ready_def sid opts ack_if_required_def no_ack_required c(1) d
        split: res.splits bool.splits session_error.splits)
  show ?thesis
  proof (cases "completes src ks k")
    case True
    then show ?thesis using res ready by (auto simp: stream_ended_def emit_def set_connection_def connection_def)
  next
    case False
    then have "data_packet_ready env p st \<in> {emit es (set_connection sid c' (st\<lparr>pr_fec := fs'\<rparr>)),
        fail_task (emit es (set_connection sid c' (st\<lparr>pr_fec := fs'\<rparr>)))}"
      using res by (subst ready) (auto split: res.splits bool.splits session_error.splits)
    then show ?thesis using False res
      by (auto simp: host_receives_def emit_def fail_task_def set_connection_def connection_def)
  qed
qed

lemma received_chunk:
  assumes st: "host_receives src sid ks st" "ks \<subseteq> {..<chunk_count src}"
    and len: "length src + MAX_PAYLOAD_LENGTH < 2 ^ 32" "length src mod MAX_PAYLOAD_LENGTH \<noteq> 0"
    and p: "fits_chunk src sid ks k p"
  shows "if completes src ks k
    then stream_ended sid st (received_data_packet env p st)
    else host_receives src sid (insert k ks) (received_data_packet env p st)
      \<and> pr_encryption (received_data_packet env p st) = pr_encryption st"
proof -
  let ?st = "update_last_activity sid (da_timestamp p) st"
  obtain e where e: "connection st sid = Some (Established e)" "receives src ks (Established e)"
    using st(1) receives_established by (fastforce simp: host_receives_def)
  then have c: "connection ?st sid = Some (Established (e\<lparr>es_last_activity := da_timestamp p\<rparr>))"
    by (simp add: update_last_activity_def established_at_def)
  then have "host_receives src sid ks ?st"
    using st(1) e by (simp add: host_receives_def receives_activity)
  moreover have "received_data_packet env p st = data_packet_ready env p ?st"
    using p c by (simp add: received_data_packet_def fits_chunk_def Let_def)
  ultimately show ?thesis using ready_chunk [OF _ st(2) len p, of ?st env]
    by (simp add: stream_ended_def split: if_splits)
qed

section \<open>The packet processors\<close>

text \<open>
  What the datagrams are that the outbound half makes of some packets, one after the other, with the parity
  packets of the error correction left out.
\<close>

fun datagrams_of :: "outbound_effect list \<Rightarrow> bytes list" where
  "datagrams_of [] = []"
| "datagrams_of (ToTransport pp # es) = pp_data pp # datagrams_of es"
| "datagrams_of (_ # es) = datagrams_of es"

fun send_all :: "'k aead \<Rightarrow> 'k enc_table \<Rightarrow> packet_wrapper list \<Rightarrow> bytes list" where
  "send_all A t [] = []"
| "send_all A t (w # ws) =
     (case outbound_handle A t (pw_packet w) (pw_addr w) of
        (Ok es, t) \<Rightarrow> datagrams_of es @ send_all A t ws | (_, t) \<Rightarrow> send_all A t ws)"

text \<open>
  A host that receives a datagram: the inbound half of its packet processor, which shares the keys and the window
  of fingerprints with the manager, and the routine of the manager for what comes up.
\<close>

record ('k, 's) host =
  ho_manager :: "('k, 's) protocol"
  ho_window :: fp_window

definition host_receive ::
  "'k aead \<Rightarrow> address \<Rightarrow> ('k, 's) env \<Rightarrow> bytes \<Rightarrow> ('k, 's) host \<Rightarrow> ('k, 's) host" where
  "host_receive A src env data h =
     (case inbound_handle (en_dbg env) A (en_xxh env) (en_now env) (pr_encryption (ho_manager h)) data src (ho_window h) of
        (Ok (Some (UpPacket w)), win) \<Rightarrow>
          \<lparr>ho_manager = handle_packet env (pw_addr w) (pw_packet w) (ho_manager h), ho_window = win\<rparr>
      | (Ok (Some (UpIncompatibleVersion v a)), win) \<Rightarrow>
          \<lparr>ho_manager = received_incompatible_version a (ho_manager h), ho_window = win\<rparr>
      | (_, win) \<Rightarrow> h\<lparr>ho_window := win\<rparr>)"

fun host_receive_all ::
  "'k aead \<Rightarrow> address \<Rightarrow> (('k, 's) env \<times> bytes) list \<Rightarrow> ('k, 's) host \<Rightarrow> ('k, 's) host" where
  "host_receive_all A src [] h = h"
| "host_receive_all A src ((env, data) # xs) h = host_receive_all A src xs (host_receive A src env data h)"

text \<open>A data packet as the sender's ticks make it.\<close>

definition data_sent :: "bytes \<Rightarrow> session_id \<Rightarrow> data_packet \<Rightarrow> bool" where
  "data_sent src sid p \<longleftrightarrow> (\<exists>k. carries src sid k p) \<and> da_version p \<noteq> 0 \<and> da_packet_type p = PT_Data"

lemma carried_payload: "carries src sid k p \<Longrightarrow> da_payload p \<noteq> [] \<and> length (da_payload p) \<le> MAX_PAYLOAD_LENGTH"
  using MPL_pos by (auto simp: carries_def chunk_of_def chunk_count_less)

lemma encrypt_keeps_keys [simp]:
  "encryption_get_cipher sid' (snd (snd (encrypt A sid t aad pl))) = encryption_get_cipher sid' t"
  by (auto simp: encrypt_def encryption_get_def encryption_get_cipher_def enc_window_get_def Let_def
      split: option.splits prod.splits)

lemma outbound_data_keeps_keys:
  "encryption_get_cipher sid (snd (outbound_handle A t (DataPacket p) addr)) = encryption_get_cipher sid t"
proof -
  let ?e = "\<lambda>fs pl. encrypt A (da_session_id p) t fs pl"
  have "encryption_get_cipher sid (snd (process_encrypted A (da_session_id p) t fs pl mk)) = encryption_get_cipher sid t"
    for fs pl mk
    by (auto simp: process_encrypted_def split: res.splits prod.splits)
      (metis encrypt_keeps_keys snd_conv)
  then show ?thesis by (simp add: finish_def Let_def split: prod.splits)
qed

lemma opt_none_no_ack: "add_ack opt_none = (opt_none, False)"
  by (simp add: add_ack_def no_ack_required)

text \<open>A datagram that a host with the keys \<open>t\<close> takes as the data packet \<open>p\<close>.\<close>

definition taken_as :: "'k aead \<Rightarrow> 'k enc_table \<Rightarrow> bytes \<Rightarrow> data_packet \<Rightarrow> bool" where
  "taken_as A t d p \<longleftrightarrow> (\<forall>dbg xxh now a w.
     fst (inbound_handle dbg A xxh now t d a w) = Ok (Some (UpPacket (wrap (DataPacket p) a))))"

lemma taken_as_unique: "\<lbrakk> taken_as A t d p; taken_as A t d q \<rbrakk> \<Longrightarrow> p = q"
  by (auto simp: taken_as_def wrap_def)

lemma taken_as_received:
  assumes "taken_as A (pr_encryption (ho_manager h)) d p"
  shows "ho_manager (host_receive A a env d h) = received_data_packet env p (ho_manager h)"
proof -
  obtain r w where "inbound_handle (en_dbg env) A (en_xxh env) (en_now env) (pr_encryption (ho_manager h)) d a
      (ho_window h) = (r, w)" by fastforce
  moreover from this have "r = Ok (Some (UpPacket (wrap (DataPacket p) a)))"
    using assms unfolding taken_as_def by (metis fst_conv)
  ultimately show ?thesis by (simp add: host_receive_def wrap_def)
qed

lemma data_received:
  assumes A: "aead_correct A" "aead_total A" and p: "data_sent src sid p"
    and k: "shared_key t tr sid"
  obtains d where "outbound_handle A t (DataPacket p) addr
      = (Ok [DispatchFec p, ToTransport (processed addr PT_Data 1 d)], snd (outbound_handle A t (DataPacket p) addr))"
    "taken_as A tr d p"
proof -
  have opts: "da_opts p = opt_none" and sid: "da_session_id p = sid"
    using p by (auto simp: data_sent_def carries_def)
  have same: "p\<lparr>da_opts := opt_none\<rparr> = p" using opts by (cases p) simp
  have wire: "wire_form (DataPacket p) = DataPacket p" by (simp add: opts opt_none_no_ack same)
  obtain k where c: "carries src sid k p" using p by (auto simp: data_sent_def)
  have "deliverable dbg (DataPacket p)" for dbg
    using p carried_payload [OF c] by (simp add: data_sent_def)
  then have dl: "delivers dbg A xxh t tr (DataPacket p) addr" for dbg xxh
    using deliver_data [OF A] k sid by blast
  define r where "r = fst (process_encrypted A (da_session_id p) t (data_packet_fields p) (da_payload p)
    (\<lambda>pl. data_packet_fields (p\<lparr>da_payload := pl\<rparr>)))"
  have r: "fst (outbound_handle A t (DataPacket p) addr) = map_res (\<lambda>d. [DispatchFec p, ToTransport (processed addr PT_Data 1 d)]) r"
    by (simp add: r_def opts opt_none_no_ack finish_def pending_if_def same)
  then obtain d where d: "r = Ok d" using dl by (auto simp: delivers_def map_res_Ok_iff)
  have rec: "received_as dbg A xxh tr d (DataPacket p)" for dbg xxh
    using dl [of dbg xxh] r d wire by (auto simp: delivers_def processed_def)
  have un: "unseen xxh (DataPacket p) w" for xxh w
    by (simp add: unseen_def opt_none_no_ack)
  show thesis
  proof (rule that)
    show "outbound_handle A t (DataPacket p) addr
      = (Ok [DispatchFec p, ToTransport (processed addr PT_Data 1 d)], snd (outbound_handle A t (DataPacket p) addr))"
      using r d by (simp add: prod_eq_iff del: outbound_handle.simps)
    show "taken_as A tr d p"
      unfolding taken_as_def
    proof (intro allI)
      fix dbg xxh now a w
      show "fst (inbound_handle dbg A xxh now tr d a w) = Ok (Some (UpPacket (wrap (DataPacket p) a)))"
        using inbound_unseen [of dbg A xxh tr d "DataPacket p" w now a, unfolded wire, OF rec un] by simp
    qed
  qed
qed

lemma send_all_taken:
  assumes A: "aead_correct A" "aead_total A"
  shows "\<lbrakk> \<forall>w\<in>set ws. \<exists>p. pw_packet w = DataPacket p \<and> data_sent src sid p; shared_key t tr sid \<rbrakk>
    \<Longrightarrow> list_all2 (\<lambda>d w. \<exists>p. pw_packet w = DataPacket p \<and> taken_as A tr d p) (send_all A t ws) ws"
proof (induction ws arbitrary: t)
  case (Cons w ws)
  obtain p where p: "pw_packet w = DataPacket p" "data_sent src sid p" using Cons.prems(1) by auto
  let ?o = "outbound_handle A t (DataPacket p) (pw_addr w)"
  obtain d where d: "?o = (Ok [DispatchFec p, ToTransport (processed (pw_addr w) PT_Data 1 d)], snd ?o)"
    and r: "taken_as A tr d p"
    by (rule data_received [OF A p(2) Cons.prems(2)])
  obtain t' where t': "snd ?o = t'" by blast
  have "?o = (Ok [DispatchFec p, ToTransport (processed (pw_addr w) PT_Data 1 d)], t')" using d t' by simp
  then have "send_all A t (w # ws) = d # send_all A (snd ?o) ws"
    unfolding t' using p(1) by (simp add: processed_def del: outbound_handle.simps)
  moreover have "shared_key (snd ?o) tr sid"
    using Cons.prems(2) outbound_data_keeps_keys [of sid A t p "pw_addr w"]
    by (simp add: shared_key_def del: outbound_handle.simps)
  ultimately show ?case using Cons.IH [of "snd ?o"] Cons.prems(1) p(1) r by auto
qed simp

section \<open>All arrivals\<close>

definition completed_at ::
  "'k aead \<Rightarrow> address \<Rightarrow> bytes \<Rightarrow> session_id \<Rightarrow> (('k, 's) env \<times> bytes) list \<Rightarrow> ('k, 's) host \<Rightarrow> nat \<Rightarrow> bool" where
  "completed_at A a src sid xs h n \<longleftrightarrow> n < length xs
     \<and> stream_ended sid (ho_manager (host_receive_all A a (take n xs) h))
          (ho_manager (host_receive_all A a (take (Suc n) xs) h))
     \<and> (\<exists>b p. memory_of (ho_manager (host_receive_all A a (take n xs) h)) sid = Some b
          \<and> taken_as A (pr_encryption (ho_manager h)) (snd (xs ! n)) p
          \<and> wb_data (snd (wb_write (en_dbg (fst (xs ! n))) (da_byte_range_start p) (da_payload p) b)) = src)"

lemma arrivals_complete:
  fixes A :: "'k aead" and h :: "('k, 's) host"
  assumes len: "length src + MAX_PAYLOAD_LENGTH < 2 ^ 32" "length src mod MAX_PAYLOAD_LENGTH \<noteq> 0"
  shows "\<lbrakk> list_all2 (\<lambda>(env, d) p. taken_as A tr d p \<and> (\<exists>k. fits_chunk src sid ks k p)) xs ps;
     host_receives src sid ks (ho_manager h); pr_encryption (ho_manager h) = tr; ks \<subset> {..<chunk_count src};
     {..<chunk_count src} \<subseteq> ks \<union> {k. \<exists>p\<in>set ps. fits_chunk src sid ks k p} \<rbrakk>
    \<Longrightarrow> \<exists>n. completed_at A a src sid xs h n"
proof (induction xs arbitrary: ps h ks)
  case (Cons x xs)
  obtain env d where x: "x = (env, d)" by (cases x)
  obtain p k ps' where p: "ps = p # ps'" "taken_as A tr d p" "fits_chunk src sid ks k p"
    "list_all2 (\<lambda>(env, d) p. taken_as A tr d p \<and> (\<exists>k. fits_chunk src sid ks k p)) xs ps'"
    using Cons.prems(1) x by (auto simp: list_all2_Cons1)
  let ?h = "host_receive A a env d h"
  have ks: "ks \<subseteq> {..<chunk_count src}" using Cons.prems(4) by blast
  have h: "ho_manager ?h = received_data_packet env p (ho_manager h)"
    using p(2) Cons.prems(3) by (simp add: taken_as_received)
  note step = received_chunk [OF Cons.prems(2) ks len p(3), of env, folded h]
  have k: "k < chunk_count src" and c: "da_byte_range_start p = fst (chunk_of src k)" "k \<notin> ks \<longrightarrow> da_payload p = snd (chunk_of src k)"
    using p(3) by (auto simp: fits_chunk_def)
  show ?case
  proof (cases "completes src ks k")
    case True
    obtain b where b: "memory_of (ho_manager h) sid = Some b" "tr_inv src ks b"
      using host_receives_memory [OF Cons.prems(2)] by blast
    have "tr_inv src {..<chunk_count src} (snd (wb_write (en_dbg env) (da_byte_range_start p) (da_payload p) b))"
      using tr_inv_write [OF b(2) k len(1), of "en_dbg env"] True c by (simp add: completes_def)
    then have "wb_data (snd (wb_write (en_dbg env) (da_byte_range_start p) (da_payload p) b)) = src"
      using tr_inv_complete by blast
    then have "completed_at A a src sid (x # xs) h 0"
      using step True b(1) x p(2) Cons.prems(3) by (auto simp: completed_at_def)
    then show ?thesis by blast
  next
    case False
    have sub: "insert k ks \<subset> {..<chunk_count src}"
      using False ks k Cons.prems(4) by (auto simp: completes_def insert_absorb)
    have same: "j = k" if "fits_chunk src sid ks j p" for j
    proof -
      have "j < chunk_count src" "fst (chunk_of src j) = fst (chunk_of src k)" using that p(3) by (auto simp: fits_chunk_def)
      then show ?thesis using chunk_index [of j src, OF _ len(1)] chunk_index [OF k len(1)] by metis
    qed
    have cover: "{..<chunk_count src} \<subseteq> insert k ks \<union> {j. \<exists>p\<in>set ps'. fits_chunk src sid (insert k ks) j p}"
    proof
      fix j assume "j \<in> {..<chunk_count src}"
      then consider "j \<in> ks" | "fits_chunk src sid ks j p" | q where "q \<in> set ps'" "fits_chunk src sid ks j q"
        using Cons.prems(5) p(1) by auto
      then show "j \<in> insert k ks \<union> {j. \<exists>p\<in>set ps'. fits_chunk src sid (insert k ks) j p}"
        using same fits_more [of src sid ks j _ "insert k ks"]
        by cases blast+
    qed
    have rest: "list_all2 (\<lambda>(env, d) p. taken_as A tr d p \<and> (\<exists>j. fits_chunk src sid (insert k ks) j p)) xs ps'"
      by (rule list_all2_mono [OF p(4)]) (auto intro: fits_more)
    have "host_receives src sid (insert k ks) (ho_manager ?h)" "pr_encryption (ho_manager ?h) = tr"
      using step False Cons.prems(3) h by simp_all
    from Cons.IH [OF rest this sub cover] obtain n where "completed_at A a src sid xs ?h n" by blast
    then have "completed_at A a src sid (x # xs) h (Suc n)"
      using Cons.prems(3) \<open>pr_encryption (ho_manager ?h) = tr\<close> by (simp add: completed_at_def x)
    then show ?thesis by blast
  qed
qed auto

section \<open>The sender\<close>

lemma collect_res_member: "\<lbrakk> collect_res rs = Ok ws; w \<in> set ws \<rbrakk> \<Longrightarrow> Ok w \<in> set rs"
  by (induction rs arbitrary: ws) (auto simp: and_then_Ok_iff map_res_Ok_iff)

text \<open>A packet of the sender for one of the chunks \<open>cs\<close>.\<close>

definition made_for :: "session_id \<Rightarrow> packet_wrapper \<Rightarrow> bool" where
  "made_for sid w \<longleftrightarrow> (\<exists>p. pw_packet w = DataPacket p \<and> da_session_id p = sid \<and> da_opts p = opt_none
     \<and> da_version p \<noteq> 0 \<and> da_packet_type p = PT_Data \<and> batch_pos (da_fec_info p) \<noteq> 255)"

lemma small_position: "i < 28 \<Longrightarrow> (word_of_nat i :: u8) \<noteq> 255"
proof
  assume i: "i < 28" and "(word_of_nat i :: u8) = 255"
  then have "unat (word_of_nat i :: u8) = 255" by simp
  then show False using i by (simp add: unat_of_nat take_bit_eq_mod)
qed

lemma send_data_packets_made:
  assumes s: "send_data_packets dbg now sid addr batch cs = Ok ws" and "w \<in> set ws" and n: "length cs \<le> 28"
  shows "made_for sid w"
proof -
  obtain i pos payload where z: "(i, pos, payload) \<in> set (zip [0..<length cs] cs)"
    and w: "map_res (\<lambda>p. wrap (DataPacket p) addr) (data_packet_new dbg now (opt_construct []) batch
      \<lparr>batch_size = word_of_nat (length cs), batch_pos = word_of_nat i,
       recovery_count = min RECOVERY_COUNT (word_of_nat (length cs))\<rparr> sid pos payload) = Ok w"
    using collect_res_member [OF s [unfolded send_data_packets_def Let_def] assms(2)] by auto
  have "i < 28" using set_zip_leftD [OF z] n by simp
  then show ?thesis using w small_position [of i]
    by (auto simp: made_for_def data_packet_new_def wrap_def map_res_Ok_iff and_then_Ok_iff
        CURRENT_VERSION_eq)
qed

lemma rb_take_length: "length (fst (rb_take n r)) \<le> n"
  by (induction n r rule: rb_take.induct) (auto simp: Let_def split: option.splits prod.splits)

lemma map_filter_length: "length (List.map_filter f xs) \<le> length xs"
  by (induction xs) (auto simp: List.map_filter_simps split: option.splits)

lemma collect_res_length: "collect_res rs = Ok ys \<Longrightarrow> length ys = length rs"
  by (induction rs arbitrary: ys) (auto simp: and_then_Ok_iff map_res_Ok_iff)

lemma get_chunks_length: "fst (get_chunks n s) = Some cs \<Longrightarrow> length cs \<le> n"
  using rb_take_length [of n] by (auto simp: get_chunks_def split: streaming.splits if_splits prod.splits) (metis fst_conv)

lemma retransmit_chunks_length: "retransmit_chunks rs s = Some cs \<Longrightarrow> length cs \<le> length rs"
  by (auto simp: retransmit_chunks_def map_filter_length split: streaming.splits if_splits)

lemma stream_choose_length:
  assumes "stream_choose dbg n xs s = (Ok (Some cs), xs', s')"
  shows "length cs \<le> n"
proof -
  obtain g s1 where g: "get_chunks n s = (g, s1)" by (cases "get_chunks n s")
  then obtain ds where ds: "g = Some ds" using assms by (cases g) (simp_all add: stream_choose_def)
  show ?thesis
  proof (cases "ds = [] \<and> xs \<noteq> []")
    case True
    then obtain rs where rs: "collect_res (map (chunk_range dbg) (take n xs)) = Ok rs" "retransmit_chunks rs s1 = Some cs"
      using assms g ds by (auto simp: stream_choose_def map_res_Ok_iff)
    then show ?thesis using collect_res_length [OF rs(1)] retransmit_chunks_length [OF rs(2)] by simp
  next
    case False
    then show ?thesis using assms g ds get_chunks_length [of n s cs] by (auto simp: stream_choose_def)
  qed
qed

lemma stream_send_sent:
  assumes "stream_send dbg now sid addr n xs s = (Ok (ps, v), xs', s')" and "w \<in> set ps"
  shows "\<exists>cs xs2 s2 batch. stream_choose dbg n xs s = (Ok (Some cs), xs2, s2)
    \<and> send_data_packets dbg now sid addr batch cs = Ok ps"
proof -
  obtain c xs2 s2 where c: "stream_choose dbg n xs s = (c, xs2, s2)" by (cases "stream_choose dbg n xs s")
  then obtain cs where cs: "c = Ok (Some cs)" "cs \<noteq> []"
    using assms by (cases c) (auto simp: stream_send_def split: option.splits if_splits)
  then obtain t where t: "ss_streaming s2 = Streaming_To t"
    using assms c by (cases "ss_streaming s2") (auto simp: stream_send_def)
  obtain b t' where b: "next_batch_id dbg t = (b, t')" by (cases "next_batch_id dbg t")
  have "and_then b (\<lambda>batch. map_res (\<lambda>ps. (ps, Some (fst (last cs)))) (send_data_packets dbg now sid addr batch cs)) = Ok (ps, v)"
    using assms(1) c cs t b by (simp add: stream_send_def)
  then show ?thesis using c cs(1) by (auto simp: and_then_Ok_iff map_res_Ok_iff)
qed

lemma stream_ticks_made:
  "\<lbrakk> stream_ticks dbg now sid addr k xs s = (Ok ws, xs', s'); w \<in> set ws \<rbrakk> \<Longrightarrow> made_for sid w"
proof (induction k arbitrary: xs s ws)
  case (Suc k)
  obtain ps v xs1 s1 ws' where t: "stream_send dbg now sid addr PACKET_COUNT_PER_BATCH xs s = (Ok (ps, v), xs1, s1)"
    "stream_ticks dbg now sid addr k xs1 s1 = (Ok ws', xs', s')" "ws = ps @ ws'"
    using Suc.prems(1) by (auto simp: map_res_Ok_iff split: prod.splits res.splits)
  have "made_for sid w" if w: "w \<in> set ps"
  proof -
    obtain cs xs2 s2 where ch: "stream_choose dbg PACKET_COUNT_PER_BATCH xs s = (Ok (Some cs), xs2, s2)"
      and batch: "\<exists>batch. send_data_packets dbg now sid addr batch cs = Ok ps"
      using stream_send_sent [OF t(1) w] by blast
    have "length cs \<le> 28" using stream_choose_length [OF ch] by (simp add: PACKET_COUNT_PER_BATCH_def)
    then show ?thesis using batch w send_data_packets_made by blast
  qed
  then show ?case using Suc.IH [OF t(2)] Suc.prems(2) t(3) by auto
qed simp

lemma sender_packets:
  assumes "stream_ticks dbg now sid addr k [] s = (Ok ws, xs', s')" and "map Repair.data_of ws = map Some (rb_drain (rb_from src))"
  shows "\<forall>w\<in>set ws. \<exists>p. pw_packet w = DataPacket p \<and> data_sent src sid p"
    and "\<forall>j<chunk_count src. \<exists>w\<in>set ws. \<forall>p. pw_packet w = DataPacket p \<longrightarrow> carries src sid j p"
proof -
  have len: "length ws = chunk_count src" using assms(2) by (metis length_map rb_drain_chunks length_upt diff_zero)
  have at: "Repair.data_of (ws ! j) = Some (chunk_of src j)" if "j < chunk_count src" for j
    using assms(2) that len by (simp add: rb_drain_chunks list_eq_iff_nth_eq)
  have c: "carries src sid j p" if j: "j < chunk_count src" and p: "pw_packet (ws ! j) = DataPacket p" for j p
    using at [OF j] stream_ticks_made [OF assms(1), of "ws ! j"] j p len
    by (auto simp: made_for_def carries_def Repair.data_of_def)
  show "\<forall>w\<in>set ws. \<exists>p. pw_packet w = DataPacket p \<and> data_sent src sid p"
  proof
    fix w assume "w \<in> set ws"
    then obtain j where j: "j < chunk_count src" "w = ws ! j" by (metis in_set_conv_nth len)
    moreover have "made_for sid w" using stream_ticks_made [OF assms(1) \<open>w \<in> set ws\<close>] .
    ultimately show "\<exists>p. pw_packet w = DataPacket p \<and> data_sent src sid p"
      using c by (auto simp: made_for_def data_sent_def)
  qed
  show "\<forall>j<chunk_count src. \<exists>w\<in>set ws. \<forall>p. pw_packet w = DataPacket p \<longrightarrow> carries src sid j p"
    using c len by (metis nth_mem)
qed

text \<open>C3: A stream is transferred from one host to the other. The sender's ticks make data packets, the outbound
  half of its packet processor makes datagrams of them, and the network delivers each at least once, in any order
  and however often. If the receiver has the key and is receiving into a memory of the right length, then at some
  arrival the memory becomes exactly the sender's data, and there the receiver tells its application that the stream is
  closed, sends the sender a packet that says it is done, and has its session up again. What the sender does with that
  packet is not part of it. The length is not a multiple of the chunk size, and no parity packet is received.\<close>

theorem stream_transferred:
  fixes A :: "'k aead" and h :: "('k, 's) host"
  assumes A: "aead_correct A" "aead_total A"
    and len: "length mem = length src" "length src + MAX_PAYLOAD_LENGTH < 2 ^ 32" "length src mod MAX_PAYLOAD_LENGTH \<noteq> 0"
    and sender: "ss_streaming s = Streaming_To t" "to_buffer t = rb_from src"
      "\<not> sm_paused (ss_stream s)" "\<not> sm_closed (ss_stream s)"
      "unat (to_current_batch t) + k < 2 ^ 16" "chunk_count src \<le> k * 28"
    and sent: "stream_ticks dbg now sid addr k [] s = (Ok ws, extra, s')"
    and arrive: "set (map snd xs) = set (send_all A ts ws)"
    and key: "shared_key ts (pr_encryption (ho_manager h)) sid"
    and receiver: "connection (ho_manager h) sid = Some (Established e)" "es_state e = Session_Streaming r"
      "ss_streaming r = Streaming_From (streaming_from_new (wb_from mem))" "sm_complete (ss_stream r) \<noteq> Some True"
      "no_parity sid (pr_fec (ho_manager h))"
  shows "\<exists>n. completed_at A a src sid xs h n"
proof -
  let ?tr = "pr_encryption (ho_manager h)"
  have "sending src 0 k s" using sender by (auto simp: sending_def rb_from_at)
  from ticks_fresh [OF this, of k dbg now sid addr] have "map Repair.data_of ws = map Some (rb_drain (rb_from src))"
    using sender(6) sent by (auto simp: rb_drain_chunks)
  note packets = sender_packets [OF sent this]
  have taken: "list_all2 (\<lambda>d w. \<exists>p. pw_packet w = DataPacket p \<and> taken_as A ?tr d p) (send_all A ts ws) ws"
    by (rule send_all_taken [OF A packets(1) key])
  have "\<forall>x\<in>set xs. \<exists>p. taken_as A ?tr (snd x) p \<and> (\<exists>j. carries src sid j p)"
  proof
    fix x assume "x \<in> set xs"
    then have "snd x \<in> set (send_all A ts ws)" using arrive by auto
    then obtain i where "i < length ws" "send_all A ts ws ! i = snd x"
      using list_all2_lengthD [OF taken] by (auto simp: in_set_conv_nth)
    then have "ws ! i \<in> set ws" "\<exists>p. pw_packet (ws ! i) = DataPacket p \<and> taken_as A ?tr (snd x) p"
      using list_all2_nthD2 [OF taken, of i] by auto
    then show "\<exists>p. taken_as A ?tr (snd x) p \<and> (\<exists>j. carries src sid j p)"
      using packets(1) by (fastforce simp: data_sent_def)
  qed
  then obtain f where f: "\<forall>x\<in>set xs. taken_as A ?tr (snd x) (f x) \<and> (\<exists>j. carries src sid j (f x))"
    by metis
  then have all: "list_all2 (\<lambda>(env, d) p. taken_as A ?tr d p \<and> (\<exists>j. carries src sid j p)) xs (map f xs)"
    by (auto simp: list_all2_conv_all_nth split_def)
  have cover: "{..<chunk_count src} \<subseteq> {} \<union> {j. \<exists>p\<in>set (map f xs). carries src sid j p}"
  proof
    fix j assume "j \<in> {..<chunk_count src}"
    then obtain w where w: "w \<in> set ws" "\<forall>p. pw_packet w = DataPacket p \<longrightarrow> carries src sid j p"
      using packets(2) by auto
    obtain d p where d: "d \<in> set (send_all A ts ws)" "pw_packet w = DataPacket p" "taken_as A ?tr d p"
      using list_all2_nthD2 [OF taken] list_all2_lengthD [OF taken] w(1) by (metis in_set_conv_nth)
    then obtain x where "x \<in> set xs" "snd x = d" using arrive by (metis imageE list.set_map)
    then have "f x = p" "x \<in> set xs" using f d(3) taken_as_unique by blast+
    then show "j \<in> {} \<union> {j. \<exists>p\<in>set (map f xs). carries src sid j p}" using w(2) d(2) by auto
  qed
  have "0 < chunk_count src" using len(3) by (simp add: chunk_count_partial)
  then have "{} \<subset> {..<chunk_count src}" by auto
  moreover have "host_receives src sid {} (ho_manager h)"
    using receiver tr_inv_init [OF len(1)]
    by (auto simp: host_receives_def receives_def receiving_Some streaming_from_new_def)
  moreover have "list_all2 (\<lambda>(env, d) p. taken_as A ?tr d p \<and> (\<exists>j. fits_chunk src sid {} j p)) xs (map f xs)"
    by (rule list_all2_mono [OF all]) (auto intro: carries_fits)
  moreover have "{..<chunk_count src} \<subseteq> {} \<union> {j. \<exists>p\<in>set (map f xs). fits_chunk src sid {} j p}"
    using cover by (auto intro: carries_fits)
  ultimately show ?thesis using arrivals_complete [OF len(2,3) _ _ refl] by blast
qed

text \<open>A host that is receiving three bytes in session 7, and the sender of them.\<close>

definition demo_receiver :: "(u8, u8) host" where
  "demo_receiver = \<lparr>ho_manager = insert_key 7 7 (set_connection 7 (Established demo_established) (protocol_new [65])),
     ho_window = fw_default\<rparr>"

lemma demo_receiver_ready:
  "connection (ho_manager demo_receiver) 7 = Some (Established demo_established)"
  "shared_key [(7, enc_window_new 7)] (pr_encryption (ho_manager demo_receiver)) 7"
  "no_parity 7 (pr_fec (ho_manager demo_receiver))"
proof -
  show "connection (ho_manager demo_receiver) 7 = Some (Established demo_established)" by (simp add: demo_receiver_def)
  have "pr_encryption (ho_manager demo_receiver) = [(7, enc_window_new 7)]" "pr_fec (ho_manager demo_receiver) = xor_new"
    by (simp_all add: demo_receiver_def insert_key_def set_connection_def protocol_new_def hm_insert_def)
  then show "shared_key [(7, enc_window_new 7)] (pr_encryption (ho_manager demo_receiver)) 7"
    "no_parity 7 (pr_fec (ho_manager demo_receiver))"
    by (simp_all add: shared_key_def encryption_get_cipher_def hm_get_def no_parity_def xor_new_def)
qed

abbreviation demo_datagrams :: "packet_wrapper list \<Rightarrow> bytes list" where
  "demo_datagrams \<equiv> send_all demo_aead [(7, enc_window_new 7)]"

lemma demo_ticks:
  assumes "length b = 3"
  obtains ws s' where "stream_ticks False 0 7 demo_address 1 [] (demo_sender b) = (Ok ws, [], s')"
    "map Repair.data_of ws = map Some (rb_drain (rb_from b))"
proof -
  have "sending b 0 1 (demo_sender b)"
    by (simp add: sending_def demo_sender_def rb_from_at stream_message_default_def)
  from ticks_fresh [OF this, of 1 False 0 7 demo_address] show thesis
    using assms that by (auto simp: chunk_count_def MAX_PAYLOAD_LENGTH_def rb_drain_chunks)
qed

theorem stream_transferred_witness:
  "\<exists>ws n. fst (stream_ticks False 0 7 demo_address 1 [] (demo_sender [1, 2, 3])) = Ok ws
     \<and> completed_at demo_aead demo_address [1, 2, 3] 7
         (map (Pair (demo_env 4)) (rev (demo_datagrams ws))) demo_receiver n"
proof -
  have s: "ss_streaming (demo_sender [1, 2, 3]) = Streaming_To \<lparr>to_buffer = rb_from [1, 2, 3], to_current_batch = 0, to_event = 0\<rparr>"
    "ss_stream (demo_sender [1, 2, 3]) = stream_message_default"
    by (simp_all add: demo_sender_def)
  obtain ws s' where ws: "stream_ticks False 0 7 demo_address 1 [] (demo_sender [1, 2, 3]) = (Ok ws, [], s')"
    by (rule demo_ticks [of "[1, 2, 3]"]) simp_all
  let ?xs = "map (Pair (demo_env 4)) (rev (demo_datagrams ws))"
  have xs: "set (map snd ?xs) = set (demo_datagrams ws)" by (simp add: comp_def)
  have "\<exists>n. completed_at demo_aead demo_address [1, 2, 3] 7 ?xs demo_receiver n"
    by (rule stream_transferred [OF demo_aead_correct demo_aead_total _ _ _ s(1) _ _ _ _ _ ws xs
          demo_receiver_ready(2,1) _ _ _ demo_receiver_ready(3), where mem = "[0, 0, 0]" and r = demo_stream])
      (simp_all add: s stream_message_default_def demo_established_def demo_stream_def chunk_count_def MAX_PAYLOAD_LENGTH_def)
  then show ?thesis using ws by auto
qed

section \<open>Packets of an earlier stream\<close>

text \<open>A source with chunk \<open>k\<close> replaced by \<open>d\<close>.\<close>

definition replaced :: "bytes \<Rightarrow> nat \<Rightarrow> bytes \<Rightarrow> bytes" where
  "replaced src k d = take (k * MAX_PAYLOAD_LENGTH) src @ d @ drop (k * MAX_PAYLOAD_LENGTH + length d) src"

lemma chunk_bytes: "snd (chunk_of src j) = take MAX_PAYLOAD_LENGTH (drop (j * MAX_PAYLOAD_LENGTH) src)"
  by (simp add: chunk_of_def)

lemma replaced_chunks:
  assumes k: "k < chunk_count src" and d: "length d = length (snd (chunk_of src k))"
  shows "length (replaced src k d) = length src" and "chunk_count (replaced src k d) = chunk_count src"
    and "chunk_of (replaced src k d) k = (fst (chunk_of src k), d)"
    and "j \<noteq> k \<Longrightarrow> chunk_of (replaced src k d) j = chunk_of src j"
proof -
  let ?m = MAX_PAYLOAD_LENGTH
  have ld: "length d = min ?m (length src - k * ?m)" using d by (simp add: chunk_bytes min.commute)
  have kl: "k * ?m < length src" using k by (simp add: chunk_count_less)
  show len: "length (replaced src k d) = length src" using ld kl by (auto simp: replaced_def)
  then show "chunk_count (replaced src k d) = chunk_count src" by (simp add: chunk_count_def)
  have "take ?m (drop (k * ?m) (replaced src k d)) = d"
    using ld kl by (auto simp: replaced_def min_def split: if_splits)
  then show "chunk_of (replaced src k d) k = (fst (chunk_of src k), d)" by (simp add: chunk_of_def)
  have "take ?m (drop (j * ?m) (replaced src k d)) = take ?m (drop (j * ?m) src)" if "j \<noteq> k"
  proof (rule nth_equalityI)
    fix i assume "i < length (take ?m (drop (j * ?m) (replaced src k d)))"
    then have i: "i < ?m" "j * ?m + i < length src" using len by auto
    then have "(j * ?m + i) div ?m = j" using MPL_pos by simp
    then have "\<not> (k * ?m \<le> j * ?m + i \<and> j * ?m + i < k * ?m + length d)"
      using that ld div_MPL_iff [of "j * ?m + i" k] by auto
    then have "replaced src k d ! (j * ?m + i) = src ! (j * ?m + i)"
      using kl i by (auto simp: replaced_def nth_append)
    then show "take ?m (drop (j * ?m) (replaced src k d)) ! i = take ?m (drop (j * ?m) src) ! i"
      using i len by simp
  qed (simp add: len)
  then show "j \<noteq> k \<Longrightarrow> chunk_of (replaced src k d) j = chunk_of src j" by (simp add: chunk_of_def)
qed

lemma tr_inv_empty: "tr_inv src {} b \<Longrightarrow> length src' = length src \<Longrightarrow> tr_inv src' {} b"
  by (simp add: tr_inv_def)

text \<open>C9: A packet of an earlier stream corrupts the next one. Data packets name their session but not their
  stream: a packet of an earlier stream that arrives after the next stream of the session was started is written to
  the memory of that stream, and the right chunk is refused later as already present. When all the packets of the stream
  have arrived it is declared done with a memory that is not the sender's data.\<close>

theorem late_packet_corrupts_stream:
  fixes A :: "'k aead" and h :: "('k, 's) host"
  assumes len: "length src + MAX_PAYLOAD_LENGTH < 2 ^ 32" "length src mod MAX_PAYLOAD_LENGTH \<noteq> 0"
    and receiver: "host_receives src sid {} (ho_manager h)"
    and late: "taken_as A (pr_encryption (ho_manager h)) d p" "da_session_id p = sid" "da_opts p = opt_none"
      "batch_pos (da_fec_info p) \<noteq> 255" "k < chunk_count src" "da_byte_range_start p = fst (chunk_of src k)"
      "length (da_payload p) = length (snd (chunk_of src k))" "da_payload p \<noteq> snd (chunk_of src k)"
    and rest: "list_all2 (\<lambda>(env, d) q. taken_as A (pr_encryption (ho_manager h)) d q \<and> (\<exists>j. carries src sid j q)) xs qs"
      "{..<chunk_count src} \<subseteq> {j. \<exists>q\<in>set qs. carries src sid j q}"
  shows "\<exists>n data. data \<noteq> src \<and> completed_at A a data sid ((env, d) # xs) h n"
proof -
  let ?tr = "pr_encryption (ho_manager h)" and ?h = "host_receive A a env d h"
  define mix where "mix = replaced src k (da_payload p)"
  note mix = replaced_chunks [OF late(5,7), folded mix_def]
  have ne: "mix \<noteq> src" using mix(3) late(8) by (metis snd_conv)
  have len': "length mix + MAX_PAYLOAD_LENGTH < 2 ^ 32" "length mix mod MAX_PAYLOAD_LENGTH \<noteq> 0" using len mix(1) by simp_all
  have start: "host_receives mix sid {} (ho_manager h)"
    using receiver tr_inv_empty [OF _ mix(1)] by (auto simp: host_receives_def receives_def)
  have p: "fits_chunk mix sid {} k p" using late mix(2,3) by (simp add: fits_chunk_def)
  have h: "ho_manager ?h = received_data_packet env p (ho_manager h)" using late(1) by (rule taken_as_received)
  note step = received_chunk [OF start _ len' p, of env, folded h]
  have fits: "fits_chunk mix sid {k} j q" if "carries src sid j q" for j q
    using that mix(2-4) by (cases "j = k") (auto simp: fits_chunk_def carries_def prod_eq_iff)
  show ?thesis
  proof (cases "completes mix {} k")
    case True
    obtain b where b: "memory_of (ho_manager h) sid = Some b" "tr_inv mix {} b"
      using host_receives_memory [OF start] by blast
    have "tr_inv mix {..<chunk_count mix} (snd (wb_write (en_dbg env) (da_byte_range_start p) (da_payload p) b))"
      using tr_inv_write [OF b(2) _ len'(1), of k "en_dbg env"] True p by (simp add: completes_def fits_chunk_def)
    then have "completed_at A a mix sid ((env, d) # xs) h 0"
      using step True b(1) late(1) tr_inv_complete by (auto simp: completed_at_def)
    then show ?thesis using ne by blast
  next
    case False
    then have h': "host_receives mix sid {k} (ho_manager ?h)" "pr_encryption (ho_manager ?h) = ?tr"
      using step h by simp_all
    have one: "{k} \<subset> {..<chunk_count mix}" using False late(5) mix(2) by (auto simp: completes_def)
    have taken: "list_all2 (\<lambda>(env, d) q. taken_as A ?tr d q \<and> (\<exists>j. fits_chunk mix sid {k} j q)) xs qs"
      by (rule list_all2_mono [OF rest(1)]) (auto intro: fits)
    have cover: "{..<chunk_count mix} \<subseteq> {k} \<union> {j. \<exists>q\<in>set qs. fits_chunk mix sid {k} j q}"
      using rest(2) mix(2) fits by fastforce
    obtain n where "completed_at A a mix sid xs ?h n"
      using arrivals_complete [OF len' taken h' one cover] by blast
    then have "completed_at A a mix sid ((env, d) # xs) h (Suc n)" by (simp add: completed_at_def h'(2))
    then show ?thesis using ne by blast
  qed
qed

text \<open>A packet of the stream \<open>[4, 5, 6]\<close> arrives before those of \<open>[1, 2, 3]\<close>.\<close>

lemma demo_sent:
  assumes b: "length b = 3"
  obtains ws s' d p where "stream_ticks False 0 7 demo_address 1 [] (demo_sender b) = (Ok ws, [], s')"
    "demo_datagrams ws = [d]" "taken_as demo_aead (pr_encryption (ho_manager demo_receiver)) d p" "carries b 7 0 p"
proof -
  have n: "chunk_count b = 1" using b by (simp add: chunk_count_def MAX_PAYLOAD_LENGTH_def)
  obtain ws s' where ws: "stream_ticks False 0 7 demo_address 1 [] (demo_sender b) = (Ok ws, [], s')"
    "map Repair.data_of ws = map Some (rb_drain (rb_from b))" by (rule demo_ticks [OF b])
  note packets = sender_packets [OF ws]
  have "length ws = 1" using arg_cong [OF ws(2), of length] n by (simp add: rb_drain_chunks)
  then obtain w where w: "ws = [w]" by (auto simp: length_Suc_conv)
  then obtain p where p: "pw_packet w = DataPacket p" "carries b 7 0 p" using packets n by auto
  have "list_all2 (\<lambda>d w. \<exists>p. pw_packet w = DataPacket p \<and> taken_as demo_aead (pr_encryption (ho_manager demo_receiver)) d p)
      (demo_datagrams ws) ws"
    by (rule send_all_taken [OF demo_aead_correct demo_aead_total packets(1) demo_receiver_ready(2)])
  then obtain d where "demo_datagrams ws = [d]" "taken_as demo_aead (pr_encryption (ho_manager demo_receiver)) d p"
    using w p(1) by (auto simp: list_all2_Cons2)
  then show thesis using that ws(1) p(2) by blast
qed

theorem late_packet_corrupts_stream_witness:
  "\<exists>ws1 ws2 n data. fst (stream_ticks False 0 7 demo_address 1 [] (demo_sender [4, 5, 6])) = Ok ws1
     \<and> fst (stream_ticks False 0 7 demo_address 1 [] (demo_sender [1, 2, 3])) = Ok ws2
     \<and> data \<noteq> [1, 2, 3] \<and> completed_at demo_aead demo_address data 7
         (map (Pair (demo_env 4)) (demo_datagrams ws1 @ demo_datagrams ws2)) demo_receiver n"
proof -
  obtain ws1 s1 d1 p1 where 1: "stream_ticks False 0 7 demo_address 1 [] (demo_sender [4, 5, 6]) = (Ok ws1, [], s1)"
    "demo_datagrams ws1 = [d1]" "taken_as demo_aead (pr_encryption (ho_manager demo_receiver)) d1 p1" "carries [4, 5, 6] 7 0 p1"
    by (rule demo_sent [of "[4, 5, 6]"]) simp_all
  obtain ws2 s2 d2 p2 where 2: "stream_ticks False 0 7 demo_address 1 [] (demo_sender [1, 2, 3]) = (Ok ws2, [], s2)"
    "demo_datagrams ws2 = [d2]" "taken_as demo_aead (pr_encryption (ho_manager demo_receiver)) d2 p2" "carries [1, 2, 3] 7 0 p2"
    by (rule demo_sent [of "[1, 2, 3]"]) simp_all
  have r: "host_receives [1, 2, 3] 7 {} (ho_manager demo_receiver)"
    using demo_receiver_ready tr_inv_init [of "[0, 0, 0]" "[1, 2, 3]"]
    by (auto simp: host_receives_def receives_def receiving_Some demo_established_def demo_stream_def
        streaming_from_new_def stream_message_default_def)
  have c: "chunk_count ([1, 2, 3] :: bytes) = 1" "chunk_count ([4, 5, 6] :: bytes) = 1"
    by (simp_all add: chunk_count_def MAX_PAYLOAD_LENGTH_def)
  have p1: "da_session_id p1 = 7" "da_opts p1 = opt_none" "batch_pos (da_fec_info p1) \<noteq> 255"
    "da_byte_range_start p1 = fst (chunk_of [1, 2, 3] 0)" "da_payload p1 = [4, 5, 6]"
    using 1(4) by (simp_all add: carries_def chunk_of_def MAX_PAYLOAD_LENGTH_def)
  have "\<exists>n data. data \<noteq> [1, 2, 3] \<and> completed_at demo_aead demo_address data 7
      ((demo_env 4, d1) # [(demo_env 4, d2)]) demo_receiver n"
    by (rule late_packet_corrupts_stream [OF _ _ r 1(3) p1(1-3) _ p1(4), where qs = "[p2]"])
      (use 2(3,4) c p1(5) in \<open>auto simp: MAX_PAYLOAD_LENGTH_def chunk_bytes\<close>)
  then show ?thesis using 1(1,2) 2(1,2) by auto
qed

end
