(* ===== verification/Transport.thy ===== *)
theory Transport imports Outbound "HOL-Library.Sublist" begin

text \<open>
  The transport layer (\<open>src/src/transport\<close>): the pool of outbound sockets (\<open>OutboundSockets\<close> of
  \<open>types.rs\<close>), the loop that buffers and sends packets (\<open>outbound.rs\<close>), the loop that receives
  datagrams (\<open>inbound.rs\<close>) and how both end (\<open>mod.rs\<close>).

  A socket is a number, the binding of a new one may fail and is an argument, and so is the time a
  round took. What the tasks of the loop send is listed in the order of their dispatch; a failed
  \<open>send_to\<close> changes nothing.
\<close>

section \<open>The pool of sockets\<close>

definition BUFFER_TIMEOUT :: u64 where
  "BUFFER_TIMEOUT = 5"

definition MAX_PACKET_BUFFER_SIZE :: nat where
  "MAX_PACKET_BUFFER_SIZE = 128"

definition MAX_PACKET_SIZE :: nat where
  "MAX_PACKET_SIZE = 1500 - 60 - 8"

definition BUFFERS_BEFORE_REMOVE :: u64 where
  "BUFFERS_BEFORE_REMOVE = 100"

definition BUFFERS_BEFORE_ADD :: nat where
  "BUFFERS_BEFORE_ADD = 50"

definition REMOVAL_THRESHOLD :: u64 where
  "REMOVAL_THRESHOLD =
     BUFFERS_BEFORE_REMOVE * (BUFFERS_BEFORE_REMOVE + 1) * (2 * BUFFERS_BEFORE_REMOVE + 1) div 6"

text \<open>The loop of the constant: \<open>i\<close> runs from 1.\<close>

fun addition_sum :: "nat \<Rightarrow> u64" where
  "addition_sum 0 = 0"
| "addition_sum (Suc n) = addition_sum n + of_nat n * (BUFFER_TIMEOUT * BUFFER_TIMEOUT) div of_nat (Suc n)"

definition ADDITION_THRESHOLD :: u64 where
  "ADDITION_THRESHOLD = addition_sum BUFFERS_BEFORE_ADD"

record sockets =
  so_sockets :: "nat list"
  so_current :: nat
  so_removal_meter :: u64
  so_addition_meter :: u64
  so_early :: u64
  so_on_time :: u64

definition so_new :: "nat \<Rightarrow> sockets" where
  "so_new s = \<lparr>so_sockets = [s], so_current = 0, so_removal_meter = 0, so_addition_meter = 0,
     so_early = 0, so_on_time = 0\<rparr>"

definition so_next :: "sockets \<Rightarrow> sockets ures" where
  "so_next p =
     (if so_sockets p = [] then Panic
      else Ok (p\<lparr>so_current := (so_current p + 1) mod length (so_sockets p)\<rparr>))"

definition so_retrieve :: "sockets \<Rightarrow> (nat \<times> sockets) ures" where
  "so_retrieve p =
     (if so_current p < length (so_sockets p)
      then map_res (Pair (so_sockets p ! so_current p)) (so_next p) else Panic)"

definition remove_nth :: "nat \<Rightarrow> 'a list \<Rightarrow> 'a list" where
  "remove_nth i xs = take i xs @ drop (Suc i) xs"

text \<open>The counters of \<open>update\<close>.\<close>

definition so_count :: "u64 \<Rightarrow> sockets \<Rightarrow> sockets" where
  "so_count n p =
     (let p = (if n = 0
               then p\<lparr>so_early := saturating_sub (so_early p) 2 + 1, so_on_time := so_on_time p + 1\<rparr>
               else p\<lparr>so_on_time := saturating_sub (so_on_time p) 1, so_early := so_early p + 1\<rparr>)
      in p\<lparr>so_removal_meter := so_removal_meter p + so_on_time p * so_on_time p\<rparr>)"

definition so_shrink :: "sockets \<Rightarrow> sockets" where
  "so_shrink p =
     (if so_removal_meter p \<ge> REMOVAL_THRESHOLD
      then p\<lparr>so_removal_meter := 0,
             so_sockets := (if length (so_sockets p) > 1
                            then remove_nth ((so_current p + 1) mod length (so_sockets p)) (so_sockets p)
                            else so_sockets p)\<rparr>
      else p)"

text \<open>The flag says whether \<open>update\<close> returns \<open>Ok\<close>; its caller ignores it.\<close>

definition so_grow :: "nat option \<Rightarrow> sockets \<Rightarrow> bool \<times> sockets" where
  "so_grow bound p =
     (if so_addition_meter p \<ge> ADDITION_THRESHOLD
      then let p = p\<lparr>so_addition_meter := 0\<rparr>
           in (case bound of None \<Rightarrow> (False, p) | Some s \<Rightarrow> (True, p\<lparr>so_sockets := so_sockets p @ [s]\<rparr>))
      else (True, p))"

definition so_update :: "u64 \<Rightarrow> nat option \<Rightarrow> sockets \<Rightarrow> (bool \<times> sockets) ures" where
  "so_update elapsed bound p =
     (let n = saturating_sub BUFFER_TIMEOUT elapsed;
          p = so_count n p
      in if so_early p = 0 then Panic
         else Ok (so_grow bound (so_shrink
                (p\<lparr>so_addition_meter := so_addition_meter p + (so_early p - 1) * (n * n) div so_early p\<rparr>))))"

section \<open>The outbound loop\<close>

text \<open>The socket a datagram leaves from: the one packets are received on, or one of the pool.\<close>

datatype out_socket = Listening | Pooled nat

type_synonym datagram = "address \<times> bytes"

definition datagram_of :: "processed_packet \<Rightarrow> datagram" where
  "datagram_of p = (pp_dest_addr p, pp_data p)"

fun buffered_type :: "packet_type \<Rightarrow> bool" where
  "buffered_type PT_Data = True"
| "buffered_type PT_Metadata = True"
| "buffered_type PT_Parity = True"
| "buffered_type _ = False"

fun listening_type :: "packet_type \<Rightarrow> bool" where
  "listening_type PT_Host = True"
| "listening_type PT_KeepAlive = True"
| "listening_type _ = False"

text \<open>\<open>send_packets\<close>: in a debug build a packet that is to be sent 0 times panics its task.\<close>

fun send_packets :: "bool \<Rightarrow> nat \<Rightarrow> processed_packet list \<Rightarrow> (out_socket \<times> datagram) list" where
  "send_packets dbg s [] = []"
| "send_packets dbg s (p # ps) =
     (if dbg \<and> pp_duplicate_count p = 0 then []
      else replicate (pp_duplicate_count p) (Pooled s, datagram_of p) @ send_packets dbg s ps)"

datatype transport_phase = Transport_Running | Transport_Closed | Transport_Lost

record transport_out =
  to_pool :: sockets
  to_buffer :: "processed_packet list"
  to_sent :: "(out_socket \<times> datagram) list"
  to_phase :: transport_phase

definition transport_new :: "nat \<Rightarrow> transport_out" where
  "transport_new s = \<lparr>to_pool = so_new s, to_buffer = [], to_sent = [], to_phase = Transport_Running\<rparr>"

text \<open>Dispatch the buffer from the next socket of the pool.\<close>

definition flush_buffer :: "bool \<Rightarrow> transport_out \<Rightarrow> transport_out ures" where
  "flush_buffer dbg t =
     (case so_retrieve (to_pool t) of
        Ok (s, p) \<Rightarrow> Ok (t\<lparr>to_pool := p, to_buffer := [], to_sent := to_sent t @ send_packets dbg s (to_buffer t)\<rparr>)
      | _ \<Rightarrow> Panic)"

definition deliver :: "processed_packet \<Rightarrow> transport_out \<Rightarrow> transport_out ures" where
  "deliver p t =
     (if buffered_type (pp_packet_type p) then Ok (t\<lparr>to_buffer := to_buffer t @ [p]\<rparr>)
      else if listening_type (pp_packet_type p)
      then Ok (t\<lparr>to_sent := to_sent t @ [(Listening, datagram_of p)]\<rparr>)
      else case so_retrieve (to_pool t) of
             Ok (s, q) \<Rightarrow> Ok (t\<lparr>to_pool := q, to_sent := to_sent t @ [(Pooled s, datagram_of p)]\<rparr>)
           | _ \<Rightarrow> Panic)"

definition close_transport :: "bool \<Rightarrow> transport_out \<Rightarrow> transport_out ures" where
  "close_transport dbg t =
     map_res (\<lambda>t. t\<lparr>to_phase := Transport_Closed\<rparr>) (if to_buffer t = [] then Ok t else flush_buffer dbg t)"

definition end_round :: "bool \<Rightarrow> u64 \<Rightarrow> nat option \<Rightarrow> transport_out \<Rightarrow> transport_out ures" where
  "end_round dbg elapsed bound t =
     (case so_update elapsed bound (to_pool t) of
        Ok (_, p) \<Rightarrow> (let t = t\<lparr>to_pool := p\<rparr> in if to_buffer t = [] then Ok t else flush_buffer dbg t)
      | _ \<Rightarrow> Panic)"

text \<open>
  What happens to the loop: a message or the loss of the channel while the round lasts and the
  buffer has room, and the end of a round once 5 ms have passed or the buffer is full.
\<close>

datatype transport_event =
    Deliver processed_packet
  | Deliver_Close
  | Channel_Gone
  | Round_Over u64 "nat option"

fun transport_enabled :: "transport_event \<Rightarrow> transport_out \<Rightarrow> bool" where
  "transport_enabled (Round_Over elapsed bound) t \<longleftrightarrow> to_phase t = Transport_Running
     \<and> (BUFFER_TIMEOUT \<le> elapsed \<or> length (to_buffer t) = MAX_PACKET_BUFFER_SIZE)"
| "transport_enabled _ t \<longleftrightarrow> to_phase t = Transport_Running \<and> length (to_buffer t) < MAX_PACKET_BUFFER_SIZE"

fun transport_handle :: "bool \<Rightarrow> transport_event \<Rightarrow> transport_out \<Rightarrow> transport_out ures" where
  "transport_handle dbg (Deliver p) t = deliver p t"
| "transport_handle dbg Deliver_Close t = close_transport dbg t"
| "transport_handle dbg Channel_Gone t = Ok (t\<lparr>to_phase := Transport_Lost\<rparr>)"
| "transport_handle dbg (Round_Over elapsed bound) t = end_round dbg elapsed bound t"

text \<open>A run of the loop over a list of events; \<open>None\<close> if one of them cannot happen.\<close>

fun transport_run :: "bool \<Rightarrow> transport_event list \<Rightarrow> transport_out \<Rightarrow> transport_out ures option" where
  "transport_run dbg [] t = Some (Ok t)"
| "transport_run dbg (e # es) t =
     (if transport_enabled e t
      then case transport_handle dbg e t of Ok t' \<Rightarrow> transport_run dbg es t' | r \<Rightarrow> Some r
      else None)"

section \<open>The inbound loop\<close>

definition MAX_ALLOWED_FAILS :: u32 where
  "MAX_ALLOWED_FAILS = 10"

text \<open>
  What the loop waits for: a datagram (with whether the packet processor still listens), a failed
  read, or the signal of the outbound half. A datagram is cut to the size of the buffer.
\<close>

datatype read_event = Read_Datagram bytes address bool | Read_Failed | Stop_Signal

datatype inbound_end = Inbound_Stopped | Inbound_Failed | Inbound_Channel_Closed | Inbound_Listening

fun inbound_transport :: "u32 \<Rightarrow> read_event list \<Rightarrow> processing_message list \<times> inbound_end" where
  "inbound_transport fails [] = ([], Inbound_Listening)"
| "inbound_transport fails (Read_Datagram d a up # es) =
     (if up then (let (ms, e) = inbound_transport 0 es in (ReceivedPacket (take MAX_PACKET_SIZE d) a # ms, e))
      else ([], Inbound_Channel_Closed))"
| "inbound_transport fails (Read_Failed # es) =
     (if fails + 1 \<ge> MAX_ALLOWED_FAILS then ([], Inbound_Failed) else inbound_transport (fails + 1) es)"
| "inbound_transport fails (Stop_Signal # es) = ([Closed], Inbound_Stopped)"

section \<open>How the layer ends\<close>

text \<open>The result of a task: what it returns, or \<open>None\<close> if it panicked.\<close>

datatype layer_result = Layer_Ok | Layer_Error

text \<open>
  \<open>init\<close> of \<open>mod.rs\<close>: the inbound loop ends first, or the outbound loop does; then a result of it is
  passed on after the inbound loop has ended too.
\<close>

datatype first_end = Inbound_First "layer_result option" | Outbound_First "layer_result option"

fun transport_result :: "first_end \<Rightarrow> layer_result" where
  "transport_result (Inbound_First (Some r)) = r"
| "transport_result (Inbound_First None) = Layer_Error"
| "transport_result (Outbound_First (Some r)) = r"
| "transport_result (Outbound_First None) = Layer_Error"

text \<open>\<open>bind_listen_socket\<close>: a debug build panics on a system port; the socket may not be had.\<close>

definition bind_listen_socket :: "bool \<Rightarrow> u16 \<Rightarrow> nat option \<Rightarrow> nat option ures" where
  "bind_listen_socket dbg port bound = (if dbg \<and> 1 \<le> port \<and> port \<le> 1024 then Panic else Ok bound)"

section \<open>Nothing is lost or sent twice\<close>

text \<open>The datagrams a packet is sent as.\<close>

definition copies :: "processed_packet \<Rightarrow> datagram list" where
  "copies p = (if buffered_type (pp_packet_type p) then replicate (pp_duplicate_count p) (datagram_of p)
               else [datagram_of p])"

fun accepted :: "transport_event list \<Rightarrow> datagram list" where
  "accepted [] = []"
| "accepted (Deliver p # es) = copies p @ accepted es"
| "accepted (_ # es) = accepted es"

definition sendable :: "bool \<Rightarrow> processed_packet \<Rightarrow> bool" where
  "sendable dbg p \<longleftrightarrow> dbg \<longrightarrow> pp_duplicate_count p \<noteq> 0"

text \<open>What was sent, and what is still in the buffer.\<close>

definition transport_load :: "transport_out \<Rightarrow> datagram multiset" where
  "transport_load t = mset (map snd (to_sent t)) + mset (concat (map copies (to_buffer t)))"

definition transport_inv :: "bool \<Rightarrow> transport_out \<Rightarrow> bool" where
  "transport_inv dbg t \<longleftrightarrow> length (to_buffer t) \<le> MAX_PACKET_BUFFER_SIZE
     \<and> (\<forall>p\<in>set (to_buffer t). buffered_type (pp_packet_type p) \<and> sendable dbg p)
     \<and> (to_phase t = Transport_Closed \<longrightarrow> to_buffer t = [])"

lemma send_packets_copies:
  "\<forall>p\<in>set ps. buffered_type (pp_packet_type p) \<and> sendable dbg p
    \<Longrightarrow> map snd (send_packets dbg s ps) = concat (map copies ps)"
  by (induction ps) (auto simp: copies_def sendable_def)

lemma send_packets_mset:
  "\<forall>p\<in>set ps. buffered_type (pp_packet_type p) \<and> sendable dbg p
    \<Longrightarrow> image_mset snd (mset (send_packets dbg s ps)) = mset (concat (map copies ps))"
  using send_packets_copies [of ps dbg s] by (metis mset_map)

lemma flush_buffer_load:
  "\<lbrakk> flush_buffer dbg t = Ok t'; transport_inv dbg t \<rbrakk>
    \<Longrightarrow> transport_load t' = transport_load t \<and> to_buffer t' = [] \<and> to_phase t' = to_phase t"
  by (auto simp: flush_buffer_def transport_load_def transport_inv_def send_packets_mset
      split: res.splits)

lemma deliver_load:
  "deliver p t = Ok t' \<Longrightarrow> transport_load t' = transport_load t + mset (copies p) \<and> to_phase t' = to_phase t
     \<and> to_buffer t' = (if buffered_type (pp_packet_type p) then to_buffer t @ [p] else to_buffer t)"
  by (auto simp: deliver_def transport_load_def copies_def split: if_splits res.splits)

lemma transport_load_upd [simp]:
  "transport_load (t\<lparr>to_phase := ph\<rparr>) = transport_load t"
  "transport_load (t\<lparr>to_pool := p\<rparr>) = transport_load t"
  by (simp_all add: transport_load_def)

lemma close_transport_load:
  "\<lbrakk> close_transport dbg t = Ok t'; transport_inv dbg t \<rbrakk>
    \<Longrightarrow> transport_load t' = transport_load t \<and> to_buffer t' = []"
  by (auto simp: close_transport_def map_res_Ok_iff split: if_splits dest!: flush_buffer_load)

lemma transport_handle_load:
  assumes h: "transport_handle dbg e t = Ok t'" and inv: "transport_inv dbg t" and en: "transport_enabled e t"
    and s: "\<forall>p. e = Deliver p \<longrightarrow> sendable dbg p"
  shows "transport_load t' = transport_load t + mset (accepted [e]) \<and> transport_inv dbg t'"
proof (cases e)
  case (Deliver p)
  then show ?thesis using assms deliver_load [of p t t'] by (auto simp: transport_inv_def)
next
  case Deliver_Close
  then show ?thesis using h inv close_transport_load [of dbg t t'] by (simp add: transport_inv_def)
next
  case Channel_Gone
  then show ?thesis using h inv by (auto simp: transport_inv_def)
next
  case (Round_Over elapsed bound)
  then obtain b p where u: "so_update elapsed bound (to_pool t) = Ok (b, p)"
    using h by (auto simp: end_round_def split: res.splits)
  let ?t = "t\<lparr>to_pool := p\<rparr>"
  have "transport_inv dbg ?t" using inv by (simp add: transport_inv_def)
  then show ?thesis using h en u flush_buffer_load [of dbg ?t t'] Round_Over
    by (auto simp: end_round_def transport_inv_def Let_def split: if_splits)
qed

lemma accepted_Cons: "mset (accepted (e # es)) = mset (accepted [e]) + mset (accepted es)"
  by (cases e) simp_all

lemma transport_run_load:
  "\<lbrakk> transport_run dbg es t = Some (Ok t'); transport_inv dbg t; \<forall>p. Deliver p \<in> set es \<longrightarrow> sendable dbg p \<rbrakk>
    \<Longrightarrow> transport_load t' = transport_load t + mset (accepted es) \<and> transport_inv dbg t'"
proof (induction es arbitrary: t)
  case (Cons e es)
  obtain t1 where t1: "transport_enabled e t" "transport_handle dbg e t = Ok t1" "transport_run dbg es t1 = Some (Ok t')"
    using Cons.prems(1) by (auto split: if_splits res.splits)
  then have "transport_load t1 = transport_load t + mset (accepted [e])" "transport_inv dbg t1"
    using transport_handle_load [of dbg e t t1] Cons.prems(2,3) by auto
  with Cons.IH [of t1] t1(3) Cons.prems(3) show ?case by (simp add: accepted_Cons [of e es])
qed simp

text \<open>C14: The outbound loop loses nothing and sends nothing twice. After any run that did not panic, the
  datagrams sent and the copies of the packets still in the buffer are together exactly those the received
  packets ask for (a buffered packet as often as its duplicate count says, any other once); the buffer never
  exceeds its size, and after a graceful close it is empty.\<close>

theorem transport_conserves:
  assumes "transport_run dbg es (transport_new s) = Some (Ok t)"
    and "\<forall>p. Deliver p \<in> set es \<longrightarrow> dbg \<longrightarrow> pp_duplicate_count p \<noteq> 0"
  shows "mset (map snd (to_sent t)) + mset (concat (map copies (to_buffer t))) = mset (accepted es)
    \<and> length (to_buffer t) \<le> MAX_PACKET_BUFFER_SIZE \<and> (to_phase t = Transport_Closed \<longrightarrow> to_buffer t = [])"
proof -
  have "transport_inv dbg (transport_new s)" "transport_load (transport_new s) = {#}"
    by (simp_all add: transport_inv_def transport_new_def transport_load_def)
  then show ?thesis using transport_run_load [OF assms(1)] assms(2)
    by (auto simp: transport_load_def transport_inv_def sendable_def)
qed

definition demo_host :: address where
  "demo_host = \<lparr>sa_ip = [127, 0, 0, 1], sa_port = 9\<rparr>"

definition demo_packet :: "packet_type \<Rightarrow> nat \<Rightarrow> processed_packet" where
  "demo_packet pt n = \<lparr>pp_dest_addr = demo_host, pp_packet_type = pt, pp_data = [7], pp_duplicate_count = n\<rparr>"

theorem transport_conserves_witness:
  "\<exists>t. transport_run True [Deliver (demo_packet PT_Data 2), Deliver_Close] (transport_new 0) = Some (Ok t)
     \<and> mset (map snd (to_sent t)) + mset (concat (map copies (to_buffer t))) = {#(demo_host, [7]), (demo_host, [7])#}"
proof -
  let ?es = "[Deliver (demo_packet PT_Data 2), Deliver_Close]"
  have r: "\<exists>t. transport_run True ?es (transport_new 0) = Some (Ok t)"
    by (simp add: transport_new_def deliver_def demo_packet_def MAX_PACKET_BUFFER_SIZE_def
        close_transport_def flush_buffer_def so_retrieve_def so_next_def so_new_def del: send_packets.simps)
  have "\<forall>p. Deliver p \<in> set ?es \<longrightarrow> True \<longrightarrow> pp_duplicate_count p \<noteq> 0" by (simp add: demo_packet_def)
  moreover have "mset (accepted ?es) = {#(demo_host, [7]), (demo_host, [7])#}"
    by (simp add: copies_def demo_packet_def datagram_of_def numeral_2_eq_2)
  moreover obtain t where t: "transport_run True ?es (transport_new 0) = Some (Ok t)" using r by blast
  ultimately show ?thesis using transport_conserves [OF t] by (intro exI [of _ t]) simp
qed

section \<open>Redundancy\<close>

text \<open>C18: The redundancy of control packets is never honoured: where the packet processor asks for more
  than one copy of a packet, and it does so for hellos, requests, rejections and controls, the transport layer
  sends exactly one datagram, since only buffered packets are repeated and all of those ask for one copy.\<close>

theorem redundancy_ignored:
  assumes "fst (outbound_handle A tbl pk addr) = Ok effs" and "ToTransport p \<in> set effs"
    and "pp_duplicate_count p \<noteq> 1" and "deliver p t = Ok t'"
  shows "1 < pp_duplicate_count p \<and> (\<exists>s. to_sent t' = to_sent t @ [(s, datagram_of p)])"
proof -
  have "1 < pp_duplicate_count p \<and> \<not> buffered_type (pp_packet_type p)"
    using assms(1-3)
    by (cases pk) (auto simp: Let_def finish_def processed_def pending_if_def map_res_Ok_iff split: prod.splits if_splits)
  then show ?thesis using assms(4) by (auto simp: deliver_def split: if_splits res.splits)
qed

definition demo_handshake_ack :: handshake_ack where
  "demo_handshake_ack = handshake_ack_new 4 3 2"

lemma demo_handshake_ack_sent:
  "fst (outbound_handle A t (HandshakeAckPacket demo_handshake_ack) demo_host)
     = Ok [ToTransport (processed demo_host PT_HandshakeAck 3 (concat (handshake_ack_encs demo_handshake_ack)))]"
proof -
  have "encodes (handshake_ack_fields demo_handshake_ack) (handshake_ack_encs demo_handshake_ack)"
    by (simp add: handshake_ack_fields_def handshake_ack_encs_def packet)
  then show ?thesis by (simp add: finish_def serialize_packet_concat)
qed

theorem redundancy_ignored_witness:
  "\<exists>t p s. fst (outbound_handle demo_aead [] (HandshakeAckPacket demo_handshake_ack) demo_host) = Ok [ToTransport p]
     \<and> deliver p (transport_new 0) = Ok t \<and> 1 < pp_duplicate_count p \<and> to_sent t = [(s, datagram_of p)]"
proof -
  let ?p = "processed demo_host PT_HandshakeAck 3 (concat (handshake_ack_encs demo_handshake_ack))"
  obtain t where t: "deliver ?p (transport_new 0) = Ok t"
    by (simp add: deliver_def processed_def transport_new_def so_retrieve_def so_next_def so_new_def)
  have "ToTransport ?p \<in> set [ToTransport ?p]" "pp_duplicate_count ?p \<noteq> 1" by (simp_all add: processed_def)
  from redundancy_ignored [OF demo_handshake_ack_sent [of demo_aead "[]"] this t]
  have "1 < pp_duplicate_count ?p \<and> (\<exists>s. to_sent t = [(s, datagram_of ?p)])" by (simp add: transport_new_def)
  then show ?thesis using t demo_handshake_ack_sent [of demo_aead "[]"] by blast
qed

section \<open>The pool breaks\<close>

lemma transport_run_append:
  "transport_run dbg (es @ fs) t =
     (case transport_run dbg es t of Some (Ok t') \<Rightarrow> transport_run dbg fs t' | r \<Rightarrow> r)"
  by (induction es arbitrary: t) (auto split: res.splits option.splits)

lemma transport_run_fill:
  "\<lbrakk> buffered_type (pp_packet_type p); to_phase t = Transport_Running;
     length (to_buffer t) + n \<le> MAX_PACKET_BUFFER_SIZE \<rbrakk>
    \<Longrightarrow> transport_run dbg (replicate n (Deliver p)) t = Some (Ok (t\<lparr>to_buffer := to_buffer t @ replicate n p\<rparr>))"
  by (induction n arbitrary: t) (simp_all add: deliver_def)

text \<open>A round at full speed: 128 packets within the first millisecond.\<close>

definition busy_round :: "nat option \<Rightarrow> transport_event list" where
  "busy_round bound =
     replicate MAX_PACKET_BUFFER_SIZE (Deliver (demo_packet PT_Data 1)) @ [Round_Over 0 bound]"

fun busy_pool :: "nat \<Rightarrow> nat option \<Rightarrow> sockets \<Rightarrow> sockets option" where
  "busy_pool 0 bound p = Some p"
| "busy_pool (Suc n) bound p =
     (case so_update 0 bound p of
        Ok (_, p1) \<Rightarrow> (case so_retrieve p1 of Ok (_, p2) \<Rightarrow> busy_pool n bound p2 | _ \<Rightarrow> None)
      | _ \<Rightarrow> None)"

fun idle_pool :: "nat \<Rightarrow> sockets \<Rightarrow> sockets option" where
  "idle_pool 0 p = Some p"
| "idle_pool (Suc n) p =
     (case so_update BUFFER_TIMEOUT None p of Ok (_, p1) \<Rightarrow> idle_pool n p1 | _ \<Rightarrow> None)"

definition transport_idle :: "transport_out \<Rightarrow> bool" where
  "transport_idle t \<longleftrightarrow> to_phase t = Transport_Running \<and> to_buffer t = []"

lemma busy_round_run:
  assumes "transport_idle t" and "so_update 0 bound (to_pool t) = Ok (b, p1)" and "so_retrieve p1 = Ok (s, p2)"
  shows "\<exists>t'. transport_run dbg (busy_round bound) t = Some (Ok t') \<and> transport_idle t' \<and> to_pool t' = p2"
proof -
  have "transport_run dbg (replicate MAX_PACKET_BUFFER_SIZE (Deliver (demo_packet PT_Data 1))) t
      = Some (Ok (t\<lparr>to_buffer := replicate MAX_PACKET_BUFFER_SIZE (demo_packet PT_Data 1)\<rparr>))"
    using assms(1) by (subst transport_run_fill) (simp_all add: transport_idle_def demo_packet_def)
  moreover have "MAX_PACKET_BUFFER_SIZE \<noteq> 0" by (simp add: MAX_PACKET_BUFFER_SIZE_def)
  ultimately show ?thesis using assms
    by (simp add: busy_round_def transport_run_append transport_idle_def end_round_def flush_buffer_def)
qed

lemma busy_rounds_run:
  "\<lbrakk> transport_idle t; busy_pool n bound (to_pool t) = Some p \<rbrakk>
    \<Longrightarrow> \<exists>t'. transport_run dbg (concat (replicate n (busy_round bound))) t = Some (Ok t') \<and> transport_idle t' \<and> to_pool t' = p"
proof (induction n arbitrary: t)
  case (Suc n)
  obtain b p1 s p2 where u: "so_update 0 bound (to_pool t) = Ok (b, p1)" "so_retrieve p1 = Ok (s, p2)"
    and rest: "busy_pool n bound p2 = Some p"
    using Suc.prems(2) by (auto split: res.splits prod.splits)
  obtain t1 where "transport_run dbg (busy_round bound) t = Some (Ok t1)" "transport_idle t1" "to_pool t1 = p2"
    using busy_round_run [OF Suc.prems(1) u] by blast
  with Suc.IH [of t1] rest show ?case by (auto simp: transport_run_append)
qed simp

lemma idle_rounds_run:
  "\<lbrakk> transport_idle t; idle_pool n (to_pool t) = Some p \<rbrakk>
    \<Longrightarrow> \<exists>t'. transport_run dbg (replicate n (Round_Over BUFFER_TIMEOUT None)) t = Some (Ok t') \<and> transport_idle t' \<and> to_pool t' = p"
proof (induction n arbitrary: t)
  case (Suc n)
  obtain b p1 where u: "so_update BUFFER_TIMEOUT None (to_pool t) = Ok (b, p1)" and rest: "idle_pool n p1 = Some p"
    using Suc.prems(2) by (auto split: res.splits prod.splits)
  then show ?case using Suc.prems(1) Suc.IH [of "t\<lparr>to_pool := p1\<rparr>"]
    by (simp add: end_round_def transport_idle_def)
qed simp

text \<open>The two thresholds are reached after exactly 50 and 100 rounds.\<close>

lemma unat_add_less: "unat a + unat b < 2 ^ LENGTH('a) \<Longrightarrow> unat (a + b :: 'a::len word) = unat a + unat b"
  by (simp add: unat_add_lem)

fun addition_sum_nat :: "nat \<Rightarrow> nat" where
  "addition_sum_nat 0 = 0"
| "addition_sum_nat (Suc n) = addition_sum_nat n + n * 25 div Suc n"

lemma addition_sum_nat_le: "addition_sum_nat n \<le> 25 * n"
proof (induction n)
  case (Suc n)
  have "n * 25 div Suc n < 26" by (rule less_mult_imp_div_less) simp
  then show ?case using Suc by simp
qed simp

lemma addition_sum_unat: "n \<le> 50 \<Longrightarrow> unat (addition_sum n) = addition_sum_nat n"
proof (induction n)
  case (Suc n)
  have "n * 25 div Suc n < 26" by (rule less_mult_imp_div_less) simp
  moreover have "addition_sum_nat n \<le> 25 * 50" using addition_sum_nat_le [of n] Suc.prems by simp
  moreover have "unat (of_nat n * 25 div of_nat (Suc n) :: u64) = n * 25 div Suc n"
    using Suc.prems by (simp add: unat_div unat_word_ariths unat_of_nat take_bit_eq_mod del: of_nat_Suc)
  ultimately show ?case using Suc
    by (simp add: BUFFER_TIMEOUT_def unat_add_less del: of_nat_Suc)
qed simp

lemma addition_sum_nat_mono: "n \<le> m \<Longrightarrow> addition_sum_nat n \<le> addition_sum_nat m"
  by (rule lift_Suc_mono_le) simp_all

lemma addition_below: "n < 50 \<Longrightarrow> addition_sum n < ADDITION_THRESHOLD"
proof -
  assume n: "n < 50"
  have "addition_sum_nat n \<le> addition_sum_nat 49" using n by (intro addition_sum_nat_mono) simp
  also have "\<dots> < addition_sum_nat (Suc 49)" unfolding addition_sum_nat.simps by simp
  also have "\<dots> = addition_sum_nat 50" by simp
  finally show ?thesis
    using n by (simp add: ADDITION_THRESHOLD_def BUFFERS_BEFORE_ADD_def word_less_nat_alt addition_sum_unat)
qed

fun square_sum :: "nat \<Rightarrow> u64" where
  "square_sum 0 = 0"
| "square_sum (Suc n) = square_sum n + of_nat (Suc n) * of_nat (Suc n)"

lemma square_sum_unat: "n \<le> 100 \<Longrightarrow> 6 * unat (square_sum n) = n * (n + 1) * (2 * n + 1)"
proof (induction n)
  case (Suc n)
  have "unat (of_nat (Suc n) * of_nat (Suc n) :: u64) = Suc n * Suc n"
  proof -
    have "Suc n * Suc n \<le> 100 * 100" using Suc.prems by (intro mult_le_mono) simp_all
    then show ?thesis using Suc.prems by (simp add: unat_word_ariths unat_of_nat take_bit_eq_mod del: of_nat_Suc mult_Suc)
  qed
  moreover have "n * (n + 1) * (2 * n + 1) \<le> 100 * 101 * 201"
    using Suc.prems by (intro mult_le_mono) simp_all
  moreover have "Suc n * Suc n \<le> 100 * 100" using Suc.prems by (intro mult_le_mono) simp_all
  ultimately have "unat (square_sum (Suc n)) = unat (square_sum n) + Suc n * Suc n"
    using Suc by (simp only: square_sum.simps, subst unat_add_less) (simp_all del: of_nat_Suc mult_Suc)
  then show ?case using Suc by (simp add: algebra_simps)
qed simp

lemma square_below: "n < 100 \<Longrightarrow> square_sum n < REMOVAL_THRESHOLD"
  and square_reached: "square_sum 100 = REMOVAL_THRESHOLD"
proof -
  have t: "unat REMOVAL_THRESHOLD = 338350"
    by (simp add: REMOVAL_THRESHOLD_def BUFFERS_BEFORE_REMOVE_def)
  show "square_sum 100 = REMOVAL_THRESHOLD"
    using square_sum_unat [of 100] t by (simp add: word_unat_eq_iff)
  assume n: "n < 100"
  have "n * (n + 1) * (2 * n + 1) \<le> 99 * 100 * 199" using n by (intro mult_le_mono) simp_all
  then show "square_sum n < REMOVAL_THRESHOLD"
    using square_sum_unat [of n] n t by (simp add: word_less_nat_alt)
qed

definition busy_state :: "nat \<Rightarrow> nat \<Rightarrow> sockets" where
  "busy_state s n = \<lparr>so_sockets = [s], so_current = 0, so_removal_meter = 0,
     so_addition_meter = addition_sum n, so_early = of_nat n, so_on_time = 0\<rparr>"

definition idle_state :: "nat \<Rightarrow> nat \<Rightarrow> nat \<Rightarrow> u64 \<Rightarrow> sockets" where
  "idle_state s r n e = \<lparr>so_sockets = [s, r], so_current = 1, so_removal_meter = square_sum n,
     so_addition_meter = 0, so_early = e, so_on_time = of_nat n\<rparr>"

lemma small_of_nat_Suc: "n < 100 \<Longrightarrow> (1 :: u64) + of_nat n \<noteq> 0"
proof -
  assume "n < 100"
  then have "unat (of_nat (Suc n) :: u64) = Suc n" by (simp add: unat_of_nat take_bit_eq_mod del: of_nat_Suc)
  then show ?thesis by (metis of_nat_Suc unat_0 nat.distinct(1))
qed

lemma thresholds_positive: "0 < ADDITION_THRESHOLD" "0 < REMOVAL_THRESHOLD"
  using addition_below [of 0] square_below [of 0] by simp_all

lemma full_speed: "saturating_sub BUFFER_TIMEOUT 0 = BUFFER_TIMEOUT" "BUFFER_TIMEOUT \<noteq> 0"
    "saturating_sub (0 :: u64) 1 = 0" "saturating_sub BUFFER_TIMEOUT BUFFER_TIMEOUT = 0"
  by (simp_all add: saturating_sub_def BUFFER_TIMEOUT_def)

lemma busy_state_meter: "so_addition_meter (busy_state s n) = addition_sum n"
  by (simp add: busy_state_def)

lemma busy_count:
  "n < 50 \<Longrightarrow> so_update 0 b (busy_state s n) = Ok (so_grow b (busy_state s (Suc n)))"
  using small_of_nat_Suc [of n] thresholds_positive
  by (simp add: so_update_def so_count_def so_shrink_def busy_state_def full_speed Let_def add.commute
      linorder_not_le [symmetric])

lemma busy_retrieve: "so_retrieve (busy_state s n) = Ok (s, busy_state s n)"
  by (simp add: so_retrieve_def so_next_def busy_state_def)

lemma busy_step: "n < 49 \<Longrightarrow> so_update 0 b (busy_state s n) = Ok (True, busy_state s (Suc n))"
  using addition_below [of "Suc n"] by (simp add: busy_count so_grow_def busy_state_meter linorder_not_le [symmetric] del: addition_sum.simps)

lemma busy_pool_below: "k + n \<le> 49 \<Longrightarrow> busy_pool n b (busy_state s k) = Some (busy_state s (k + n))"
  by (induction n arbitrary: k) (simp_all add: busy_step busy_retrieve)

lemma busy_pool_append: "busy_pool n b p = Some q \<Longrightarrow> busy_pool (n + m) b p = busy_pool m b q"
  by (induction n arbitrary: p) (auto split: res.splits prod.splits)

text \<open>The fiftieth round adds a socket, and it is the next one to be used.\<close>

lemma busy_pool_full: "busy_pool 50 (Some r) (so_new s) = Some (idle_state s r 0 50)"
proof -
  have "busy_pool 49 (Some r) (so_new s) = Some (busy_state s 49)"
    using busy_pool_below [of 0 49 "Some r" s] by (simp add: so_new_def busy_state_def)
  moreover have "busy_pool 1 (Some r) (busy_state s 49) = Some (idle_state s r 0 50)"
    using busy_count [of 49 "Some r" s]
    by (simp add: so_grow_def busy_state_def idle_state_def so_retrieve_def so_next_def ADDITION_THRESHOLD_def
        BUFFERS_BEFORE_ADD_def del: addition_sum.simps)
  ultimately show ?thesis using busy_pool_append [of 49 "Some r" "so_new s" _ 1] by simp
qed

lemma saturating_sub_2_bound: "saturating_sub (e :: u64) 2 + 1 \<noteq> 0"
proof -
  have "unat e < 2 ^ 64" using unsigned_less [of e, where ?'a = nat] by simp
  then have "unat (saturating_sub e 2) + unat (1 :: u64) < 2 ^ LENGTH(64)" by (simp add: unat_saturating_sub)
  then have "unat (saturating_sub e 2 + 1) = unat (saturating_sub e 2) + unat (1 :: u64)" by (rule unat_add_less)
  then show ?thesis by (metis add_is_0 unat_0 unat_1 zero_neq_one)
qed

lemma idle_step:
  "n < 99 \<Longrightarrow> so_update BUFFER_TIMEOUT None (idle_state s r n e)
     = Ok (True, idle_state s r (Suc n) (saturating_sub e 2 + 1))"
  using square_below [of "Suc n"] thresholds_positive saturating_sub_2_bound [of e]
  by (simp add: so_update_def so_count_def so_shrink_def so_grow_def idle_state_def full_speed Let_def
      linorder_not_le [symmetric] add.commute)

lemma idle_pool_below: "n + k \<le> 99 \<Longrightarrow> \<exists>e'. idle_pool k (idle_state s r n e) = Some (idle_state s r (n + k) e')"
proof (induction k arbitrary: n e)
  case (Suc k)
  then show ?case using Suc.IH [of "Suc n" "saturating_sub e 2 + 1"] by (simp add: idle_step)
qed auto

lemma idle_pool_append: "idle_pool n p = Some q \<Longrightarrow> idle_pool (n + m) p = idle_pool m q"
  by (induction n arbitrary: p) (auto split: res.splits prod.splits)

text \<open>The hundredth quiet round removes the other socket and leaves the index at 1.\<close>

lemma idle_pool_full:
  "\<exists>q. idle_pool 100 (idle_state s r 0 e) = Some q \<and> so_sockets q = [r] \<and> so_current q = 1"
proof -
  obtain e' where 1: "idle_pool 99 (idle_state s r 0 e) = Some (idle_state s r 99 e')"
    using idle_pool_below [of 0 99 s r e] by auto
  have "square_sum 99 + 10000 = REMOVAL_THRESHOLD"
    using square_reached square_sum.simps(2) [of 99] by simp
  then have "\<exists>q. idle_pool 1 (idle_state s r 99 e') = Some q \<and> so_sockets q = [r] \<and> so_current q = 1"
    using thresholds_positive saturating_sub_2_bound [of e']
    by (simp add: so_update_def so_count_def so_shrink_def so_grow_def idle_state_def full_speed Let_def
      linorder_not_le [symmetric] remove_nth_def add.commute)
  then show ?thesis using idle_pool_append [OF 1, of 1] by simp
qed



text \<open>C17: The pool of sockets can break the outbound loop. From the start, fifty rounds at full speed
  add a second socket, whose turn it is, a hundred quiet rounds remove the first one and leave the index of
  the next socket past the end: the next packet, of whatever unbuffered kind, panics the task.\<close>

theorem pool_index_out_of_range:
  "transport_run False
     (concat (replicate 50 (busy_round (Some 1))) @ replicate 100 (Round_Over BUFFER_TIMEOUT None)
      @ [Deliver (demo_packet PT_Session 3)]) (transport_new 0) = Some Panic"
proof -
  obtain q where q: "idle_pool 100 (idle_state 0 1 0 50) = Some q" "so_sockets q = [1]" "so_current q = 1"
    using idle_pool_full [of 0 1 50] by blast
  have "transport_idle (transport_new 0)" "to_pool (transport_new 0) = so_new 0"
    by (simp_all add: transport_idle_def transport_new_def)
  then obtain t1 where t1: "transport_run False (concat (replicate 50 (busy_round (Some 1)))) (transport_new 0) = Some (Ok t1)"
      "transport_idle t1" "to_pool t1 = idle_state 0 1 0 50"
    using busy_rounds_run [of "transport_new 0" 50 "Some 1"] busy_pool_full [of 1 0] by auto
  then obtain t2 where t2: "transport_run False (replicate 100 (Round_Over BUFFER_TIMEOUT None)) t1 = Some (Ok t2)"
      "transport_idle t2" "to_pool t2 = q"
    using idle_rounds_run [of t1 100 q] q(1) by auto
  have "transport_enabled (Deliver (demo_packet PT_Session 3)) t2"
    using t2(2) by (simp add: transport_idle_def MAX_PACKET_BUFFER_SIZE_def)
  moreover have "deliver (demo_packet PT_Session 3) t2 = Panic"
    using t2(3) q by (simp add: deliver_def demo_packet_def so_retrieve_def)
  ultimately show ?thesis using t1(1) t2(1) by (simp add: transport_run_append del: replicate_Suc transport_enabled.simps)
qed

section \<open>When the inbound loop gives up\<close>

fun read_message :: "read_event \<Rightarrow> processing_message list" where
  "read_message (Read_Datagram d a up) = [ReceivedPacket (take MAX_PACKET_SIZE d) a]"
| "read_message _ = []"

fun ordinary_read :: "read_event \<Rightarrow> bool" where
  "ordinary_read (Read_Datagram d a up) = up"
| "ordinary_read Read_Failed = True"
| "ordinary_read Stop_Signal = False"

lemma fails_limit: "k < 10 \<Longrightarrow> (MAX_ALLOWED_FAILS \<le> of_nat k + 1) = (k = 9)"
proof -
  assume k: "k < 10"
  then have "unat (of_nat (Suc k) :: u32) = Suc k" by (simp add: unat_of_nat take_bit_eq_mod del: of_nat_Suc)
  moreover have "unat MAX_ALLOWED_FAILS = 10" by (simp add: MAX_ALLOWED_FAILS_def)
  ultimately show ?thesis using k by (auto simp: word_le_nat_alt add.commute)
qed

lemma replicate_ten: "replicate 10 x = x # replicate 9 x"
  by (simp add: numeral_eq_Suc)

lemma inbound_gives_up:
  "\<lbrakk> list_all ordinary_read es; k < 10 \<rbrakk> \<Longrightarrow>
     snd (inbound_transport (of_nat k) es) =
       (if prefix (replicate (10 - k) Read_Failed) es \<or> sublist (replicate 10 Read_Failed) es
        then Inbound_Failed else Inbound_Listening)
     \<and> (snd (inbound_transport (of_nat k) es) = Inbound_Listening
          \<longrightarrow> fst (inbound_transport (of_nat k) es) = concat (map read_message es))"
proof (induction es arbitrary: k)
  case Nil
  then show ?case by (cases "10 - k") simp_all
next
  case (Cons e es)
  obtain m where m: "10 - k = Suc m" using Cons.prems(2) by (cases "10 - k") simp_all
  show ?case
  proof (cases e)
    case (Read_Datagram d a up)
    then show ?thesis using Cons.IH [of 0] Cons.prems m
      by (auto simp: sublist_Cons_right replicate_ten split: prod.splits if_splits dest: prefix_imp_sublist)
  next
    case Read_Failed
    show ?thesis
    proof (cases "k = 9")
      case True
      then show ?thesis using Read_Failed fails_limit [of 9] by simp
    next
      case False
      then have "snd (inbound_transport (of_nat k) (e # es)) = snd (inbound_transport (of_nat (Suc k)) es)"
        "fst (inbound_transport (of_nat k) (e # es)) = fst (inbound_transport (of_nat (Suc k)) es)"
        using Read_Failed Cons.prems(2) fails_limit [of k] by (simp_all add: add.commute)
      moreover have "prefix (replicate (10 - k) Read_Failed) (e # es) = prefix (replicate (10 - Suc k) Read_Failed) es"
        using m Read_Failed by (metis (no_types) Cons_prefix_Cons Suc_diff_Suc Suc_inject Cons.prems(2) replicate_Suc)
      moreover have "prefix (replicate 10 Read_Failed) (e # es) \<Longrightarrow> prefix (replicate (10 - k) Read_Failed) (e # es)"
        by (rule prefix_order.trans [rotated]) (auto simp: prefix_def replicate_add [symmetric] intro!: exI [of _ "replicate k Read_Failed"] simp: Cons.prems(2) less_imp_le)
      ultimately show ?thesis using Cons.IH [of "Suc k"] Cons.prems False Read_Failed
        by (auto simp: sublist_Cons_right)
    qed
  next
    case Stop_Signal
    then show ?thesis using Cons.prems(1) by simp
  qed
qed

text \<open>The inbound loop gives up exactly after ten failed reads in a row, at whatever point; until then
  it passes every datagram up, in order and cut to the size of its buffer.\<close>

theorem inbound_fails_after_ten:
  assumes "list_all ordinary_read es"
  shows "(snd (inbound_transport 0 es) = Inbound_Failed) = sublist (replicate 10 Read_Failed) es
     \<and> (\<not> sublist (replicate 10 Read_Failed) es \<longrightarrow> fst (inbound_transport 0 es) = concat (map read_message es))"
  using inbound_gives_up [of es 0] assms by (auto split: if_splits dest: prefix_imp_sublist)

theorem inbound_fails_after_ten_witness:
  "snd (inbound_transport 0 [Read_Failed, Read_Datagram [1] demo_host True]) \<noteq> Inbound_Failed"
proof -
  have "\<not> sublist (replicate 10 Read_Failed) [Read_Failed, Read_Datagram [1] demo_host True]"
    by (auto dest!: sublist_length_le)
  then show ?thesis
    using inbound_fails_after_ten [of "[Read_Failed, Read_Datagram [1] demo_host True]"] by simp
qed

end
