(* ===== verification/Layers.thy ===== *)
theory Layers imports Transport begin

text \<open>
  The layers of the protocol as tasks that end (\<open>init\<close> of \<open>src/src/manager/mod.rs\<close>,
  \<open>src/src/packet_processor/mod.rs\<close> and \<open>src/src/transport/mod.rs\<close>, and the loops they start): each layer
  waits for the first of its two loops to end and then for the other, stops it, or leaves it. What the loops pass on is
  cut down to what decides how they end: packets, errors, and the messages that close. A task that is aborted waits
  for a message and ends there; the flushes of the loops are those of the theory \<open>Tasks\<close>.
\<close>

section \<open>Tasks and channels\<close>

datatype task_end = Ended_Ok | Ended_Err | Ended_Failed

datatype task = Task_Running | Task_Ended task_end

text \<open>The select of a layer: still waiting, waiting for one loop with the result of the other, or returned.\<close>

datatype select_phase = Selecting | Awaiting task_end | Awaiting_Failed | Layer_Returned task_end

datatype command_phase = Commands_Serving | Commands_Joining | Commands_Ended task_end

datatype down_message = Down_Packet | Down_Close

datatype up_message = Up_Data | Up_Error | Up_Closed

record layers =
  ly_t_in :: task
  ly_t_out :: task
  ly_transport :: select_phase
  ly_p_in :: task
  ly_p_out :: task
  ly_processor :: select_phase
  ly_m_in :: task
  ly_m_out :: command_phase
  ly_manager :: select_phase
  ly_stop :: bool
  ly_to_p_out :: "down_message list"
  ly_to_t_out :: "down_message list"
  ly_to_p_in :: "up_message list"
  ly_to_m_in :: "up_message list"
  ly_advertised :: bool

text \<open>
  After \<open>setup_layers\<close>; the outbound loop of the transport layer ends at once if it gets no socket.
\<close>

definition layers_new :: "bool \<Rightarrow> layers" where
  "layers_new bound =
     \<lparr>ly_t_in = Task_Running, ly_t_out = (if bound then Task_Running else Task_Ended Ended_Err), ly_transport = Selecting,
      ly_p_in = Task_Running, ly_p_out = Task_Running, ly_processor = Selecting,
      ly_m_in = Task_Running, ly_m_out = Commands_Serving, ly_manager = Selecting,
      ly_stop = False, ly_to_p_out = [], ly_to_t_out = [], ly_to_p_in = [], ly_to_m_in = [], ly_advertised = False\<rparr>"

fun returned :: "select_phase \<Rightarrow> bool" where
  "returned (Layer_Returned r) = True"
| "returned _ = False"

text \<open>The result of a layer for the end of a task: a task that failed is the error \<open>TaskFailed\<close>.\<close>

fun end_result :: "task_end \<Rightarrow> task_end" where
  "end_result Ended_Ok = Ended_Ok"
| "end_result _ = Ended_Err"

text \<open>Stop a task that may have ended by itself.\<close>

fun aborted :: "task \<Rightarrow> task" where
  "aborted Task_Running = Task_Ended Ended_Failed"
| "aborted t = t"

lemma aborted_simps [simp]: "aborted t \<noteq> Task_Running" "aborted t = Task_Ended Ended_Ok \<longleftrightarrow> t = Task_Ended Ended_Ok"
  by (cases t; simp)+

section \<open>The transport layer\<close>

text \<open>The inbound loop notices the signal; the outbound loop takes a message, closes, or has lost its senders.\<close>

inductive transport_layer :: "layers \<Rightarrow> layers \<Rightarrow> bool" where
  tl_in_stopped: "\<lbrakk> ly_t_in s = Task_Running; ly_stop s \<rbrakk>
    \<Longrightarrow> transport_layer s (s\<lparr>ly_t_in := Task_Ended Ended_Ok, ly_stop := False, ly_to_p_in := ly_to_p_in s @ [Up_Closed]\<rparr>)"
| tl_out_packet: "\<lbrakk> ly_t_out s = Task_Running; ly_to_t_out s = Down_Packet # ms \<rbrakk>
    \<Longrightarrow> transport_layer s (s\<lparr>ly_to_t_out := ms\<rparr>)"
| tl_out_close: "\<lbrakk> ly_t_out s = Task_Running; ly_to_t_out s = Down_Close # ms \<rbrakk>
    \<Longrightarrow> transport_layer s (s\<lparr>ly_t_out := Task_Ended Ended_Ok, ly_to_t_out := ms, ly_stop := True\<rparr>)"
| tl_out_lost: "\<lbrakk> ly_t_out s = Task_Running; ly_to_t_out s = []; ly_p_out s \<noteq> Task_Running; returned (ly_processor s) \<rbrakk>
    \<Longrightarrow> transport_layer s (s\<lparr>ly_t_out := Task_Ended Ended_Err\<rparr>)"
| tl_select_in: "\<lbrakk> ly_transport s = Selecting; ly_t_in s = Task_Ended r \<rbrakk>
    \<Longrightarrow> transport_layer s (s\<lparr>ly_transport := Layer_Returned (end_result r)\<rparr>)"
| tl_select_out: "\<lbrakk> ly_transport s = Selecting; ly_t_out s = Task_Ended r; r \<noteq> Ended_Failed \<rbrakk>
    \<Longrightarrow> transport_layer s (s\<lparr>ly_transport := Awaiting r\<rparr>)"
| tl_select_out_failed: "\<lbrakk> ly_transport s = Selecting; ly_t_out s = Task_Ended Ended_Failed \<rbrakk>
    \<Longrightarrow> transport_layer s (s\<lparr>ly_transport := Layer_Returned Ended_Err, ly_t_in := aborted (ly_t_in s)\<rparr>)"
| tl_awaited: "\<lbrakk> ly_transport s = Awaiting r; ly_t_in s = Task_Ended r' \<rbrakk>
    \<Longrightarrow> transport_layer s (s\<lparr>ly_transport := Layer_Returned r\<rparr>)"

section \<open>The packet processor\<close>

inductive processor_layer :: "layers \<Rightarrow> layers \<Rightarrow> bool" where
  pl_in_data: "\<lbrakk> ly_p_in s = Task_Running; ly_to_p_in s = Up_Data # us \<rbrakk>
    \<Longrightarrow> processor_layer s (s\<lparr>ly_to_p_in := us, ly_to_m_in := ly_to_m_in s @ [Up_Data]\<rparr>)"
| pl_in_dropped: "\<lbrakk> ly_p_in s = Task_Running; ly_to_p_in s = Up_Data # us \<rbrakk>
    \<Longrightarrow> processor_layer s (s\<lparr>ly_to_p_in := us\<rparr>)"
| pl_in_error: "\<lbrakk> ly_p_in s = Task_Running; ly_to_p_in s = Up_Error # us \<rbrakk>
    \<Longrightarrow> processor_layer s (s\<lparr>ly_to_p_in := us, ly_to_m_in := ly_to_m_in s @ [Up_Error]\<rparr>)"
| pl_in_closed: "\<lbrakk> ly_p_in s = Task_Running; ly_to_p_in s = Up_Closed # us \<rbrakk>
    \<Longrightarrow> processor_layer s (s\<lparr>ly_p_in := Task_Ended Ended_Ok, ly_to_p_in := us, ly_to_m_in := ly_to_m_in s @ [Up_Closed]\<rparr>)"
| pl_in_lost: "\<lbrakk> ly_p_in s = Task_Running; ly_to_p_in s = []; ly_t_in s \<noteq> Task_Running; returned (ly_transport s) \<rbrakk>
    \<Longrightarrow> processor_layer s (s\<lparr>ly_p_in := Task_Ended Ended_Err\<rparr>)"
| pl_out_failed: "\<lbrakk> ly_p_out s = Task_Running; ly_to_p_out s = Down_Packet # ms; ly_t_out s \<noteq> Task_Running \<rbrakk>
    \<Longrightarrow> processor_layer s (s\<lparr>ly_to_p_out := ms, ly_to_m_in := ly_to_m_in s @ [Up_Error]\<rparr>)"
| pl_out_packet: "\<lbrakk> ly_p_out s = Task_Running; ly_to_p_out s = Down_Packet # ms; ly_t_out s = Task_Running \<rbrakk>
    \<Longrightarrow> processor_layer s (s\<lparr>ly_to_p_out := ms, ly_to_t_out := ly_to_t_out s @ [Down_Packet]\<rparr>)"
| pl_out_close: "\<lbrakk> ly_p_out s = Task_Running; ly_to_p_out s = Down_Close # ms \<rbrakk>
    \<Longrightarrow> processor_layer s (s\<lparr>ly_p_out := Task_Ended Ended_Ok, ly_to_p_out := ms, ly_to_t_out := ly_to_t_out s @ [Down_Close]\<rparr>)"
| pl_select_in: "\<lbrakk> ly_processor s = Selecting; ly_p_in s = Task_Ended r; r \<noteq> Ended_Failed \<rbrakk>
    \<Longrightarrow> processor_layer s (s\<lparr>ly_processor := Awaiting r\<rparr>)"
| pl_select_in_failed: "\<lbrakk> ly_processor s = Selecting; ly_p_in s = Task_Ended Ended_Failed \<rbrakk>
    \<Longrightarrow> processor_layer s (s\<lparr>ly_processor := Awaiting_Failed, ly_to_t_out := ly_to_t_out s @ [Down_Close]\<rparr>)"
| pl_awaited: "\<lbrakk> ly_processor s = Awaiting r; ly_p_out s = Task_Ended r' \<rbrakk>
    \<Longrightarrow> processor_layer s (s\<lparr>ly_processor := Layer_Returned r, ly_to_t_out := ly_to_t_out s @ [Down_Close]\<rparr>)"
| pl_awaited_failed: "\<lbrakk> ly_processor s = Awaiting_Failed; ly_p_out s = Task_Ended r' \<rbrakk>
    \<Longrightarrow> processor_layer s (s\<lparr>ly_processor := Layer_Returned Ended_Err\<rparr>)"
| pl_select_out: "\<lbrakk> ly_processor s = Selecting; ly_p_out s = Task_Ended r \<rbrakk>
    \<Longrightarrow> processor_layer s (s\<lparr>ly_processor := Layer_Returned (end_result r), ly_p_in := aborted (ly_p_in s),
          ly_to_t_out := ly_to_t_out s @ [Down_Close]\<rparr>)"

section \<open>The manager\<close>

text \<open>
  \<open>LayerHandles::join\<close> waits for the processor and, if it returned without an error, for the transport layer. When the
  outbound loop ends first the manager waits at most five seconds for the inbound one.
\<close>

definition layers_joined :: "layers \<Rightarrow> bool" where
  "layers_joined s \<longleftrightarrow> (case ly_processor s of
     Layer_Returned r \<Rightarrow> r \<noteq> Ended_Ok \<or> returned (ly_transport s) | _ \<Rightarrow> False)"

inductive manager_layer :: "layers \<Rightarrow> layers \<Rightarrow> bool" where
  ml_in_data: "\<lbrakk> ly_m_in s = Task_Running; ly_to_m_in s = Up_Data # us \<rbrakk>
    \<Longrightarrow> manager_layer s (s\<lparr>ly_to_m_in := us\<rparr>)"
| ml_in_error: "\<lbrakk> ly_m_in s = Task_Running; ly_to_m_in s = Up_Error # us \<rbrakk>
    \<Longrightarrow> manager_layer s (s\<lparr>ly_to_m_in := us, ly_advertised := True\<rparr>)"
| ml_in_closed: "\<lbrakk> ly_m_in s = Task_Running; ly_to_m_in s = Up_Closed # us \<rbrakk>
    \<Longrightarrow> manager_layer s (s\<lparr>ly_to_m_in := us, ly_m_in := Task_Ended Ended_Ok\<rparr>)"
| ml_in_lost: "\<lbrakk> ly_m_in s = Task_Running; ly_to_m_in s = []; ly_p_in s \<noteq> Task_Running; ly_p_out s \<noteq> Task_Running;
      returned (ly_processor s) \<rbrakk>
    \<Longrightarrow> manager_layer s (s\<lparr>ly_m_in := Task_Ended Ended_Err\<rparr>)"
| ml_out_joined: "\<lbrakk> ly_m_out s = Commands_Joining; layers_joined s \<rbrakk>
    \<Longrightarrow> manager_layer s (s\<lparr>ly_m_out := Commands_Ended Ended_Ok\<rparr>)"
| ml_select_in: "\<lbrakk> ly_manager s = Selecting; ly_m_in s = Task_Ended r \<rbrakk>
    \<Longrightarrow> manager_layer s (s\<lparr>ly_manager := Layer_Returned (end_result r),
          ly_m_out := (case ly_m_out s of Commands_Ended r' \<Rightarrow> Commands_Ended r' | _ \<Rightarrow> Commands_Ended Ended_Failed)\<rparr>)"
| ml_select_out: "\<lbrakk> ly_manager s = Selecting; ly_m_out s = Commands_Ended r \<rbrakk>
    \<Longrightarrow> manager_layer s (s\<lparr>ly_manager := Layer_Returned (end_result r),
          ly_advertised := (ly_advertised s \<or> r = Ended_Ok)\<rparr>)"

text \<open>What comes from outside: commands of the application, datagrams, failed reads, and a panic
  of the outbound loop (\<open>pool_index_out_of_range\<close>).\<close>

inductive layers_event :: "layers \<Rightarrow> layers \<Rightarrow> bool" where
  le_packet: "ly_m_out s = Commands_Serving \<Longrightarrow> layers_event s (s\<lparr>ly_to_p_out := ly_to_p_out s @ [Down_Packet]\<rparr>)"
| le_close: "ly_m_out s = Commands_Serving
    \<Longrightarrow> layers_event s (s\<lparr>ly_to_p_out := ly_to_p_out s @ [Down_Close], ly_m_out := Commands_Joining\<rparr>)"
| le_datagram: "\<lbrakk> ly_t_in s = Task_Running; ly_p_in s = Task_Running \<rbrakk>
    \<Longrightarrow> layers_event s (s\<lparr>ly_to_p_in := ly_to_p_in s @ [Up_Data]\<rparr>)"
| le_datagram_refused: "\<lbrakk> ly_t_in s = Task_Running; ly_p_in s \<noteq> Task_Running \<rbrakk>
    \<Longrightarrow> layers_event s (s\<lparr>ly_t_in := Task_Ended Ended_Err\<rparr>)"
| le_gives_up: "ly_t_in s = Task_Running \<Longrightarrow> layers_event s (s\<lparr>ly_t_in := Task_Ended Ended_Err\<rparr>)"
| le_out_panics: "ly_t_out s = Task_Running \<Longrightarrow> layers_event s (s\<lparr>ly_t_out := Task_Ended Ended_Failed\<rparr>)"

definition layers_move :: "layers \<Rightarrow> layers \<Rightarrow> bool" where
  "layers_move s s' \<longleftrightarrow> transport_layer s s' \<or> processor_layer s s' \<or> manager_layer s s'"

inductive layers_reachable :: "bool \<Rightarrow> layers \<Rightarrow> bool" for bound :: bool where
  lr_new: "layers_reachable bound (layers_new bound)"
| lr_move: "\<lbrakk> layers_reachable bound s; layers_move s s' \<rbrakk> \<Longrightarrow> layers_reachable bound s'"
| lr_event: "\<lbrakk> layers_reachable bound s; layers_event s s' \<rbrakk> \<Longrightarrow> layers_reachable bound s'"

inductive_cases transport_layerE: "transport_layer s s'"
inductive_cases processor_layerE: "processor_layer s s'"
inductive_cases manager_layerE: "manager_layer s s'"
inductive_cases layers_eventE: "layers_event s s'"

lemmas layer_elims = transport_layerE processor_layerE manager_layerE layers_eventE

section \<open>The loops that pass messages up\<close>

text \<open>
  \<open>init\<close> of \<open>packet_processor/inbound.rs\<close>: datagrams are handed to tasks of their own and errors passed on, until
  \<open>Closed\<close> comes, which is passed on too. The result lists what was handed on and says how the loop ends; the messages that
  travel downwards are a panic.
\<close>

fun processor_inbound_loop ::
  "('e, processing_message) res list \<Rightarrow> ('e, bytes \<times> address) res list \<times> loop_end" where
  "processor_inbound_loop [] = ([], ChannelClosed)"
| "processor_inbound_loop (Ok (ReceivedPacket d a) # ms) =
     (let (hs, e) = processor_inbound_loop ms in (Ok (d, a) # hs, e))"
| "processor_inbound_loop (Err x # ms) = (let (hs, e) = processor_inbound_loop ms in (Err x # hs, e))"
| "processor_inbound_loop (Ok Closed # ms) = ([], GracefulClose)"
| "processor_inbound_loop (_ # ms) = ([], LoopPanic)"

datatype manager_message = Manager_Packet packet_wrapper | Manager_Closed

text \<open>\<open>init\<close> of \<open>manager/inbound.rs\<close>.\<close>

fun manager_inbound_loop ::
  "('e, manager_message) res list \<Rightarrow> ('e, packet_wrapper) res list \<times> loop_end" where
  "manager_inbound_loop [] = ([], ChannelClosed)"
| "manager_inbound_loop (Ok (Manager_Packet w) # ms) = (let (hs, e) = manager_inbound_loop ms in (Ok w # hs, e))"
| "manager_inbound_loop (Err x # ms) = (let (hs, e) = manager_inbound_loop ms in (Err x # hs, e))"
| "manager_inbound_loop (Ok Manager_Closed # ms) = ([], GracefulClose)"
| "manager_inbound_loop (Panic # ms) = ([], LoopPanic)"

section \<open>Starting the layers\<close>

datatype start_error = Start_PortAlreadyInUse u16 | Start_FailedToOpen

text \<open>
  \<open>init\<close> of \<open>manager/mod.rs\<close> up to its select, with \<open>setup_layers\<close>: whether the port is free, what binding the socket
  of the transport layer gives, and whether its outbound loop gets one. A layer that does not signal its start fails it.
\<close>

definition start_layers ::
  "bool \<Rightarrow> u16 \<Rightarrow> bool \<Rightarrow> nat option \<Rightarrow> bool \<Rightarrow> (start_error, layers) res" where
  "start_layers dbg port free listen bound =
     (if \<not> free then Err (Start_PortAlreadyInUse port)
      else case bind_listen_socket dbg port listen of
             Ok (Some s) \<Rightarrow> Ok (layers_new bound)
           | _ \<Rightarrow> Err Start_FailedToOpen)"

lemma start_layers_bound: "start_layers dbg port free listen bound = Ok s \<Longrightarrow> free \<and> listen \<noteq> None \<and> s = layers_new bound"
  by (auto simp: start_layers_def bind_listen_socket_def split: if_splits option.splits)

text \<open>What comes before \<open>Closed\<close> is handled, in order, and nothing after it.\<close>

lemma processor_inbound_closes:
  "processor_inbound_loop (map (\<lambda>(d, a). Ok (ReceivedPacket d a)) ps @ Ok Closed # ms) = (map Ok ps, GracefulClose)"
  by (induction ps) auto

lemma manager_inbound_closes:
  "manager_inbound_loop (map (\<lambda>w. Ok (Manager_Packet w)) ws @ Ok Manager_Closed # ms) = (map Ok ws, GracefulClose)"
  by (induction ws) auto

section \<open>While commands are served\<close>

text \<open>As long as the application has not asked to close, nothing goes down but packets and nothing comes up but data.\<close>

definition serving_inv :: "layers \<Rightarrow> bool" where
  "serving_inv s \<longleftrightarrow> ly_m_out s = Commands_Serving \<longrightarrow> ly_t_out s = Task_Running \<longrightarrow>
     Down_Close \<notin> set (ly_to_p_out s) \<and> Down_Close \<notin> set (ly_to_t_out s)
     \<and> ly_p_out s = Task_Running \<and> \<not> ly_stop s
     \<and> (ly_t_in s = Task_Running \<or> ly_t_in s = Task_Ended Ended_Err)
     \<and> (ly_p_in s = Task_Running \<or> ly_p_in s = Task_Ended Ended_Err)
     \<and> (ly_processor s = Selecting \<or> (\<exists>r. ly_processor s = Awaiting r))
     \<and> set (ly_to_p_in s) \<subseteq> {Up_Data} \<and> set (ly_to_m_in s) \<subseteq> {Up_Data}
     \<and> ly_m_in s = Task_Running \<and> ly_manager s = Selecting \<and> \<not> ly_advertised s"

lemma serving_transport: "transport_layer s s' \<Longrightarrow> serving_inv s \<Longrightarrow> serving_inv s'"
  by (erule transport_layerE) (auto simp: serving_inv_def)

lemma serving_processor: "processor_layer s s' \<Longrightarrow> serving_inv s \<Longrightarrow> serving_inv s'"
  by (erule processor_layerE) (auto simp: serving_inv_def)

lemma serving_manager: "manager_layer s s' \<Longrightarrow> serving_inv s \<Longrightarrow> serving_inv s'"
  by (erule manager_layerE) (auto simp: serving_inv_def split: command_phase.splits)

lemma serving_event: "layers_event s s' \<Longrightarrow> serving_inv s \<Longrightarrow> serving_inv s'"
  by (erule layers_eventE) (auto simp: serving_inv_def)

lemma serving_reachable: "layers_reachable bound s \<Longrightarrow> serving_inv s"
proof (induction rule: layers_reachable.induct)
  case lr_new
  then show ?case by (simp add: serving_inv_def layers_new_def)
qed (auto simp: layers_move_def dest: serving_transport serving_processor serving_manager serving_event)

text \<open>C21: The death of the receiver goes unnoticed. When the inbound loop of the transport layer gives up, its error
  reaches nobody: as long as the application does not close the library, the manager goes on waiting, no error is on its way to
  it, the application is not told, and packets are still sent.\<close>

theorem dead_receiver_unnoticed:
  assumes "layers_reachable bound s" and "ly_t_in s = Task_Ended Ended_Err" and "ly_m_out s = Commands_Serving"
    and "ly_t_out s = Task_Running"
  shows "ly_manager s = Selecting \<and> ly_m_in s = Task_Running \<and> \<not> ly_advertised s
    \<and> Up_Error \<notin> set (ly_to_m_in s) \<and> Up_Error \<notin> set (ly_to_p_in s) \<and> \<not> returned (ly_processor s)
    \<and> ly_p_out s = Task_Running"
  using serving_reachable [OF assms(1)] assms(3,4) by (auto simp: serving_inv_def)

theorem dead_receiver_unnoticed_witness:
  "\<exists>s. layers_reachable True s \<and> ly_t_in s = Task_Ended Ended_Err \<and> ly_manager s = Selecting \<and> \<not> ly_advertised s"
proof -
  let ?s = "(layers_new True)\<lparr>ly_t_in := Task_Ended Ended_Err\<rparr>"
  have r: "layers_reachable True ?s"
    by (rule lr_event [OF lr_new le_gives_up]) (simp add: layers_new_def)
  have "ly_t_in ?s = Task_Ended Ended_Err" "ly_m_out ?s = Commands_Serving"
    "ly_t_out ?s = Task_Running" by (simp_all add: layers_new_def)
  then show ?thesis using dead_receiver_unnoticed [OF r] r by blast
qed

section \<open>Closing\<close>

text \<open>Every move uses something up.\<close>

fun phase_weight :: "select_phase \<Rightarrow> nat" where
  "phase_weight Selecting = 6"
| "phase_weight (Layer_Returned r) = 0"
| "phase_weight _ = 3"

definition running_weight :: "nat \<Rightarrow> task \<Rightarrow> nat" where
  "running_weight n t = (if t = Task_Running then n else 0)"

definition layers_measure :: "layers \<Rightarrow> nat" where
  "layers_measure s = 4 * length (ly_to_p_out s) + 2 * length (ly_to_t_out s) + 3 * length (ly_to_p_in s)
     + length (ly_to_m_in s) + running_weight 5 (ly_t_in s) + running_weight 3 (ly_t_out s)
     + running_weight 1 (ly_p_in s) + running_weight 1 (ly_p_out s) + running_weight 1 (ly_m_in s)
     + (if ly_stop s then 1 else 0) + phase_weight (ly_transport s) + phase_weight (ly_processor s)
     + phase_weight (ly_manager s) + (if ly_m_out s = Commands_Joining then 1 else 0)"

lemma running_weight_simps [simp]:
  "running_weight n Task_Running = n" "running_weight n (Task_Ended r) = 0" "running_weight n (aborted t) = 0"
  by (simp_all add: running_weight_def)

lemma measure_transport: "transport_layer s s' \<Longrightarrow> layers_measure s' < layers_measure s"
  by (erule transport_layerE) (simp_all add: layers_measure_def running_weight_def)

lemma measure_processor: "processor_layer s s' \<Longrightarrow> layers_measure s' < layers_measure s"
  by (erule processor_layerE) (simp_all add: layers_measure_def running_weight_def)

lemma measure_manager: "manager_layer s s' \<Longrightarrow> layers_measure s' < layers_measure s"
  by (erule manager_layerE) (auto simp: layers_measure_def split: command_phase.splits)

lemma layers_move_decreases: "layers_move s s' \<Longrightarrow> layers_measure s' < layers_measure s"
  by (auto simp: layers_move_def dest: measure_transport measure_processor measure_manager)

text \<open>Why a close gets through: what has been asked for is on its way or done.\<close>

definition closing_inv :: "bool \<Rightarrow> layers \<Rightarrow> bool" where
  "closing_inv bound s \<longleftrightarrow>
     (ly_m_out s \<noteq> Commands_Serving \<or> ly_m_in s \<noteq> Task_Running \<or> Up_Closed \<in> set (ly_to_m_in s) \<or> Up_Closed \<in> set (ly_to_p_in s)
        \<or> ly_stop s \<or> Down_Close \<in> set (ly_to_t_out s) \<or> ly_t_out s = Task_Ended Ended_Ok
      \<longrightarrow> Down_Close \<in> set (ly_to_p_out s) \<or> ly_p_out s \<noteq> Task_Running)
     \<and> (returned (ly_processor s) \<longrightarrow> ly_p_in s \<noteq> Task_Running \<and> ly_p_out s \<noteq> Task_Running
          \<and> (Down_Close \<in> set (ly_to_t_out s) \<or> ly_t_out s \<noteq> Task_Running))
     \<and> (ly_p_in s = Task_Ended Ended_Failed \<longrightarrow> returned (ly_processor s)) \<and> ly_processor s \<noteq> Awaiting_Failed
     \<and> (\<forall>r. ly_processor s = Awaiting r \<longrightarrow> ly_p_in s \<noteq> Task_Running)
     \<and> (if bound then ly_t_out s \<noteq> Task_Ended Ended_Err else ly_t_out s = Task_Ended Ended_Err \<and> \<not> ly_stop s)
     \<and> ly_transport s \<noteq> Awaiting_Failed
     \<and> (ly_t_out s = Task_Ended Ended_Ok \<longrightarrow> ly_stop s \<or> ly_t_in s \<noteq> Task_Running)
     \<and> (\<forall>r. ly_transport s = Awaiting r \<and> bound \<longrightarrow> ly_t_out s = Task_Ended Ended_Ok)"

lemma only_ok: "r \<noteq> Ended_Failed \<Longrightarrow> r \<noteq> Ended_Err \<Longrightarrow> r = Ended_Ok"
  by (cases r) simp_all

lemma closing_transport: "transport_layer s s' \<Longrightarrow> closing_inv bound s \<Longrightarrow> closing_inv bound s'"
  by (cases bound; erule transport_layerE) (auto simp: closing_inv_def dest: only_ok)

lemma closing_processor: "processor_layer s s' \<Longrightarrow> closing_inv bound s \<Longrightarrow> closing_inv bound s'"
  by (cases bound; erule processor_layerE) (auto simp: closing_inv_def)

lemma closing_manager: "manager_layer s s' \<Longrightarrow> closing_inv bound s \<Longrightarrow> closing_inv bound s'"
  by (cases bound; erule manager_layerE) (auto simp: closing_inv_def split: command_phase.splits)

lemma closing_event: "layers_event s s' \<Longrightarrow> closing_inv bound s \<Longrightarrow> closing_inv bound s'"
  by (cases bound; erule layers_eventE) (auto simp: closing_inv_def)

lemma closing_reachable: "layers_reachable bound s \<Longrightarrow> closing_inv bound s"
proof (induction rule: layers_reachable.induct)
  case lr_new
  then show ?case by (simp add: closing_inv_def layers_new_def)
qed (auto simp: layers_move_def dest: closing_transport closing_processor closing_manager closing_event)

definition all_returned :: "layers \<Rightarrow> bool" where
  "all_returned s \<longleftrightarrow> returned (ly_transport s) \<and> returned (ly_processor s) \<and> returned (ly_manager s)"

lemma stuck_out:
  assumes "closing_inv bound s" and "ly_m_out s \<noteq> Commands_Serving" and "\<nexists>s'. processor_layer s s'"
  shows "ly_p_out s \<noteq> Task_Running \<and> returned (ly_processor s)"
proof -
  have out: "ly_p_out s \<noteq> Task_Running"
  proof
    assume r: "ly_p_out s = Task_Running"
    then obtain m ms where "ly_to_p_out s = m # ms" using assms(1,2) by (cases "ly_to_p_out s") (auto simp: closing_inv_def)
    then show False using assms(3) r by (cases m; cases "ly_t_out s = Task_Running") (blast intro: processor_layer.intros)+
  qed
  then obtain r where r: "ly_p_out s = Task_Ended r" by (cases "ly_p_out s") auto
  have "returned (ly_processor s)"
    using assms(1,3) r by (cases "ly_processor s") (auto simp: closing_inv_def intro: pl_select_out pl_awaited)
  then show ?thesis using out by simp
qed

lemma stuck_transport:
  assumes "closing_inv bound s" and "returned (ly_processor s)" and "\<nexists>s'. transport_layer s s'"
  shows "returned (ly_transport s) \<or> \<not> bound \<and> ly_t_in s = Task_Running"
proof -
  have "ly_t_out s \<noteq> Task_Running"
  proof
    assume r: "ly_t_out s = Task_Running"
    then obtain m ms where "ly_to_t_out s = m # ms" using assms(1,2) by (cases "ly_to_t_out s") (auto simp: closing_inv_def)
    then show False using assms(3) r by (cases m) (blast intro: transport_layer.intros)+
  qed
  then obtain r where r: "ly_t_out s = Task_Ended r" by (cases "ly_t_out s") auto
  show ?thesis
  proof (cases "ly_transport s")
    case Selecting
    then show ?thesis using assms(3) r tl_select_out tl_select_out_failed by (cases "r = Ended_Failed") blast+
  next
    case (Awaiting x)
    then have "ly_stop s \<or> ly_t_in s \<noteq> Task_Running \<or> \<not> bound" using assms(1) by (auto simp: closing_inv_def)
    then show ?thesis using assms(3) Awaiting tl_in_stopped tl_awaited by (cases "ly_t_in s") blast+
  qed (use assms(1) in \<open>simp_all add: closing_inv_def\<close>)
qed

lemma stuck_manager:
  assumes "closing_inv bound s" and "returned (ly_processor s)" and "\<nexists>s'. manager_layer s s'" and "ly_manager s = Selecting"
  shows False
proof -
  have p: "ly_p_in s \<noteq> Task_Running" "ly_p_out s \<noteq> Task_Running" using assms(1,2) by (simp_all add: closing_inv_def)
  show False
  proof (cases "ly_m_in s")
    case Task_Running
    show False
    proof (cases "ly_to_m_in s")
      case (Cons u us)
      then show False using assms(3) Task_Running by (cases u) (blast intro: manager_layer.intros)+
    qed (use assms(2,3) Task_Running p ml_in_lost in blast)
  qed (use assms(3,4) ml_select_in in blast)
qed

text \<open>The manager only waits in one way.\<close>

lemma manager_phase: "layers_reachable bound s \<Longrightarrow> ly_manager s = Selecting \<or> returned (ly_manager s)"
  by (induction rule: layers_reachable.induct)
    (auto simp: layers_new_def layers_move_def elim!: transport_layerE processor_layerE manager_layerE layers_eventE)

text \<open>C20: Once the close has been sent to the lower layers, only finitely many moves of the layers are possible, in
  whatever order, whatever messages were on their way and even if loops had ended with an error, or the outbound loop of the
  transport layer with a panic, before. Where none is left the packet processor
  and the manager have returned, and so has the transport layer if its outbound loop got its socket at the start. If it
  did not, the transport layer has returned or waits for ever for its receive loop, which nobody tells to stop. The loops
  are taken to get past the flushes of their own monitors.\<close>

theorem layers_close:
  assumes "layers_reachable bound s" and "ly_m_out s \<noteq> Commands_Serving"
  shows "wfP (\<lambda>s' s. layers_move s s') \<and> ((\<nexists>s'. layers_move s s') \<longrightarrow>
    returned (ly_processor s) \<and> returned (ly_manager s)
    \<and> (returned (ly_transport s) \<or> \<not> bound \<and> ly_t_in s = Task_Running))"
proof (intro conjI impI)
  show "wfP (\<lambda>s' s. layers_move s s')"
    by (rule wfp_if_convertible_to_nat [of _ layers_measure]) (rule layers_move_decreases)
  assume stuck: "\<nexists>s'. layers_move s s'"
  have inv: "closing_inv bound s" by (rule closing_reachable [OF assms(1)])
  show p: "returned (ly_processor s)" using stuck_out [OF inv assms(2)] stuck by (auto simp: layers_move_def)
  show "returned (ly_transport s) \<or> \<not> bound \<and> ly_t_in s = Task_Running"
    using stuck_transport [OF inv p] stuck by (auto simp: layers_move_def)
  show "returned (ly_manager s)"
    using manager_phase [OF assms(1)] stuck_manager [OF inv p] stuck by (auto simp: layers_move_def)
qed

section \<open>How the close is reported\<close>

definition closing_start :: layers where
  "closing_start = (layers_new True)\<lparr>ly_to_p_out := [Down_Close], ly_m_out := Commands_Joining\<rparr>"

text \<open>The processor's outbound loop has ended; then its inbound loop is stopped, or is still waiting.\<close>

definition closing_sent :: layers where
  "closing_sent = closing_start\<lparr>ly_p_out := Task_Ended Ended_Ok, ly_to_p_out := [], ly_to_t_out := [Down_Close]\<rparr>"

definition closing_cut :: layers where
  "closing_cut = closing_sent\<lparr>ly_processor := Layer_Returned Ended_Ok, ly_p_in := Task_Ended Ended_Failed,
     ly_to_t_out := [Down_Close, Down_Close]\<rparr>"

definition closing_passed :: layers where
  "closing_passed = closing_sent\<lparr>ly_t_out := Task_Ended Ended_Ok, ly_t_in := Task_Ended Ended_Ok, ly_to_t_out := [],
     ly_p_in := Task_Ended Ended_Ok, ly_to_m_in := [Up_Closed]\<rparr>"

lemmas closing_defs = closing_start_def closing_sent_def closing_cut_def closing_passed_def layers_new_def

lemma closing_runs: "layers_move\<^sup>*\<^sup>* closing_start closing_cut" "layers_move\<^sup>*\<^sup>* closing_start closing_passed"
proof -
  have 1: "layers_move closing_start closing_sent"
    using pl_out_close [of closing_start "[]"] by (simp add: layers_move_def closing_defs)
  have "layers_move closing_sent closing_cut"
    using pl_select_out [of closing_sent Ended_Ok] by (simp add: layers_move_def closing_defs)
  with 1 show "layers_move\<^sup>*\<^sup>* closing_start closing_cut" by simp
  let ?a = "closing_sent\<lparr>ly_t_out := Task_Ended Ended_Ok, ly_to_t_out := [], ly_stop := True\<rparr>"
  let ?b = "?a\<lparr>ly_t_in := Task_Ended Ended_Ok, ly_stop := False, ly_to_p_in := [Up_Closed]\<rparr>"
  have "layers_move closing_sent ?a"
    using tl_out_close [of closing_sent "[]"] by (simp add: layers_move_def closing_defs)
  moreover have "layers_move ?a ?b"
    using tl_in_stopped [of ?a] by (simp add: layers_move_def closing_defs)
  moreover have "layers_move ?b closing_passed"
    using pl_in_closed [of ?b "[]"] by (simp add: layers_move_def closing_defs)
  ultimately show "layers_move\<^sup>*\<^sup>* closing_start closing_passed"
    using 1 by (meson converse_rtranclp_into_rtranclp rtranclp.rtrancl_refl)
qed

text \<open>How a graceful close is reported depends on a race. With no failure at all, the manager may return without an error and the
  sessions be told, return without an error and nobody be told, or return the error of a failed thread: the layers race
  to end the loop that passes the message on and the loop that waits for it.\<close>

theorem close_outcome_races:
  "\<exists>a b c. layers_event (layers_new True) closing_start
     \<and> layers_move\<^sup>*\<^sup>* closing_start a \<and> ly_manager a = Layer_Returned Ended_Ok \<and> ly_advertised a
     \<and> layers_move\<^sup>*\<^sup>* closing_start b \<and> ly_manager b = Layer_Returned Ended_Ok \<and> \<not> ly_advertised b
     \<and> layers_move\<^sup>*\<^sup>* closing_start c \<and> ly_manager c = Layer_Returned Ended_Err \<and> \<not> ly_advertised c"
proof -
  let ?a1 = "closing_cut\<lparr>ly_t_out := Task_Ended Ended_Ok, ly_to_t_out := [Down_Close], ly_stop := True\<rparr>"
  let ?a2 = "?a1\<lparr>ly_t_in := Task_Ended Ended_Ok, ly_stop := False, ly_to_p_in := [Up_Closed]\<rparr>"
  let ?a3 = "?a2\<lparr>ly_transport := Layer_Returned Ended_Ok\<rparr>"
  let ?a4 = "?a3\<lparr>ly_m_out := Commands_Ended Ended_Ok\<rparr>"
  let ?a = "?a4\<lparr>ly_manager := Layer_Returned Ended_Ok, ly_advertised := True\<rparr>"
  have "layers_move closing_cut ?a1" using tl_out_close [of closing_cut "[Down_Close]"] by (simp add: layers_move_def closing_defs)
  moreover have "layers_move ?a1 ?a2" using tl_in_stopped [of ?a1] by (simp add: layers_move_def closing_defs)
  moreover have "layers_move ?a2 ?a3" using tl_select_in [of ?a2 Ended_Ok] by (simp add: layers_move_def closing_defs)
  moreover have "layers_move ?a3 ?a4" using ml_out_joined [of ?a3] by (simp add: layers_move_def closing_defs layers_joined_def)
  moreover have "layers_move ?a4 ?a" using ml_select_out [of ?a4 Ended_Ok] by (simp add: layers_move_def closing_defs)
  ultimately have a: "layers_move\<^sup>*\<^sup>* closing_start ?a"
    using closing_runs(1) by (meson rtranclp.rtrancl_into_rtrancl)
  let ?b1 = "closing_passed\<lparr>ly_m_in := Task_Ended Ended_Ok, ly_to_m_in := []\<rparr>"
  let ?b = "?b1\<lparr>ly_manager := Layer_Returned Ended_Ok, ly_m_out := Commands_Ended Ended_Failed\<rparr>"
  have "layers_move closing_passed ?b1" using ml_in_closed [of closing_passed "[]"] by (simp add: layers_move_def closing_defs)
  moreover have "layers_move ?b1 ?b" using ml_select_in [of ?b1 Ended_Ok] by (simp add: layers_move_def closing_defs)
  ultimately have b: "layers_move\<^sup>*\<^sup>* closing_start ?b"
    using closing_runs(2) by (meson rtranclp.rtrancl_into_rtrancl)
  let ?c1 = "closing_cut\<lparr>ly_m_in := Task_Ended Ended_Err\<rparr>"
  let ?c = "?c1\<lparr>ly_manager := Layer_Returned Ended_Err, ly_m_out := Commands_Ended Ended_Failed\<rparr>"
  have "layers_move closing_cut ?c1" using ml_in_lost [of closing_cut] by (simp add: layers_move_def closing_defs)
  moreover have "layers_move ?c1 ?c" using ml_select_in [of ?c1 Ended_Err] by (simp add: layers_move_def closing_defs)
  ultimately have c: "layers_move\<^sup>*\<^sup>* closing_start ?c"
    using closing_runs(1) by (meson rtranclp.rtrancl_into_rtrancl)
  have "layers_event (layers_new True) closing_start"
    using le_close [of "layers_new True"] by (simp add: closing_defs)
  then show ?thesis using a b c by (intro exI [of _ ?a] exI [of _ ?b] exI [of _ ?c]) (simp add: closing_defs)
qed

lemma runs_to_end: "\<exists>t. layers_move\<^sup>*\<^sup>* s t \<and> (\<nexists>u. layers_move t u)"
proof (induction s rule: measure_induct_rule [of layers_measure])
  case (less s)
  show ?case
  proof (cases "\<exists>u. layers_move s u")
    case True
    then obtain u where u: "layers_move s u" by blast
    then obtain t where "layers_move\<^sup>*\<^sup>* u t" "\<nexists>v. layers_move t v"
      using less [OF layers_move_decreases [OF u]] by blast
    then show ?thesis using u by (meson converse_rtranclp_into_rtranclp)
  qed blast
qed

lemma still_closing: "layers_move s s' \<Longrightarrow> ly_m_out s \<noteq> Commands_Serving \<Longrightarrow> ly_m_out s' \<noteq> Commands_Serving"
  by (auto simp: layers_move_def elim!: transport_layerE processor_layerE manager_layerE split: command_phase.splits)

text \<open>Without a socket the waiting does occur: no move and no message ends it, only the receive loop giving up.\<close>

definition unbound_closing :: layers where
  "unbound_closing = (layers_new False)\<lparr>ly_to_p_out := [Down_Close], ly_m_out := Commands_Joining\<rparr>"

lemma moves_keep_receiver:
  "\<lbrakk> layers_move s s'; ly_t_in s = Task_Running; \<not> ly_stop s; ly_t_out s = Task_Ended Ended_Err;
     ly_transport s = Selecting \<or> ly_transport s = Awaiting Ended_Err \<rbrakk>
   \<Longrightarrow> ly_t_in s' = Task_Running \<and> \<not> ly_stop s' \<and> ly_t_out s' = Task_Ended Ended_Err
     \<and> (ly_transport s' = Selecting \<or> ly_transport s' = Awaiting Ended_Err)"
  by (auto simp: layers_move_def elim!: transport_layerE processor_layerE manager_layerE)

lemma unbound_transport_waits:
  "layers_move\<^sup>*\<^sup>* unbound_closing s \<Longrightarrow> \<not> returned (ly_transport s) \<and> ly_t_in s = Task_Running"
proof -
  assume "layers_move\<^sup>*\<^sup>* unbound_closing s"
  then have "ly_t_in s = Task_Running \<and> \<not> ly_stop s \<and> ly_t_out s = Task_Ended Ended_Err
     \<and> (ly_transport s = Selecting \<or> ly_transport s = Awaiting Ended_Err)"
  proof (induction rule: rtranclp_induct)
    case base
    then show ?case by (simp add: unbound_closing_def layers_new_def)
  next
    case (step y z)
    then show ?case using moves_keep_receiver [OF step.hyps(2)] by blast
  qed
  then show ?thesis by auto
qed

lemma close_reachable:
  "layers_move\<^sup>*\<^sup>* ((layers_new bound)\<lparr>ly_to_p_out := [Down_Close], ly_m_out := Commands_Joining\<rparr>) t
    \<Longrightarrow> layers_reachable bound t \<and> ly_m_out t \<noteq> Commands_Serving"
proof (induction rule: rtranclp_induct)
  case base
  show ?case using lr_event [OF lr_new le_close, of bound] by (simp add: layers_new_def)
qed (auto intro: lr_move dest: still_closing)

text \<open>A close that completes, and one without a socket that does not.\<close>

theorem layers_close_witness:
  "(\<exists>s. layers_move\<^sup>*\<^sup>* closing_start s \<and> (\<nexists>s'. layers_move s s') \<and> all_returned s)
   \<and> (\<exists>s. layers_move\<^sup>*\<^sup>* unbound_closing s \<and> (\<nexists>s'. layers_move s s') \<and> returned (ly_manager s)
        \<and> \<not> returned (ly_transport s))"
proof -
  obtain t where t: "layers_move\<^sup>*\<^sup>* closing_start t" "\<nexists>u. layers_move t u" using runs_to_end by blast
  have "all_returned t"
    using layers_close [of True t] close_reachable [of True t] t by (simp add: closing_start_def all_returned_def)
  moreover obtain u where u: "layers_move\<^sup>*\<^sup>* unbound_closing u" "\<nexists>v. layers_move u v" using runs_to_end by blast
  moreover have "returned (ly_manager u)"
    using layers_close [of False u] close_reachable [of False u] u by (simp add: unbound_closing_def)
  ultimately show ?thesis using t unbound_transport_waits [OF u(1)] by blast
qed

end
