(* ===== verification/Api.thy ===== *)
theory Api imports Endpoints begin

text \<open>
  The interface of the library (\<open>src/src/api/core/types.rs\<close>, \<open>mod.rs\<close>): the handles an application holds
  (connections, streams, requests), what their methods ask of the manager, and what happens when they
  are dropped.

  A method takes the handle it consumes, what it waits for, and the state of the API; it returns its
  result and the state afterwards, with the destructor of the consumed handle run at its end as the
  code does. It waits for a \<open>reply\<close>: an answer, the loss of the channel, or neither, and then the method
  never returns (\<open>None\<close>). The commands it sends are appended to \<open>ai_commands\<close>, the approvals of handshakes to
  \<open>ai_answers\<close>. \<open>ai_alive\<close> says whether \<open>Weak::upgrade\<close> succeeds, \<open>ai_channel\<close> whether the manager still
  receives commands. A oneshot channel is the number \<open>ai_next\<close> of its creation.
\<close>

section \<open>Errors and the state\<close>

datatype api_errors =
    Api_AlreadyOpen | Api_InvalidPort | Api_InvalidAppId | Api_PortAlreadyInUse u16 | Api_FailedToOpen
  | Api_FailedToBuildRuntime | Api_ThreadFailed | Api_NoFreeSession | Api_SessionOccupied
  | Api_SessionDoesNotExist | Api_InvalidReason | Api_ProtocolClosed | Api_BufferTooLarge
  | Api_Internal | Api_BufferClosedUnexpectedly

text \<open>\<open>ConnectionError::from_api\<close>: any other error panics a debug build.\<close>

fun from_api :: "bool \<Rightarrow> api_errors \<Rightarrow> connection_error ures" where
  "from_api dbg Api_SessionOccupied = Ok CE_SessionOccupied"
| "from_api dbg Api_SessionDoesNotExist = Ok CE_SessionClosedByPeer"
| "from_api dbg Api_ProtocolClosed = Ok CE_ProtocolClosed"
| "from_api dbg Api_BufferTooLarge = Ok CE_BufferTooLarge"
| "from_api dbg _ = (if dbg then Panic else Ok CE_UnknownInternalError)"

text \<open>What \<open>ResponseReceiver::recv\<close> yields, if it yields anything.\<close>

datatype 'a reply = Replied 'a | Hung_Up | No_Reply

record api_state =
  ai_alive :: bool
  ai_channel :: bool
  ai_commands :: "api_command list"
  ai_answers :: "(ticket \<times> app_response) list"
  ai_next :: ticket

definition post_command :: "api_command \<Rightarrow> api_state \<Rightarrow> api_state" where
  "post_command c a = (if ai_channel a then a\<lparr>ai_commands := ai_commands a @ [c]\<rparr> else a)"

definition new_ticket :: "api_state \<Rightarrow> ticket \<times> api_state" where
  "new_ticket a = (ai_next a, a\<lparr>ai_next := Suc (ai_next a)\<rparr>)"

text \<open>The answer to a request whose channel the manager no longer reads never comes.\<close>

definition reply_of :: "api_state \<Rightarrow> 'a reply \<Rightarrow> 'a reply" where
  "reply_of a r = (if ai_channel a then r else Hung_Up)"

section \<open>Connections\<close>

record conn_handle =
  cn_session :: session_id
  cn_peer :: address

definition conn_inner_close :: "conn_handle \<Rightarrow> api_state \<Rightarrow> api_state" where
  "conn_inner_close c a = (if ai_alive a then post_command (Api_Close_Session (cn_session c)) a else a)"

definition drop_conn :: "conn_handle \<Rightarrow> api_state \<Rightarrow> api_state" where
  "drop_conn = conn_inner_close"

definition conn_close :: "conn_handle \<Rightarrow> api_state \<Rightarrow> api_state" where
  "conn_close c a = drop_conn c (conn_inner_close c a)"

record stream_handle =
  sr_session :: session_id
  sr_size :: nat
  sr_connection :: "conn_handle option"
  sr_allow_partial :: bool

definition stream_new :: "session_id \<Rightarrow> conn_handle \<Rightarrow> nat \<Rightarrow> stream_handle" where
  "stream_new sid c n =
     \<lparr>sr_session = sid, sr_size = n, sr_connection = Some c, sr_allow_partial = False\<rparr>"

record requested_handle =
  rq_session :: session_id
  rq_track :: bytes
  rq_connection :: "conn_handle option"

definition requested_new :: "session_id \<Rightarrow> bytes \<Rightarrow> conn_handle \<Rightarrow> requested_handle" where
  "requested_new sid track c = \<lparr>rq_session = sid, rq_track = track, rq_connection = Some c\<rparr>"

record pending_handle =
  pn_session :: session_id
  pn_size :: nat
  pn_connection :: "conn_handle option"

definition pending_new :: "session_id \<Rightarrow> nat \<Rightarrow> conn_handle \<Rightarrow> pending_handle" where
  "pending_new sid n c = \<lparr>pn_session = sid, pn_size = n, pn_connection = Some c\<rparr>"

text \<open>
  \<open>Connection::listen\<close>. The inbox holds the events up to now; while the API lives the first one is
  taken, after its end all are read until the channel closes and the last one counts.
\<close>

datatype connection_news = News_TrackRequested requested_handle | News_ProtocolClosed | News_ConnectionClosed

definition next_event :: "connection_event list \<Rightarrow> bool \<Rightarrow> connection_event reply" where
  "next_event inbox sender_alive =
     (case inbox of e # _ \<Rightarrow> Replied e | [] \<Rightarrow> if sender_alive then No_Reply else Hung_Up)"

definition last_event :: "connection_event list \<Rightarrow> bool \<Rightarrow> connection_event reply" where
  "last_event inbox sender_alive =
     (if sender_alive then No_Reply
      else if inbox \<noteq> [] \<and> last inbox = Ev_ProtocolClosed then Replied Ev_ProtocolClosed else Hung_Up)"

definition conn_listen ::
  "connection_event list \<Rightarrow> bool \<Rightarrow> conn_handle \<Rightarrow> api_state
     \<Rightarrow> (connection_error, connection_news) res option \<times> api_state" where
  "conn_listen inbox sender_alive c a =
     (case (if ai_alive a then next_event else last_event) inbox sender_alive of
        No_Reply \<Rightarrow> (None, a)
      | Hung_Up \<Rightarrow> (Some (Err CE_ProtocolClosed), drop_conn c a)
      | Replied (Ev_TrackRequest track) \<Rightarrow>
          (Some (Ok (News_TrackRequested (requested_new (cn_session c) track c))), a)
      | Replied Ev_ProtocolClosed \<Rightarrow> (Some (Ok News_ProtocolClosed), drop_conn c a)
      | Replied Ev_ConnectionClosed \<Rightarrow> (Some (Ok News_ConnectionClosed), drop_conn c a))"

text \<open>\<open>ApiInner::send_data\<close> with the answer the manager gives.\<close>

definition api_send_data ::
  "(api_errors, session_id) res reply \<Rightarrow> send_target \<Rightarrow> rbuffer \<Rightarrow> api_state
     \<Rightarrow> (api_errors, session_id) res option \<times> api_state" where
  "api_send_data r target buffer a =
     (let (t, a) = new_ticket a;
          a' = post_command (Api_Send_Data target buffer stream_message_default t) a
      in case reply_of a r of
           No_Reply \<Rightarrow> (None, a') | Hung_Up \<Rightarrow> (Some (Err Api_ProtocolClosed), a') | Replied x \<Rightarrow> (Some x, a'))"

text \<open>A connection that is given back with an error; the conversion of the error may panic.\<close>

definition refuse ::
  "bool \<Rightarrow> api_errors \<Rightarrow> conn_handle \<Rightarrow> api_state \<Rightarrow> (connection_error \<times> conn_handle, 'a) res option \<times> api_state" where
  "refuse dbg e c a =
     (case from_api dbg e of Ok x \<Rightarrow> (Some (Err (x, c)), a) | _ \<Rightarrow> (Some Panic, drop_conn c a))"

definition conn_send ::
  "bool \<Rightarrow> (api_errors, session_id) res reply \<Rightarrow> rbuffer \<Rightarrow> conn_handle \<Rightarrow> api_state
     \<Rightarrow> (connection_error \<times> conn_handle, stream_handle) res option \<times> api_state" where
  "conn_send dbg r buffer c a =
     (if \<not> ai_alive a then (Some (Err (CE_ProtocolClosed, c)), a)
      else case api_send_data r (To_Session (cn_session c)) buffer a of
             (None, a) \<Rightarrow> (None, a)
           | (Some (Ok _), a) \<Rightarrow> (Some (Ok (stream_new (cn_session c) c (length (rb_buffer buffer)))), a)
           | (Some (Err e), a) \<Rightarrow> refuse dbg e c a
           | (Some Panic, a) \<Rightarrow> (Some Panic, drop_conn c a))"

fun request_error :: "api_errors \<Rightarrow> connection_error" where
  "request_error Api_NoFreeSession = CE_UnknownInternalError"
| "request_error Api_SessionOccupied = CE_UnknownInternalError"
| "request_error Api_SessionDoesNotExist = CE_SessionClosedByPeer"
| "request_error _ = CE_ProtocolClosed"

definition conn_request ::
  "(api_errors, session_id) res reply \<Rightarrow> bytes \<Rightarrow> wbuffer \<Rightarrow> conn_handle \<Rightarrow> api_state
     \<Rightarrow> (connection_error \<times> conn_handle, pending_handle) res option \<times> api_state" where
  "conn_request r track buffer c a =
     (if \<not> ai_alive a then (Some (Err (CE_ProtocolClosed, c)), a)
      else if length track > MAX_PAYLOAD_LENGTH then (Some (Err (CE_BufferTooLarge, c)), a)
      else let (t, a) = new_ticket a;
               order = \<lparr>or_target = To_Session (cn_session c), or_id = track, or_buffer = buffer,
                        or_sender = stream_message_default, or_response = t\<rparr>;
               a' = post_command (Api_Request_Track order) a
           in case reply_of a r of
                No_Reply \<Rightarrow> (None, a')
              | Replied (Ok _) \<Rightarrow> (Some (Ok (pending_new (cn_session c) (wb_len buffer) c)), a')
              | Replied (Err e) \<Rightarrow> (Some (Err (request_error e, c)), a')
              | _ \<Rightarrow> (Some (Err (CE_ProtocolClosed, c)), a'))"

section \<open>Streams\<close>

text \<open>\<open>Stream::inner_close\<close>: its result, and the handle without its connection.\<close>

definition stream_inner_close ::
  "stream_handle \<Rightarrow> api_state
     \<Rightarrow> (connection_error \<times> conn_handle, conn_handle option) res \<times> stream_handle \<times> api_state" where
  "stream_inner_close s a =
     (case sr_connection s of
        None \<Rightarrow> (Ok None, s, a)
      | Some c \<Rightarrow>
          (let s = s\<lparr>sr_connection := None\<rparr>
           in if \<not> ai_alive a then (Err (CE_ProtocolClosed, c), s, a)
              else (Ok (Some c), s, post_command (Api_Close_Stream (sr_session s)) a)))"

text \<open>The connection in a result that is thrown away is dropped.\<close>

fun drop_close_result ::
  "(connection_error \<times> conn_handle, conn_handle option) res \<Rightarrow> api_state \<Rightarrow> api_state" where
  "drop_close_result (Ok (Some c)) a = drop_conn c a"
| "drop_close_result (Err (e, c)) a = drop_conn c a"
| "drop_close_result _ a = a"

definition drop_stream :: "stream_handle \<Rightarrow> api_state \<Rightarrow> api_state" where
  "drop_stream s a = (case stream_inner_close s a of (r, _, a) \<Rightarrow> drop_close_result r a)"

definition stream_close ::
  "stream_handle \<Rightarrow> api_state \<Rightarrow> (connection_error \<times> conn_handle, conn_handle) res \<times> api_state" where
  "stream_close s a =
     (case stream_inner_close s a of
        (Ok (Some c), s, a) \<Rightarrow> (Ok c, drop_stream s a)
      | (Err e, s, a) \<Rightarrow> (Err e, drop_stream s a)
      | (_, s, a) \<Rightarrow> (Panic, drop_stream s a))"

text \<open>
  \<open>complete\<close>: it waits for the first message of the stream that says closed, or the loss of its sender. A
  received stream first tells the manager what to accept.
\<close>

definition take_connection ::
  "stream_handle \<Rightarrow> api_state \<Rightarrow> (connection_error, conn_handle) res option \<times> api_state" where
  "take_connection s a =
     (case sr_connection s of
        None \<Rightarrow> (Some Panic, drop_stream s a)
      | Some c \<Rightarrow> (Some (Ok c), drop_stream (s\<lparr>sr_connection := None\<rparr>) a))"

definition complete_input ::
  "stream_message reply \<Rightarrow> stream_handle \<Rightarrow> api_state
     \<Rightarrow> (connection_error, conn_handle) res option \<times> api_state" where
  "complete_input final s a =
     (if \<not> ai_alive a then (Some (Err CE_ProtocolClosed), drop_stream s a)
      else let a = post_command (Api_Set_Stream_Complete (sr_session s) (sr_allow_partial s)) a
           in case final of
                No_Reply \<Rightarrow> (None, a)
              | Hung_Up \<Rightarrow> (Some (Err CE_ProtocolClosed), drop_stream s a)
              | Replied m \<Rightarrow>
                  if sm_buffer_closed m then (Some (Err CE_BufferClosedUnexpectedly), drop_stream s a)
                  else take_connection s a)"

definition complete_output ::
  "stream_message reply \<Rightarrow> stream_handle \<Rightarrow> api_state
     \<Rightarrow> (connection_error, conn_handle) res option \<times> api_state" where
  "complete_output final s a =
     (case final of
        No_Reply \<Rightarrow> (None, a)
      | Hung_Up \<Rightarrow> (Some (Err CE_ProtocolClosed), drop_stream s a)
      | Replied m \<Rightarrow> take_connection s a)"

definition wait_until_done :: "stream_message reply \<Rightarrow> (connection_error, unit) res option" where
  "wait_until_done final =
     (case final of No_Reply \<Rightarrow> None | Hung_Up \<Rightarrow> Some (Err CE_ProtocolClosed) | Replied m \<Rightarrow> Some (Ok ()))"

text \<open>What a stream reads off its last message.\<close>

definition current_position :: "stream_message \<Rightarrow> nat" where
  "current_position m = sm_head m"

definition is_playing :: "stream_message \<Rightarrow> bool" where
  "is_playing m \<longleftrightarrow> \<not> sm_paused m"

definition is_done_input :: "stream_handle \<Rightarrow> stream_message \<Rightarrow> bool" where
  "is_done_input s m \<longleftrightarrow> sm_head m = sr_size s \<or> sm_closed m"

definition is_done_output :: "stream_handle \<Rightarrow> stream_message \<Rightarrow> bool" where
  "is_done_output s m \<longleftrightarrow> sm_head m = sr_size s"

definition allow_partial_receive :: "bool \<Rightarrow> stream_handle \<Rightarrow> stream_handle" where
  "allow_partial_receive b s = s\<lparr>sr_allow_partial := b\<rparr>"

text \<open>The controls of a received stream: the answer says whether the manager could act.\<close>

definition stream_control ::
  "playback_action \<Rightarrow> bool reply \<Rightarrow> stream_message \<Rightarrow> stream_handle \<Rightarrow> api_state
     \<Rightarrow> (connection_error, nat) res option \<times> api_state" where
  "stream_control act r m s a =
     (if \<not> ai_alive a then (Some (Err CE_ProtocolClosed), a)
      else let (t, a) = new_ticket a;
               a' = post_command (Api_Stream_Action (sr_session s) act t) a
           in case reply_of a r of
                No_Reply \<Rightarrow> (None, a')
              | Replied True \<Rightarrow> (Some (Ok (sm_head m)), a')
              | _ \<Rightarrow> (Some (Err CE_ProtocolClosed), a'))"

definition stream_pause where "stream_pause = stream_control Act_Pause"
definition stream_play where "stream_play = stream_control Act_Play"
definition stream_seek where "stream_seek pos = stream_control (Act_Seek (word_of_nat pos))"

definition buffer_holes ::
  "(nat \<times> nat) list option reply \<Rightarrow> stream_handle \<Rightarrow> api_state
     \<Rightarrow> (connection_error, (nat \<times> nat) list) res option \<times> api_state" where
  "buffer_holes r s a =
     (if \<not> ai_alive a then (Some (Err CE_ProtocolClosed), a)
      else let (t, a) = new_ticket a;
               a' = post_command (Api_Find_Holes (sr_session s) t) a
           in case reply_of a r of
                No_Reply \<Rightarrow> (None, a')
              | Replied (Some hs) \<Rightarrow> (Some (Ok hs), a')
              | _ \<Rightarrow> (Some (Err CE_ProtocolClosed), a'))"

section \<open>Requested and pending streams\<close>

text \<open>\<open>RequestedStream::inner_reject\<close>: the track id is taken, so a second rejection carries none.\<close>

definition requested_inner_reject ::
  "requested_handle \<Rightarrow> api_state
     \<Rightarrow> (connection_error, conn_handle option) res \<times> requested_handle \<times> api_state" where
  "requested_inner_reject q a =
     (if \<not> ai_alive a then (Err CE_ProtocolClosed, q, a)
      else (Ok (rq_connection q), q\<lparr>rq_track := [], rq_connection := None\<rparr>,
            post_command (Api_Reject_Track_Request (rq_session q) (rq_track q)) a))"

definition drop_option :: "conn_handle option \<Rightarrow> api_state \<Rightarrow> api_state" where
  "drop_option c a = (case c of None \<Rightarrow> a | Some c \<Rightarrow> drop_conn c a)"

text \<open>The destructor drops what the rejection returns, and then the fields.\<close>

definition drop_requested :: "requested_handle \<Rightarrow> api_state \<Rightarrow> api_state" where
  "drop_requested q a =
     (case requested_inner_reject q a of
        (Ok c, q, a) \<Rightarrow> drop_option (rq_connection q) (drop_option c a)
      | (_, q, a) \<Rightarrow> drop_option (rq_connection q) a)"

definition requested_reject ::
  "requested_handle \<Rightarrow> api_state \<Rightarrow> (connection_error, conn_handle) res \<times> api_state" where
  "requested_reject q a =
     (case requested_inner_reject q a of
        (Ok (Some c), q, a) \<Rightarrow> (Ok c, drop_requested q a)
      | (Err e, q, a) \<Rightarrow> (Err e, drop_requested q a)
      | (_, q, a) \<Rightarrow> (Panic, drop_requested q a))"

definition requested_approve ::
  "bool \<Rightarrow> (api_errors, session_id) res reply \<Rightarrow> rbuffer \<Rightarrow> requested_handle \<Rightarrow> api_state
     \<Rightarrow> (connection_error \<times> conn_handle, stream_handle) res option \<times> api_state" where
  "requested_approve dbg r buffer q a =
     (case rq_connection q of
        None \<Rightarrow> (Some Panic, drop_requested q a)
      | Some c \<Rightarrow>
          (let q = q\<lparr>rq_connection := None\<rparr>
           in if \<not> ai_alive a then (Some (Err (CE_ProtocolClosed, c)), drop_requested q a)
              else case api_send_data r (To_Session (rq_session q)) buffer a of
                     (None, a) \<Rightarrow> (None, a)
                   | (Some (Ok _), a) \<Rightarrow>
                       (Some (Ok (stream_new (rq_session q) c (length (rb_buffer buffer)))), drop_requested q a)
                   | (Some (Err e), a) \<Rightarrow>
                       (case refuse dbg e c a of (x, a) \<Rightarrow> (x, drop_requested q a))
                   | (Some Panic, a) \<Rightarrow> (Some Panic, drop_requested q (drop_conn c a))))"

text \<open>The provided method \<open>approve_if\<close> of the trait \<open>RequestedStream\<close>: the application decides by the track id.\<close>

datatype ('x, 'y) approval_status = Status_Approved 'x | Status_Rejected 'y

definition requested_approve_if ::
  "bool \<Rightarrow> (api_errors, session_id) res reply \<Rightarrow> (bytes \<Rightarrow> bool) \<Rightarrow> rbuffer \<Rightarrow> requested_handle \<Rightarrow> api_state
     \<Rightarrow> ((connection_error \<times> conn_handle, stream_handle) res, (connection_error, conn_handle) res) approval_status option
         \<times> api_state" where
  "requested_approve_if dbg r f buffer q a =
     (if f (rq_track q)
      then (case requested_approve dbg r buffer q a of (x, a) \<Rightarrow> (map_option Status_Approved x, a))
      else (case requested_reject q a of (v, a) \<Rightarrow> (Some (Status_Rejected v), a)))"

text \<open>\<open>PendingStream::inner_ready\<close>: it waits for the first message with an approval.\<close>

definition pending_inner_ready ::
  "bool option reply \<Rightarrow> pending_handle \<Rightarrow> conn_handle \<Rightarrow> (connection_error \<times> conn_handle, stream_handle) res option" where
  "pending_inner_ready approval w c =
     (case approval of
        No_Reply \<Rightarrow> None
      | Hung_Up \<Rightarrow> Some (Err (CE_ProtocolClosed, c))
      | Replied b \<Rightarrow> if b = Some True then Some (Ok (stream_new (pn_session w) c (pn_size w)))
                     else Some (Err (CE_PeerRejected None, c)))"

text \<open>
  \<open>inner_discard\<close>: the stream is made ready, closed and dropped. The destructor runs it in \<open>block_on\<close> of the executor
  of \<open>futures\<close> (\<open>nested\<close>), and there the destructor of the stream calls \<open>block_on\<close> again, which panics inside another
  \<open>block_on\<close>. An awaited \<open>inner_discard\<close> runs on the executor of the application, which is another one.
\<close>

definition pending_inner_discard ::
  "bool \<Rightarrow> bool option reply \<Rightarrow> pending_handle \<Rightarrow> api_state
     \<Rightarrow> (connection_error \<times> conn_handle option, conn_handle option) res option \<times> pending_handle \<times> api_state" where
  "pending_inner_discard nested approval w a =
     (let w' = w\<lparr>pn_connection := None\<rparr>
      in if \<not> ai_alive a then (Some (Err (CE_ProtocolClosed, pn_connection w)), w', a)
         else case pn_connection w of
                None \<Rightarrow> (Some (Ok None), w', a)
              | Some c \<Rightarrow>
                  (case pending_inner_ready approval w c of
                     None \<Rightarrow> (None, w', a)
                   | Some (Ok s) \<Rightarrow>
                       (case stream_inner_close s a of
                          (r, s, a) \<Rightarrow>
                            if nested then (Some Panic, w', a)
                            else (case r of
                                    Ok c \<Rightarrow> (Some (Ok c), w', drop_stream s a)
                                  | Err (e, c) \<Rightarrow> (Some (Err (e, Some c)), w', drop_stream s a)
                                  | Panic \<Rightarrow> (Some Panic, w', drop_stream s a)))
                   | Some (Err (e, c)) \<Rightarrow> (Some (Err (e, Some c)), w', a)
                   | Some Panic \<Rightarrow> (Some Panic, w', a)))"

text \<open>
  How the destructor ends: it waits too and may never return. When the destructor of the stream panics, the connection
  is dropped as the stack unwinds, inside the \<open>block_on\<close> still, and the second panic aborts the process.
\<close>

datatype drop_end = Dropped api_state | Drop_Blocks | Drop_Aborts

definition drop_pending :: "bool option reply \<Rightarrow> pending_handle \<Rightarrow> api_state \<Rightarrow> drop_end" where
  "drop_pending approval w a =
     (case pending_inner_discard True approval w a of
        (None, _, _) \<Rightarrow> Drop_Blocks
      | (Some (Ok c), _, a) \<Rightarrow> Dropped (drop_option c a)
      | (Some (Err (e, c)), _, a) \<Rightarrow> Dropped (drop_option c a)
      | (Some Panic, _, a) \<Rightarrow> Drop_Aborts)"

definition pending_ready ::
  "bool option reply \<Rightarrow> pending_handle \<Rightarrow> api_state
     \<Rightarrow> (connection_error \<times> conn_handle, stream_handle) res option \<times> drop_end" where
  "pending_ready approval w a =
     (case pn_connection w of
        None \<Rightarrow> (Some Panic, drop_pending approval w a)
      | Some c \<Rightarrow> (pending_inner_ready approval w c, drop_pending approval (w\<lparr>pn_connection := None\<rparr>) a))"

definition pending_discard ::
  "bool option reply \<Rightarrow> pending_handle \<Rightarrow> api_state
     \<Rightarrow> (connection_error \<times> conn_handle, conn_handle) res option \<times> drop_end" where
  "pending_discard approval w a =
     (case pending_inner_discard False approval w a of
        (None, _, a) \<Rightarrow> (None, Drop_Blocks)
      | (Some (Ok (Some c)), w, a) \<Rightarrow> (Some (Ok c), drop_pending approval w a)
      | (Some (Err (e, Some c)), w, a) \<Rightarrow> (Some (Err (e, c)), drop_pending approval w a)
      | (_, w, a) \<Rightarrow> (Some Panic, drop_pending approval w a))"

section \<open>Handshakes\<close>

text \<open>\<open>PendingConnection\<close>, the outcome of \<open>connect\<close>, until it is ready or dropped.\<close>

record pending_connection =
  pd_peer :: address
  pd_reply :: "ticket option"

definition pending_connection_new :: "address \<Rightarrow> ticket \<Rightarrow> pending_connection" where
  "pending_connection_new addr t = \<lparr>pd_peer = addr, pd_reply = Some t\<rparr>"

text \<open>\<open>inner_discard\<close>, run by the destructor: a session that comes about is closed.\<close>

definition drop_pending_connection ::
  "(connection_error, session_id) res reply \<Rightarrow> pending_connection \<Rightarrow> api_state \<Rightarrow> api_state option" where
  "drop_pending_connection r w a =
     (case pd_reply w of
        None \<Rightarrow> Some a
      | Some _ \<Rightarrow>
          (case r of
             No_Reply \<Rightarrow> None
           | Replied (Ok sid) \<Rightarrow> Some (if ai_alive a then post_command (Api_Close_Session sid) a else a)
           | _ \<Rightarrow> Some a))"

definition connection_ready ::
  "(connection_error, session_id) res reply \<Rightarrow> pending_connection \<Rightarrow> api_state
     \<Rightarrow> (connection_error, conn_handle) res option \<times> api_state option" where
  "connection_ready r w a =
     (let w' = w\<lparr>pd_reply := None\<rparr>
      in case pd_reply w of
           None \<Rightarrow> (Some Panic, drop_pending_connection r w a)
         | Some _ \<Rightarrow>
             (case r of
                No_Reply \<Rightarrow> (None, Some a)
              | Hung_Up \<Rightarrow> (Some (Err CE_ProtocolClosed), drop_pending_connection r w' a)
              | Replied (Ok sid) \<Rightarrow>
                  (Some (Ok \<lparr>cn_session = sid, cn_peer = pd_peer w\<rparr>), drop_pending_connection r w' a)
              | Replied (Err e) \<Rightarrow> (Some (Err e), drop_pending_connection r w' a)
              | Replied Panic \<Rightarrow> (Some Panic, drop_pending_connection r w' a)))"

text \<open>\<open>IncomingConnection\<close>: a hello that waits for the application's approval.\<close>

record incoming_connection =
  in_peer :: address
  in_app_id :: bytes
  in_approve :: "ticket option"
  in_reply :: "ticket option"

definition incoming_new :: "address \<Rightarrow> bytes \<Rightarrow> ticket \<Rightarrow> ticket \<Rightarrow> incoming_connection" where
  "incoming_new peer app t t' = \<lparr>in_peer = peer, in_app_id = app, in_approve = Some t, in_reply = Some t'\<rparr>"

text \<open>An answer whose receiver is gone is not sent; a debug build panics on a rejection that is not.\<close>

definition give_answer :: "ticket \<Rightarrow> app_response \<Rightarrow> api_state \<Rightarrow> api_state" where
  "give_answer t x a = a\<lparr>ai_answers := ai_answers a @ [(t, x)]\<rparr>"

definition drop_incoming :: "bool \<Rightarrow> bool \<Rightarrow> incoming_connection \<Rightarrow> api_state \<Rightarrow> api_state ures" where
  "drop_incoming dbg waiting i a =
     (case in_approve i of
        None \<Rightarrow> Ok a
      | Some t \<Rightarrow> if waiting then Ok (give_answer t App_Rejected a) else if dbg then Panic else Ok a)"

definition incoming_approve ::
  "bool \<Rightarrow> bool \<Rightarrow> (connection_error, session_id) res reply \<Rightarrow> incoming_connection \<Rightarrow> api_state
     \<Rightarrow> (connection_error, conn_handle) res option \<times> api_state" where
  "incoming_approve dbg waiting r i a =
     (case in_approve i of
        None \<Rightarrow> (Some (if dbg then Panic else Err CE_ProtocolClosed), a)
      | Some t \<Rightarrow>
          if \<not> waiting then (Some (Err CE_ProtocolClosed), a)
          else let a = give_answer t App_Approved a
               in case in_reply i of
                    None \<Rightarrow> (Some Panic, a)
                  | Some _ \<Rightarrow>
                      (case r of
                         No_Reply \<Rightarrow> (None, a)
                       | Hung_Up \<Rightarrow> (Some (Err CE_ProtocolClosed), a)
                       | Replied (Err e) \<Rightarrow> (Some (Err e), a)
                       | Replied Panic \<Rightarrow> (Some Panic, a)
                       | Replied (Ok sid) \<Rightarrow> (Some (Ok \<lparr>cn_session = sid, cn_peer = in_peer i\<rparr>), a)))"

text \<open>\<open>approve_if\<close> of the trait \<open>IncomingConnection\<close>, where \<open>reject\<close> just drops the request.\<close>

definition incoming_approve_if ::
  "bool \<Rightarrow> bool \<Rightarrow> (connection_error, session_id) res reply \<Rightarrow> (bytes \<Rightarrow> bool) \<Rightarrow> incoming_connection \<Rightarrow> api_state
     \<Rightarrow> (connection_error, conn_handle) res option option \<times> api_state" where
  "incoming_approve_if dbg waiting r condition i a =
     (if condition (in_app_id i)
      then (case incoming_approve dbg waiting r i a of (x, a) \<Rightarrow> (map_option Some x, a))
      else (case drop_incoming dbg waiting i a of Ok a \<Rightarrow> (Some None, a) | _ \<Rightarrow> (Some (Some Panic), a)))"

section \<open>Opening and closing the library\<close>

text \<open>The flag \<open>PROTOCOL_OPEN\<close>, and whether the thread of the manager has ended.\<close>

definition verify_app_id :: "bytes \<Rightarrow> bool" where
  "verify_app_id app \<longleftrightarrow> list_all (\<lambda>b. b < 128) app \<and> length app \<le> 512"

definition app_id_new :: "bool \<Rightarrow> bytes \<Rightarrow> bytes ures" where
  "app_id_new dbg app = (if dbg \<and> \<not> (list_all (\<lambda>b. b < 128) app \<and> length app < 512) then Panic else Ok app)"

definition api_state_new :: api_state where
  "api_state_new = \<lparr>ai_alive = True, ai_channel = True, ai_commands = [], ai_answers = [], ai_next = 0\<rparr>"

text \<open>\<open>ApiInner::new\<close>: \<open>started\<close> is the result of \<open>endpoints::open\<close>. The flag afterwards comes second.\<close>

definition api_inner_new :: "(api_errors, unit) res \<Rightarrow> bool \<Rightarrow> (api_errors, api_state) res \<times> bool" where
  "api_inner_new started opened =
     (if opened then (Err Api_AlreadyOpen, True) else (map_res (\<lambda>_. api_state_new) started, True))"

definition api_open ::
  "bool \<Rightarrow> (api_errors, unit) res \<Rightarrow> bytes \<Rightarrow> u16 option \<Rightarrow> bool \<Rightarrow> (api_errors, api_state) res \<times> bool" where
  "api_open dbg started app port opened =
     (if \<exists>p. port = Some p \<and> p \<le> 1024 then (Err Api_InvalidPort, opened)
      else if \<not> verify_app_id app then (Err Api_InvalidAppId, opened)
      else case app_id_new dbg app of
             Ok _ \<Rightarrow> api_inner_new started opened
           | _ \<Rightarrow> (Panic, opened))"

text \<open>
  \<open>close\<close> and the destructor: \<open>Sender::send\<close> is a future that is dropped without being polled, so no command
  is sent; then the thread of the manager is joined. \<open>None\<close> if that never returns.
\<close>

definition api_inner_close :: "bool \<Rightarrow> bool \<Rightarrow> api_state \<Rightarrow> (bool \<times> api_state) option" where
  "api_inner_close manager_ends opened a =
     (if opened then (if manager_ends then Some (False, a) else None) else Some (opened, a))"

definition api_close :: "bool \<Rightarrow> api_state \<Rightarrow> (bool \<times> api_state) option" where
  "api_close manager_ends a = (if manager_ends then Some (False, a) else None)"

definition api_connect ::
  "address \<Rightarrow> api_state \<Rightarrow> (api_errors, pending_connection) res \<times> api_state" where
  "api_connect addr a =
     (let (t, a) = new_ticket a
      in if ai_channel a
         then (Ok (pending_connection_new addr t), post_command (Api_Connect addr t) a)
         else (Err Api_ProtocolClosed, a))"

datatype app_event = App_Incoming_Connection incoming_connection | App_Closed | App_Failed api_errors

text \<open>\<open>listen\<close>: what the manager passes up (\<open>None\<close> if the channel is closed).\<close>

datatype api_message = Incoming_Message bytes ticket ticket address | Failure_Message protocol_error

fun failure_event :: "protocol_error \<Rightarrow> app_event" where
  "failure_event (Channel_Failed d l) = App_Failed Api_Internal"
| "failure_event (Channel_Closed d l) = App_Failed Api_Internal"
| "failure_event Task_Failed = App_Failed Api_Internal"
| "failure_event Recv_Failed_Too_Many_Times = App_Failed Api_Internal"
| "failure_event Failed_To_Bind = App_Failed Api_FailedToOpen"
| "failure_event (Incompatible_Version v src) = App_Closed"
| "failure_event (Session_Error (StateMismatch e f)) = App_Closed"
| "failure_event (Session_Error IrrelevantError) = App_Closed"
| "failure_event (Session_Error FailedToDerefError) = App_Failed Api_BufferClosedUnexpectedly"

fun api_listen :: "api_message option \<Rightarrow> app_event" where
  "api_listen None = App_Closed"
| "api_listen (Some (Failure_Message e)) = failure_event e"
| "api_listen (Some (Incoming_Message app t t' peer)) = App_Incoming_Connection (incoming_new peer app t t')"

end
