(* ===== verification/Api_Laws.thy ===== *)
theory Api_Laws imports Api begin

text \<open>
  Ownership of sessions in the interface: a handle owns the session of the connection inside it, and
  whatever an application does with its handles, each session it was given is still owned or was told
  to be closed. The locale states what a destructor promises; the relation \<open>api_method\<close> collects what every
  method does with the handle it consumes.
\<close>

section \<open>Destructors\<close>

text \<open>While the API lives and the manager listens.\<close>

definition api_up :: "api_state \<Rightarrow> bool" where
  "api_up a \<longleftrightarrow> ai_alive a \<and> ai_channel a"

text \<open>One state of the API leads to another by sending the commands.\<close>

definition sends :: "api_state \<Rightarrow> api_command list \<Rightarrow> api_state \<Rightarrow> bool" where
  "sends a cs a' \<longleftrightarrow> api_up a' \<and> ai_commands a' = ai_commands a @ cs"

lemma sends_refl: "api_up a \<Longrightarrow> sends a [] a"
  by (simp add: sends_def)

lemma sends_trans: "\<lbrakk> sends a cs a'; sends a' ds a'' \<rbrakk> \<Longrightarrow> sends a (cs @ ds) a''"
  by (simp add: sends_def)

lemma sends_post: "api_up a \<Longrightarrow> sends a [c] (post_command c a)"
  by (simp add: sends_def post_command_def api_up_def)

lemma sends_up: "sends a cs a' \<Longrightarrow> api_up a'"
  by (simp add: sends_def)

locale owning_handle =
  fixes owner :: "'h \<Rightarrow> session_id option"
    and release :: "'h \<Rightarrow> api_state \<Rightarrow> api_state"
  assumes release_closes:
    "api_up a \<Longrightarrow> \<exists>cs. sends a cs (release h a)
       \<and> (\<forall>s. Api_Close_Session s \<in> set cs \<longleftrightarrow> owner h = Some s)"
begin

text \<open>Dropping a collection of handles closes exactly the sessions they own.\<close>

lemma release_all:
  "api_up a \<Longrightarrow> \<exists>cs. sends a cs (fold release hs a)
     \<and> (\<forall>s. Api_Close_Session s \<in> set cs \<longleftrightarrow> Some s \<in> owner ` set hs)"
proof (induction hs arbitrary: a)
  case Nil
  then show ?case using sends_refl [of a] by (intro exI [of _ "[]"]) simp
next
  case (Cons h hs)
  obtain cs where c: "sends a cs (release h a)" "\<forall>s. Api_Close_Session s \<in> set cs \<longleftrightarrow> owner h = Some s"
    using release_closes [OF Cons.prems] by blast
  obtain ds where "sends (release h a) ds (fold release hs (release h a))"
      "\<forall>s. Api_Close_Session s \<in> set ds \<longleftrightarrow> Some s \<in> owner ` set hs"
    using Cons.IH [OF sends_up [OF c(1)]] by blast
  then show ?case using c sends_trans [OF c(1)] by (intro exI [of _ "cs @ ds"]) auto
qed

end

definition conn_owner :: "conn_handle \<Rightarrow> session_id option" where
  "conn_owner c = Some (cn_session c)"

definition stream_owner :: "stream_handle \<Rightarrow> session_id option" where
  "stream_owner s = map_option cn_session (sr_connection s)"

definition requested_owner :: "requested_handle \<Rightarrow> session_id option" where
  "requested_owner q = map_option cn_session (rq_connection q)"

definition pending_owner :: "pending_handle \<Rightarrow> session_id option" where
  "pending_owner w = map_option cn_session (pn_connection w)"

lemma sends_cong: "\<lbrakk> sends a cs a'; cs = ds \<rbrakk> \<Longrightarrow> sends a ds a'"
  by simp

lemma drop_conn_sends: "api_up a \<Longrightarrow> sends a [Api_Close_Session (cn_session c)] (drop_conn c a)"
  by (simp add: drop_conn_def conn_inner_close_def sends_post [unfolded api_up_def] api_up_def)

interpretation conn: owning_handle conn_owner drop_conn
  by unfold_locales (auto simp: conn_owner_def intro!: exI dest: drop_conn_sends)

lemma drop_stream_sends:
  "api_up a \<Longrightarrow> sends a (case sr_connection s of None \<Rightarrow> []
     | Some c \<Rightarrow> [Api_Close_Stream (sr_session s), Api_Close_Session (cn_session c)]) (drop_stream s a)"
  using sends_post [of a "Api_Close_Stream (sr_session s)"] drop_conn_sends
  by (auto simp: drop_stream_def stream_inner_close_def sends_refl api_up_def sends_def split: option.splits)

interpretation strm: owning_handle stream_owner drop_stream
proof
  fix a h
  assume "api_up a"
  from drop_stream_sends [OF this, of h]
  show "\<exists>cs. sends a cs (drop_stream h a) \<and> (\<forall>s. Api_Close_Session s \<in> set cs \<longleftrightarrow> stream_owner h = Some s)"
    by (intro exI, intro conjI, assumption) (auto simp: stream_owner_def split: option.splits)
qed

lemma drop_option_sends:
  "api_up a \<Longrightarrow> sends a (case c of None \<Rightarrow> [] | Some c \<Rightarrow> [Api_Close_Session (cn_session c)]) (drop_option c a)"
  by (auto simp: drop_option_def sends_refl drop_conn_sends split: option.splits)

lemma drop_requested_sends:
  "api_up a \<Longrightarrow> sends a (Api_Reject_Track_Request (rq_session q) (rq_track q)
     # (case rq_connection q of None \<Rightarrow> [] | Some c \<Rightarrow> [Api_Close_Session (cn_session c)])) (drop_requested q a)"
  using sends_post [of a "Api_Reject_Track_Request (rq_session q) (rq_track q)"]
    drop_option_sends [of "post_command (Api_Reject_Track_Request (rq_session q) (rq_track q)) a" "rq_connection q"]
  by (auto simp: drop_requested_def requested_inner_reject_def api_up_def sends_def drop_option_def)

interpretation requested: owning_handle requested_owner drop_requested
proof
  fix a h
  assume "api_up a"
  from drop_requested_sends [OF this, of h]
  show "\<exists>cs. sends a cs (drop_requested h a) \<and> (\<forall>s. Api_Close_Session s \<in> set cs \<longleftrightarrow> requested_owner h = Some s)"
    by (intro exI, intro conjI, assumption) (auto simp: requested_owner_def split: option.splits)
qed

text \<open>A pending stream that was not approved is dropped like the others; dropping an approved one aborts.\<close>

definition approved :: "bool option reply \<Rightarrow> bool" where
  "approved r \<longleftrightarrow> r = Replied (Some True)"

lemma drop_conn_owned:
  "api_up a \<Longrightarrow> \<exists>cs. sends a cs (drop_conn c a) \<and> (\<forall>s. Api_Close_Session s \<in> set cs \<longleftrightarrow> cn_session c = s)"
  by (rule exI [of _ "[Api_Close_Session (cn_session c)]"]) (auto simp: drop_conn_sends)

lemma drop_pending_sends:
  "\<lbrakk> api_up a; r \<noteq> No_Reply; \<not> approved r \<or> pn_connection w = None \<rbrakk> \<Longrightarrow> \<exists>cs a'. drop_pending r w a = Dropped a'
     \<and> sends a cs a' \<and> (\<forall>s. Api_Close_Session s \<in> set cs \<longleftrightarrow> pending_owner w = Some s)"
  using sends_refl [of a] drop_conn_owned [of a]
  by (cases "pn_connection w"; cases r)
    (auto simp: drop_pending_def pending_inner_discard_def pending_inner_ready_def approved_def
      drop_option_def pending_owner_def api_up_def Let_def)

lemma approved_drop_aborts:
  "\<lbrakk> ai_alive a; pn_connection w = Some c; approved r \<rbrakk> \<Longrightarrow> drop_pending r w a = Drop_Aborts"
  by (simp add: drop_pending_def pending_inner_discard_def pending_inner_ready_def stream_inner_close_def
      stream_new_def approved_def Let_def)

definition drop_refused :: "pending_handle \<Rightarrow> api_state \<Rightarrow> api_state" where
  "drop_refused w a = (case drop_pending (Replied (Some False)) w a of Dropped a' \<Rightarrow> a' | _ \<Rightarrow> a)"

interpretation pend: owning_handle pending_owner drop_refused
proof
  fix a h
  assume "api_up a"
  then obtain cs a' where "drop_pending (Replied (Some False)) h a = Dropped a'" "sends a cs a'"
      "\<forall>s. Api_Close_Session s \<in> set cs \<longleftrightarrow> pending_owner h = Some s"
    using drop_pending_sends [of a "Replied (Some False)" h] by (auto simp: approved_def)
  then show "\<exists>cs. sends a cs (drop_refused h a)
      \<and> (\<forall>s. Api_Close_Session s \<in> set cs \<longleftrightarrow> pending_owner h = Some s)"
    by (auto simp: drop_refused_def)
qed

section \<open>What the methods do with the handles\<close>

datatype handle = Conn conn_handle | Strm stream_handle | Requested requested_handle | Pending_Stream pending_handle

fun handle_owner :: "handle \<Rightarrow> session_id option" where
  "handle_owner (Conn c) = conn_owner c"
| "handle_owner (Strm s) = stream_owner s"
| "handle_owner (Requested q) = requested_owner q"
| "handle_owner (Pending_Stream w) = pending_owner w"

text \<open>The handles in the results of the methods.\<close>

fun news_handles :: "(connection_error, connection_news) res \<Rightarrow> handle list" where
  "news_handles (Ok (News_TrackRequested q)) = [Requested q]"
| "news_handles _ = []"

fun refused_handles :: "('h \<Rightarrow> handle) \<Rightarrow> (connection_error \<times> conn_handle, 'h) res \<Rightarrow> handle list" where
  "refused_handles f (Ok h) = [f h]"
| "refused_handles f (Err (e, c)) = [Conn c]"
| "refused_handles f Panic = []"

fun result_handles :: "('e, conn_handle) res \<Rightarrow> handle list" where
  "result_handles (Ok c) = [Conn c]"
| "result_handles _ = []"

fun status_handles ::
  "((connection_error \<times> conn_handle, stream_handle) res, (connection_error, conn_handle) res) approval_status \<Rightarrow> handle list" where
  "status_handles (Status_Approved x) = refused_handles Strm x"
| "status_handles (Status_Rejected v) = result_handles v"

text \<open>\<open>api_method h a hs a'\<close>: some method, called on \<open>h\<close> in \<open>a\<close>, returns with the handles \<open>hs\<close> in \<open>a'\<close>.\<close>

inductive api_method :: "handle \<Rightarrow> api_state \<Rightarrow> handle list \<Rightarrow> api_state \<Rightarrow> bool" where
  method_listen: "conn_listen inbox up c a = (Some r, a') \<Longrightarrow> api_method (Conn c) a (news_handles r) a'"
| method_send: "conn_send dbg r b c a = (Some x, a') \<Longrightarrow> api_method (Conn c) a (refused_handles Strm x) a'"
| method_request: "conn_request rp track w c a = (Some y, a')
    \<Longrightarrow> api_method (Conn c) a (refused_handles Pending_Stream y) a'"
| method_conn_close: "api_method (Conn c) a [] (conn_close c a)"
| method_conn_drop: "api_method (Conn c) a [] (drop_conn c a)"
| method_stream_close: "stream_close s a = (z, a') \<Longrightarrow> api_method (Strm s) a (refused_handles Conn z) a'"
| method_complete_input: "complete_input m s a = (Some v, a') \<Longrightarrow> api_method (Strm s) a (result_handles v) a'"
| method_complete_output: "complete_output m s a = (Some v, a') \<Longrightarrow> api_method (Strm s) a (result_handles v) a'"
| method_stream_drop: "api_method (Strm s) a [] (drop_stream s a)"
| method_control: "stream_control act rb m s a = (Some n, a') \<Longrightarrow> api_method (Strm s) a [Strm s] a'"
| method_holes: "buffer_holes rh s a = (Some hs, a') \<Longrightarrow> api_method (Strm s) a [Strm s] a'"
| method_partial: "api_method (Strm s) a [Strm (allow_partial_receive b s)] a"
| method_reject: "requested_reject q a = (v, a') \<Longrightarrow> api_method (Requested q) a (result_handles v) a'"
| method_approve: "requested_approve dbg r b q a = (Some x, a')
    \<Longrightarrow> api_method (Requested q) a (refused_handles Strm x) a'"
| method_approve_if: "requested_approve_if dbg r f b q a = (Some z, a')
    \<Longrightarrow> api_method (Requested q) a (status_handles z) a'"
| method_requested_drop: "api_method (Requested q) a [] (drop_requested q a)"
| method_ready: "pending_ready ap w a = (Some x, Dropped a') \<Longrightarrow> api_method (Pending_Stream w) a (refused_handles Strm x) a'"
| method_discard: "pending_discard ap w a = (Some z, Dropped a')
    \<Longrightarrow> api_method (Pending_Stream w) a (refused_handles Conn z) a'"
| method_pending_drop: "drop_pending ap w a = Dropped a' \<Longrightarrow> api_method (Pending_Stream w) a [] a'"

inductive_cases methodE: "api_method h a hs a'"

text \<open>What a method keeps: the session goes on in exactly one way, in a handle or in a command.\<close>

definition passes_on :: "session_id \<Rightarrow> api_state \<Rightarrow> handle list \<Rightarrow> api_state \<Rightarrow> bool" where
  "passes_on sid a hs a' \<longleftrightarrow> (\<exists>cs. sends a cs a'
     \<and> (hs = [] \<and> Api_Close_Session sid \<in> set cs
        \<or> map handle_owner hs = [Some sid] \<and> (\<forall>s. Api_Close_Session s \<notin> set cs)))"

lemma passes_on_kept:
  "\<lbrakk> sends a cs a'; map handle_owner hs = [Some sid]; \<forall>s. Api_Close_Session s \<notin> set cs \<rbrakk> \<Longrightarrow> passes_on sid a hs a'"
  by (auto simp: passes_on_def)

lemma passes_on_closed: "\<lbrakk> sends a cs a'; Api_Close_Session sid \<in> set cs \<rbrakk> \<Longrightarrow> passes_on sid a [] a'"
  by (auto simp: passes_on_def)

lemma passes_on_dropped: "sends a [Api_Close_Session sid] a' \<Longrightarrow> passes_on sid a [] a'"
  by (erule passes_on_closed) simp

lemma passes_on_after:
  "\<lbrakk> passes_on sid a1 hs a'; sends a cs a1; \<forall>s. Api_Close_Session s \<notin> set cs \<rbrakk> \<Longrightarrow> passes_on sid a hs a'"
  by (auto simp: passes_on_def sends_def)

text \<open>Each method of a connection.\<close>

lemma sends_ticket: "api_up a \<Longrightarrow> sends a [] (a\<lparr>ai_next := n\<rparr>)"
  by (simp add: sends_def api_up_def)

lemma listen_passes_on:
  "\<lbrakk> conn_listen inbox up c a = (Some r, a'); api_up a \<rbrakk> \<Longrightarrow> passes_on (cn_session c) a (news_handles r) a'"
  using drop_conn_sends [of a c] sends_refl [of a]
  by (auto simp: conn_listen_def requested_owner_def requested_new_def split: reply.splits connection_event.splits
      intro: passes_on_kept passes_on_dropped)

lemma api_send_data_sends:
  "\<lbrakk> api_send_data r target b a = (x, a'); api_up a \<rbrakk>
    \<Longrightarrow> \<exists>t. sends a [Api_Send_Data target b stream_message_default t] a'"
  by (auto simp: api_send_data_def new_ticket_def sends_def post_command_def api_up_def Let_def split: reply.splits)

lemma conn_kept: "api_up a \<Longrightarrow> passes_on (cn_session c) a [Conn c] a"
  by (rule passes_on_kept [OF sends_refl]) (simp_all add: conn_owner_def)

lemma conn_dropped: "api_up a \<Longrightarrow> passes_on (cn_session c) a [] (drop_conn c a)"
  by (rule passes_on_dropped [OF drop_conn_sends])

lemma refuse_passes_on:
  "\<lbrakk> refuse dbg e c a = (Some x, a'); api_up a \<rbrakk> \<Longrightarrow> passes_on (cn_session c) a (refused_handles f x) a'"
  by (auto simp: refuse_def conn_kept conn_dropped split: res.splits)

lemma send_passes_on:
  assumes "conn_send dbg r b c a = (Some x, a')" and "api_up a"
  shows "passes_on (cn_session c) a (refused_handles Strm x) a'"
proof -
  obtain y a1 where d: "api_send_data r (To_Session (cn_session c)) b a = (y, a1)" by (cases "api_send_data r (To_Session (cn_session c)) b a")
  then obtain t where s: "sends a [Api_Send_Data (To_Session (cn_session c)) b stream_message_default t] a1"
    using api_send_data_sends [OF d assms(2)] by blast
  then have up: "api_up a1" by (rule sends_up)
  have "passes_on (cn_session c) a1 (refused_handles Strm x) a'"
  proof (cases y)
    case (Some z)
    show ?thesis
    proof (cases z)
      case (Ok sid)
      then have "x = Ok (stream_new (cn_session c) c (length (rb_buffer b)))" "a' = a1"
        using assms d Some by (auto simp: conn_send_def api_up_def)
      then show ?thesis using up
        by (auto intro!: passes_on_kept [OF sends_refl] simp: stream_owner_def stream_new_def)
    next
      case (Err e)
      then show ?thesis using assms d Some up
        by (auto simp: conn_send_def api_up_def intro!: refuse_passes_on)
    next
      case Panic
      then show ?thesis using assms d Some up by (auto simp: conn_send_def conn_dropped api_up_def)
    qed
  qed (use assms d in \<open>simp add: conn_send_def api_up_def\<close>)
  then show ?thesis using s by (rule passes_on_after) simp
qed

lemma request_passes_on:
  assumes "conn_request r track w c a = (Some y, a')" and "api_up a"
  shows "passes_on (cn_session c) a (refused_handles Pending_Stream y) a'"
proof -
  let ?p = "\<lambda>t. \<lparr>or_target = To_Session (cn_session c), or_id = track, or_buffer = w, or_sender = stream_message_default,
    or_response = t\<rparr>"
  let ?a1 = "post_command (Api_Request_Track (?p (ai_next a))) (a\<lparr>ai_next := Suc (ai_next a)\<rparr>)"
  have s: "sends a [Api_Request_Track (?p (ai_next a))] ?a1"
    using assms(2) by (simp add: sends_def post_command_def api_up_def)
  have "length track > MAX_PAYLOAD_LENGTH \<Longrightarrow> y = Err (CE_BufferTooLarge, c) \<and> a' = a"
    using assms by (simp add: conn_request_def api_up_def)
  moreover have "\<not> length track > MAX_PAYLOAD_LENGTH \<Longrightarrow> a' = ?a1 \<and>
      (y = Ok (pending_new (cn_session c) (wb_len w) c) \<or> (\<exists>e. y = Err (e, c)))"
    using assms by (auto simp: conn_request_def api_up_def new_ticket_def Let_def split: reply.splits res.splits)
  ultimately show ?thesis using s assms(2) conn_kept [OF assms(2)]
    by (cases "length track > MAX_PAYLOAD_LENGTH")
      (auto intro!: passes_on_kept [OF s] simp: conn_owner_def pending_owner_def pending_new_def)
qed

lemma conn_close_passes_on: "api_up a \<Longrightarrow> passes_on (cn_session c) a [] (conn_close c a)"
  using drop_conn_sends [of a c] sends_trans [OF drop_conn_sends [of a c] drop_conn_sends [of "drop_conn c a" c]] sends_up
  by (auto simp: conn_close_def drop_conn_def passes_on_def intro!: exI)

text \<open>Each method of a stream that holds its connection.\<close>

lemma drop_stream_empty [simp]: "sr_connection s = None \<Longrightarrow> drop_stream s a = a"
  by (simp add: drop_stream_def stream_inner_close_def)

lemma stream_dropped:
  "\<lbrakk> sr_connection s = Some c; api_up a \<rbrakk> \<Longrightarrow> passes_on (cn_session c) a [] (drop_stream s a)"
  using drop_stream_sends [of a s] by (auto intro: passes_on_closed)

lemma close_passes_on:
  "\<lbrakk> stream_close s a = (z, a'); sr_connection s = Some c; api_up a \<rbrakk>
    \<Longrightarrow> passes_on (cn_session c) a (refused_handles Conn z) a'"
  using sends_post [of a "Api_Close_Stream (sr_session s)"]
  by (auto simp: stream_close_def stream_inner_close_def api_up_def conn_owner_def intro!: passes_on_kept)

lemma take_passes_on:
  "\<lbrakk> take_connection s a = (Some v, a'); sr_connection s = Some c; api_up a \<rbrakk>
    \<Longrightarrow> passes_on (cn_session c) a (result_handles v) a'"
  by (auto simp: take_connection_def conn_kept)

lemma complete_output_passes_on:
  "\<lbrakk> complete_output m s a = (Some v, a'); sr_connection s = Some c; api_up a \<rbrakk>
    \<Longrightarrow> passes_on (cn_session c) a (result_handles v) a'"
  by (auto simp: complete_output_def stream_dropped take_passes_on split: reply.splits)

lemma complete_input_passes_on:
  assumes "complete_input m s a = (Some v, a')" and "sr_connection s = Some c" and "api_up a"
  shows "passes_on (cn_session c) a (result_handles v) a'"
proof -
  let ?a1 = "post_command (Api_Set_Stream_Complete (sr_session s) (sr_allow_partial s)) a"
  have up: "sends a [Api_Set_Stream_Complete (sr_session s) (sr_allow_partial s)] ?a1" "api_up ?a1"
    using sends_post [OF assms(3)] sends_up by blast+
  have "passes_on (cn_session c) ?a1 (result_handles v) a'"
    using assms up(2)
    by (auto simp: complete_input_def Let_def stream_dropped take_passes_on api_up_def split: reply.splits if_splits)
  then show ?thesis using up(1) by (rule passes_on_after) simp
qed

lemma stream_kept: "\<lbrakk> sr_connection s = Some c; sends a cs a'; \<forall>s. Api_Close_Session s \<notin> set cs \<rbrakk>
    \<Longrightarrow> passes_on (cn_session c) a [Strm s] a'"
  by (rule passes_on_kept) (simp_all add: stream_owner_def)

lemma control_passes_on:
  assumes "stream_control act rb m s a = (Some n, a')" and "sr_connection s = Some c" and "api_up a"
  shows "passes_on (cn_session c) a [Strm s] a'"
proof -
  have "sends a [Api_Stream_Action (sr_session s) act (ai_next a)] a'"
    using assms by (auto simp: stream_control_def new_ticket_def Let_def sends_def post_command_def api_up_def
        split: reply.splits bool.splits if_splits)
  then show ?thesis by (rule stream_kept [OF assms(2)]) simp
qed

lemma holes_passes_on:
  assumes "buffer_holes rh s a = (Some hs, a')" and "sr_connection s = Some c" and "api_up a"
  shows "passes_on (cn_session c) a [Strm s] a'"
proof -
  have "sends a [Api_Find_Holes (sr_session s) (ai_next a)] a'"
    using assms by (auto simp: buffer_holes_def new_ticket_def Let_def sends_def post_command_def api_up_def
        split: reply.splits option.splits if_splits)
  then show ?thesis by (rule stream_kept [OF assms(2)]) simp
qed

text \<open>Each method of a requested stream.\<close>

lemma drop_requested_empty:
  "\<lbrakk> rq_connection q = None; api_up a \<rbrakk>
    \<Longrightarrow> sends a [Api_Reject_Track_Request (rq_session q) (rq_track q)] (drop_requested q a)"
  using drop_requested_sends [of a q] by simp

lemma reject_passes_on:
  assumes "requested_reject q a = (v, a')" and "rq_connection q = Some c" and "api_up a"
  shows "v = Ok c \<and> sends a [Api_Reject_Track_Request (rq_session q) (rq_track q), Api_Reject_Track_Request (rq_session q) []] a'"
proof -
  let ?q = "q\<lparr>rq_track := [], rq_connection := None\<rparr>"
  let ?a1 = "post_command (Api_Reject_Track_Request (rq_session q) (rq_track q)) a"
  have s: "sends a [Api_Reject_Track_Request (rq_session q) (rq_track q)] ?a1" by (rule sends_post [OF assms(3)])
  have r: "v = Ok c" "a' = drop_requested ?q ?a1"
    using assms by (auto simp: requested_reject_def requested_inner_reject_def api_up_def)
  have "sends ?a1 [Api_Reject_Track_Request (rq_session q) []] (drop_requested ?q ?a1)"
    using drop_requested_empty [of ?q ?a1] sends_up [OF s] by simp
  from sends_trans [OF s this] r show ?thesis by simp
qed

lemma approve_sends:
  assumes "requested_approve dbg (Replied (Ok sid)) b q a = (x, a')" and "rq_connection q = Some c" and "api_up a"
  shows "x = Some (Ok (stream_new (rq_session q) c (length (rb_buffer b))))
    \<and> sends a [Api_Send_Data (To_Session (rq_session q)) b stream_message_default (ai_next a),
              Api_Reject_Track_Request (rq_session q) (rq_track q)] a'"
proof -
  let ?a1 = "a\<lparr>ai_next := Suc (ai_next a), ai_commands := ai_commands a @
    [Api_Send_Data (To_Session (rq_session q)) b stream_message_default (ai_next a)]\<rparr>"
  have s: "sends a [Api_Send_Data (To_Session (rq_session q)) b stream_message_default (ai_next a)] ?a1"
    using assms(3) by (simp add: sends_def api_up_def)
  have r: "x = Some (Ok (stream_new (rq_session q) c (length (rb_buffer b))))"
    "a' = drop_requested (q\<lparr>rq_connection := None\<rparr>) ?a1"
    using assms by (auto simp: requested_approve_def api_send_data_def new_ticket_def post_command_def
        reply_of_def api_up_def Let_def)
  have "sends ?a1 [Api_Reject_Track_Request (rq_session q) (rq_track q)] (drop_requested (q\<lparr>rq_connection := None\<rparr>) ?a1)"
    using drop_requested_empty [of "q\<lparr>rq_connection := None\<rparr>" ?a1] sends_up [OF s] by simp
  from sends_trans [OF s this] r show ?thesis by simp
qed

lemma passes_on_then:
  "\<lbrakk> passes_on sid a hs a1; sends a1 cs a'; \<forall>s. Api_Close_Session s \<notin> set cs \<rbrakk> \<Longrightarrow> passes_on sid a hs a'"
  by (auto simp: passes_on_def sends_def)

lemma approve_passes_on:
  assumes "requested_approve dbg r b q a = (Some x, a')" and "rq_connection q = Some c" and "api_up a"
  shows "passes_on (cn_session c) a (refused_handles Strm x) a'"
proof -
  let ?q = "q\<lparr>rq_connection := None\<rparr>"
  obtain y a1 where d: "api_send_data r (To_Session (rq_session q)) b a = (y, a1)"
    by (cases "api_send_data r (To_Session (rq_session q)) b a")
  then obtain t where s: "sends a [Api_Send_Data (To_Session (rq_session q)) b stream_message_default t] a1"
    using api_send_data_sends [OF d assms(3)] by blast
  then have up: "api_up a1" by (rule sends_up)
  have last: "\<exists>a2. passes_on (cn_session c) a1 (refused_handles Strm x) a2 \<and> a' = drop_requested ?q a2"
  proof (cases y)
    case (Some z)
    show ?thesis
    proof (cases z)
      case (Ok sid)
      then have "x = Ok (stream_new (rq_session q) c (length (rb_buffer b)))" "a' = drop_requested ?q a1"
        using assms d Some by (auto simp: requested_approve_def api_up_def Let_def)
      then show ?thesis using up
        by (auto intro!: exI [of _ a1] passes_on_kept [OF sends_refl] simp: stream_owner_def stream_new_def)
    next
      case (Err e)
      then obtain a2 where "refuse dbg e c a1 = (Some x, a2)" "a' = drop_requested ?q a2"
        using assms d Some by (auto simp: requested_approve_def api_up_def Let_def split: prod.splits)
      then show ?thesis using refuse_passes_on up by blast
    next
      case Panic
      then have "x = Panic" "a' = drop_requested ?q (drop_conn c a1)"
        using assms d Some by (auto simp: requested_approve_def api_up_def Let_def)
      then show ?thesis using conn_dropped [OF up] by auto
    qed
  qed (use assms d in \<open>simp add: requested_approve_def api_up_def Let_def\<close>)
  then obtain a2 where "passes_on (cn_session c) a1 (refused_handles Strm x) a2" "a' = drop_requested ?q a2"
    by blast
  moreover from this have "api_up a2" by (auto simp: passes_on_def sends_def)
  ultimately have "passes_on (cn_session c) a1 (refused_handles Strm x) a'"
    using drop_requested_empty [of ?q a2] by (auto intro: passes_on_then)
  then show ?thesis using s by (rule passes_on_after) simp
qed

text \<open>Each method of a pending stream.\<close>

lemma drop_pending_empty: "\<lbrakk> pn_connection w = None; api_up a \<rbrakk> \<Longrightarrow> drop_pending r w a = Dropped a"
  by (simp add: drop_pending_def pending_inner_discard_def drop_option_def api_up_def Let_def)

lemma ready_passes_on:
  assumes "pending_ready ap w a = (Some x, Dropped a')" and "pn_connection w = Some c" and "api_up a"
  shows "passes_on (cn_session c) a (refused_handles Strm x) a'"
  using assms drop_pending_empty [of "w\<lparr>pn_connection := None\<rparr>" a ap]
  by (auto simp: pending_ready_def pending_inner_ready_def stream_owner_def stream_new_def conn_owner_def
      intro!: passes_on_kept [OF sends_refl] split: reply.splits if_splits)

lemma discard_passes_on:
  assumes "pending_discard ap w a = (Some z, Dropped a')" and "pn_connection w = Some c" and "api_up a"
  shows "passes_on (cn_session c) a (refused_handles Conn z) a'"
proof -
  have s: "sends a [Api_Close_Stream (pn_session w)] (post_command (Api_Close_Stream (pn_session w)) a)"
    by (rule sends_post [OF assms(3)])
  show ?thesis
    using assms s sends_up [OF s] drop_pending_empty [of "w\<lparr>pn_connection := None\<rparr>"]
    by (auto simp: pending_discard_def pending_inner_discard_def pending_inner_ready_def stream_inner_close_def
        stream_new_def conn_owner_def api_up_def Let_def intro!: passes_on_kept [OF sends_refl] passes_on_kept [OF s]
        split: reply.splits if_splits)
qed

lemma pending_dropped:
  assumes "drop_pending ap w a = Dropped a'" and "pn_connection w = Some c" and "api_up a"
  shows "passes_on (cn_session c) a [] a'"
proof -
  have "ap \<noteq> No_Reply"
    using assms by (auto simp: drop_pending_def pending_inner_discard_def pending_inner_ready_def api_up_def Let_def)
  moreover have "\<not> approved ap" using assms approved_drop_aborts [of a w c ap] by (auto simp: api_up_def)
  ultimately show ?thesis using drop_pending_sends [OF assms(3), of ap w]
    using assms by (auto simp: pending_owner_def intro: passes_on_closed)
qed

lemma requested_dropped:
  "\<lbrakk> rq_connection q = Some c; api_up a \<rbrakk> \<Longrightarrow> passes_on (cn_session c) a [] (drop_requested q a)"
  using drop_requested_sends [of a q] by (auto intro: passes_on_closed)

lemma approve_if_passes_on:
  assumes "requested_approve_if dbg r f b q a = (Some z, a')" and "rq_connection q = Some c" and "api_up a"
  shows "passes_on (cn_session c) a (status_handles z) a'"
proof (cases "f (rq_track q)")
  case True
  then obtain x where "requested_approve dbg r b q a = (Some x, a')" "z = Status_Approved x"
    using assms(1) by (auto simp: requested_approve_if_def split: prod.splits)
  then show ?thesis using approve_passes_on assms(2,3) by simp
next
  case False
  then obtain v where "requested_reject q a = (v, a')" "z = Status_Rejected v"
    using assms(1) by (auto simp: requested_approve_if_def split: prod.splits)
  then show ?thesis using reject_passes_on [of q a v a' c] assms(2,3)
    by (auto simp: conn_owner_def intro!: passes_on_kept)
qed

lemma method_passes_on:
  assumes "api_method h a hs a'" and "handle_owner h = Some sid" and "api_up a"
  shows "passes_on sid a hs a'"
  using assms
proof (cases rule: api_method.cases)
  case (method_reject q v)
  then show ?thesis using assms reject_passes_on [of q a v a']
    by (auto simp: requested_owner_def conn_owner_def intro!: passes_on_kept)
next
  case (method_partial s b)
  then show ?thesis using assms(2,3)
    by (auto simp: stream_owner_def allow_partial_receive_def intro!: passes_on_kept [OF sends_refl])
qed (auto simp: conn_owner_def stream_owner_def requested_owner_def pending_owner_def conn_dropped
      stream_dropped requested_dropped
    intro: listen_passes_on send_passes_on request_passes_on conn_close_passes_on close_passes_on
      complete_input_passes_on complete_output_passes_on control_passes_on holes_passes_on approve_passes_on approve_if_passes_on
      ready_passes_on discard_passes_on pending_dropped)

section \<open>An application\<close>

text \<open>The handles it holds, and the sessions it was given.\<close>

record application =
  ap_handles :: "handle list"
  ap_given :: "session_id list"
  ap_api :: api_state
  ap_aborted :: bool

definition application_new :: application where
  "application_new = \<lparr>ap_handles = [], ap_given = [], ap_api = api_state_new, ap_aborted = False\<rparr>"

inductive app_step :: "application \<Rightarrow> application \<Rightarrow> bool" where
  app_connected: "\<lbrakk> \<not> ap_aborted p; connection_ready r w (ap_api p) = (Some (Ok c), Some a') \<rbrakk>
    \<Longrightarrow> app_step p (p\<lparr>ap_handles := Conn c # ap_handles p, ap_given := cn_session c # ap_given p, ap_api := a'\<rparr>)"
| app_approved: "\<lbrakk> \<not> ap_aborted p; incoming_approve dbg waiting r i (ap_api p) = (Some (Ok c), a') \<rbrakk>
    \<Longrightarrow> app_step p (p\<lparr>ap_handles := Conn c # ap_handles p, ap_given := cn_session c # ap_given p, ap_api := a'\<rparr>)"
| app_decided: "\<lbrakk> \<not> ap_aborted p; incoming_approve_if dbg waiting r f i (ap_api p) = (Some (Some (Ok c)), a') \<rbrakk>
    \<Longrightarrow> app_step p (p\<lparr>ap_handles := Conn c # ap_handles p, ap_given := cn_session c # ap_given p, ap_api := a'\<rparr>)"
| app_declined: "\<lbrakk> \<not> ap_aborted p; incoming_approve_if dbg waiting r f i (ap_api p) = (Some None, a') \<rbrakk>
    \<Longrightarrow> app_step p (p\<lparr>ap_api := a'\<rparr>)"
| app_method: "\<lbrakk> \<not> ap_aborted p; ap_handles p = hs1 @ h # hs2; api_method h (ap_api p) hs a' \<rbrakk>
    \<Longrightarrow> app_step p (p\<lparr>ap_handles := hs1 @ hs @ hs2, ap_api := a'\<rparr>)"
| app_aborts: "\<lbrakk> \<not> ap_aborted p; ap_handles p = hs1 @ Pending_Stream w # hs2; drop_pending r w (ap_api p) = Drop_Aborts \<rbrakk>
    \<Longrightarrow> app_step p (p\<lparr>ap_handles := hs1 @ hs2, ap_aborted := True\<rparr>)"
| app_connect: "\<not> ap_aborted p \<Longrightarrow> app_step p (p\<lparr>ap_api := snd (api_connect addr (ap_api p))\<rparr>)"

inductive_cases app_stepE: "app_step p p'"

definition app_inv :: "application \<Rightarrow> bool" where
  "app_inv p \<longleftrightarrow> api_up (ap_api p) \<and> list_all (\<lambda>h. handle_owner h \<noteq> None) (ap_handles p)
     \<and> (\<forall>sid\<in>set (ap_given p). Some sid \<in> handle_owner ` set (ap_handles p)
          \<or> Api_Close_Session sid \<in> set (ai_commands (ap_api p)))"

lemma connection_ready_api: "connection_ready r w a = (Some (Ok c), Some a') \<Longrightarrow> a' = a"
  by (auto simp: connection_ready_def drop_pending_connection_def Let_def split: option.splits reply.splits res.splits)

lemma incoming_approve_api:
  "incoming_approve dbg waiting r i a = (Some (Ok c), a') \<Longrightarrow> \<exists>t. a' = give_answer t App_Approved a"
  by (auto simp: incoming_approve_def Let_def split: option.splits reply.splits res.splits if_splits)

lemma incoming_approve_if_api:
  assumes "incoming_approve_if dbg waiting r f i a = (Some x, a')" and "x = None \<or> (\<exists>c. x = Some (Ok c))"
  shows "ai_commands a' = ai_commands a \<and> (api_up a \<longrightarrow> api_up a')"
proof (cases "f (in_app_id i)")
  case True
  then obtain c where "incoming_approve dbg waiting r i a = (Some (Ok c), a')"
    using assms by (auto simp: incoming_approve_if_def split: prod.splits)
  then show ?thesis by (auto simp: give_answer_def api_up_def dest: incoming_approve_api)
next
  case False
  then have "drop_incoming dbg waiting i a = Ok a'"
    using assms by (auto simp: incoming_approve_if_def split: res.splits)
  then show ?thesis
    by (auto simp: drop_incoming_def give_answer_def api_up_def split: option.splits if_splits)
qed

lemma app_inv_given:
  "\<lbrakk> app_inv p; api_up a'; ai_commands a' = ai_commands (ap_api p) \<rbrakk>
    \<Longrightarrow> app_inv (p\<lparr>ap_handles := Conn c # ap_handles p, ap_given := cn_session c # ap_given p, ap_api := a'\<rparr>)"
  by (auto simp: app_inv_def conn_owner_def)

lemma app_step_alive: "app_step p p' \<Longrightarrow> \<not> ap_aborted p"
  by (erule app_stepE) auto

lemma app_inv_step: "\<lbrakk> app_step p p'; app_inv p; \<not> ap_aborted p' \<rbrakk> \<Longrightarrow> app_inv p'"
proof (erule app_stepE)
  fix r w c a'
  assume "app_inv p" "connection_ready r w (ap_api p) = (Some (Ok c), Some a')"
    and p': "p' = p\<lparr>ap_handles := Conn c # ap_handles p, ap_given := cn_session c # ap_given p, ap_api := a'\<rparr>"
  then have "a' = ap_api p" "api_up (ap_api p)" by (auto simp: app_inv_def dest: connection_ready_api)
  then show "app_inv p'" unfolding p' by (intro app_inv_given) (simp_all add: \<open>app_inv p\<close>)
next
  fix dbg waiting r i c a'
  assume "app_inv p" "incoming_approve dbg waiting r i (ap_api p) = (Some (Ok c), a')"
    and p': "p' = p\<lparr>ap_handles := Conn c # ap_handles p, ap_given := cn_session c # ap_given p, ap_api := a'\<rparr>"
  then have "ai_commands a' = ai_commands (ap_api p)" "api_up a'"
    by (auto simp: app_inv_def api_up_def give_answer_def dest!: incoming_approve_api)
  then show "app_inv p'" unfolding p' using app_inv_given \<open>app_inv p\<close> by simp
next
  fix dbg waiting r f i c a'
  assume "app_inv p" "incoming_approve_if dbg waiting r f i (ap_api p) = (Some (Some (Ok c)), a')"
    and p': "p' = p\<lparr>ap_handles := Conn c # ap_handles p, ap_given := cn_session c # ap_given p, ap_api := a'\<rparr>"
  then have "ai_commands a' = ai_commands (ap_api p)" "api_up a'"
    by (auto simp: app_inv_def dest!: incoming_approve_if_api)
  then show "app_inv p'" unfolding p' using app_inv_given \<open>app_inv p\<close> by simp
next
  fix dbg waiting r f i a'
  assume "app_inv p" "incoming_approve_if dbg waiting r f i (ap_api p) = (Some None, a')"
    and "p' = p\<lparr>ap_api := a'\<rparr>"
  then show "app_inv p'" by (auto simp: app_inv_def dest!: incoming_approve_if_api)
next
  fix hs1 h hs2 hs a'
  assume inv: "app_inv p" and h: "ap_handles p = hs1 @ h # hs2" and m: "api_method h (ap_api p) hs a'"
    and p': "p' = p\<lparr>ap_handles := hs1 @ hs @ hs2, ap_api := a'\<rparr>"
  obtain sid where sid: "handle_owner h = Some sid" using inv h by (auto simp: app_inv_def)
  then have "passes_on sid (ap_api p) hs a'" using method_passes_on [OF m sid] inv by (simp add: app_inv_def)
  then obtain cs where cs: "sends (ap_api p) cs a'"
    "hs = [] \<and> Api_Close_Session sid \<in> set cs \<or> map handle_owner hs = [Some sid]"
    by (auto simp: passes_on_def)
  then have "list_all (\<lambda>h. handle_owner h \<noteq> None) hs" by (auto simp: list_all_iff)
  moreover have "\<forall>s. Some s \<in> handle_owner ` set (hs1 @ h # hs2)
      \<longrightarrow> Some s \<in> handle_owner ` set (hs1 @ hs @ hs2) \<or> Api_Close_Session s \<in> set (ai_commands a')"
    using cs sid by (auto simp: sends_def)
  ultimately show "app_inv p'"
    using inv h cs(1) unfolding p' app_inv_def by (fastforce simp: sends_def)
next
  fix addr
  assume "app_inv p" and p': "p' = p\<lparr>ap_api := snd (api_connect addr (ap_api p))\<rparr>"
  then show "app_inv p'"
    by (auto simp: app_inv_def api_connect_def new_ticket_def post_command_def api_up_def)
qed simp

lemma app_inv_new: "app_inv application_new"
  by (simp add: app_inv_def application_new_def api_up_def api_state_new_def)

text \<open>C15: An application cannot lose a session. Whatever methods it calls on its handles, with whatever
  answers, and however it drops them, as long as the library is open and the process lives each session it was given
  is either still owned by one of its handles or the manager was told to close it. What ends the process is the
  destructor of a pending stream that the peer has approved: it panics and then aborts (\<open>approved_drop_aborts\<close>).\<close>

theorem no_session_lost:
  assumes "app_step\<^sup>*\<^sup>* application_new p" and "\<not> ap_aborted p" and "sid \<in> set (ap_given p)"
  shows "Api_Close_Session sid \<in> set (ai_commands (ap_api p)) \<or> (\<exists>h\<in>set (ap_handles p). handle_owner h = Some sid)"
proof -
  have "\<not> ap_aborted p \<Longrightarrow> app_inv p" using assms(1)
  proof (induction rule: rtranclp_induct)
    case base
    then show ?case by (simp add: app_inv_new)
  next
    case (step p1 p2)
    then show ?case using app_inv_step app_step_alive by blast
  qed
  then show ?thesis using assms(2,3) by (fastforce simp: app_inv_def)
qed

definition demo_conn :: conn_handle where
  "demo_conn = \<lparr>cn_session = 7, cn_peer = \<lparr>sa_ip = [127, 0, 0, 1], sa_port = 9\<rparr>\<rparr>"

lemma demo_application:
  "app_step\<^sup>*\<^sup>* application_new (application_new\<lparr>ap_handles := [Conn demo_conn], ap_given := [7]\<rparr>)"
proof -
  have "connection_ready (Replied (Ok 7)) (pending_connection_new (cn_peer demo_conn) 0) (ap_api application_new)
      = (Some (Ok demo_conn), Some (ap_api application_new))"
    by (simp add: connection_ready_def pending_connection_new_def drop_pending_connection_def demo_conn_def)
  from app_connected [OF _ this] show ?thesis by (simp add: application_new_def demo_conn_def r_into_rtranclp)
qed

theorem no_session_lost_witness:
  "\<exists>p. app_step\<^sup>*\<^sup>* application_new p \<and> ap_given p = [7] \<and> ap_handles p = []
     \<and> Api_Close_Session 7 \<in> set (ai_commands (ap_api p))"
proof -
  let ?p = "application_new\<lparr>ap_handles := [Conn demo_conn], ap_given := [7]\<rparr>"
  let ?q = "?p\<lparr>ap_handles := [], ap_api := drop_conn demo_conn (ap_api ?p)\<rparr>"
  have "app_step ?p ?q" using app_method [of ?p "[]" "Conn demo_conn" "[]" "[]"] method_conn_drop by (simp add: application_new_def)
  with demo_application have r: "app_step\<^sup>*\<^sup>* application_new ?q" by (rule rtranclp.rtrancl_into_rtrancl)
  from no_session_lost [OF r, of 7] have "Api_Close_Session 7 \<in> set (ai_commands (ap_api ?q))"
    by (simp add: application_new_def)
  then show ?thesis using r by (intro exI [of _ ?q]) simp
qed

end
