(* ===== verification/Api_Faults.thy ===== *)
theory Api_Faults imports Api_Laws Session_Machine begin

text \<open>
  Where the interface does not do what it means to: an approved request is rejected as well, a rejection is
  sent twice, the library is not closed, and cannot be opened again after a failure.
\<close>

section \<open>Approving a request\<close>

text \<open>
  \<open>send_data\<close> answers its caller before it starts the stream: the state in between is the one in which the
  rejection that follows the approval can be handled.
\<close>

definition answered :: "ticket \<Rightarrow> session_id \<Rightarrow> ('k, 's) protocol \<Rightarrow> ('k, 's) protocol" where
  "answered t sid st = emit [Reply_Session t (Ok sid)] st"

lemma send_data_split:
  "\<lbrakk> connection st sid = Some c; is_free (Some c) \<rbrakk>
    \<Longrightarrow> send_data dbg (To_Session sid) b msg t st = send_on_session dbg sid b msg (answered t sid st)"
  by (simp add: send_data_def resolve_target_def answered_def)

lemma connection_emit [simp]: "connection (emit es st) sid = connection st sid"
  by (simp add: connection_def emit_def)

lemma established_emit [simp]: "established_at (emit es st) sid = established_at st sid"
  by (simp add: established_at_def)

lemma require_ack_valid: "assert_opts_valid dbg (opt_construct [RequireAck]) x = Ok x"
proof -
  have "opt_valid (opt_construct [RequireAck])" by code_simp
  then show ?thesis by (simp add: assert_opts_valid_def debug_assert_def)
qed

text \<open>The packet of a rejection.\<close>

definition rejection_packet :: "timestamp \<Rightarrow> session_id \<Rightarrow> bytes \<Rightarrow> track_rejection" where
  "rejection_packet now sid track =
     \<lparr>tj_version = CURRENT_VERSION, tj_opts = opt_set (opt_construct [RequireAck]) RequireAck,
      tj_packet_type = PT_Session, tj_control_type = Session Sess_TrackReject,
      tj_session_id = sid, tj_timestamp = now, tj_payload = track\<rparr>"

lemma reject_when_free:
  assumes "connection st sid = Some (Established e)" and "is_free (Some (Established e))"
    and "length track \<le> MAX_PAYLOAD_LENGTH"
  shows "reject_track_request env sid track st
    = emit [Send (wrap (TrackRejectionPacket (rejection_packet (en_now env) sid track)) (es_address e))] st"
  using assms
  by (simp add: reject_track_request_def established_at_def track_rejection_new_def require_ack_valid
      payload_new_def rejection_packet_def send_packet_def attempt_def)

lemma is_free_stream_to:
  "is_free (Some (Established e)) \<Longrightarrow> cs_stream_to dbg slot b msg (Established e)
     = Ok (Established (e\<lparr>es_state := Session_Streaming
         \<lparr>ss_streaming = Streaming_To \<lparr>to_buffer = b, to_current_batch = 0, to_event = slot\<rparr>,
          ss_stream = msg, ss_fec = []\<rparr>\<rparr>))"
  by (auto simp: is_free_def cs_stream_to_def split: session_states.splits)

lemma send_on_free_session:
  assumes "connection st sid = Some (Established e)" and "is_free (Some (Established e))"
  shows "pr_out (send_on_session dbg sid b msg st) = pr_out st
    \<and> map_option flat_state_of (connection (send_on_session dbg sid b msg st) sid) = Some Flat_StreamingTo"
  using assms
  by (simp add: send_on_session_def is_free_stream_to attempt_def set_connection_def connection_def sending_to_def Let_def)

text \<open>C16: Approving a track request rejects it too. The approval of a request asks the manager to send the
  data and, when it returns with the stream, its destructor asks it to reject the same request. As the manager
  answers before it starts the stream, the rejection can be handled in between: then the peer is sent a
  rejection of the very track that is streamed to it next.\<close>

theorem approval_also_rejects:
  assumes "api_up a" and "rq_connection q = Some c" and "length (rq_track q) \<le> MAX_PAYLOAD_LENGTH"
    and "requested_approve dbg (Replied (Ok (rq_session q))) b q a = (x, a')"
    and "connection st (rq_session q) = Some (Established e)" and "is_free (Some (Established e))"
  shows "\<exists>t s. x = Some (Ok s) \<and> ai_commands a' = ai_commands a
        @ [Api_Send_Data (To_Session (rq_session q)) b stream_message_default t,
           Api_Reject_Track_Request (rq_session q) (rq_track q)]
    \<and> send_data (en_dbg env) (To_Session (rq_session q)) b msg t st
        = send_on_session (en_dbg env) (rq_session q) b msg (answered t (rq_session q) st)
    \<and> (let st' = send_on_session (en_dbg env) (rq_session q) b msg
                   (reject_track_request env (rq_session q) (rq_track q) (answered t (rq_session q) st))
       in pr_out st' = pr_out st @ [Reply_Session t (Ok (rq_session q)),
            Send (wrap (TrackRejectionPacket (rejection_packet (en_now env) (rq_session q) (rq_track q))) (es_address e))]
          \<and> map_option flat_state_of (connection st' (rq_session q)) = Some Flat_StreamingTo)"
proof -
  let ?t = "ai_next a" and ?sid = "rq_session q"
  have s: "x = Some (Ok (stream_new ?sid c (length (rb_buffer b))))"
    "ai_commands a' = ai_commands a @ [Api_Send_Data (To_Session ?sid) b stream_message_default ?t,
       Api_Reject_Track_Request ?sid (rq_track q)]"
    using approve_sends [OF assms(4,2,1)] by (auto simp: sends_def)
  let ?mid = "answered ?t ?sid st"
  have m: "connection ?mid ?sid = Some (Established e)" using assms(5) by (simp add: answered_def)
  have r: "reject_track_request env ?sid (rq_track q) ?mid
      = emit [Send (wrap (TrackRejectionPacket (rejection_packet (en_now env) ?sid (rq_track q))) (es_address e))] ?mid"
    by (rule reject_when_free [OF m assms(6,3)])
  then have "connection (reject_track_request env ?sid (rq_track q) ?mid) ?sid = Some (Established e)"
    using m by simp
  from send_on_free_session [OF this assms(6), of "en_dbg env" b msg] r
    send_data_split [OF assms(5,6), of "en_dbg env" b msg ?t] s
  show ?thesis
    by (intro exI [of _ ?t] exI [of _ "stream_new ?sid c (length (rb_buffer b))"])
      (simp add: Let_def answered_def emit_def)
qed

definition demo_request :: requested_handle where
  "demo_request = requested_new 7 [1, 2] demo_conn"

theorem approval_also_rejects_witness:
  "\<exists>t s a'. requested_approve True (Replied (Ok 7)) (rb_from [5]) demo_request api_state_new = (Some (Ok s), a')
     \<and> ai_commands a' = [Api_Send_Data (To_Session 7) (rb_from [5]) stream_message_default t,
          Api_Reject_Track_Request 7 [1, 2]]"
proof -
  obtain x a' where x: "requested_approve True (Replied (Ok 7)) (rb_from [5]) demo_request api_state_new = (x, a')"
    by (cases "requested_approve True (Replied (Ok 7)) (rb_from [5]) demo_request api_state_new")
  have q: "rq_session demo_request = 7" "rq_connection demo_request = Some demo_conn" "rq_track demo_request = [1, 2]"
    by (simp_all add: demo_request_def requested_new_def)
  have up: "api_up api_state_new" by (simp add: api_up_def api_state_new_def)
  have c: "connection demo_up 7 = Some (Established (case established_new 7 demo_address [65] of Established e \<Rightarrow> e))"
    by (simp add: demo_up_connection established_new_def)
  have f: "is_free (Some (Established (case established_new 7 demo_address [65] of Established e \<Rightarrow> e)))"
    by (simp add: is_free_def established_new_def)
  have "length (rq_track demo_request) \<le> MAX_PAYLOAD_LENGTH" by (simp add: q MAX_PAYLOAD_LENGTH_def)
  from approval_also_rejects [OF up q(2) this _ _ f, of True "rb_from [5]" x a' demo_up "demo_env 4" stream_message_default] x c
  obtain t s where "x = Some (Ok s)" "ai_commands a' = ai_commands api_state_new @
      [Api_Send_Data (To_Session 7) (rb_from [5]) stream_message_default t, Api_Reject_Track_Request 7 [1, 2]]"
    by (auto simp: q)
  then show ?thesis using x by (auto simp: api_state_new_def)
qed

section \<open>Rejecting, closing and opening\<close>

text \<open>An explicit rejection is sent twice, and the second time without the id of the track, since
  the destructor of the request rejects again what the method has taken.\<close>

theorem rejection_sent_twice:
  assumes "api_up a" and "rq_connection q = Some c" and "requested_reject q a = (v, a')"
  shows "v = Ok c \<and> ai_commands a' = ai_commands a
     @ [Api_Reject_Track_Request (rq_session q) (rq_track q), Api_Reject_Track_Request (rq_session q) []]"
  using reject_passes_on [OF assms(3,2,1)] by (simp add: sends_def)

theorem rejection_sent_twice_witness:
  "\<exists>v a'. requested_reject demo_request api_state_new = (v, a')
     \<and> ai_commands a' = [Api_Reject_Track_Request 7 [1, 2], Api_Reject_Track_Request 7 []]"
proof -
  obtain v a' where x: "requested_reject demo_request api_state_new = (v, a')"
    by (cases "requested_reject demo_request api_state_new")
  have "api_up api_state_new" "rq_connection demo_request = Some demo_conn"
    by (simp_all add: api_up_def api_state_new_def demo_request_def requested_new_def)
  from rejection_sent_twice [OF this x] show ?thesis
    using x by (auto simp: demo_request_def requested_new_def api_state_new_def)
qed

text \<open>
  Closing sends nothing, so it returns only if the manager ends by itself; a failure to start leaves the library
  marked as open for good; and an id of exactly 512 bytes passes the check and panics a debug build.
\<close>

lemma close_sends_nothing: "api_close ends a = Some (f, a') \<Longrightarrow> ends \<and> ai_commands a' = ai_commands a"
  by (auto simp: api_close_def split: if_splits)

lemma failed_open_is_final:
  assumes "api_open dbg (Err e) app port False = (Err e, f)" and "e \<noteq> Api_InvalidPort" and "e \<noteq> Api_InvalidAppId"
  shows "fst (api_open dbg started app port f) = Err Api_AlreadyOpen"
  using assms by (auto simp: api_open_def api_inner_new_def split: if_splits res.splits)

lemma app_id_of_512_bytes:
  assumes "list_all (\<lambda>b. b < 128) app" and "length app = 512" and "1024 < port"
  shows "fst (api_open True started app (Some port) f) = Panic"
  using assms by (simp add: api_open_def verify_app_id_def app_id_new_def)

end
