(* ===== verification/Reed_Solomon.thy ===== *)
theory Reed_Solomon imports Fec begin

text \<open>
  The Reed-Solomon strategy of forward error correction
  (\<open>src/src/packet_processor/fec/reed_solomon.rs\<close>), the alternative to the XOR one that a feature of the
  build selects. The encoder and the decoder of the crate \<open>reed_solomon_simd\<close> are parameters, a record of
  their operations; what the properties need of them is stated as hypotheses (\<open>decoder_counts\<close>): a decoder
  does not decode while it has fewer shards than originals, as its documentation says.

  A map of the struct \<open>RS\<close> is a table and an operation one step, as in the theory \<open>Fec\<close>.
\<close>

section \<open>The crate\<close>

text \<open>What adding a shard returns: the code tells one error from all others.\<close>

datatype shard_result = Shard_Added | Shard_Duplicate_Original | Shard_Other_Error

record ('e, 'd) rs_codec =
  rc_encoder_new :: "nat \<Rightarrow> nat \<Rightarrow> nat \<Rightarrow> 'e option"
  rc_encoder_add :: "bytes \<Rightarrow> 'e \<Rightarrow> 'e"
  rc_encode :: "'e \<Rightarrow> bytes list option \<times> 'e"
  rc_decoder_new :: "nat \<Rightarrow> nat \<Rightarrow> nat \<Rightarrow> 'd option"
  rc_add_original :: "nat \<Rightarrow> bytes \<Rightarrow> 'd \<Rightarrow> shard_result \<times> 'd"
  rc_add_recovery :: "nat \<Rightarrow> bytes \<Rightarrow> 'd \<Rightarrow> shard_result \<times> 'd"
  rc_decode :: "'d \<Rightarrow> (nat \<times> bytes) list option \<times> 'd"

section \<open>Batches\<close>

record 'd rs_inbound =
  ri_decoder :: 'd
  ri_batch_size :: u8
  ri_recovery_count :: u8
  ri_received_count :: u8
  ri_mask :: "u128 list"
  ri_created_at :: timestamp
  ri_base :: "byte_position option"
  ri_contiguous :: bool

definition rs_inbound_new ::
  "('e, 'd) rs_codec \<Rightarrow> timestamp \<Rightarrow> fec_packet \<Rightarrow> 'd rs_inbound ures" where
  "rs_inbound_new C now p =
     (case rc_decoder_new C (unat (batch_size (fp_fec_info p))) (unat (recovery_count (fp_fec_info p))) FEC_DATA_SIZE of
        None \<Rightarrow> Panic
      | Some d \<Rightarrow> Ok \<lparr>ri_decoder = d, ri_batch_size = batch_size (fp_fec_info p),
                     ri_recovery_count = recovery_count (fp_fec_info p), ri_received_count = 0,
                     ri_mask = [0, 0], ri_created_at = now, ri_base = None, ri_contiguous = True\<rparr>)"

definition rs_missing :: "'d rs_inbound \<Rightarrow> byte_position list" where
  "rs_missing b =
     (case ri_base b of
        None \<Rightarrow> []
      | Some base \<Rightarrow>
          if \<not> ri_contiguous b then []
          else map (\<lambda>i. base + ucast i * word_of_nat MAX_PAYLOAD_LENGTH)
                 (filter (mask_clear (ri_mask b)) (map word_of_nat [0..<unat (ri_batch_size b)])))"

record 'e rs_outbound =
  ro_encoder :: 'e
  ro_batch_size :: u8
  ro_recovery_count :: u8
  ro_received_count :: u8

definition rs_outbound_new :: "('e, 'd) rs_codec \<Rightarrow> fec_packet \<Rightarrow> 'e rs_outbound ures" where
  "rs_outbound_new C p =
     (case rc_encoder_new C (unat (batch_size (fp_fec_info p))) (unat (recovery_count (fp_fec_info p))) FEC_DATA_SIZE of
        None \<Rightarrow> Panic
      | Some e \<Rightarrow> Ok \<lparr>ro_encoder = e, ro_batch_size = batch_size (fp_fec_info p),
                     ro_recovery_count = recovery_count (fp_fec_info p), ro_received_count = 0\<rparr>)"

definition rs_parity_packet ::
  "bool \<Rightarrow> timestamp \<Rightarrow> fec_packet \<Rightarrow> u8 \<Rightarrow> bytes \<Rightarrow> parity_packet ures" where
  "rs_parity_packet dbg now p i payload =
     and_then (fec_info_new dbg (batch_size (fp_fec_info p)) i (recovery_count (fp_fec_info p))) (\<lambda>info.
       parity_packet_new dbg now (opt_construct []) (fp_batch_id p) info (fp_session_id p) payload)"

section \<open>The strategy\<close>

record ('e, 'd) rs_state =
  rs_inbounds :: "(map_key, 'd rs_inbound) table"
  rs_outbounds :: "(map_key, 'e rs_outbound) table"

definition rs_new :: "('e, 'd) rs_state" where
  "rs_new = \<lparr>rs_inbounds = [], rs_outbounds = []\<rparr>"

definition rs_sent ::
  "('e, 'd) rs_codec \<Rightarrow> bool \<Rightarrow> timestamp \<Rightarrow> fec_packet \<Rightarrow> ('e, 'd) rs_state
     \<Rightarrow> parity_packet list option ures \<times> ('e, 'd) rs_state" where
  "rs_sent C dbg now p st =
     (case (case hm_get (rs_outbounds st) (fec_key p) of Some e \<Rightarrow> Ok e | None \<Rightarrow> rs_outbound_new C p) of
        Ok b \<Rightarrow>
          (let b = b\<lparr>ro_encoder := rc_encoder_add C (fp_data p) (ro_encoder b),
                     ro_received_count := ro_received_count b + 1\<rparr>
           in if ro_received_count b \<ge> ro_batch_size b
              then case rc_encode C (ro_encoder b) of
                     (None, e) \<Rightarrow> (Panic, st\<lparr>rs_outbounds := hm_insert (fec_key p) (b\<lparr>ro_encoder := e\<rparr>) (rs_outbounds st)\<rparr>)
                   | (Some rs, e) \<Rightarrow>
                       (map_res Some (collect_res (map (\<lambda>(i, payload). rs_parity_packet dbg now p (word_of_nat i) payload)
                          (enumerate 0 rs))),
                        st\<lparr>rs_outbounds := hm_remove (fec_key p) (rs_outbounds st)\<rparr>)
              else (Ok None, st\<lparr>rs_outbounds := hm_insert (fec_key p) b (rs_outbounds st)\<rparr>))
      | _ \<Rightarrow> (Panic, st))"

text \<open>A data packet notes where its batch starts and which positions it has, then adds its shard.\<close>

definition rs_note :: "fec_packet \<Rightarrow> 'd rs_inbound \<Rightarrow> 'd rs_inbound" where
  "rs_note p b =
     (let pos = batch_pos (fp_fec_info p);
          pkt_pos = (case int_deserialize (take 4 (fp_data p)) of Ok w \<Rightarrow> w | _ \<Rightarrow> 0);
          base = derived_base pkt_pos (ucast pos);
          b = (case ri_base b of
                 None \<Rightarrow> b\<lparr>ri_base := Some base\<rparr>
               | Some existing \<Rightarrow> if existing \<noteq> base then b\<lparr>ri_contiguous := False\<rparr> else b)
      in b\<lparr>ri_mask := mask_set (ri_mask b) pos\<rparr>)"

definition rs_take :: "('e, 'd) rs_codec \<Rightarrow> fec_packet \<Rightarrow> 'd rs_inbound \<Rightarrow> bool \<times> 'd rs_inbound" where
  "rs_take C p b =
     (let pos = unat (batch_pos (fp_fec_info p)) in
      if fp_is_parity p
      then case rc_add_recovery C pos (fp_data p) (ri_decoder b) of
             (Shard_Duplicate_Original, d) \<Rightarrow> (False, b\<lparr>ri_decoder := d\<rparr>)
           | (_, d) \<Rightarrow> (True, b\<lparr>ri_decoder := d, ri_recovery_count := ri_recovery_count b + 1\<rparr>)
      else let b = rs_note p b
           in case rc_add_original C pos (fp_data p) (ri_decoder b) of
                (Shard_Duplicate_Original, d) \<Rightarrow> (False, b\<lparr>ri_decoder := d\<rparr>)
              | (_, d) \<Rightarrow> (True, b\<lparr>ri_decoder := d, ri_received_count := ri_received_count b + 1\<rparr>))"

definition rs_received ::
  "('e, 'd) rs_codec \<Rightarrow> timestamp \<Rightarrow> fec_packet \<Rightarrow> ('e, 'd) rs_state \<Rightarrow> bool ures \<times> ('e, 'd) rs_state" where
  "rs_received C now p st =
     (case (case hm_get (rs_inbounds st) (fec_key p) of Some e \<Rightarrow> Ok e | None \<Rightarrow> rs_inbound_new C now p) of
        Ok b \<Rightarrow> (let (r, b) = rs_take C p b
                 in (Ok r, st\<lparr>rs_inbounds := hm_insert (fec_key p) b (rs_inbounds st)\<rparr>))
      | _ \<Rightarrow> (Panic, st))"

text \<open>\<open>TryFrom<&[u8]> for RecoverdPacket\<close>, with the whole of the payload area.\<close>

definition rs_recovered_of :: "bytes \<Rightarrow> recovered_packet ures" where
  "rs_recovered_of v =
     (if length v < FEC_DATA_SIZE then Panic
      else map_res (\<lambda>pos. \<lparr>rp_byte_range_start = pos, rp_payload = take MAX_PAYLOAD_LENGTH (drop 4 v)\<rparr>)
             (int_deserialize (take 4 v)))"

definition rs_recover ::
  "('e, 'd) rs_codec \<Rightarrow> batch_id \<Rightarrow> session_id \<Rightarrow> ('e, 'd) rs_state
     \<Rightarrow> recovered_packet list option ures \<times> ('e, 'd) rs_state" where
  "rs_recover C bid sid st =
     (case hm_get (rs_inbounds st) (bid, sid) of
        None \<Rightarrow> (Ok None, st)
      | Some b \<Rightarrow>
          (case fst (rc_decode C (ri_decoder b)) of
             None \<Rightarrow> Ok None
           | Some shards \<Rightarrow> map_res Some (collect_res (map (\<lambda>(i, v). rs_recovered_of v) shards)),
           st\<lparr>rs_inbounds := hm_remove (bid, sid) (rs_inbounds st)\<rparr>))"

definition rs_prune ::
  "timestamp \<Rightarrow> u64 \<Rightarrow> ('e, 'd) rs_state \<Rightarrow> (session_id \<times> batch_id \<times> byte_position list) list \<times> ('e, 'd) rs_state" where
  "rs_prune now ttl st =
     (let expired = filter (\<lambda>(k, b). been_longer_than now (ri_created_at b) ttl) (rs_inbounds st)
      in (map (\<lambda>(k, b). (snd k, fst k, rs_missing b)) expired,
          st\<lparr>rs_inbounds := fold (\<lambda>(k, b). hm_remove k) expired (rs_inbounds st)\<rparr>))"

section \<open>Nothing is recovered\<close>

text \<open>
  What the crate documents of a decoder: it counts its shards, knows how many originals it was made for,
  refuses no first shard as a duplicate, and does not decode with fewer shards than originals.
\<close>

definition decoder_counts :: "('e, 'd) rs_codec \<Rightarrow> ('d \<Rightarrow> nat) \<Rightarrow> ('d \<Rightarrow> nat) \<Rightarrow> bool" where
  "decoder_counts C shards needed \<longleftrightarrow>
     (\<forall>n m l d. rc_decoder_new C n m l = Some d \<longrightarrow> shards d = 0 \<and> needed d = n)
   \<and> (\<forall>i v d. shards (snd (rc_add_original C i v d)) \<le> Suc (shards d)
            \<and> needed (snd (rc_add_original C i v d)) = needed d
            \<and> (shards d = 0 \<longrightarrow> fst (rc_add_original C i v d) \<noteq> Shard_Duplicate_Original))
   \<and> (\<forall>i v d. shards (snd (rc_add_recovery C i v d)) \<le> Suc (shards d)
            \<and> needed (snd (rc_add_recovery C i v d)) = needed d
            \<and> fst (rc_add_recovery C i v d) \<noteq> Shard_Duplicate_Original)
   \<and> (\<forall>d. shards d < needed d \<longrightarrow> fst (rc_decode C d) = None)"

text \<open>
  How the manager handles a packet of a batch: when the strategy says that the batch is ready, it asks
  for the recovered packets at once.
\<close>

definition rs_handle ::
  "('e, 'd) rs_codec \<Rightarrow> timestamp \<Rightarrow> fec_packet \<Rightarrow> ('e, 'd) rs_state
     \<Rightarrow> recovered_packet list option ures \<times> ('e, 'd) rs_state" where
  "rs_handle C now p st =
     (case rs_received C now p st of
        (Ok True, st) \<Rightarrow> rs_recover C (fp_batch_id p) (fp_session_id p) st
      | (Ok False, st) \<Rightarrow> (Ok None, st)
      | (_, st) \<Rightarrow> (Panic, st))"

fun rs_handle_all ::
  "('e, 'd) rs_codec \<Rightarrow> (timestamp \<times> fec_packet) list \<Rightarrow> ('e, 'd) rs_state
     \<Rightarrow> recovered_packet list option ures list \<times> ('e, 'd) rs_state" where
  "rs_handle_all C [] st = ([], st)"
| "rs_handle_all C ((now, p) # ps) st =
     (let (r, st) = rs_handle C now p st; (rs, st) = rs_handle_all C ps st in (r # rs, st))"

lemma hm_remove_insert [simp]: "hm_get t k = None \<Longrightarrow> hm_remove k (hm_insert k v t) = t"
  by (induction t) (auto simp: hm_remove_def hm_insert_def hm_get_def AList.delete_eq split: if_splits)

lemma rs_take_fresh:
  assumes "decoder_counts C shards needed" and "rs_inbound_new C now p = Ok b" and "2 \<le> unat (batch_size (fp_fec_info p))"
  shows "\<exists>b'. rs_take C p b = (True, b') \<and> fst (rc_decode C (ri_decoder b')) = None"
proof -
  note law = assms(1) [unfolded decoder_counts_def]
  have d: "shards (ri_decoder b) = 0" "needed (ri_decoder b) = unat (batch_size (fp_fec_info p))"
    using law assms(2) by (auto simp: rs_inbound_new_def split: option.splits)
  have n: "ri_decoder (rs_note p b) = ri_decoder b" by (simp add: rs_note_def Let_def split: option.split)
  have none: "fst (rc_decode C d) = None" if "shards d \<le> 1" "needed d = needed (ri_decoder b)" for d
  proof -
    have "shards d < needed d" using that d(2) assms(3) by simp
    then show ?thesis using law by blast
  qed
  show ?thesis
  proof (cases "fp_is_parity p")
    case True
    let ?r = "rc_add_recovery C (unat (batch_pos (fp_fec_info p))) (fp_data p) (ri_decoder b)"
    have "fst ?r \<noteq> Shard_Duplicate_Original" "shards (snd ?r) \<le> 1" "needed (snd ?r) = needed (ri_decoder b)"
      using law d(1) by (metis One_nat_def)+
    then show ?thesis using True none [of "snd ?r"]
      by (cases ?r; cases "fst ?r") (auto simp: rs_take_def Let_def)
  next
    case False
    let ?r = "rc_add_original C (unat (batch_pos (fp_fec_info p))) (fp_data p) (ri_decoder b)"
    have "fst ?r \<noteq> Shard_Duplicate_Original" "shards (snd ?r) \<le> 1" "needed (snd ?r) = needed (ri_decoder b)"
      using law d(1) by (metis One_nat_def)+
    then show ?thesis using False none [of "snd ?r"] n
      by (cases ?r; cases "fst ?r") (auto simp: rs_take_def Let_def)
  qed
qed

lemma rs_handle_fresh:
  assumes "decoder_counts C shards needed" and "2 \<le> unat (batch_size (fp_fec_info p))" and "rs_inbounds st = []"
  shows "(fst (rs_handle C now p st) = Ok None \<or> fst (rs_handle C now p st) = Panic)
    \<and> rs_inbounds (snd (rs_handle C now p st)) = []"
proof (cases "rs_inbound_new C now p")
  case (Ok b)
  obtain b' where "rs_take C p b = (True, b')" "fst (rc_decode C (ri_decoder b')) = None"
    using rs_take_fresh [OF assms(1) Ok assms(2)] by blast
  then show ?thesis using Ok assms(3)
    by (simp add: rs_handle_def rs_received_def rs_recover_def fec_key_def Let_def)
qed (simp_all add: rs_handle_def rs_received_def assms(3))

text \<open>C32: With the Reed-Solomon strategy no packet of a batch of two or more is ever recovered, when packets
  are handled one after another. The strategy calls a batch ready for
  recovery at its first packet, the manager then takes it out of the table and fails to decode it, and the next
  packet starts a batch of its own: whatever packets of batches of two or more arrive one after another, nothing is
  recovered and nothing is kept.\<close>

theorem rs_never_recovers:
  assumes "decoder_counts C shards needed" and "rs_inbounds st = []"
    and "\<forall>(now, p)\<in>set ps. 2 \<le> unat (batch_size (fp_fec_info p))"
  shows "set (fst (rs_handle_all C ps st)) \<subseteq> {Ok None, Panic} \<and> rs_inbounds (snd (rs_handle_all C ps st)) = []"
  using assms(2,3)
proof (induction ps arbitrary: st)
  case (Cons x ps)
  obtain now p where x: "x = (now, p)" by (cases x)
  obtain r st1 where h: "rs_handle C now p st = (r, st1)" by (cases "rs_handle C now p st")
  then have "(r = Ok None \<or> r = Panic) \<and> rs_inbounds st1 = []"
    using rs_handle_fresh [OF assms(1) _ Cons.prems(1), of p now] Cons.prems(2) x by simp
  then show ?case using Cons.IH [of st1] Cons.prems(2) x h by (auto simp: Let_def split: prod.splits)
qed simp

text \<open>A codec that only counts, and two packets of one batch.\<close>

definition counting_codec :: "(unit, nat \<times> nat) rs_codec" where
  "counting_codec =
     \<lparr>rc_encoder_new = (\<lambda>n m l. Some ()), rc_encoder_add = (\<lambda>v e. e), rc_encode = (\<lambda>e. (Some [], e)),
      rc_decoder_new = (\<lambda>n m l. Some (0, n)),
      rc_add_original = (\<lambda>i v (k, n). (Shard_Added, (Suc k, n))),
      rc_add_recovery = (\<lambda>i v (k, n). (Shard_Added, (Suc k, n))),
      rc_decode = (\<lambda>(k, n). (if k < n then None else Some [], (k, n)))\<rparr>"

definition demo_shard :: "u8 \<Rightarrow> fec_packet" where
  "demo_shard i = \<lparr>fp_is_parity = False, fp_session_id = 7, fp_batch_id = 1,
     fp_fec_info = \<lparr>batch_size = 2, batch_pos = i, recovery_count = 1\<rparr>, fp_data = fec_data_zero\<rparr>"

theorem rs_never_recovers_witness:
  "decoder_counts counting_codec fst snd
   \<and> set (fst (rs_handle_all counting_codec [(0, demo_shard 0), (0, demo_shard 1)] rs_new)) \<subseteq> {Ok None, Panic}"
proof -
  have l: "decoder_counts counting_codec fst snd" by (auto simp: decoder_counts_def counting_codec_def)
  have "rs_inbounds (rs_new :: (unit, nat \<times> nat) rs_state) = []" by (simp add: rs_new_def)
  from rs_never_recovers [OF l this, of "[(0, demo_shard 0), (0, demo_shard 1)]"] l show ?thesis
    by (simp add: demo_shard_def)
qed

end
