(* ===== verification/Stream_Repair.thy ===== *)
theory Stream_Repair imports Stream_Transfer begin

text \<open>
  A stream that loses a datagram, with the error correction of both hosts: the sender's packet processor makes a parity
  datagram of a batch, and the receiver's manager recovers the missing chunk from it and from the other chunks. The
  stream is one batch (at most 28 chunks), and the datagrams arrive in any order.
\<close>

section \<open>The packets of a batch\<close>

lemma collect_res_Ok_iff: "collect_res rs = Ok ws \<longleftrightarrow> rs = map Ok ws"
  by (induction rs arbitrary: ws) (auto simp: and_then_Ok_iff map_res_Ok_iff Cons_eq_map_conv)

lemma batch_packets:
  assumes s: "send_data_packets dbg now sid addr batch cs = Ok ws" and n: "length cs < 255"
    and pl: "\<forall>c\<in>set cs. length (snd c) \<le> MAX_PAYLOAD_LENGTH"
  obtains ps where "ws = map (\<lambda>p. wrap (DataPacket p) addr) ps" "one_batch batch sid ps" "length ps = length cs"
proof -
  let ?info = "\<lambda>i. \<lparr>batch_size = word_of_nat (length cs), batch_pos = word_of_nat i,
      recovery_count = min RECOVERY_COUNT (word_of_nat (length cs))\<rparr>"
  let ?p = "\<lambda>i. data_packet_new dbg now (opt_construct []) batch (?info i) sid (fst (cs ! i)) (snd (cs ! i))"
  have eq: "map (\<lambda>(i, pos, payload). map_res (\<lambda>p. wrap (DataPacket p) addr)
      (data_packet_new dbg now (opt_construct []) batch (?info i) sid pos payload)) (zip [0..<length cs] cs) = map Ok ws"
    using s by (simp add: send_data_packets_def collect_res_Ok_iff Let_def)
  have len: "length ws = length cs" using arg_cong [OF eq, of length] by simp
  have at: "map_res (\<lambda>p. wrap (DataPacket p) addr) (?p i) = Ok (ws ! i)" if "i < length cs" for i
    using arg_cong [OF eq, of "\<lambda>l. l ! i"] that len by (simp add: split_beta)
  have "\<forall>i<length cs. \<exists>p. ?p i = Ok p \<and> ws ! i = wrap (DataPacket p) addr"
    using at by (auto simp: map_res_Ok_iff)
  then obtain f where f: "\<forall>i<length cs. ?p i = Ok (f i) \<and> ws ! i = wrap (DataPacket (f i)) addr" by metis
  define ps where "ps = map f [0..<length cs]"
  have fi: "da_batch_id (f i) = batch \<and> da_session_id (f i) = sid \<and> da_fec_info (f i) = ?info i
      \<and> da_payload (f i) = snd (cs ! i)" if "i < length cs" for i
  proof -
    have "?p i = Ok (f i)" using f that by blast
    then show ?thesis
      by (auto simp: data_packet_new_def and_then_Ok_iff map_res_Ok_iff assert_opts_valid_def debug_assert_def
          payload_new_def split: if_splits)
  qed
  have "one_batch batch sid ps"
  proof -
    have "inj_on (\<lambda>i. word_of_nat i :: u8) {0..<length cs}"
    proof (rule inj_onI)
      fix i j assume "i \<in> {0..<length cs}" "j \<in> {0..<length cs}" "(word_of_nat i :: u8) = word_of_nat j"
      then have "unat (word_of_nat i :: u8) = unat (word_of_nat j :: u8)" "i < 256" "j < 256" using n by auto
      then show "i = j" by (simp add: unat_of_nat take_bit_eq_mod)
    qed
    then have "distinct (map (\<lambda>i. word_of_nat i :: u8) [0..<length cs])" by (simp add: distinct_map)
    moreover have "map (\<lambda>p. batch_pos (da_fec_info p)) ps = map (\<lambda>i. word_of_nat i) [0..<length cs]"
      using fi by (simp add: ps_def)
    ultimately have d: "distinct (map (\<lambda>p. batch_pos (da_fec_info p)) ps)" by simp
    have l: "length ps = length cs" by (simp add: ps_def)
    have "da_batch_id p = batch \<and> da_session_id p = sid \<and> batch_size (da_fec_info p) = word_of_nat (length ps)
        \<and> length (da_payload p) \<le> MAX_PAYLOAD_LENGTH" if p: "p \<in> set ps" for p
    proof -
      obtain i where i: "i < length cs" "p = f i" using p by (auto simp: ps_def)
      show ?thesis using fi [OF i(1)] pl i by (simp add: l)
    qed
    then show ?thesis unfolding one_batch_def using d l n by simp
  qed
  moreover have "ws = map (\<lambda>p. wrap (DataPacket p) addr) ps"
  proof (rule nth_equalityI)
    fix i assume "i < length ws"
    then have i: "i < length cs" by (simp add: len)
    then have "ws ! i = wrap (DataPacket (f i)) addr" using f by blast
    then show "ws ! i = map (\<lambda>p. wrap (DataPacket p) addr) ps ! i" using i by (simp add: ps_def)
  qed (simp add: len ps_def)
  moreover have "length ps = length cs" by (simp add: ps_def)
  ultimately show thesis using that by blast
qed

text \<open>The packets of one tick of a sender at the start of a source of one batch.\<close>

lemma tick_batch:
  assumes s: "sending src 0 1 s" and n: "0 < chunk_count src" "chunk_count src \<le> 28"
    and t: "stream_ticks dbg now sid addr 1 [] s = (Ok ws, extra, s')"
  obtains ps bid where "ws = map (\<lambda>p. wrap (DataPacket p) addr) ps" "one_batch bid sid ps"
    "length ps = chunk_count src" "\<forall>j<chunk_count src. carries src sid j (ps ! j)" "\<forall>p\<in>set ps. data_sent src sid p"
proof -
  from ticks_fresh [OF s, of 1 dbg now sid addr] have d: "map Repair.data_of ws = map Some (rb_drain (rb_from src))"
    using n t by (auto simp: rb_drain_chunks)
  note packets = sender_packets [OF t d]
  have len: "length ws = chunk_count src" using d by (metis length_map rb_drain_chunks length_upt diff_zero)
  obtain v xs1 s1 where sent: "stream_send dbg now sid addr PACKET_COUNT_PER_BATCH [] s = (Ok (ws, v), xs1, s1)"
    using t by (auto simp: map_res_Ok_iff split: prod.splits res.splits)
  have "ws \<noteq> []" using len n by auto
  then obtain w where "w \<in> set ws" by (cases ws) auto
  then obtain cs xs2 s2 batch where c: "stream_choose dbg PACKET_COUNT_PER_BATCH [] s = (Ok (Some cs), xs2, s2)"
    and b: "send_data_packets dbg now sid addr batch cs = Ok ws"
    using stream_send_sent [OF sent] by blast
  have "min (0 + 28) (chunk_count src) = chunk_count src" using n(2) by simp
  then obtain g where "get_chunks 28 s = (Some (map (chunk_of src) [0..<chunk_count src]), g)"
    using get_chunks_sending [OF s, of 28] by fastforce
  then have "stream_choose dbg 28 [] s = (Ok (Some (map (chunk_of src) [0..<chunk_count src])), [], g)"
    by (simp add: stream_choose_def)
  then have cs: "cs = map (chunk_of src) [0..<chunk_count src]" using c by (simp add: PACKET_COUNT_PER_BATCH_def)
  then have small: "length cs < 255" "\<forall>c\<in>set cs. length (snd c) \<le> MAX_PAYLOAD_LENGTH"
    using n by (auto simp: chunk_of_def)
  obtain ps where ps: "ws = map (\<lambda>p. wrap (DataPacket p) addr) ps" "one_batch batch sid ps" "length ps = length cs"
    by (rule batch_packets [OF b small])
  have at: "Repair.data_of (ws ! j) = Some (chunk_of src j)" if "j < chunk_count src" for j
    using d that len by (simp add: rb_drain_chunks list_eq_iff_nth_eq)
  have "carries src sid j (ps ! j)" if j: "j < chunk_count src" for j
  proof -
    have "pw_packet (ws ! j) = DataPacket (ps ! j)" using ps cs j by (simp add: wrap_def)
    then show ?thesis
      using at [OF j] stream_ticks_made [OF t, of "ws ! j"] j len
      by (auto simp: made_for_def carries_def Repair.data_of_def)
  qed
  moreover have "data_sent src sid p" if "p \<in> set ps" for p
  proof -
    have "wrap (DataPacket p) addr \<in> set ws" using that ps(1) by auto
    from bspec [OF packets(1) this] show ?thesis by (auto simp: wrap_def)
  qed
  ultimately show thesis using that ps cs by simp
qed

section \<open>The sender's datagrams\<close>

text \<open>
  The tasks of the error correction that handling a packet starts, and the datagrams of the parity packets they
  make; a task runs before the next packet is handled.
\<close>

fun fec_datagrams ::
  "bool \<Rightarrow> timestamp \<Rightarrow> 'k aead \<Rightarrow> address \<Rightarrow> outbound_effect list \<Rightarrow> 'k enc_table \<Rightarrow> xor_state
     \<Rightarrow> bytes list \<times> 'k enc_table \<times> xor_state" where
  "fec_datagrams dbg now A addr [] t fs = ([], t, fs)"
| "fec_datagrams dbg now A addr (DispatchFec p # es) t fs =
     (let (r, t, fs) = handle_fec dbg now A t fs p addr;
          (ds, t, fs) = fec_datagrams dbg now A addr es t fs
      in (case r of Ok out \<Rightarrow> List.map_filter (\<lambda>r. case r of Ok pp \<Rightarrow> Some (pp_data pp) | _ \<Rightarrow> None) out @ ds | _ \<Rightarrow> ds,
          t, fs))"
| "fec_datagrams dbg now A addr (_ # es) t fs = fec_datagrams dbg now A addr es t fs"

fun send_with_parity ::
  "bool \<Rightarrow> timestamp \<Rightarrow> 'k aead \<Rightarrow> 'k enc_table \<Rightarrow> xor_state \<Rightarrow> packet_wrapper list \<Rightarrow> bytes list" where
  "send_with_parity dbg now A t fs [] = []"
| "send_with_parity dbg now A t fs (w # ws) =
     (case outbound_handle A t (pw_packet w) (pw_addr w) of
        (Ok es, t) \<Rightarrow>
          (let (ds, t, fs) = fec_datagrams dbg now A (pw_addr w) es t fs
           in datagrams_of es @ ds @ send_with_parity dbg now A t fs ws)
      | (_, t) \<Rightarrow> send_with_parity dbg now A t fs ws)"

text \<open>A datagram that a host with the keys \<open>t\<close> takes as the packet \<open>q\<close>, whatever it has seen before.\<close>

definition taken_packet :: "'k aead \<Rightarrow> 'k enc_table \<Rightarrow> bytes \<Rightarrow> packet \<Rightarrow> bool" where
  "taken_packet A t d q \<longleftrightarrow> (\<forall>dbg xxh now a w.
     fst (inbound_handle dbg A xxh now t d a w) = Ok (Some (UpPacket (wrap q a))))"

lemma taken_packet_data: "taken_packet A t d (DataPacket p) \<longleftrightarrow> taken_as A t d p"
  by (simp add: taken_packet_def taken_as_def)

lemma taken_packet_unique: "\<lbrakk> taken_packet A t d p; taken_packet A t d q \<rbrakk> \<Longrightarrow> p = q"
  by (auto simp: taken_packet_def wrap_def)

lemma process_encrypted_keeps_keys:
  "encryption_get_cipher sid' (snd (process_encrypted A sid t fs pl mk)) = encryption_get_cipher sid' t"
  by (auto simp: process_encrypted_def split: res.splits prod.splits) (metis encrypt_keeps_keys snd_conv)

lemma parity_received:
  assumes A: "aead_correct A" "aead_total A" and k: "shared_key t tr (pa_session_id q)"
    and q: "pa_version q \<noteq> 0" "pa_packet_type q = PT_Parity" "pa_payload q \<noteq> []" "length (pa_payload q) \<le> 1374"
  obtains d where "fst (handle_parity A t q addr) = Ok (processed addr PT_Parity 1 d)"
    "taken_packet A tr d (ParityPacket q)"
proof -
  let ?aad = "concat (butlast (parity_packet_encs q))"
  have len: "length ?aad \<le> AEAD_MAX" "length (pa_payload q) \<le> AEAD_MAX"
    using q(4) by (auto intro!: AEAD_MAX_less simp: parity_packet_encs_def packet)
  obtain ct ts' where e: "process_encrypted A (pa_session_id q) t (parity_packet_fields q) (pa_payload q)
      (\<lambda>pl. parity_packet_fields (q\<lparr>pa_payload := pl\<rparr>)) = (serialize_packet (parity_packet_fields (q\<lparr>pa_payload := ct\<rparr>)), ts')"
    and d: "decrypt A (pa_session_id q) tr ?aad ct = Ok (pa_payload q)"
    using process_encrypted_ok [OF A k parity_headers len(1) q(3) len(2)] by metis
  let ?c = "q\<lparr>pa_payload := ct\<rparr>"
  let ?data = "concat (parity_packet_encs ?c)"
  have s: "serialize_packet (parity_packet_fields ?c) = Ok ?data"
    by (rule serialize_packet_concat) (simp add: parity_packet_fields_def parity_packet_encs_def packet)
  have de: "parity_packet_deserialize ?data = Ok ?c"
    by (rule parity_packet_w.de_enc) (simp add: parity_packet_valid_def)
  have "headers (parity_packet_fields ?c) = Ok ?aad"
    by (simp add: parity_headers parity_packet_encs_def)
  then have dec: "decrypted A (pa_session_id q) tr (parity_packet_fields ?c) ct = Ok (pa_payload q)"
    using d by (simp add: decrypted_def)
  obtain mid sid where lay: "layout ?data (pa_version q) PT_Parity mid sid"
    using q layout_any [of "int_bytes (pa_batch_id q) @ fec_info_bytes (pa_fec_info q) @ int_bytes (pa_session_id q) @ int_bytes (pa_timestamp q) @ ct"
        "pa_version q" "pa_opts q" PT_Parity]
    by (auto simp: parity_packet_encs_def packet)
  have "deserialize_and_decrypt dbg A xxh now tr PT_Parity ?data w = (Ok (ParityPacket q), w)" for dbg xxh now w
    using q by (simp add: deserialize_layout [OF lay] de dec)
  then have "taken_packet A tr ?data (ParityPacket q)"
    using q(1) by (simp add: taken_packet_def inbound_layout [OF lay])
  moreover have "fst (handle_parity A t q addr) = Ok (processed addr PT_Parity 1 ?data)"
    by (simp add: handle_parity_def e s)
  ultimately show thesis using that by blast
qed

lemma shared_key_outbound:
  assumes "shared_key t tr sid"
  shows "shared_key (snd (outbound_handle A t (DataPacket p) addr)) tr sid"
  using assms outbound_data_keeps_keys [of sid A t p addr] by (simp add: shared_key_def del: outbound_handle.simps)

lemma shared_key_parity: "shared_key t tr sid \<Longrightarrow> shared_key (snd (handle_parity A t q addr)) tr sid"
  by (simp add: shared_key_def handle_parity_def split_beta process_encrypted_keeps_keys)

lemma parity_of_fields:
  assumes "one_batch bid sid ps"
  shows "pa_version (parity_of dbg now bid sid ps) \<noteq> 0" "pa_packet_type (parity_of dbg now bid sid ps) = PT_Parity"
    "pa_session_id (parity_of dbg now bid sid ps) = sid"
    "length (pa_payload (parity_of dbg now bid sid ps)) = 1374"
proof -
  have "is_block (foldl data_xor fec_data_zero (map (block_of dbg) ps))"
    using assms by (intro blocks.foldl_block) (auto simp: blocks.zero_block one_batch_def)
  then show "length (pa_payload (parity_of dbg now bid sid ps)) = 1374"
    by (simp add: parity_of_def FEC_DATA_SIZE_eq)
qed (simp_all add: parity_of_def)

text \<open>The datagrams of a batch: those of its packets, and last that of its parity packet.\<close>

lemma send_with_parity_taken:
  assumes A: "aead_correct A" "aead_total A"
  shows "\<lbrakk> hm_get (xs_outbound fs) (bid, sid) =
      (if pre = [] then None else Some \<lparr>ob_product = foldl data_xor fec_data_zero (map (block_of dbg) pre),
         ob_batch_size = length (pre @ ps), ob_current_size = length pre\<rparr>);
      one_batch bid sid (pre @ ps); ps \<noteq> []; \<forall>p\<in>set ps. data_sent src sid p; shared_key t tr sid \<rbrakk>
    \<Longrightarrow> list_all2 (taken_packet A tr) (send_with_parity dbg now A t fs (map (\<lambda>p. wrap (DataPacket p) addr) ps))
      (map DataPacket ps @ [ParityPacket (parity_of dbg now bid sid (pre @ ps))])"
proof (induction ps arbitrary: pre t fs)
  case (Cons p ps)
  let ?o = "outbound_handle A t (DataPacket p) addr"
  have p: "data_sent src sid p" using Cons.prems(4) by simp
  obtain d where d: "?o = (Ok [DispatchFec p, ToTransport (processed addr PT_Data 1 d)], snd ?o)"
    and taken: "taken_as A tr d p"
    by (rule data_received [OF A p Cons.prems(5)])
  obtain t1 where t1: "snd ?o = t1" by blast
  then have o: "?o = (Ok [DispatchFec p, ToTransport (processed addr PT_Data 1 d)], t1)" using d by simp
  have k1: "shared_key t1 tr sid" using shared_key_outbound [OF Cons.prems(5)] t1 by metis
  have b: "length (da_payload p) \<le> MAX_PAYLOAD_LENGTH" "da_batch_id p = bid" "da_session_id p = sid"
    "unat (batch_size (da_fec_info p)) = length (pre @ p # ps)"
    using Cons.prems(2) by (auto simp: one_batch_def unat_of_nat simp del: of_nat_Suc of_nat_add)
  show ?case
  proof (cases "ps = []")
    case True
    then have last: "one_batch bid sid (pre @ [p])" using Cons.prems(2) by simp
    obtain fs1 where x: "xor_sent dbg now (fec_block dbg p) fs = (Ok (Some [parity_of dbg now bid sid (pre @ [p])]), fs1)"
      using outbound_last(1) [OF _ last refl, of fs dbg now] Cons.prems(1) True by (metis prod.collapse append_Cons append_Nil)
    note q = parity_of_fields [OF last, of dbg now]
    have ne: "pa_payload (parity_of dbg now bid sid (pre @ [p])) \<noteq> []" using q(4) by auto
    have k2: "shared_key t1 tr (pa_session_id (parity_of dbg now bid sid (pre @ [p])))" using k1 q(3) by simp
    obtain pd where pd: "fst (handle_parity A t1 (parity_of dbg now bid sid (pre @ [p])) addr) = Ok (processed addr PT_Parity 1 pd)"
      "taken_packet A tr pd (ParityPacket (parity_of dbg now bid sid (pre @ [p])))"
      by (rule parity_received [OF A k2 q(1,2) ne, of addr]) (simp_all add: q(4))
    have "fec_datagrams dbg now A addr [DispatchFec p, ToTransport (processed addr PT_Data 1 d)] t1 fs
        = ([pd], snd (handle_parity A t1 (parity_of dbg now bid sid (pre @ [p])) addr), fs1)"
      using pd(1) by (simp add: handle_fec_def fec_of_data_block [OF b(1)] x split_beta processed_def List.map_filter_def)
    then show ?thesis using o taken pd(2) True
      by (simp add: wrap_def processed_def taken_packet_data del: outbound_handle.simps)
  next
    case False
    let ?fs = "snd (xor_sent dbg now (fec_block dbg p) fs)"
    have lt: "length pre + 1 < length (pre @ p # ps)" using False by (cases ps) auto
    have x: "fst (xor_sent dbg now (fec_block dbg p) fs) = Ok None"
      "hm_get (xs_outbound ?fs) (bid, sid) = Some \<lparr>ob_product = foldl data_xor fec_data_zero (map (block_of dbg) (pre @ [p])),
         ob_batch_size = length (pre @ p # ps), ob_current_size = length (pre @ [p])\<rparr>"
      using outbound_step [OF Cons.prems(1) b(2-4) lt, of now] by simp_all
    have f: "fec_datagrams dbg now A addr [DispatchFec p, ToTransport (processed addr PT_Data 1 d)] t1 fs = ([], t1, ?fs)"
      using x(1) by (simp add: handle_fec_def fec_of_data_block [OF b(1)] split_beta List.map_filter_def)
    have "list_all2 (taken_packet A tr) (send_with_parity dbg now A t1 ?fs (map (\<lambda>p. wrap (DataPacket p) addr) ps))
        (map DataPacket ps @ [ParityPacket (parity_of dbg now bid sid ((pre @ [p]) @ ps))])"
      using Cons.prems x(2) False k1 by (intro Cons.IH) simp_all
    then show ?thesis using o f taken
      by (simp add: wrap_def processed_def taken_packet_data del: outbound_handle.simps)
  qed
qed simp

section \<open>The receiver\<close>

text \<open>
  The receiving session has the chunks \<open>ks\<close> of \<open>mix\<close>, and its batch holds the packets \<open>L\<close>. The time a new batch is
  stamped with does not matter.
\<close>

definition holding ::
  "batch_id \<Rightarrow> session_id \<Rightarrow> u8 \<Rightarrow> bytes \<Rightarrow> fec_packet list \<Rightarrow> nat set \<Rightarrow> ('k, 's) protocol \<Rightarrow> bool" where
  "holding bid sid n mix L ks st \<longleftrightarrow>
     (\<exists>c. connection st sid = Some c \<and> receives mix ks c) \<and> batch_holds n L (entry_of 0 n (bid, sid) (pr_fec st))"

lemma holds_any_time: "batch_holds n L (entry_of now n k fs) \<longleftrightarrow> batch_holds n L (entry_of 0 n k fs)"
  by (simp add: entry_of_def batch_holds_def inbound_new_def split: option.splits)

text \<open>Whether a batch that holds \<open>L\<close> is ready: all data packets but one, and a parity packet.\<close>

definition batch_full :: "u8 \<Rightarrow> fec_packet list \<Rightarrow> bool" where
  "batch_full n L \<longleftrightarrow> (word_of_nat (length (Fec_Recovery.data_of L)) :: u8) = n - 1 \<and> filter fp_is_parity L \<noteq> []"

lemma received_holds:
  assumes b: "batch_holds n L (entry_of 0 n (bid, sid) fs)" and n: "n \<noteq> 0"
    and p: "fec_key p = (bid, sid)" "batch_size (fp_fec_info p) = n"
    and new: "\<not> fp_is_parity p \<longrightarrow> fp_pos p \<notin> fp_pos ` set (Fec_Recovery.data_of L)
      \<and> length (Fec_Recovery.data_of L) < unat n"
  shows "fst (xor_received dbg now p fs) = Ok (batch_full n (L @ [p]))"
    and "batch_holds n (L @ [p]) (entry_of 0 n (bid, sid) (snd (xor_received dbg now p fs)))"
proof -
  let ?b = "entry_of now n (bid, sid) fs"
  let ?b' = "if fp_is_parity p then snd (inbound_parity (fp_data p) ?b) else snd (inbound_add p ?b)"
  have b: "batch_holds n L ?b" using b by (simp add: holds_any_time [of n L now])
  have b': "batch_holds n (L @ [p]) ?b'"
    using inbound_parity_holds [OF b, of p] inbound_add_holds [OF b, of p] new by simp
  have "hm_get (xs_inbound (snd (xor_received dbg now p fs))) (bid, sid) = Some ?b'"
    using p by (intro receive_step)
  then show "batch_holds n (L @ [p]) (entry_of 0 n (bid, sid) (snd (xor_received dbg now p fs)))"
    using b' by (simp add: entry_of_def)
  have "fst (xor_received dbg now p fs) = (if dbg \<and> ib_batch_size ?b' = 0 then Panic
      else Ok (ib_data_received ?b' = ib_batch_size ?b' - 1 \<and> ib_parity ?b' \<noteq> None))"
    using p by (auto simp: xor_received_def entry_of_def Let_def cong: option.case_cong)
  moreover have "ib_batch_size ?b' = n"
    "ib_data_received ?b' = word_of_nat (length (Fec_Recovery.data_of (L @ [p])))"
    "ib_parity ?b' \<noteq> None \<longleftrightarrow> filter fp_is_parity (L @ [p]) \<noteq> []"
    using b' unfolding batch_holds_def by (auto split: list.splits)
  ultimately show "fst (xor_received dbg now p fs) = Ok (batch_full n (L @ [p]))"
    using n by (simp add: batch_full_def)
qed

lemma ask_ranges_Ok: "\<exists>rs sf' fec'. ask_ranges dbg now trigger sf fec = (Ok rs, sf', fec')"
proof -
  have "\<exists>rs. coalesce_byte_positions dbg ps = Ok rs" for ps
    by (simp add: coalesce_byte_positions_def byte_range_new_def MPL_u16 collect_res_all_Ok)
  then show ?thesis
    by (simp add: ask_ranges_def finalize_sweep_pick_def score_policy_pick_def split_beta Let_def)
qed

lemma data_held:
  assumes c: "receives mix ks c" "ks \<subseteq> {..<chunk_count mix}"
    and len: "length mix + MAX_PAYLOAD_LENGTH < 2 ^ 32" "length mix mod MAX_PAYLOAD_LENGTH \<noteq> 0"
    and p: "fits_chunk mix sid ks k p" "k \<notin> ks" "\<not> completes mix ks k" "length (da_payload p) \<le> MAX_PAYLOAD_LENGTH"
    and b: "batch_holds n L (entry_of 0 n (bid, sid) fs)" "n \<noteq> 0"
    and new: "da_batch_id p = bid" "batch_size (da_fec_info p) = n"
      "batch_pos (da_fec_info p) \<notin> fp_pos ` set (Fec_Recovery.data_of L)" "length (Fec_Recovery.data_of L) < unat n"
    and d: "cs_received_data dbg now p c fs = (r, es, c', fs')"
  shows "r = Ok (batch_full n (L @ [fec_block dbg p])) \<and> receives mix (insert k ks) c'
    \<and> batch_holds n (L @ [fec_block dbg p]) (entry_of 0 n (bid, sid) fs')"
proof -
  obtain e s sf where c': "receiving c = Some (e, s, sf)" "tr_inv mix ks (from_buffer sf)"
    "sm_complete (ss_stream s) \<noteq> Some True" using c(1) by (auto simp: receives_def)
  have sid: "da_session_id p = sid" using p(1) by (simp add: fits_chunk_def)
  obtain x s' where x: "stream_data dbg now p sf s = (x, s')" by (cases "stream_data dbg now p sf s")
  note chunk = stream_data_chunk [OF c'(2) c(2) len p(1) c'(3) x, folded completes_def]
  have ex: "\<exists>y. x = Ok y"
  proof -
    obtain w b' where w: "wb_write dbg (fst (chunk_of mix k)) (da_payload p) (from_buffer sf) = (w, b')"
      by (cases "wb_write dbg (fst (chunk_of mix k)) (da_payload p) (from_buffer sf)")
    have "\<exists>z. w = Ok z"
      using write_new [OF c'(2) _ len(1) w] p(1,2) by (auto simp: fits_chunk_def)
    moreover have "batch_pos (da_fec_info p) \<noteq> 255" "da_byte_range_start p = fst (chunk_of mix k)"
      using p(1) by (simp_all add: fits_chunk_def)
    moreover obtain rs sf' fec' where "ask_ranges dbg now (batch_pos (da_fec_info p) + 1 = batch_size (da_fec_info p))
        (clear_pending (fst (chunk_of mix k)) (sf\<lparr>from_buffer := b'\<rparr>))
        (session_fec_add now (da_batch_id p) (da_fec_info p) (fst (chunk_of mix k)) (ss_fec s)) = (Ok rs, sf', fec')"
      using ask_ranges_Ok by blast
    ultimately show ?thesis using x w by (auto simp: stream_data_def Let_def split: if_splits)
  qed
  then obtain y where y: "x = Ok y" by blast
  have n: "\<not> do_done y" "receives mix (insert k ks) (with_stream e s')"
    using chunk p(3) y by (auto simp: receives_def with_stream_def receiving_Some)
  obtain ws where ws: "dispatch_retransmit_request dbg now sid (es_address e) (do_ranges y) = Ok ws"
    using dispatch_ranges by blast
  let ?p = "fec_block dbg p"
  have key: "fec_key ?p = (bid, sid)" "batch_size (fp_fec_info ?p) = n" "\<not> fp_is_parity ?p"
    "fp_pos ?p = batch_pos (da_fec_info p)"
    using new(1,2) sid by (simp_all add: fec_block_def fec_key_def)
  note rec = received_holds [OF b key(1,2), of dbg now]
  have "(r, es, c', fs') = (fec_result (fst (xor_received dbg now ?p fs)), map Send ws, with_stream e s',
      snd (xor_received dbg now ?p fs))"
    using d c'(1) x y n(1) ws sid fec_of_data_block [OF p(4), of dbg] by (simp add: cs_received_data_def split_beta)
  then show ?thesis using rec new(3,4) key n(2) by (simp add: fec_result_def)
qed

text \<open>
  The end of a repaired stream: the memory is \<open>mix\<close>, the handle is told that the stream is closed, and the last
  message to the sender is that it is done.
\<close>

definition repaired :: "session_id \<Rightarrow> bytes \<Rightarrow> ('k, 's) protocol \<Rightarrow> bool" where
  "repaired sid mix st \<longleftrightarrow>
     (\<exists>c e s sf. connection st sid = Some c \<and> receiving c = Some (e, s, sf)
        \<and> wb_data (from_buffer sf) = mix \<and> wb_is_done (from_buffer sf) \<and> sm_closed (ss_stream s))
     \<and> (\<exists>es w pc. pr_out st = es @ [Send w] \<and> pw_packet w = PlaybackControlPacket pc \<and> pc_control_type pc = Play_Done)"

lemma recovery_repairs:
  assumes st: "holding bid sid (word_of_nat (length ps)) mix L ks st"
    and len: "length mix + MAX_PAYLOAD_LENGTH < 2 ^ 32" "length mix mod MAX_PAYLOAD_LENGTH \<noteq> 0"
    and ks: "insert l ks = {..<chunk_count mix}" "l \<notin> ks"
    and ps: "one_batch bid sid ps" "mset ps = mset (lost # qs)"
    and L: "mset L = mset (fec_of_parity (parity_of (en_dbg env) now bid sid ps) # map (fec_block (en_dbg env)) qs)"
    and lost: "chunk_of mix l = (da_byte_range_start lost, block_payload (en_dbg env) (da_payload lost))"
  shows "\<exists>st'. recover_batch env bid sid st = (Ok (), st') \<and> repaired sid mix st'"
proof -
  let ?dbg = "en_dbg env"
  obtain c e s sf where c: "connection st sid = Some c" "receiving c = Some (e, s, sf)" "tr_inv mix ks (from_buffer sf)"
    and b: "batch_holds (word_of_nat (length ps)) L (entry_of 0 (word_of_nat (length ps)) (bid, sid) (pr_fec st))"
    using st by (auto simp: holding_def receives_def)
  note held = held_batch_recovers [OF ps L b]
  have entry: "hm_get (xs_inbound (pr_fec st)) (bid, sid) = Some (entry_of 0 (word_of_nat (length ps)) (bid, sid) (pr_fec st))"
    using held(3) by (auto simp: entry_of_def inbound_new_def split: option.splits)
  have "lost \<in> set ps" using ps(2) by (metis list.set_intros(1) set_mset_mset)
  then have "length (da_payload lost) \<le> MAX_PAYLOAD_LENGTH" using ps(1) by (auto simp: one_batch_def)
  then obtain fs where x: "xor_recover ?dbg bid sid (pr_fec st) = (Ok (Some
      [\<lparr>rp_byte_range_start = fst (chunk_of mix l), rp_payload = snd (chunk_of mix l)\<rparr>]), fs)"
    using held by (simp add: xor_recover_def entry recovered_of_block lost)
  have l: "l < chunk_count mix" using ks by auto
  obtain w b' where w: "wb_write ?dbg (fst (chunk_of mix l)) (snd (chunk_of mix l)) (from_buffer sf) = (w, b')"
    by (cases "wb_write ?dbg (fst (chunk_of mix l)) (snd (chunk_of mix l)) (from_buffer sf)")
  from write_new [OF c(3) l len(1) w] ks(2) obtain z where z: "w = Ok z" "tr_inv mix {..<chunk_count mix} b'"
    using ks(1) by auto
  have full: "wb_data b' = mix" "wb_is_done b'" using tr_inv_complete [OF z(2)] len(2) by simp_all
  define sf' where "sf' = clear_pending (fst (chunk_of mix l)) (sf\<lparr>from_buffer := b'\<rparr>)"
  have buf: "from_buffer sf' = b'" by (simp add: sf'_def clear_pending_def)
  let ?m = "(ss_stream s)\<lparr>sm_approved := Some True, sm_head := unat (wb_head b')\<rparr>"
  have rw: "recovered_writes ?dbg [\<lparr>rp_byte_range_start = fst (chunk_of mix l), rp_payload = snd (chunk_of mix l)\<rparr>] sf
      ((ss_stream s)\<lparr>sm_approved := Some True\<rparr>) = (Ok (), sf', ?m)"
    using w z(1) by (simp add: sf'_def)
  have "declare_done ?m (from_buffer sf')" by (simp add: declare_done_def buf full)
  from recover_batch_completes [OF c(1,2) rw this x] obtain v pc where
    rb: "recover_batch env bid sid st = (Ok (), emit [Send v] (set_connection sid
      (with_stream e (s\<lparr>ss_streaming := Streaming_From sf', ss_stream := ?m\<lparr>sm_closed := True\<rparr>,
        ss_fec := session_fec_evict bid (ss_fec s)\<rparr>)) (st\<lparr>pr_fec := fs\<rparr>)))" (is "_ = (Ok (), ?st')")
    and v: "v = wrap (PlaybackControlPacket pc) (es_address e)" "pc_control_type pc = Play_Done" by metis
  have "connection ?st' sid = Some (with_stream e (s\<lparr>ss_streaming := Streaming_From sf', ss_stream := ?m\<lparr>sm_closed := True\<rparr>,
        ss_fec := session_fec_evict bid (ss_fec s)\<rparr>))" by simp
  then have "repaired sid mix ?st'"
    using v full buf by (simp add: repaired_def receiving_Some with_stream_def wrap_def)
  then show ?thesis using rb by blast
qed

section \<open>One arrival\<close>

lemma holding_activity:
  assumes "holding bid sid n mix L ks st"
  shows "holding bid sid n mix L ks (update_last_activity sid ts st)"
proof -
  obtain e where e: "connection st sid = Some (Established e)" "receives mix ks (Established e)"
    using assms receives_established by (fastforce simp: holding_def)
  then have "connection (update_last_activity sid ts st) sid = Some (Established (e\<lparr>es_last_activity := ts\<rparr>))"
    by (simp add: update_last_activity_def established_at_def)
  then show ?thesis using assms e by (simp add: holding_def receives_activity)
qed

text \<open>
  What a data or a parity packet does: the session and its batch hold it, and if that makes the batch full its
  recovery follows.
\<close>

definition arrived ::
  "('k, 's) env \<Rightarrow> batch_id \<Rightarrow> session_id \<Rightarrow> u8 \<Rightarrow> bytes \<Rightarrow> fec_packet list \<Rightarrow> nat set
     \<Rightarrow> ('k, 's) protocol \<Rightarrow> ('k, 's) protocol \<Rightarrow> bool" where
  "arrived env bid sid n mix L ks st st' \<longleftrightarrow>
     (if batch_full n L
      then \<exists>st1. holding bid sid n mix L ks st1
             \<and> (\<forall>st2. recover_batch env bid sid st1 = (Ok (), st2) \<longrightarrow> st' = st2)
      else holding bid sid n mix L ks st' \<and> pr_encryption st' = pr_encryption st)"

lemma data_arrived:
  assumes st: "holding bid sid n mix L ks st" "ks \<subseteq> {..<chunk_count mix}" "n \<noteq> 0"
    and len: "length mix + MAX_PAYLOAD_LENGTH < 2 ^ 32" "length mix mod MAX_PAYLOAD_LENGTH \<noteq> 0"
    and p: "fits_chunk mix sid ks k p" "k \<notin> ks" "\<not> completes mix ks k" "length (da_payload p) \<le> MAX_PAYLOAD_LENGTH"
    and new: "da_batch_id p = bid" "batch_size (da_fec_info p) = n"
      "batch_pos (da_fec_info p) \<notin> fp_pos ` set (Fec_Recovery.data_of L)" "length (Fec_Recovery.data_of L) < unat n"
  shows "arrived env bid sid n mix (L @ [fec_block (en_dbg env) p]) (insert k ks) st (received_data_packet env p st)"
proof -
  define u where "u = update_last_activity sid (da_timestamp p) st"
  let ?L = "L @ [fec_block (en_dbg env) p]"
  have sid: "da_session_id p = sid" and opts: "da_opts p = opt_none" using p(1) by (simp_all add: fits_chunk_def)
  have st': "holding bid sid n mix L ks u" unfolding u_def by (rule holding_activity [OF st(1)])
  then obtain c where c: "connection u sid = Some c" "receives mix ks c"
    and b: "batch_holds n L (entry_of 0 n (bid, sid) (pr_fec u))"
    by (auto simp: holding_def)
  obtain r es c' fs' where d: "cs_received_data (en_dbg env) (en_now env) p c (pr_fec u) = (r, es, c', fs')"
    by (cases "cs_received_data (en_dbg env) (en_now env) p c (pr_fec u)")
  note res = data_held [OF c(2) st(2) len p b st(3) new d]
  let ?st1 = "emit es (set_connection sid c' (u\<lparr>pr_fec := fs'\<rparr>))"
  have "pr_fec ?st1 = fs'" by (simp add: emit_def set_connection_def)
  then have h: "holding bid sid n mix ?L (insert k ks) ?st1" using res by (simp add: holding_def)
  obtain e where "c = Established e" using receives_established [OF c(2)] by blast
  then have "received_data_packet env p st = data_packet_ready env p u"
    using c(1) by (simp add: received_data_packet_def sid Let_def u_def)
  also have "\<dots> = (if batch_full n ?L
      then (let (r, st) = recover_batch env bid sid ?st1
            in case r of Err FailedToDerefError \<Rightarrow> failed_to_deref_buffer sid st | Panic \<Rightarrow> fail_task st | _ \<Rightarrow> st)
      else ?st1)"
    using res by (simp add: data_packet_ready_def sid opts ack_if_required_def no_ack_required c(1) d new(1))
  finally show ?thesis using h by (auto simp: arrived_def u_def)
qed

lemma parity_arrived:
  assumes st: "holding bid sid n mix L ks st" "n \<noteq> 0"
    and q: "pa_session_id q = sid" "pa_batch_id q = bid" "batch_size (pa_fec_info q) = n"
  shows "arrived env bid sid n mix (L @ [fec_of_parity q]) ks st (received_parity_packet env q st)"
proof -
  define u where "u = update_last_activity sid (pa_timestamp q) st"
  let ?L = "L @ [fec_of_parity q]"
  have st': "holding bid sid n mix L ks u" unfolding u_def by (rule holding_activity [OF st(1)])
  then have b: "batch_holds n L (entry_of 0 n (bid, sid) (pr_fec u))" by (simp add: holding_def)
  have key: "fec_key (fec_of_parity q) = (bid, sid)" "batch_size (fp_fec_info (fec_of_parity q)) = n"
    "fp_is_parity (fec_of_parity q)"
    using q by (simp_all add: fec_of_parity_def fec_key_def)
  note rec = received_holds [OF b st(2) key(1,2), of "en_dbg env" "en_now env"]
  let ?st1 = "u\<lparr>pr_fec := snd (xor_received (en_dbg env) (en_now env) (fec_of_parity q) (pr_fec u))\<rparr>"
  have "holding bid sid n mix ?L ks ?st1" using st' rec(2) key(3) by (simp add: holding_def connection_def)
  moreover have "received_parity_packet env q st = (if batch_full n ?L
      then (let (r, st) = recover_batch env bid sid ?st1
            in case r of Ok _ \<Rightarrow> st | Err FailedToDerefError \<Rightarrow> failed_to_deref_buffer sid st
                 | Err (StateMismatch _ _) \<Rightarrow>
                     unexpected_packet_report env sid (packet_fingerprint (en_xxh env) (ParityPacket q)) st
                 | Err IrrelevantError \<Rightarrow> st | Panic \<Rightarrow> fail_task st)
      else ?st1)"
    using rec(1) key(3) q by (simp add: received_parity_packet_def split_beta Let_def u_def)
  ultimately show ?thesis by (auto simp: arrived_def u_def)
qed

section \<open>All arrivals\<close>

lemma taken_packet_received:
  assumes "taken_packet A (pr_encryption (ho_manager h)) d q"
  shows "ho_manager (host_receive A a env d h) = handle_packet env a q (ho_manager h)"
proof -
  obtain r w where "inbound_handle (en_dbg env) A (en_xxh env) (en_now env) (pr_encryption (ho_manager h)) d a
      (ho_window h) = (r, w)" by fastforce
  moreover from this have "r = Ok (Some (UpPacket (wrap q a)))"
    using assms unfolding taken_packet_def by (metis fst_conv)
  ultimately show ?thesis by (simp add: host_receive_def wrap_def)
qed

text \<open>The packets of a batch as they arrive: \<open>None\<close> is the parity packet \<open>pp\<close>.\<close>

fun packet_of :: "parity_packet \<Rightarrow> data_packet option \<Rightarrow> packet" where
  "packet_of pp None = ParityPacket pp"
| "packet_of pp (Some p) = DataPacket p"

fun fec_of :: "bool \<Rightarrow> parity_packet \<Rightarrow> data_packet option \<Rightarrow> fec_packet" where
  "fec_of dbg pp None = fec_of_parity pp"
| "fec_of dbg pp (Some p) = fec_block dbg p"

lemma fec_of_parts:
  "length (Fec_Recovery.data_of (map (fec_of dbg pp) E)) = length (filter (\<lambda>q. q \<noteq> None) E)"
  "filter fp_is_parity (map (fec_of dbg pp) E) \<noteq> [] \<longleftrightarrow> None \<in> set E"
  "set (Fec_Recovery.data_of (map (fec_of dbg pp) E)) = fec_block dbg ` {p. Some p \<in> set E}"
proof (induction E)
  case (Cons q E)
  {
    case 1
    then show ?case using Cons(1) by (cases q) (simp_all add: fec_of_parity_def fec_block_def)
  next
    case 2
    then show ?case using Cons(2) by (cases q) (simp_all add: fec_of_parity_def fec_block_def)
  next
    case 3
    then show ?case using Cons(3) by (cases q) (auto simp: fec_of_parity_def fec_block_def)
  }
qed simp_all

lemma batch_full_arrived:
  assumes E: "mset (E @ Q) = mset (None # map Some qs)" and n: "n = word_of_nat (Suc (length qs))" "length qs < 254"
  shows "batch_full n (map (fec_of dbg pp) E) \<longleftrightarrow> Q = []"
proof -
  let ?d = "length (filter (\<lambda>q. q \<noteq> None) E)"
  have all: "mset (filter (\<lambda>q. q \<noteq> None) (E @ Q)) = mset (map Some qs)"
    unfolding mset_filter E by (simp add: filter_mset_image_mset)
  have d: "?d + length (filter (\<lambda>q. q \<noteq> None) Q) = length qs"
    using mset_eq_length [OF all] by simp
  have total: "length E + length Q = Suc (length qs)" using mset_eq_length [OF E] by simp
  have "(word_of_nat ?d :: u8) = n - 1 \<longleftrightarrow> ?d = length qs"
  proof
    assume "(word_of_nat ?d :: u8) = n - 1"
    then have "(word_of_nat ?d :: u8) = word_of_nat (length qs)" by (simp add: n(1))
    then have "unat (word_of_nat ?d :: u8) = unat (word_of_nat (length qs) :: u8)" by simp
    then show "?d = length qs" using d n(2) by (simp add: unat_of_nat take_bit_eq_mod)
  qed (simp add: n(1))
  moreover have "?d = length qs \<and> None \<in> set E \<longleftrightarrow> Q = []"
  proof
    assume full: "?d = length qs \<and> None \<in> set E"
    then have "?d < length E" by (intro length_filter_less) auto
    then have "length Q = 0" using full total by linarith
    then show "Q = []" by simp
  next
    assume "Q = []"
    then have "None \<in> set E" using mset_eq_setD [OF E] by simp
    then show "?d = length qs \<and> None \<in> set E" using d \<open>Q = []\<close> by simp
  qed
  ultimately show ?thesis unfolding batch_full_def fec_of_parts by simp
qed

text \<open>The chunk a packet claims to carry.\<close>

definition chunk_at :: "data_packet \<Rightarrow> nat" where
  "chunk_at p = unat (da_byte_range_start p) div MAX_PAYLOAD_LENGTH"

text \<open>The packets \<open>qs\<close> of a batch carry all chunks of \<open>mix\<close> but \<open>l\<close>, and the lost one would be recovered as that.\<close>

definition lost_one ::
  "bool \<Rightarrow> batch_id \<Rightarrow> session_id \<Rightarrow> bytes \<Rightarrow> nat \<Rightarrow> data_packet list \<Rightarrow> data_packet \<Rightarrow> data_packet list \<Rightarrow> bool" where
  "lost_one dbg bid sid mix l ps lost qs \<longleftrightarrow>
     one_batch bid sid ps \<and> mset ps = mset (lost # qs)
     \<and> inj_on chunk_at (set qs) \<and> insert l (chunk_at ` set qs) = {..<chunk_count mix} \<and> l \<notin> chunk_at ` set qs
     \<and> (\<forall>p\<in>set qs. fits_chunk mix sid {} (chunk_at p) p)
     \<and> chunk_of mix l = (da_byte_range_start lost, block_payload dbg (da_payload lost))"

lemma lost_one_batch:
  assumes "lost_one dbg bid sid mix l ps lost qs"
  shows "one_batch bid sid ps" "mset ps = mset (lost # qs)" "length ps = Suc (length qs)"
  using assms mset_eq_length [of ps "lost # qs"] by (auto simp: lost_one_def)

lemma piece_arrived:
  assumes lo: "lost_one (en_dbg env) bid sid mix l ps lost qs"
    and len: "length mix + MAX_PAYLOAD_LENGTH < 2 ^ 32" "length mix mod MAX_PAYLOAD_LENGTH \<noteq> 0"
    and st: "holding bid sid (word_of_nat (length ps)) mix (map (fec_of (en_dbg env) (parity_of (en_dbg env) now bid sid ps)) D)
      (chunk_at ` {p. Some p \<in> set D}) st"
    and D: "mset (D @ q # Q) = mset (None # map Some qs)"
  shows "arrived env bid sid (word_of_nat (length ps)) mix
      (map (fec_of (en_dbg env) (parity_of (en_dbg env) now bid sid ps)) (D @ [q]))
      (chunk_at ` {p. Some p \<in> set (D @ [q])}) st
      (handle_packet env a (packet_of (parity_of (en_dbg env) now bid sid ps) q) st)"
proof -
  let ?pp = "parity_of (en_dbg env) now bid sid ps" and ?n = "word_of_nat (length ps) :: u8"
  let ?ks = "chunk_at ` {p. Some p \<in> set D}"
  note ob = lost_one_batch(1) [OF lo] and lp = lost_one_batch(3) [OF lo]
  have un: "unat ?n = length ps" using ob by (simp add: one_batch_def unat_of_nat)
  have n0: "?n \<noteq> 0" using un lp by (metis unat_0 nat.distinct(1))
  show ?thesis
  proof (cases q)
    case None
    have "batch_size (pa_fec_info ?pp) = ?n" "pa_batch_id ?pp = bid" "pa_session_id ?pp = sid"
      by (simp_all add: parity_of_def)
    from parity_arrived [OF st n0 this(3,2,1)] show ?thesis using None by simp
  next
    case (Some p)
    have sub: "p' \<in> set qs" if "Some p' \<in> set D" for p' using mset_eq_setD [OF D] that by auto
    have p: "p \<in> set qs" using mset_eq_setD [OF D] Some by auto
    have dist: "distinct (map (\<lambda>p. batch_pos (da_fec_info p)) qs)"
      using lo mset_eq_imp_distinct_iff [of "map (\<lambda>p. batch_pos (da_fec_info p)) ps" "map (\<lambda>p. batch_pos (da_fec_info p)) (lost # qs)"]
      by (auto simp: lost_one_def one_batch_def)
    have "distinct (None # map Some qs)" using dist by (simp add: distinct_map)
    then have "distinct (D @ q # Q)" using D mset_eq_imp_distinct_iff by blast
    then have pD: "Some p \<notin> set D" using Some by simp
    have fits: "fits_chunk mix sid ?ks (chunk_at p) p"
      using lo p by (auto simp: lost_one_def intro: fits_more)
    have new: "chunk_at p \<notin> ?ks"
      using lo p pD sub by (auto simp: lost_one_def dest!: inj_onD)
    have ks: "?ks \<subseteq> {..<chunk_count mix}" and nc: "\<not> completes mix ?ks (chunk_at p)"
      using lo p sub by (auto simp: lost_one_def completes_def)
    have pos: "batch_pos (da_fec_info p) \<notin> fp_pos ` set (Fec_Recovery.data_of (map (fec_of (en_dbg env) ?pp) D))"
    proof
      assume "batch_pos (da_fec_info p) \<in> fp_pos ` set (Fec_Recovery.data_of (map (fec_of (en_dbg env) ?pp) D))"
      then obtain p' where "Some p' \<in> set D" "batch_pos (da_fec_info p') = batch_pos (da_fec_info p)"
        unfolding fec_of_parts(3) by (auto simp: fec_block_def)
      then show False using dist p pD sub by (metis distinct_map inj_onD)
    qed
    have "p \<in> set ps" using mset_eq_setD [OF lost_one_batch(2) [OF lo]] p by simp
    then have b: "da_batch_id p = bid" "batch_size (da_fec_info p) = ?n" "length (da_payload p) \<le> MAX_PAYLOAD_LENGTH"
      using ob by (auto simp: one_batch_def)
    have "length (filter (\<lambda>q. q \<noteq> None) D) < length ps"
      using mset_eq_length [OF D] lp le_less_trans [OF length_filter_le, of D "length ps"] by simp
    then have "length (Fec_Recovery.data_of (map (fec_of (en_dbg env) ?pp) D)) < unat ?n"
      unfolding fec_of_parts un .
    from data_arrived [OF st ks n0 len fits new nc b(3,1,2) pos this]
    have "arrived env bid sid ?n mix (map (fec_of (en_dbg env) ?pp) D @ [fec_block (en_dbg env) p])
        (insert (chunk_at p) ?ks) st (received_data_packet env p st)" .
    moreover have "insert (chunk_at p) ?ks = chunk_at ` {p. Some p \<in> set (D @ [q])}" using Some by auto
    ultimately show ?thesis using Some by simp
  qed
qed

lemma arrivals_repair:
  fixes A :: "'k aead" and h :: "('k, 's) host"
  assumes lo: "lost_one dbg bid sid mix l ps lost qs"
    and len: "length mix + MAX_PAYLOAD_LENGTH < 2 ^ 32" "length mix mod MAX_PAYLOAD_LENGTH \<noteq> 0"
    and pp: "pp = parity_of dbg now bid sid ps"
  shows "\<lbrakk> holding bid sid (word_of_nat (length ps)) mix (map (fec_of dbg pp) D) (chunk_at ` {p. Some p \<in> set D}) (ho_manager h);
     pr_encryption (ho_manager h) = tr; mset (D @ Q) = mset (None # map Some qs); Q \<noteq> [];
     list_all2 (\<lambda>(env, d) q. en_dbg env = dbg \<and> taken_packet A tr d (packet_of pp q)) xs Q \<rbrakk>
    \<Longrightarrow> repaired sid mix (ho_manager (host_receive_all A a xs h))"
proof (induction xs arbitrary: D Q h)
  case (Cons x xs)
  obtain env d q Q' where x: "x = (env, d)" and Q: "Q = q # Q'" and dbg: "en_dbg env = dbg"
    and t: "taken_packet A tr d (packet_of pp q)"
    and rest: "list_all2 (\<lambda>(env, d) q. en_dbg env = dbg \<and> taken_packet A tr d (packet_of pp q)) xs Q'"
    using Cons.prems(5) by (cases x) (auto simp: list_all2_Cons1)
  let ?h = "host_receive A a env d h" and ?n = "word_of_nat (length ps) :: u8"
  let ?L = "map (fec_of dbg pp) (D @ [q])" and ?ks = "chunk_at ` {p. Some p \<in> set (D @ [q])}"
  have m: "ho_manager ?h = handle_packet env a (packet_of pp q) (ho_manager h)"
    using t Cons.prems(2) by (intro taken_packet_received) simp
  have D: "mset (D @ q # Q') = mset (None # map Some qs)" using Cons.prems(3) Q by simp
  have arr: "arrived env bid sid ?n mix ?L ?ks (ho_manager h) (ho_manager ?h)"
    using piece_arrived [OF lo [folded dbg] len Cons.prems(1) [unfolded pp, folded dbg] D, of a]
    by (simp only: m pp dbg)
  note ob = lost_one_batch(1) [OF lo] and lp = lost_one_batch(3,2) [OF lo]
  have small: "length qs < 254" using ob lp by (simp add: one_batch_def)
  have D1: "mset ((D @ [q]) @ Q') = mset (None # map Some qs)" using D by simp
  have full: "batch_full ?n ?L \<longleftrightarrow> Q' = []" by (rule batch_full_arrived [OF D1 _ small]) (simp add: lp)
  show ?case
  proof (cases "Q' = []")
    case True
    then obtain st1 where st1: "holding bid sid ?n mix ?L ?ks st1"
      "\<forall>st2. recover_batch env bid sid st1 = (Ok (), st2) \<longrightarrow> ho_manager ?h = st2"
      using arr full by (auto simp: arrived_def)
    have all: "mset (D @ [q]) = mset (None # map Some qs)" using D1 True by simp
    then have "mset ?L = image_mset (fec_of dbg pp) (mset (None # map Some qs))" by (simp only: mset_map)
    then have L: "mset ?L = mset (fec_of_parity (parity_of (en_dbg env) now bid sid ps) # map (fec_block (en_dbg env)) qs)"
      by (simp add: pp dbg image_mset.compositionality comp_def)
    have "{p. Some p \<in> set (D @ [q])} = set qs" using mset_eq_setD [OF all] by auto
    then have ks: "insert l ?ks = {..<chunk_count mix}" "l \<notin> ?ks" using lo by (simp_all add: lost_one_def)
    have "chunk_of mix l = (da_byte_range_start lost, block_payload (en_dbg env) (da_payload lost))"
      using lo dbg by (simp add: lost_one_def)
    from recovery_repairs [OF st1(1) len ks ob lp(2) L this]
    have "repaired sid mix (ho_manager ?h)" using st1(2) by auto
    then show ?thesis using rest True by (simp add: x)
  next
    case False
    then have "holding bid sid ?n mix ?L ?ks (ho_manager ?h)" "pr_encryption (ho_manager ?h) = tr"
      using arr full Cons.prems(2) by (simp_all add: arrived_def)
    from Cons.IH [OF this D1 False rest] show ?thesis by (simp add: x)
  qed
qed simp

section \<open>The whole way\<close>

lemma replaced_self:
  assumes "k < chunk_count src"
  shows "replaced src k (snd (chunk_of src k)) = src"
proof -
  let ?ys = "drop (k * MAX_PAYLOAD_LENGTH) src"
  have "drop (length (take MAX_PAYLOAD_LENGTH ?ys)) ?ys = drop MAX_PAYLOAD_LENGTH ?ys"
    by (cases "MAX_PAYLOAD_LENGTH \<le> length ?ys") simp_all
  then have "take MAX_PAYLOAD_LENGTH ?ys @ drop (length (take MAX_PAYLOAD_LENGTH ?ys)) ?ys = ?ys"
    by (simp only: append_take_drop_id)
  then show ?thesis by (simp only: replaced_def chunk_bytes drop_drop append_take_drop_id add.commute)
qed

text \<open>The packets of a tick, of which the one for chunk \<open>l\<close> is lost, and the source as it will be repaired.\<close>

lemma tick_lost_one:
  assumes ps: "one_batch bid sid ps" "length ps = chunk_count src" "\<forall>j<chunk_count src. carries src sid j (ps ! j)"
    and lost: "mset ps = mset (lost # qs)" "carries src sid l lost"
    and len: "length src + MAX_PAYLOAD_LENGTH < 2 ^ 32"
  shows "lost_one dbg bid sid (replaced src l (block_payload dbg (snd (chunk_of src l)))) l ps lost qs"
proof -
  have l: "l < chunk_count src" using lost(2) by (simp add: carries_def)
  let ?mix = "replaced src l (block_payload dbg (snd (chunk_of src l)))"
  have mix: "chunk_count ?mix = chunk_count src"
    "chunk_of ?mix l = (fst (chunk_of src l), block_payload dbg (snd (chunk_of src l)))"
    "j \<noteq> l \<Longrightarrow> chunk_of ?mix j = chunk_of src j" for j
    using replaced_chunks [OF l, of "block_payload dbg (snd (chunk_of src l))"] by simp_all
  have at: "chunk_at p = j" if "carries src sid j p" for j p
    using that chunk_index [OF _ len] by (auto simp: carries_def chunk_at_def prod_eq_iff)
  have "map chunk_at ps = [0..<chunk_count src]"
    using ps(2,3) at by (auto intro!: nth_equalityI)
  moreover have "mset (map chunk_at ps) = mset (map chunk_at (lost # qs))" by (simp only: mset_map lost(1))
  ultimately have m: "mset (chunk_at lost # map chunk_at qs) = mset [0..<chunk_count src]"
    by (simp only: list.map)
  then have "distinct (chunk_at lost # map chunk_at qs)" and cover: "set (chunk_at lost # map chunk_at qs) = {0..<chunk_count src}"
    using mset_eq_imp_distinct_iff [OF m] mset_eq_setD [OF m] by simp_all
  then have d: "inj_on chunk_at (set qs)" "l \<notin> chunk_at ` set qs" "insert l (chunk_at ` set qs) = {..<chunk_count src}"
    using at [OF lost(2)] by (auto simp: distinct_map)
  have "fits_chunk ?mix sid {} (chunk_at p) p" if p: "p \<in> set qs" for p
  proof -
    have "p \<in> set ps" using mset_eq_setD [OF lost(1)] p by simp
    then obtain j where j: "carries src sid j p" using ps(2,3) by (metis in_set_conv_nth)
    moreover have "j \<noteq> l" using d(2) p at [OF j] by auto
    ultimately show ?thesis using at [OF j] mix by (auto simp: fits_chunk_def carries_def prod_eq_iff)
  qed
  moreover have "chunk_of ?mix l = (da_byte_range_start lost, block_payload dbg (da_payload lost))"
    using lost(2) mix(2) by (auto simp: carries_def prod_eq_iff)
  ultimately show ?thesis using ps(1) lost(1) d mix(1) by (simp add: lost_one_def)
qed

lemma datagrams_without:
  assumes r: "list_all2 (taken_packet A tr) ds (map DataPacket ps @ [ParityPacket pp])"
    and ds: "mset ds = add_mset d (mset xs)" and d: "taken_packet A tr d (DataPacket lost)"
  obtains Q qs where "list_all2 (taken_packet A tr) xs (map (packet_of pp) Q)"
    "mset Q = mset (None # map Some qs)" "mset ps = mset (lost # qs)"
proof -
  have "\<exists>f. \<forall>e\<in>set ds. \<exists>q. f e = q \<and> taken_packet A tr e (packet_of pp q) \<and> q \<in> set (map Some ps @ [None])"
  proof -
    have "\<exists>q. taken_packet A tr e (packet_of pp q) \<and> q \<in> set (map Some ps @ [None])" if e: "e \<in> set ds" for e
    proof -
      obtain i where i: "i < length ds" "e = ds ! i" using e by (auto simp: in_set_conv_nth)
      let ?q = "(map Some ps @ [None]) ! i"
      have n: "i < length (map Some ps @ [None])" using i list_all2_lengthD [OF r] by simp
      then have "map DataPacket ps @ [ParityPacket pp] = map (packet_of pp) (map Some ps @ [None])" by simp
      then have "(map DataPacket ps @ [ParityPacket pp]) ! i = packet_of pp ?q" using n by (metis nth_map)
      then show ?thesis using list_all2_nthD [OF r i(1)] i(2) n nth_mem by metis
    qed
    then show ?thesis by metis
  qed
  then obtain f where f: "\<forall>e\<in>set ds. taken_packet A tr e (packet_of pp (f e))" by blast
  have same: "f e = q" if "e \<in> set ds" "taken_packet A tr e (packet_of pp q)" for e q
  proof -
    have "packet_of pp (f e) = packet_of pp q" using taken_packet_unique f that by blast
    then show ?thesis by (cases "f e"; cases q) simp_all
  qed
  have "map f ds = map Some ps @ [None]"
  proof (rule nth_equalityI)
    show "length (map f ds) = length (map Some ps @ [None])" using list_all2_lengthD [OF r] by simp
    fix i assume i: "i < length (map f ds)"
    then have n: "i < length (map Some ps @ [None])" using list_all2_lengthD [OF r] by simp
    have "map DataPacket ps @ [ParityPacket pp] = map (packet_of pp) (map Some ps @ [None])" by simp
    then have "(map DataPacket ps @ [ParityPacket pp]) ! i = packet_of pp ((map Some ps @ [None]) ! i)"
      using n by (metis nth_map)
    then have "taken_packet A tr (ds ! i) (packet_of pp ((map Some ps @ [None]) ! i))"
      using list_all2_nthD [OF r, of i] i by simp
    then show "map f ds ! i = (map Some ps @ [None]) ! i" using same i by simp
  qed
  then have "image_mset f (mset ds) = mset (map Some ps @ [None])" by (metis mset_map)
  then have all: "add_mset (f d) (image_mset f (mset xs)) = mset (None # map Some ps)" using ds by simp
  have in_ds: "set ds = insert d (set xs)" using ds by (metis set_mset_add_mset_insert set_mset_mset)
  have fd: "f d = Some lost" using same [of d "Some lost"] d in_ds by simp
  have "Some lost \<in># mset (None # map Some ps)" using all fd by (metis union_single_eq_member)
  then obtain as bs where ps: "ps = as @ lost # bs" by (auto dest: split_list)
  have "image_mset f (mset xs) = mset (None # map Some (as @ bs))" using all fd by (simp add: ps)
  then have Q: "mset (map f xs) = mset (None # map Some (as @ bs))" by simp
  have "list_all2 (taken_packet A tr) xs (map (packet_of pp) (map f xs))"
    using f in_ds by (auto simp: list_all2_conv_all_nth)
  then show thesis by (rule that [OF _ Q]) (simp add: ps)
qed

text \<open>
  A stream whose datagrams arrive but for that of chunk \<open>l\<close>: a sender at the start of \<open>src\<close> makes the packets of one
  batch, its packet processor the datagrams \<open>send_with_parity\<close>; the arrivals \<open>xs\<close> are these in some order, less one
  that carries chunk \<open>l\<close>; the receiver has the key of the session, is at the start of a stream of the right length,
  and neither side has a batch of the session. All in one build profile.
\<close>

definition lossy_run ::
  "'k aead \<Rightarrow> bool \<Rightarrow> bytes \<Rightarrow> session_id \<Rightarrow> nat \<Rightarrow> (('k, 's) env \<times> bytes) list \<Rightarrow> ('k, 's) host \<Rightarrow> bool" where
  "lossy_run A dbg src sid l xs h \<longleftrightarrow>
     (\<exists>s s' now now' addr ws extra ts fs d p.
        sending src 0 1 s \<and> chunk_count src \<le> 28 \<and> (\<forall>bid. hm_get (xs_outbound fs) (bid, sid) = None)
        \<and> stream_ticks dbg now sid addr 1 [] s = (Ok ws, extra, s')
        \<and> taken_as A (pr_encryption (ho_manager h)) d p \<and> carries src sid l p
        \<and> mset (send_with_parity dbg now' A ts fs ws) = add_mset d (mset (map snd xs))
        \<and> shared_key ts (pr_encryption (ho_manager h)) sid)
     \<and> (\<forall>x\<in>set xs. en_dbg (fst x) = dbg)
     \<and> (\<exists>e r mem. connection (ho_manager h) sid = Some (Established e) \<and> es_state e = Session_Streaming r
          \<and> ss_streaming r = Streaming_From (streaming_from_new (wb_from mem)) \<and> length mem = length src
          \<and> sm_complete (ss_stream r) \<noteq> Some True)
     \<and> (\<forall>bid. hm_get (xs_inbound (pr_fec (ho_manager h))) (bid, sid) = None)"

lemma stream_repaired:
  fixes A :: "'k aead" and h :: "('k, 's) host"
  assumes A: "aead_correct A" "aead_total A"
    and len: "length src + MAX_PAYLOAD_LENGTH < 2 ^ 32" "length src mod MAX_PAYLOAD_LENGTH \<noteq> 0"
    and run: "lossy_run A dbg src sid l xs h"
  shows "repaired sid (replaced src l (block_payload dbg (snd (chunk_of src l))))
    (ho_manager (host_receive_all A a xs h))"
proof -
  let ?tr = "pr_encryption (ho_manager h)" and ?mix = "replaced src l (block_payload dbg (snd (chunk_of src l)))"
  obtain s s' now now' addr ws extra ts fs d p where
    sender: "sending src 0 1 s" "chunk_count src \<le> 28" "\<forall>bid. hm_get (xs_outbound fs) (bid, sid) = None"
    and sent: "stream_ticks dbg now sid addr 1 [] s = (Ok ws, extra, s')"
    and lost: "taken_as A ?tr d p" "carries src sid l p"
      "mset (send_with_parity dbg now' A ts fs ws) = add_mset d (mset (map snd xs))"
    and key: "shared_key ts ?tr sid"
    using run unfolding lossy_run_def by blast
  obtain e r mem where receiver: "connection (ho_manager h) sid = Some (Established e)" "es_state e = Session_Streaming r"
      "ss_streaming r = Streaming_From (streaming_from_new (wb_from mem))" "sm_complete (ss_stream r) \<noteq> Some True"
    and mem: "length mem = length src"
    using run unfolding lossy_run_def by blast
  have idle: "\<forall>bid. hm_get (xs_inbound (pr_fec (ho_manager h))) (bid, sid) = None"
    and dbg: "\<forall>x\<in>set xs. en_dbg (fst x) = dbg"
    using run unfolding lossy_run_def by blast+
  have l: "l < chunk_count src" using lost(2) by (simp add: carries_def)
  obtain ps bid where ps: "ws = map (\<lambda>p. wrap (DataPacket p) addr) ps" "one_batch bid sid ps"
    "length ps = chunk_count src" "\<forall>j<chunk_count src. carries src sid j (ps ! j)" "\<forall>p\<in>set ps. data_sent src sid p"
    by (rule tick_batch [OF sender(1) _ sender(2) sent]) (use l in auto)
  define pp where "pp = parity_of dbg now' bid sid ps"
  have "ps \<noteq> []" using ps(3) l by auto
  then have taken: "list_all2 (taken_packet A ?tr) (send_with_parity dbg now' A ts fs ws) (map DataPacket ps @ [ParityPacket pp])"
    using send_with_parity_taken [OF A, of fs bid sid "[]" dbg ps src ts ?tr now' addr] sender(3) ps(2,5) key
    by (simp add: ps(1) pp_def)
  obtain Q qs where Q: "list_all2 (taken_packet A ?tr) (map snd xs) (map (packet_of pp) Q)"
    "mset Q = mset (None # map Some qs)" and qs: "mset ps = mset (p # qs)"
    by (rule datagrams_without [OF taken lost(3)]) (use lost(1) in \<open>simp_all add: taken_packet_data\<close>)
  have lo: "lost_one dbg bid sid ?mix l ps p qs"
    by (rule tick_lost_one [OF ps(2-4) qs lost(2) len(1)])
  note mix = replaced_chunks(1) [OF l, of "block_payload dbg (snd (chunk_of src l))", simplified]
  have start: "tr_inv ?mix {} (wb_from mem)" by (rule tr_inv_init) (simp add: mem mix)
  have "holding bid sid (word_of_nat (length ps)) ?mix [] {} (ho_manager h)"
    using receiver idle start
    by (auto simp: holding_def receives_def receiving_Some streaming_from_new_def entry_of_def batch_holds_new)
  moreover have "list_all2 (\<lambda>(env, d) q. en_dbg env = dbg \<and> taken_packet A ?tr d (packet_of pp q)) xs Q"
    using Q(1) dbg by (auto simp: list_all2_conv_all_nth split_beta)
  moreover have "Q \<noteq> []" using Q(2) by auto
  ultimately show ?thesis
    using arrivals_repair [OF lo _ _ pp_def, where D = "[]" and Q = Q and xs = xs and h = h and A = A and a = a]
      len Q(2) by (simp add: mix)
qed

text \<open>C4: A stream that loses a datagram is repaired. The source is at most one batch of chunks and its length no
  multiple of the chunk size. If all the datagrams the sender's packet processor makes, the parity datagram among them,
  arrive but for one that carries data, in any order, then in a debug build the memory of the receiving application
  is the whole source, its handle is flagged as closed, and a packet that says the stream is done is sent to the sender. The
  session itself stays in its streaming state; what the sender does with the packet is not part of it.\<close>

theorem lost_datagram_repaired:
  fixes A :: "'k aead" and h :: "('k, 's) host"
  assumes "aead_correct A" "aead_total A"
    and "length src + MAX_PAYLOAD_LENGTH < 2 ^ 32" "length src mod MAX_PAYLOAD_LENGTH \<noteq> 0"
    and "lossy_run A True src sid l xs h"
  shows "repaired sid src (ho_manager (host_receive_all A a xs h))"
proof -
  have "l < chunk_count src" using assms(5) by (auto simp: lossy_run_def carries_def)
  then show ?thesis using stream_repaired [OF assms, of a] by (simp add: block_payload_def replaced_self)
qed

lemma all_same: "xs = replicate (length xs) z \<longleftrightarrow> set xs \<subseteq> {z}"
  by (induction xs) auto

text \<open>C31: A release build repairs with zeros. Under the same conditions the memory of the receiving application ends
  with zeros in the place of the lost chunk, and the stream is declared closed and done all the same: the payload is
  copied into the block of the error correction inside a \<open>debug_assert!\<close>. Unless the chunk was all zeros, the memory
  is not the source.\<close>

theorem release_repairs_with_zeros:
  fixes A :: "'k aead" and h :: "('k, 's) host"
  assumes "aead_correct A" "aead_total A"
    and "length src + MAX_PAYLOAD_LENGTH < 2 ^ 32" "length src mod MAX_PAYLOAD_LENGTH \<noteq> 0"
    and "lossy_run A False src sid l xs h"
  shows "\<exists>data. repaired sid data (ho_manager (host_receive_all A a xs h))
    \<and> data = replaced src l (replicate (length (snd (chunk_of src l))) 0)
    \<and> (data = src \<longleftrightarrow> set (snd (chunk_of src l)) \<subseteq> {0})"
proof -
  let ?c = "snd (chunk_of src l)"
  let ?data = "replaced src l (replicate (length ?c) 0)"
  have l: "l < chunk_count src" using assms(5) by (auto simp: lossy_run_def carries_def)
  have r: "repaired sid ?data (ho_manager (host_receive_all A a xs h))"
    using stream_repaired [OF assms, of a] by (simp add: block_payload_def)
  have "chunk_of ?data l = (fst (chunk_of src l), replicate (length ?c) 0)"
    by (rule replaced_chunks(3) [OF l]) simp
  then have "?data = src \<Longrightarrow> ?c = replicate (length ?c) 0" by (metis snd_conv)
  moreover have "?c = replicate (length ?c) 0 \<Longrightarrow> ?data = src" using replaced_self [OF l] by simp
  moreover have "?c = replicate (length ?c) 0 \<longleftrightarrow> set ?c \<subseteq> {0}" by (rule all_same)
  ultimately show ?thesis using r by blast
qed

text \<open>The source \<open>[1, 2, 3]\<close>, whose only data datagram is lost.\<close>

lemma demo_lossy:
  obtains pd where "lossy_run demo_aead dbg [1, 2, 3] 7 0 [((demo_env 4)\<lparr>en_dbg := dbg\<rparr>, pd)] demo_receiver"
proof -
  let ?src = "[1, 2, 3] :: bytes" and ?tr = "pr_encryption (ho_manager demo_receiver)"
  have n: "chunk_count ?src = 1" by (simp add: chunk_count_def MAX_PAYLOAD_LENGTH_def)
  have s: "sending ?src 0 1 (demo_sender ?src)"
    by (simp add: sending_def demo_sender_def rb_from_at stream_message_default_def)
  from ticks_fresh [OF s, of 1 dbg 0 7 demo_address] n obtain ws s' where
    ws: "stream_ticks dbg 0 7 demo_address 1 [] (demo_sender ?src) = (Ok ws, [], s')" by auto
  obtain ps bid where ps: "ws = map (\<lambda>p. wrap (DataPacket p) demo_address) ps" "one_batch bid 7 ps"
    "length ps = chunk_count ?src" "\<forall>j<chunk_count ?src. carries ?src 7 j (ps ! j)" "\<forall>p\<in>set ps. data_sent ?src 7 p"
    by (rule tick_batch [OF s _ _ ws]) (simp_all add: n)
  then obtain p where p: "ps = [p]" "carries ?src 7 0 p" using n by (auto simp: length_Suc_conv)
  let ?ds = "send_with_parity dbg 0 demo_aead [(7, enc_window_new 7)] xor_new ws"
  have "list_all2 (taken_packet demo_aead ?tr) ?ds (map DataPacket ps @ [ParityPacket (parity_of dbg 0 bid 7 ([] @ ps))])"
    unfolding ps(1)
    by (rule send_with_parity_taken [OF demo_aead_correct demo_aead_total, where src = ?src])
      (use ps p demo_receiver_ready(2) in \<open>simp_all add: xor_new_def\<close>)
  then obtain d pd where ds: "?ds = [d, pd]" "taken_as demo_aead ?tr d p"
    using p by (auto simp: list_all2_Cons2 taken_packet_data)
  have fec: "pr_fec (ho_manager demo_receiver) = xor_new"
    by (simp add: demo_receiver_def insert_key_def set_connection_def protocol_new_def)
  have "lossy_run demo_aead dbg ?src 7 0 [((demo_env 4)\<lparr>en_dbg := dbg\<rparr>, pd)] demo_receiver"
    unfolding lossy_run_def
  proof (intro conjI exI)
    show "sending ?src 0 1 (demo_sender ?src)" by (rule s)
    show "stream_ticks dbg 0 7 demo_address 1 [] (demo_sender ?src) = (Ok ws, [], s')" by (rule ws)
    show "taken_as demo_aead ?tr d p" by (rule ds(2))
    show "mset (send_with_parity dbg 0 demo_aead [(7, enc_window_new 7)] xor_new ws)
        = add_mset d (mset (map snd [((demo_env 4)\<lparr>en_dbg := dbg\<rparr>, pd)]))" using ds(1) by simp
    show "shared_key [(7, enc_window_new 7)] ?tr 7" by (rule demo_receiver_ready(2))
    show "connection (ho_manager demo_receiver) 7 = Some (Established demo_established)" by (rule demo_receiver_ready(1))
    show "es_state demo_established = Session_Streaming demo_stream" by (simp add: demo_established_def)
    show "length ([0, 0, 0] :: bytes) = length ?src" by simp
  qed (use p(2) n in \<open>simp_all add: xor_new_def fec demo_established_def demo_stream_def stream_message_default_def\<close>)
  then show thesis by (rule that)
qed

theorem lost_datagram_repaired_witness:
  "\<exists>pd. repaired 7 [1, 2, 3] (ho_manager (host_receive_all demo_aead demo_address
      [((demo_env 4)\<lparr>en_dbg := True\<rparr>, pd)] demo_receiver))"
proof -
  obtain pd where "lossy_run demo_aead True [1, 2, 3] 7 0 [((demo_env 4)\<lparr>en_dbg := True\<rparr>, pd)] demo_receiver"
    by (rule demo_lossy)
  from lost_datagram_repaired [OF demo_aead_correct demo_aead_total _ _ this, of demo_address] show ?thesis
    by (auto simp: MAX_PAYLOAD_LENGTH_def)
qed

theorem release_repairs_with_zeros_witness:
  "\<exists>pd. repaired 7 [0, 0, 0] (ho_manager (host_receive_all demo_aead demo_address
      [((demo_env 4)\<lparr>en_dbg := False\<rparr>, pd)] demo_receiver))"
proof -
  obtain pd where "lossy_run demo_aead False [1, 2, 3] 7 0 [((demo_env 4)\<lparr>en_dbg := False\<rparr>, pd)] demo_receiver"
    by (rule demo_lossy)
  from release_repairs_with_zeros [OF demo_aead_correct demo_aead_total _ _ this, of demo_address]
  obtain data where "repaired 7 data (ho_manager (host_receive_all demo_aead demo_address
      [((demo_env 4)\<lparr>en_dbg := False\<rparr>, pd)] demo_receiver))"
    "data = replaced [1, 2, 3] 0 (replicate (length (snd (chunk_of [1, 2, 3] 0))) 0)"
    by (auto simp: MAX_PAYLOAD_LENGTH_def)
  moreover have "replaced [1, 2, 3] 0 (replicate (length (snd (chunk_of [1, 2, 3] 0))) 0) = [0, 0, 0 :: u8]"
    by (simp add: replaced_def chunk_of_def MAX_PAYLOAD_LENGTH_def)
  ultimately show ?thesis by metis
qed

end
