(* ===== verification/Crossing.thy ===== *)
theory Crossing imports Transport Delivery begin

text \<open>
  The size of a datagram, and with it the whole way of a packet: the outbound half of the packet processor, the
  transport layer of the receiver, whose buffer cuts a datagram that is too long, and the inbound half. The transport
  layer asserts at compile time that every packet struct fits (\<open>_SIZES_FIT\<close> of \<open>src/src/transport/types.rs\<close>); it
  looks at the size of the structs in memory, here the bytes on the wire are counted, encryption included.
\<close>

section \<open>Sizes\<close>

lemma encrypt_length:
  "aead_correct A \<Longrightarrow> length (fst (snd (encrypt A sid t aad pl))) \<le> length pl + 24"
  by (auto simp: encrypt_def encryption_get_def enc_window_get_def Let_def dest: aead_length split: option.splits)

lemma tag_length: "aead_correct A \<Longrightarrow> length (fst (snd (tag A sid t b))) \<le> length b + 24"
  by (auto simp: tag_def encryption_get_def enc_window_get_def Let_def dest: aead_length split: option.splits)

lemma encrypted_size:
  assumes "aead_correct A" and "fst (process_encrypted A sid t fs pl mk) = Ok d"
    and "\<And>ct. \<exists>es. encodes (mk ct) es \<and> length (concat es) = k + length ct"
  shows "length d \<le> k + length pl + 24"
proof -
  obtain aad where "headers fs = Ok aad" using assms(2) by (cases "headers fs") (simp_all add: process_encrypted_def)
  then have d: "serialize_packet (mk (fst (snd (encrypt A sid t aad pl)))) = Ok d"
    using assms(2) by (simp add: process_encrypted_def split_beta Let_def)
  obtain es where "encodes (mk (fst (snd (encrypt A sid t aad pl)))) es"
    "length (concat es) = k + length (fst (snd (encrypt A sid t aad pl)))" using assms(3) by blast
  then show ?thesis using d encrypt_length [OF assms(1), of sid t aad pl] by (simp add: serialize_packet_concat)
qed

lemma authenticated_size:
  assumes "aead_correct A" and "fst (process_authenticated A sid t fs) = Ok d" and "encodes fs es"
  shows "length d \<le> length (concat es) + 24"
  using assms(2) tag_length [OF assms(1), of sid t "concat es"]
  by (simp add: process_authenticated_def serialize_packet_concat [OF assms(3)] split_beta Let_def)

lemma finish_datagram:
  assumes "fst (finish addr pt n effects r) = Ok effs" and "ToTransport pp \<in> set effs"
    and "\<forall>pp. ToTransport pp \<notin> set effects"
  shows "fst r = Ok (pp_data pp)"
  using assms by (auto simp: finish_def map_res_Ok_iff processed_def)

lemma pending_no_datagram [simp]: "ToTransport pp \<notin> set (pending_if b p)"
  by (simp add: pending_if_def)

text \<open>What the constructors of the packets assert of their variable parts.\<close>

fun wire_limits :: "packet \<Rightarrow> bool" where
  "wire_limits (HelloPacket p) \<longleftrightarrow> length (he_public_key p) = 32 \<and> length (he_app_id p) \<le> APP_ID_MAX_LENGTH"
| "wire_limits (TrackRequestPacket p) \<longleftrightarrow> length (tr_payload p) \<le> MAX_PAYLOAD_LENGTH"
| "wire_limits (TrackRejectionPacket p) \<longleftrightarrow> length (tj_payload p) \<le> MAX_PAYLOAD_LENGTH"
| "wire_limits (DataPacket p) \<longleftrightarrow> length (da_payload p) \<le> MAX_PAYLOAD_LENGTH"
| "wire_limits (RetransmitPacket p) \<longleftrightarrow> length (re_payload p) \<le> RETRANSMIT_MAX_PAYLOAD_LENGTH div byte_range_elem_size"
| "wire_limits (AckPacket p) \<longleftrightarrow> ack_packet_valid p"
| "wire_limits (UnexpectedPacketErrorPacket p) \<longleftrightarrow> length (up_received_fingerprint p) = 16"
| "wire_limits p \<longleftrightarrow> True"

text \<open>One lemma for each shape of a branch of \<open>handle_packet\<close>.\<close>

lemma encrypted_datagram:
  assumes A: "aead_correct A" and h: "fst (finish addr pt n effects (process_encrypted A sid t fs pl mk)) = Ok effs"
    and pp: "ToTransport pp \<in> set effs" and none: "\<forall>pp. ToTransport pp \<notin> set effects"
    and encs: "\<And>ct. encodes (mk ct) (es ct)" and size: "\<And>ct. length (concat (es ct)) = k + length ct"
    and pl: "length pl \<le> MAX_PAYLOAD_LENGTH" and k: "k \<le> 40"
  shows "length (pp_data pp) \<le> MAX_PACKET_SIZE"
proof -
  have "length (pp_data pp) \<le> k + length pl + 24"
    by (rule encrypted_size [OF A finish_datagram [OF h pp none]]) (use encs size in blast)
  then show ?thesis using pl k by (simp add: MAX_PAYLOAD_LENGTH_def MAX_PACKET_SIZE_def)
qed

lemma authenticated_datagram:
  assumes A: "aead_correct A" and h: "fst (finish addr pt n effects (process_authenticated A sid t fs)) = Ok effs"
    and pp: "ToTransport pp \<in> set effs" and none: "\<forall>pp. ToTransport pp \<notin> set effects"
    and es: "encodes fs es" and k: "length (concat es) \<le> MAX_PAYLOAD_LENGTH + 40"
  shows "length (pp_data pp) \<le> MAX_PACKET_SIZE"
  using authenticated_size [OF A finish_datagram [OF h pp none] es] k
  by (simp add: MAX_PAYLOAD_LENGTH_def MAX_PACKET_SIZE_def)

lemma plain_datagram:
  assumes "fst (finish addr pt n effects (serialize_packet fs, t)) = Ok effs" and "ToTransport pp \<in> set effs"
    and "\<forall>pp. ToTransport pp \<notin> set effects" and "encodes fs es" and "length (concat es) \<le> 1432"
  shows "length (pp_data pp) \<le> MAX_PACKET_SIZE"
  using finish_datagram [OF assms(1-3)] assms(5)
  by (simp add: serialize_packet_concat [OF assms(4)] MAX_PACKET_SIZE_def)

lemma data_datagram:
  assumes "aead_correct A" and "wire_limits (DataPacket p)"
    and "fst (outbound_handle A t (DataPacket p) addr) = Ok effs" and "ToTransport pp \<in> set effs"
  shows "length (pp_data pp) \<le> MAX_PACKET_SIZE"
  using assms
  by (auto simp: split_beta Let_def data_packet_fields_def data_packet_encs_def packet
      intro!: encrypted_datagram [where es = "\<lambda>ct. data_packet_encs (p\<lparr>da_opts := fst (add_ack (da_opts p)), da_payload := ct\<rparr>)" and k = 30])

lemma track_request_datagram:
  assumes "aead_correct A" and "wire_limits (TrackRequestPacket p)"
    and "fst (outbound_handle A t (TrackRequestPacket p) addr) = Ok effs" and "ToTransport pp \<in> set effs"
  shows "length (pp_data pp) \<le> MAX_PACKET_SIZE"
  using assms
  by (auto simp: split_beta Let_def track_request_fields_def track_request_encs_def packet
      intro!: encrypted_datagram [where es = "\<lambda>ct. track_request_encs (p\<lparr>tr_opts := fst (add_ack (tr_opts p)), tr_payload := ct\<rparr>)" and k = 24])

lemma track_rejection_datagram:
  assumes "aead_correct A" and "wire_limits (TrackRejectionPacket p)"
    and "fst (outbound_handle A t (TrackRejectionPacket p) addr) = Ok effs" and "ToTransport pp \<in> set effs"
  shows "length (pp_data pp) \<le> MAX_PACKET_SIZE"
  using assms
  by (auto simp: split_beta Let_def track_rejection_fields_def track_rejection_encs_def packet
      intro!: encrypted_datagram [where es = "\<lambda>ct. track_rejection_encs (p\<lparr>tj_opts := fst (add_ack (tj_opts p)), tj_payload := ct\<rparr>)" and k = 24])

lemma retransmit_datagram:
  assumes "aead_correct A" and "wire_limits (RetransmitPacket p)"
    and "fst (outbound_handle A t (RetransmitPacket p) addr) = Ok effs" and "ToTransport pp \<in> set effs"
  shows "length (pp_data pp) \<le> MAX_PACKET_SIZE"
  using assms
  by (auto simp: split_beta Let_def retransmit_fields_def retransmit_encs_def MAX_PAYLOAD_LENGTH_def RETRANSMIT_MAX_PAYLOAD_LENGTH_def packet
      intro!: authenticated_datagram [where es = "retransmit_encs (p\<lparr>re_opts := fst (add_ack (re_opts p))\<rparr>)"])

lemma playback_datagram:
  assumes "aead_correct A" and "wire_limits (PlaybackControlPacket p)"
    and "fst (outbound_handle A t (PlaybackControlPacket p) addr) = Ok effs" and "ToTransport pp \<in> set effs"
  shows "length (pp_data pp) \<le> MAX_PACKET_SIZE"
  using assms
  by (auto simp: split_beta Let_def playback_control_fields_def playback_control_encs_def MAX_PAYLOAD_LENGTH_def  packet
      intro!: authenticated_datagram [where es = "playback_control_encs (p\<lparr>pc_opts := fst (add_ack (pc_opts p))\<rparr>)"])

lemma close_datagram:
  assumes "aead_correct A" and "wire_limits (CloseSessionPacket p)"
    and "fst (outbound_handle A t (CloseSessionPacket p) addr) = Ok effs" and "ToTransport pp \<in> set effs"
  shows "length (pp_data pp) \<le> MAX_PACKET_SIZE"
  using assms
  by (auto simp: split_beta Let_def close_session_fields_def close_session_encs_def MAX_PAYLOAD_LENGTH_def  packet
      intro!: authenticated_datagram [where es = "close_session_encs p"])

lemma no_session_datagram:
  assumes "aead_correct A" and "wire_limits (SessionDoesNotExistErrorPacket p)"
    and "fst (outbound_handle A t (SessionDoesNotExistErrorPacket p) addr) = Ok effs" and "ToTransport pp \<in> set effs"
  shows "length (pp_data pp) \<le> MAX_PACKET_SIZE"
  using assms
  by (auto simp: split_beta Let_def session_does_not_exist_fields_def session_does_not_exist_encs_def MAX_PAYLOAD_LENGTH_def  packet
      intro!: authenticated_datagram [where es = "session_does_not_exist_encs (p\<lparr>sd_opts := fst (add_ack (sd_opts p))\<rparr>)"])

lemma keep_alive_datagram:
  assumes "aead_correct A" and "wire_limits (KeepAlivePacket p)"
    and "fst (outbound_handle A t (KeepAlivePacket p) addr) = Ok effs" and "ToTransport pp \<in> set effs"
  shows "length (pp_data pp) \<le> MAX_PACKET_SIZE"
  using assms
  by (auto simp: split_beta Let_def keep_alive_fields_def keep_alive_encs_def MAX_PAYLOAD_LENGTH_def  packet
      intro!: authenticated_datagram [where es = "keep_alive_encs p"])

lemma unexpected_datagram:
  assumes "aead_correct A" and "wire_limits (UnexpectedPacketErrorPacket p)"
    and "fst (outbound_handle A t (UnexpectedPacketErrorPacket p) addr) = Ok effs" and "ToTransport pp \<in> set effs"
  shows "length (pp_data pp) \<le> MAX_PACKET_SIZE"
  using assms
  by (auto simp: split_beta Let_def unexpected_packet_fields_def unexpected_packet_encs_def MAX_PAYLOAD_LENGTH_def  packet
      intro!: authenticated_datagram [where es = "unexpected_packet_encs p"])

lemma ack_datagram:
  assumes "aead_correct A" and "wire_limits (AckPacket p)"
    and "fst (outbound_handle A t (AckPacket p) addr) = Ok effs" and "ToTransport pp \<in> set effs"
  shows "length (pp_data pp) \<le> MAX_PACKET_SIZE"
  using assms
  by (auto simp: split_beta Let_def ack_packet_fields_def ack_packet_encs_def MAX_PAYLOAD_LENGTH_def ack_packet_valid_def packet
      intro!: authenticated_datagram [where es = "ack_packet_encs p"])

lemma hello_datagram:
  assumes "wire_limits (HelloPacket p)" and "fst (outbound_handle A t (HelloPacket p) addr) = Ok effs"
    and "ToTransport pp \<in> set effs"
  shows "length (pp_data pp) \<le> MAX_PACKET_SIZE"
  using assms
  by (auto simp: hello_fields_def hello_encs_def APP_ID_MAX_LENGTH_def packet
      intro!: plain_datagram [where es = "hello_encs p"])

lemma handshake_rejection_datagram:
  assumes "wire_limits (HandshakeRejection p)" and "fst (outbound_handle A t (HandshakeRejection p) addr) = Ok effs"
    and "ToTransport pp \<in> set effs"
  shows "length (pp_data pp) \<le> MAX_PACKET_SIZE"
  using assms
  by (auto simp: handshake_rejection_fields_def handshake_rejection_encs_def  packet
      intro!: plain_datagram [where es = "handshake_rejection_encs p"])

lemma handshake_ack_datagram:
  assumes "wire_limits (HandshakeAckPacket p)" and "fst (outbound_handle A t (HandshakeAckPacket p) addr) = Ok effs"
    and "ToTransport pp \<in> set effs"
  shows "length (pp_data pp) \<le> MAX_PACKET_SIZE"
  using assms
  by (auto simp: handshake_ack_fields_def handshake_ack_encs_def  packet
      intro!: plain_datagram [where es = "handshake_ack_encs p"])

lemma version_datagram:
  assumes "wire_limits (IncompatibleVersionPacket p)" and "fst (outbound_handle A t (IncompatibleVersionPacket p) addr) = Ok effs"
    and "ToTransport pp \<in> set effs"
  shows "length (pp_data pp) \<le> MAX_PACKET_SIZE"
  using assms
  by (auto simp: incompatible_version_fields_def incompatible_version_encs_def  packet
      intro!: plain_datagram [where es = "incompatible_version_encs p"])

text \<open>What a parity packet carries is as long as the longest block of a batch.\<close>

lemma parity_datagram:
  assumes "aead_correct A" and "length (pa_payload p) \<le> PARITY_MAX_PAYLOAD_LENGTH"
    and "fst (handle_parity A t p addr) = Ok pp"
  shows "length (pp_data pp) \<le> MAX_PACKET_SIZE"
proof -
  have "fst (process_encrypted A (pa_session_id p) t (parity_packet_fields p) (pa_payload p)
      (\<lambda>pl. parity_packet_fields (p\<lparr>pa_payload := pl\<rparr>))) = Ok (pp_data pp)"
    using assms(3) by (auto simp: handle_parity_def split_beta Let_def map_res_Ok_iff processed_def)
  then have "length (pp_data pp) \<le> 26 + length (pa_payload p) + 24"
  proof (rule encrypted_size [OF assms(1)])
    fix ct
    show "\<exists>es. encodes (parity_packet_fields (p\<lparr>pa_payload := ct\<rparr>)) es \<and> length (concat es) = 26 + length ct"
      by (rule exI [of _ "parity_packet_encs (p\<lparr>pa_payload := ct\<rparr>)"])
        (simp add: parity_packet_fields_def parity_packet_encs_def packet)
  qed
  then show ?thesis
    using assms(2) by (simp add: PARITY_MAX_PAYLOAD_LENGTH_def MAX_PAYLOAD_LENGTH_def MAX_PACKET_SIZE_def)
qed

lemma outbound_datagram:
  assumes "aead_correct A" and "wire_limits p" and "fst (outbound_handle A t p addr) = Ok effs"
    and "ToTransport pp \<in> set effs"
  shows "length (pp_data pp) \<le> MAX_PACKET_SIZE"
proof (cases p)
  case (MetadataPacket q)
  then show ?thesis using assms(3,4) by auto
next
  case (ParityPacket q)
  then show ?thesis using assms(3,4) by simp
qed (use assms in \<open>blast intro: data_datagram track_request_datagram track_rejection_datagram retransmit_datagram
    playback_datagram close_datagram no_session_datagram keep_alive_datagram unexpected_datagram ack_datagram
    hello_datagram handshake_rejection_datagram handshake_ack_datagram version_datagram\<close>)+

section \<open>What the outbound half hands over\<close>

text \<open>The datagrams of the tasks that handle packets, one after the other, and of the tasks of the error
  correction they start; each finds the tables of keys the others have left by then.\<close>

fun transport_part :: "outbound_effect list \<Rightarrow> processed_packet list" where
  "transport_part [] = []"
| "transport_part (ToTransport pp # es) = pp # transport_part es"
| "transport_part (e # es) = transport_part es"

definition parities_of :: "processed_packet ures list ures \<Rightarrow> processed_packet list" where
  "parities_of r = (case r of Ok rs \<Rightarrow> concat (map (\<lambda>r. case r of Ok pp \<Rightarrow> [pp] | _ \<Rightarrow> []) rs) | _ \<Rightarrow> [])"

fun fec_part ::
  "bool \<Rightarrow> timestamp \<Rightarrow> 'k aead \<Rightarrow> 'k enc_table \<Rightarrow> address \<Rightarrow> outbound_effect list \<Rightarrow> xor_state
     \<Rightarrow> processed_packet list \<times> xor_state" where
  "fec_part dbg now A t addr [] st = ([], st)"
| "fec_part dbg now A t addr (DispatchFec p # es) st =
     (let (r, t, st) = handle_fec dbg now A t st p addr; (pps, st) = fec_part dbg now A t addr es st
      in (parities_of r @ pps, st))"
| "fec_part dbg now A t addr (e # es) st = fec_part dbg now A t addr es st"

type_synonym 'k handling = "timestamp \<times> 'k enc_table \<times> 'k enc_table \<times> packet \<times> address"

fun handed_over :: "bool \<Rightarrow> 'k aead \<Rightarrow> 'k handling list \<Rightarrow> xor_state \<Rightarrow> processed_packet list" where
  "handed_over dbg A [] st = []"
| "handed_over dbg A ((now, t, u, p, addr) # hs) st =
     (case fst (outbound_handle A t p addr) of
        Ok effs \<Rightarrow> (let (pps, st) = fec_part dbg now A u addr effs st
                   in transport_part effs @ pps @ handed_over dbg A hs st)
      | _ \<Rightarrow> handed_over dbg A hs st)"

text \<open>A block is no longer than \<open>FEC_DATA_SIZE\<close>, whatever is folded into it.\<close>

definition room :: "xor_state \<Rightarrow> bool" where
  "room st \<longleftrightarrow> (\<forall>k b. hm_get (xs_outbound st) k = Some b \<longrightarrow> length (ob_product b) \<le> FEC_DATA_SIZE)"

lemma transport_part_set: "pp \<in> set (transport_part es) \<Longrightarrow> ToTransport pp \<in> set es"
  by (induction es rule: transport_part.induct) auto

lemma parity_payload_kept:
  "parity_packet_new dbg now opts bid info sid pl = Ok p \<Longrightarrow> pa_payload p = pl"
  by (auto simp: parity_packet_new_def parity_payload_new_def and_then_Ok_iff map_res_Ok_iff debug_assert_def
      split: if_splits)

lemma xor_sent_room:
  assumes "room st"
  shows "room (snd (xor_sent dbg now f st))
    \<and> (\<forall>ps. fst (xor_sent dbg now f st) = Ok (Some ps) \<longrightarrow> (\<forall>p \<in> set ps. length (pa_payload p) \<le> FEC_DATA_SIZE))"
proof -
  define e where "e = (case hm_get (xs_outbound st) (fec_key f) of
    Some e \<Rightarrow> e | None \<Rightarrow> outbound_new (batch_size (fp_fec_info f)))"
  have "length (ob_product e) \<le> FEC_DATA_SIZE"
    using assms [unfolded room_def, rule_format, of "fec_key f"] unfolding e_def
    by (cases "hm_get (xs_outbound st) (fec_key f)") (simp_all add: outbound_new_def fec_data_zero_def)
  then have "length (ob_product (snd (outbound_add (fp_data f) e))) \<le> FEC_DATA_SIZE"
    by (simp add: outbound_add_def data_xor_def)
  then show ?thesis
    using assms
    by (auto simp: xor_sent_def e_def [symmetric] split_beta Let_def room_def hm_get_insert hm_get_remove
        and_then_Ok_iff map_res_Ok_iff dest!: parity_payload_kept split: if_splits)
qed

lemma handle_fec_room:
  assumes "aead_correct A" "room st"
  shows "room (snd (snd (handle_fec dbg now A t st p addr)))
    \<and> (\<forall>pp \<in> set (parities_of (fst (handle_fec dbg now A t st p addr))). length (pp_data pp) \<le> MAX_PACKET_SIZE)"
proof (cases "fec_of_data dbg p")
  case (Ok f)
  have parities: "\<forall>r \<in> set (fst (handle_parities A t ps addr)). \<forall>pp. r = Ok pp \<longrightarrow> length (pp_data pp) \<le> MAX_PACKET_SIZE"
    if "\<forall>p \<in> set ps. length (pa_payload p) \<le> FEC_DATA_SIZE" for ps t
    using that by (induction ps arbitrary: t)
      (auto simp: split_beta Let_def FEC_DATA_SIZE_def intro: parity_datagram [OF assms(1)])
  obtain r st' where x: "xor_sent dbg now f st = (r, st')" by fastforce
  show ?thesis
    using Ok x xor_sent_room [OF assms(2), of dbg now f]
    by (auto simp: handle_fec_def parities_of_def split_beta Let_def split: res.splits option.splits
        dest: parities)
qed (use assms(2) in \<open>simp_all add: handle_fec_def parities_of_def\<close>)

lemma fec_part_room:
  "\<lbrakk> aead_correct A; room st \<rbrakk> \<Longrightarrow> room (snd (fec_part dbg now A t addr es st))
    \<and> (\<forall>pp \<in> set (fst (fec_part dbg now A t addr es st)). length (pp_data pp) \<le> MAX_PACKET_SIZE)"
proof (induction dbg now A t addr es st rule: fec_part.induct)
  case (2 dbg now A t addr p es st)
  obtain r t' st' where x: "handle_fec dbg now A t st p addr = (r, t', st')" by (metis prod_cases3)
  then have "room st'" "\<forall>pp \<in> set (parities_of r). length (pp_data pp) \<le> MAX_PACKET_SIZE"
    using handle_fec_room [OF 2(2,3), of dbg now t p addr] by simp_all
  then show ?case using 2(1) [OF x [symmetric] refl refl 2(2)] x by (auto simp: split_beta Let_def)
qed simp_all

lemma handed_over_size:
  "\<lbrakk> aead_correct A; list_all (\<lambda>(now, t, u, p, addr). wire_limits p) hs; room st \<rbrakk> \<Longrightarrow>
   \<forall>pp \<in> set (handed_over dbg A hs st). length (pp_data pp) \<le> MAX_PACKET_SIZE"
proof (induction hs arbitrary: st)
  case (Cons h hs)
  obtain now t u p addr where h: "h = (now, t, u, p, addr)" by (cases h)
  show ?case
  proof (cases "fst (outbound_handle A t p addr)")
    case (Ok effs)
    have "\<forall>pp \<in> set (transport_part effs). length (pp_data pp) \<le> MAX_PACKET_SIZE"
      using Cons.prems Ok h by (auto dest!: transport_part_set intro: outbound_datagram [of A p t addr effs])
    then show ?thesis
      using Cons fec_part_room [OF Cons.prems(1,3), of dbg now u addr effs] Ok h
      by (auto simp: split_beta Let_def)
  qed (use Cons h in simp_all)
qed simp

text \<open>C24: No datagram is ever cut. Whatever packets the manager hands over, as long as they respect what the
  constructors assert, and in whatever state the keys are when a task comes to need them, every datagram the
  outbound half gives to the transport layer, those of the parity packets included, fits in the 1432 bytes of
  the receiver's buffer, the counter of the nonce and the tag counted.\<close>

theorem datagram_fits:
  assumes "aead_correct A" and "list_all (\<lambda>(now, t, u, p, addr). wire_limits p) hs"
    and "pp \<in> set (handed_over dbg A hs xor_new)"
  shows "length (pp_data pp) \<le> MAX_PACKET_SIZE
    \<and> inbound_transport 0 [Read_Datagram (pp_data pp) src True] = ([ReceivedPacket (pp_data pp) src], Inbound_Listening)"
proof -
  have "room xor_new" by (simp add: room_def xor_new_def)
  then have "length (pp_data pp) \<le> MAX_PACKET_SIZE" using handed_over_size [OF assms(1,2)] assms(3) by blast
  then show ?thesis by simp
qed

theorem datagram_fits_witness:
  "\<exists>pp. pp \<in> set (handed_over False demo_aead [(0, demo_table, demo_table, DataPacket demo_data, demo_addr)] xor_new)
     \<and> length (pp_data pp) \<le> MAX_PACKET_SIZE
     \<and> inbound_transport 0 [Read_Datagram (pp_data pp) demo_addr True]
         = ([ReceivedPacket (pp_data pp) demo_addr], Inbound_Listening)"
proof -
  have "delivers False demo_aead (take 16) demo_table demo_table (DataPacket demo_data) demo_addr"
    by (rule delivers_all [OF demo_aead_correct demo_aead_total])
      (simp_all add: demo_data_def MAX_PAYLOAD_LENGTH_def key_ok_def demo_shared)
  then obtain effs pp where e: "fst (outbound_handle demo_aead demo_table (DataPacket demo_data) demo_addr)
      = Ok (effs @ [ToTransport pp])"
    unfolding delivers_def by blast
  have "pp \<in> set (transport_part (effs @ [ToTransport pp]))"
    by (induction effs rule: transport_part.induct) simp_all
  then have mem: "pp \<in> set (handed_over False demo_aead
      [(0, demo_table, demo_table, DataPacket demo_data, demo_addr)] xor_new)"
    by (simp only: handed_over.simps e res.case split_beta Let_def) simp
  show ?thesis
    using mem by (intro exI conjI, assumption)
      (rule datagram_fits [OF demo_aead_correct _ mem, THEN conjunct1],
        simp add: demo_data_def MAX_PAYLOAD_LENGTH_def,
        rule datagram_fits [OF demo_aead_correct _ mem, THEN conjunct2],
        simp add: demo_data_def MAX_PAYLOAD_LENGTH_def)
qed



end
