(* ===== verification/Macros.thy ===== *)
theory Macros imports Outbound begin

text \<open>
  The derive macros of \<open>src/ubass_macros/src/lib.rs\<close> as functions from declarations to generated code, with a
  meaning for that code. \<open>Derive\<close> models what the generated code does for the types of the crate; here the macros
  themselves are modelled, for every declaration, and what they generate is shown to do that.

  The part of a declaration the macros read is a \<open>derive_input\<close>; parsing it is left to the crate \<open>syn\<close>. An
  expansion is \<open>Panic\<close> where the macro panics, and \<open>None\<close> where it does not end. A value is the list of its fields'
  values; the type of a field stands for its \<open>Serialize\<close> impl, a record of three functions.
\<close>

section \<open>Declarations\<close>

datatype token = Tok_Ident string | Tok_Other string

record attribute =
  at_path :: string
  at_args :: "token list option"

text \<open>A discriminant: an integer or a shift of one (\<open>1 << 3\<close>), either with a sum behind it.\<close>

datatype expr = Lit int | Shl int nat | Lit_Plus int int | Shl_Plus int nat int

datatype field_ref = Named_Field string | Index_Field nat

datatype struct_fields = Named_Fields "(string \<times> string) list" | Unnamed_Fields "string list" | Unit_Fields

datatype input_data =
    Data_Struct struct_fields
  | Data_Enum "(string \<times> expr option) list"
  | Data_Union

record derive_input =
  in_ident :: string
  in_attrs :: "attribute list"
  in_data :: input_data

section \<open>The integer type of an enum\<close>

text \<open>
  \<open>SerializeAs::parse\<close>: identifiers are parsed until no input is left. Parsing one fails without consuming
  anything when the next token is not an identifier, and the loop goes on.
\<close>

partial_function (option) repr_idents :: "token list \<Rightarrow> string list option" where
  "repr_idents ts =
     (case ts of
        [] \<Rightarrow> Some []
      | Tok_Ident i # ts' \<Rightarrow> Option.bind (repr_idents ts') (\<lambda>is. Some (i # is))
      | Tok_Other x # ts' \<Rightarrow> Option.bind (repr_idents (Tok_Other x # ts')) Some)"

definition INT_TYPES :: "string list" where
  "INT_TYPES = [''i8'', ''i16'', ''i32'', ''i64'', ''i128'', ''isize'', ''u8'', ''u16'', ''u32'', ''u64'',
     ''u128'', ''usize'']"

definition serialize_as :: "token list \<Rightarrow> string ures option" where
  "serialize_as ts =
     map_option (\<lambda>is. case filter (\<lambda>i. i \<in> set INT_TYPES) is of [] \<Rightarrow> Panic | xs \<Rightarrow> Ok (last xs)) (repr_idents ts)"

fun find_serialize_as :: "attribute list \<Rightarrow> string option ures option" where
  "find_serialize_as [] = Some (Ok None)"
| "find_serialize_as (a # as) =
     (if at_path a \<noteq> ''repr'' then find_serialize_as as
      else case at_args a of
             None \<Rightarrow> find_serialize_as as
           | Some ts \<Rightarrow> map_option (map_res Some) (serialize_as ts))"

section \<open>Enums\<close>

text \<open>
  The tokens \<open>last_expr + counter\<close>, parsed as an expression: \<open>+\<close> binds stronger than \<open><<\<close>.
\<close>

fun plus_counter :: "expr \<Rightarrow> int \<Rightarrow> expr" where
  "plus_counter (Lit n) c = Lit_Plus n c"
| "plus_counter (Shl a b) c = Shl_Plus a b c"
| "plus_counter (Lit_Plus n d) c = Lit_Plus n (d + c)"
| "plus_counter (Shl_Plus a b d) c = Shl_Plus a b (d + c)"

fun expr_value :: "expr \<Rightarrow> int" where
  "expr_value (Lit n) = n"
| "expr_value (Shl a b) = a * 2 ^ b"
| "expr_value (Lit_Plus n c) = n + c"
| "expr_value (Shl_Plus a b c) = a * 2 ^ (b + nat c)"

fun variant_exprs :: "int \<Rightarrow> expr \<Rightarrow> (string \<times> expr option) list \<Rightarrow> (string \<times> expr) list" where
  "variant_exprs counter last_expr [] = []"
| "variant_exprs counter last_expr ((v, Some e) # vs) = (v, e) # variant_exprs 1 e vs"
| "variant_exprs counter last_expr ((v, None) # vs) =
     (v, plus_counter last_expr counter) # variant_exprs counter last_expr vs"

record enum_rep =
  er_ident :: string
  er_repr :: string
  er_variants :: "(string \<times> expr) list"

definition enum_rep_new :: "derive_input \<Rightarrow> enum_rep ures option" where
  "enum_rep_new input =
     map_option (\<lambda>r. and_then r (\<lambda>ty.
        case ty of
          None \<Rightarrow> Panic
        | Some ty \<Rightarrow>
            (case in_data input of
               Data_Enum vs \<Rightarrow> Ok \<lparr>er_ident = in_ident input, er_repr = ty, er_variants = variant_exprs 0 (Lit 0) vs\<rparr>
             | _ \<Rightarrow> Panic)))
       (find_serialize_as (in_attrs input))"

text \<open>
  The generated \<open>deserialize\<close>: a chain of comparisons with the discriminants, cast to the integer type.
\<close>

record enum_impl =
  ei_ident :: string
  ei_repr :: string
  ei_ifs :: "(expr \<times> string) list"

definition enum_serialization :: "derive_input \<Rightarrow> enum_impl ures option" where
  "enum_serialization input =
     map_option (map_res (\<lambda>r. \<lparr>ei_ident = er_ident r, ei_repr = er_repr r,
         ei_ifs = map (\<lambda>(i, e). (e, i)) (er_variants r)\<rparr>))
       (enum_rep_new input)"

fun run_ifs :: "(expr \<times> string) list \<Rightarrow> 'a::len word \<Rightarrow> string ures" where
  "run_ifs [] tmp = Err ()"
| "run_ifs ((e, i) # ifs) tmp = (if tmp = word_of_int (expr_value e) then Ok i else run_ifs ifs tmp)"

definition run_enum_deserialize :: "'a::len itself \<Rightarrow> enum_impl \<Rightarrow> bytes \<Rightarrow> string ures" where
  "run_enum_deserialize ty impl bs =
     and_then (int_deserialize bs) (\<lambda>tmp :: 'a word. run_ifs (ei_ifs impl) tmp)"

section \<open>Structs\<close>

record struct_rep =
  sr_ident :: string
  sr_fields :: "(field_ref \<times> string) list"

definition named_refs :: "(string \<times> string) list \<Rightarrow> (field_ref \<times> string) list" where
  "named_refs fs = map (\<lambda>(i, t). (Named_Field i, t)) fs"

definition index_refs :: "string list \<Rightarrow> (field_ref \<times> string) list" where
  "index_refs ts = zip (map Index_Field [0..<length ts]) ts"

text \<open>\<open>StructRep::new\<close>; the callers panic on \<open>None\<close>.\<close>

definition struct_rep_new :: "derive_input \<Rightarrow> struct_rep option" where
  "struct_rep_new input =
     (case in_data input of
        Data_Struct (Named_Fields fs) \<Rightarrow> Some \<lparr>sr_ident = in_ident input, sr_fields = named_refs fs\<rparr>
      | Data_Struct (Unnamed_Fields ts) \<Rightarrow> Some \<lparr>sr_ident = in_ident input, sr_fields = index_refs ts\<rparr>
      | _ \<Rightarrow> None)"

text \<open>
  The generated code: the expression \<open>0 + self.a.sized() + ...\<close>; a statement that writes a field at such an
  offset, returning on an error or ignoring it; \<open>let f = <T>::deserialize(..)?; offset += f.sized();\<close>.
\<close>

datatype size_expr = Size_Zero | Size_Plus size_expr field_ref

datatype ser_stmt = Write_Or_Return field_ref size_expr | Write_Ignoring field_ref size_expr

record struct_impl =
  si_ident :: string
  si_sized :: size_expr
  si_serialize :: "ser_stmt list"
  si_deserialize :: "(field_ref \<times> string) list"
  si_construct :: "field_ref list"

fun serialize_stmts :: "size_expr \<Rightarrow> (field_ref \<times> string) list \<Rightarrow> ser_stmt list \<times> size_expr" where
  "serialize_stmts sz [] = ([], sz)"
| "serialize_stmts sz ((i, t) # fs) =
     (let (stmts, total_size) = serialize_stmts (Size_Plus sz i) fs in (Write_Or_Return i sz # stmts, total_size))"

definition struct_serialization :: "derive_input \<Rightarrow> struct_impl ures" where
  "struct_serialization input =
     (case struct_rep_new input of
        None \<Rightarrow> Panic
      | Some r \<Rightarrow>
          (let (stmts, total_size) = serialize_stmts Size_Zero (sr_fields r)
           in Ok \<lparr>si_ident = sr_ident r, si_sized = total_size, si_serialize = stmts,
                  si_deserialize = sr_fields r, si_construct = map fst (sr_fields r)\<rparr>))"

datatype serialize_impl = Enum_Impl enum_impl | Struct_Impl struct_impl

definition serialize_derive_macro :: "derive_input \<Rightarrow> serialize_impl ures option" where
  "serialize_derive_macro input =
     (case in_data input of
        Data_Enum _ \<Rightarrow> map_option (map_res Enum_Impl) (enum_serialization input)
      | Data_Struct _ \<Rightarrow> Some (map_res Struct_Impl (struct_serialization input))
      | Data_Union \<Rightarrow> Some Panic)"

text \<open>\<open>#[derive(Headers)]\<close>: named structs only, without the field \<open>payload\<close>.\<close>

fun header_stmts :: "size_expr \<Rightarrow> field_ref list \<Rightarrow> ser_stmt list \<times> size_expr" where
  "header_stmts sz [] = ([], sz)"
| "header_stmts sz (i # is) =
     (if i = Named_Field ''payload'' then header_stmts sz is
      else let (stmts, total_size) = header_stmts (Size_Plus sz i) is in (Write_Ignoring i sz # stmts, total_size))"

definition get_headers_impl :: "derive_input \<Rightarrow> (ser_stmt list \<times> size_expr) ures" where
  "get_headers_impl input =
     (case in_data input of
        Data_Struct (Named_Fields fs) \<Rightarrow> Ok (header_stmts Size_Zero (map fst (named_refs fs)))
      | _ \<Rightarrow> Panic)"

section \<open>What the generated code does\<close>

record 'v codec =
  co_sized :: "'v \<Rightarrow> nat"
  co_write :: "'v \<Rightarrow> writer"
  co_read :: "bytes \<Rightarrow> 'v ures"

text \<open>A field of \<open>self\<close>: the size of its value and its \<open>serialize\<close>.\<close>

type_synonym methods = "field_ref \<Rightarrow> nat \<times> writer"

fun size_value :: "methods \<Rightarrow> size_expr \<Rightarrow> nat" where
  "size_value m Size_Zero = 0"
| "size_value m (Size_Plus e i) = size_value m e + fst (m i)"

fun run_stmt :: "methods \<Rightarrow> ser_stmt \<Rightarrow> writer" where
  "run_stmt m (Write_Or_Return i e) buf =
     (if length buf < size_value m e then Panic
      else map_res (\<lambda>b. take (size_value m e) buf @ b) (snd (m i) (drop (size_value m e) buf)))"
| "run_stmt m (Write_Ignoring i e) buf =
     (if length buf < size_value m e then Panic
      else case snd (m i) (drop (size_value m e) buf) of
             Ok b \<Rightarrow> Ok (take (size_value m e) buf @ b) | Err _ \<Rightarrow> Ok buf | Panic \<Rightarrow> Panic)"

fun run_stmts :: "methods \<Rightarrow> ser_stmt list \<Rightarrow> writer" where
  "run_stmts m [] buf = Ok buf"
| "run_stmts m (s # ss) buf = and_then (run_stmt m s buf) (run_stmts m ss)"

definition run_serialize :: "methods \<Rightarrow> struct_impl \<Rightarrow> writer" where
  "run_serialize m impl buf =
     (if length buf < size_value m (si_sized impl) then Err () else run_stmts m (si_serialize impl) buf)"

definition run_headers :: "methods \<Rightarrow> ser_stmt list \<times> size_expr \<Rightarrow> bytes ures" where
  "run_headers m code = run_stmts m (fst code) (replicate (size_value m (snd code)) 0)"

text \<open>
  The \<open>let\<close>s bind a variable for each field, and the last line builds the value. A field that is called \<open>bytes\<close> or
  \<open>offset\<close> captures a variable of the generated code, which then does not compile or reads from the field; this is
  a \<open>Panic\<close> here.
\<close>

definition captures :: "field_ref \<Rightarrow> bool" where
  "captures i \<longleftrightarrow> i = Named_Field ''bytes'' \<or> i = Named_Field ''offset''"

fun run_lets ::
  "(string \<Rightarrow> 'v codec) \<Rightarrow> (field_ref \<times> string) list \<Rightarrow> bytes \<Rightarrow> nat \<Rightarrow> (field_ref \<Rightarrow> 'v option)
     \<Rightarrow> (field_ref \<Rightarrow> 'v option) ures" where
  "run_lets T [] bs off env = Ok env"
| "run_lets T ((i, t) # ds) bs off env =
     (if length bs < off \<or> captures i then Panic
      else and_then (co_read (T t) (drop off bs)) (\<lambda>x. run_lets T ds bs (off + co_sized (T t) x) (env(i \<mapsto> x))))"

fun build :: "field_ref list \<Rightarrow> (field_ref \<Rightarrow> 'v option) \<Rightarrow> 'v list ures" where
  "build [] env = Ok []"
| "build (i # is) env = (case env i of None \<Rightarrow> Panic | Some x \<Rightarrow> map_res (\<lambda>xs. x # xs) (build is env))"

definition run_deserialize :: "(string \<Rightarrow> 'v codec) \<Rightarrow> struct_impl \<Rightarrow> bytes \<Rightarrow> 'v list ures" where
  "run_deserialize T impl bs =
     and_then (run_lets T (si_deserialize impl) bs 0 Map.empty) (build (si_construct impl))"

text \<open>The methods of a value with the fields \<open>fs\<close>.\<close>

definition methods_of :: "(string \<Rightarrow> 'v codec) \<Rightarrow> (field_ref \<times> string) list \<Rightarrow> 'v list \<Rightarrow> methods" where
  "methods_of T fs xs i =
     (case map_of (zip (map fst fs) (zip (map snd fs) xs)) i of
        Some (t, x) \<Rightarrow> (co_sized (T t) x, co_write (T t) x)
      | None \<Rightarrow> (0, \<lambda>buf. Panic))"

section \<open>The other macros\<close>

text \<open>
  \<open>#[derive(Payload)]\<close> gives access to the field \<open>payload\<close>. \<open>#[derive(SendPacket)]\<close> wraps a struct into the
  variant of \<open>Packet\<close> that has its name and sends it to the packet processor; the impl for \<open>Packet\<close> itself is
  written by hand and goes through the structs' ones.
\<close>

definition payload_derive_macro :: "derive_input \<Rightarrow> field_ref" where
  "payload_derive_macro input = Named_Field ''payload''"

definition send_packet_derive_macro :: "derive_input \<Rightarrow> string ures" where
  "send_packet_derive_macro input = (case in_data input of Data_Struct _ \<Rightarrow> Ok (in_ident input) | _ \<Rightarrow> Panic)"

definition send_struct :: "('p \<Rightarrow> packet) \<Rightarrow> 'p \<Rightarrow> address \<Rightarrow> processing_message" where
  "send_struct variant p addr = SendPacket (wrap (variant p) addr)"

fun packet_send :: "packet \<Rightarrow> address \<Rightarrow> processing_message" where
  "packet_send (HelloPacket p) addr = send_struct HelloPacket p addr"
| "packet_send (TrackRequestPacket p) addr = send_struct TrackRequestPacket p addr"
| "packet_send (DataPacket p) addr = send_struct DataPacket p addr"
| "packet_send (MetadataPacket p) addr = send_struct MetadataPacket p addr"
| "packet_send (ParityPacket p) addr = send_struct ParityPacket p addr"
| "packet_send (AckPacket p) addr = send_struct AckPacket p addr"
| "packet_send (KeepAlivePacket p) addr = send_struct KeepAlivePacket p addr"
| "packet_send (RetransmitPacket p) addr = send_struct RetransmitPacket p addr"
| "packet_send (PlaybackControlPacket p) addr = send_struct PlaybackControlPacket p addr"
| "packet_send (IncompatibleVersionPacket p) addr = send_struct IncompatibleVersionPacket p addr"
| "packet_send (SessionDoesNotExistErrorPacket p) addr = send_struct SessionDoesNotExistErrorPacket p addr"
| "packet_send (UnexpectedPacketErrorPacket p) addr = send_struct UnexpectedPacketErrorPacket p addr"
| "packet_send (TrackRejectionPacket p) addr = send_struct TrackRejectionPacket p addr"
| "packet_send (HandshakeAckPacket p) addr = send_struct HandshakeAckPacket p addr"
| "packet_send (CloseSessionPacket p) addr = send_struct CloseSessionPacket p addr"
| "packet_send (HandshakeRejection p) addr = send_struct HandshakeRejection p addr"

lemma packet_send_wrap: "packet_send p addr = SendPacket (wrap p addr)"
  by (cases p) (simp_all add: send_struct_def)

text \<open>
  \<open>#[derive(Flags)]\<close>: the flag type of the attribute \<open>flagtype\<close> and the integer the struct holds. The struct is a
  tuple struct with one field; indexing an empty one panics too. The path of the flag type is identifiers with
  \<open>::\<close> between them (\<open>path_of\<close>).
\<close>

fun path_of :: "token list \<Rightarrow> string list ures" where
  "path_of [Tok_Ident i] = Ok [i]"
| "path_of (Tok_Ident i # Tok_Other s # ts) = (if s = ''::'' then map_res (\<lambda>is. i # is) (path_of ts) else Panic)"
| "path_of ts = Panic"

fun find_flagtype :: "attribute list \<Rightarrow> string list ures" where
  "find_flagtype [] = Panic"
| "find_flagtype (a # as) =
     (if at_path a \<noteq> ''flagtype'' then find_flagtype as
      else case at_args a of Some ts \<Rightarrow> path_of ts | None \<Rightarrow> Panic)"

definition flags_derive_macro :: "derive_input \<Rightarrow> (string list \<times> string) ures" where
  "flags_derive_macro input =
     and_then (find_flagtype (in_attrs input)) (\<lambda>flag_type.
       case in_data input of
         Data_Struct (Unnamed_Fields [flag_size]) \<Rightarrow> Ok (flag_type, flag_size)
       | _ \<Rightarrow> Panic)"

text \<open>\<open>variants_array\<close>: the constant \<open>VARIANTS\<close> of an enum, with its length.\<close>

definition variants_array :: "derive_input \<Rightarrow> (nat \<times> string list) ures" where
  "variants_array input =
     (case in_data input of
        Data_Enum vs \<Rightarrow> Ok (length vs, map fst vs)
      | _ \<Rightarrow> Panic)"

section \<open>Expansions and \<open>Derive\<close>\<close>

fun ref_name :: "field_ref \<Rightarrow> string" where
  "ref_name (Named_Field i) = i"
| "ref_name (Index_Field n) = []"

text \<open>The fields of a struct as \<open>Derive\<close> sees them.\<close>

definition derive_fields :: "methods \<Rightarrow> (field_ref \<times> string) list \<Rightarrow> field list" where
  "derive_fields m fs = map (\<lambda>(i, t). (ref_name i, m i)) fs"

lemma derive_fields_simps [simp]:
  "derive_fields m [] = []"
  "derive_fields m ((i, t) # fs) = (ref_name i, m i) # derive_fields m fs"
  by (simp_all add: derive_fields_def)

lemma struct_sized_pair [simp]: "struct_sized ((nm, x) # fs) = fst x + struct_sized fs"
  by (cases x) simp

lemma struct_write_pair [simp]: "struct_write off ((nm, x) # fs) buf =
     (if length buf < off then Panic
      else and_then (snd x (drop off buf)) (\<lambda>b. struct_write (off + fst x) fs (take off buf @ b)))"
  by (cases x) simp

lemma headers_write_pair [simp]: "headers_write off ((nm, x) # fs) buf =
     (if length buf < off then Panic
      else case snd x (drop off buf) of
             Ok b \<Rightarrow> headers_write (off + fst x) fs (take off buf @ b)
           | Err e \<Rightarrow> headers_write (off + fst x) fs buf
           | Panic \<Rightarrow> Panic)"
  by (cases x) (auto split: res.splits)

lemma and_then_map_res: "and_then (map_res f r) k = and_then r (\<lambda>x. k (f x))"
  by (cases r) simp_all

lemma serialize_stmts_size:
  "size_value m (snd (serialize_stmts sz fs)) = size_value m sz + struct_sized (derive_fields m fs)"
  by (induction sz fs rule: serialize_stmts.induct) (simp_all add: split_beta)

lemma serialize_stmts_run:
  "run_stmts m (fst (serialize_stmts sz fs)) buf = struct_write (size_value m sz) (derive_fields m fs) buf"
  by (induction sz fs arbitrary: buf rule: serialize_stmts.induct) (simp_all add: split_beta and_then_map_res)

lemma header_stmts_size:
  "size_value m (snd (header_stmts sz (map fst fs))) = size_value m sz + struct_sized (header_fields (derive_fields m fs))"
  if "\<forall>f\<in>set fs. \<exists>i t. f = (Named_Field i, t)"
  using that
  by (induction fs arbitrary: sz) (auto simp: split_beta header_fields_def)

lemma header_stmts_run:
  "run_stmts m (fst (header_stmts sz (map fst fs))) buf
     = headers_write (size_value m sz) (header_fields (derive_fields m fs)) buf"
  if "\<forall>f\<in>set fs. \<exists>i t. f = (Named_Field i, t)"
  using that
proof (induction fs arbitrary: sz buf)
  case (Cons f fs)
  then obtain i t where f: "f = (Named_Field i, t)" by auto
  show ?case
    using Cons by (cases "i = ''payload''")
      (auto simp: f split_beta header_fields_def split: res.splits)
qed (simp add: header_fields_def)

theorem expansion_agrees:
  assumes "struct_rep_new input = Some r" "struct_serialization input = Ok impl"
  shows "run_serialize m impl = struct_serialize (derive_fields m (sr_fields r))"
    and "size_value m (si_sized impl) = struct_sized (derive_fields m (sr_fields r))"
    and "get_headers_impl input = Ok code \<Longrightarrow> run_headers m code = headers (derive_fields m (sr_fields r))"
proof -
  have impl: "si_sized impl = snd (serialize_stmts Size_Zero (sr_fields r))"
    "si_serialize impl = fst (serialize_stmts Size_Zero (sr_fields r))"
    using assms by (auto simp: struct_serialization_def split_beta Let_def)
  show sized: "size_value m (si_sized impl) = struct_sized (derive_fields m (sr_fields r))"
    by (simp add: impl serialize_stmts_size)
  show "run_serialize m impl = struct_serialize (derive_fields m (sr_fields r))"
    by (rule ext) (simp add: run_serialize_def struct_serialize_def sized, simp add: impl serialize_stmts_run)
  show "run_headers m code = headers (derive_fields m (sr_fields r))" if code: "get_headers_impl input = Ok code"
  proof -
    obtain fs where fs: "in_data input = Data_Struct (Named_Fields fs)"
      using code by (cases "in_data input") (auto simp: get_headers_impl_def split: struct_fields.splits)
    have "sr_fields r = named_refs fs" using assms(1) fs by (auto simp: struct_rep_new_def)
    moreover have "code = header_stmts Size_Zero (map fst (named_refs fs))"
      using code fs by (simp add: get_headers_impl_def)
    moreover have "\<forall>f\<in>set (named_refs fs). \<exists>i t. f = (Named_Field i, t)" by (auto simp: named_refs_def)
    ultimately show ?thesis by (simp add: run_headers_def headers_def header_stmts_size header_stmts_run)
  qed
qed

section \<open>Round trips of derived structs\<close>

text \<open>
  Values of the fields with their encodings: each type but the last writes a prefix and reads one back; the last may
  need exactly its bytes.
\<close>

fun codecs_ok :: "(string \<Rightarrow> 'v codec) \<Rightarrow> (field_ref \<times> string) list \<Rightarrow> 'v list \<Rightarrow> bytes list \<Rightarrow> bool" where
  "codecs_ok T [] [] [] = True"
| "codecs_ok T [(i, t)] [x] [e] =
     (co_sized (T t) x = length e \<and> writes_exact (co_write (T t) x) e \<and> co_read (T t) e = Ok x)"
| "codecs_ok T ((i, t) # f # fs) (x # xs) (e # es) =
     (co_sized (T t) x = length e \<and> writes (co_write (T t) x) e \<and> (\<forall>rest. co_read (T t) (e @ rest) = Ok x)
      \<and> codecs_ok T (f # fs) xs es)"
| "codecs_ok T fs xs es = False"

lemma codecs_ok_lengths: "codecs_ok T fs xs es \<Longrightarrow> length xs = length fs \<and> length es = length fs"
  by (induction T fs xs es rule: codecs_ok.induct) auto

lemma derive_fields_cong: "(\<And>f. f \<in> set fs \<Longrightarrow> m (fst f) = m' (fst f)) \<Longrightarrow> derive_fields m fs = derive_fields m' fs"
  by (auto simp: derive_fields_def)

lemma methods_of_Cons:
  "methods_of T ((i, t) # fs) (x # xs) j
     = (if j = i then (co_sized (T t) x, co_write (T t) x) else methods_of T fs xs j)"
  by (simp add: methods_of_def)

lemma methods_of_hd: "methods_of T ((i, t) # fs) (x # xs) i = (co_sized (T t) x, co_write (T t) x)"
  by (simp add: methods_of_Cons)

lemma derive_fields_methods_Cons:
  "i \<notin> fst ` set fs \<Longrightarrow> derive_fields (methods_of T ((i, t) # fs) (x # xs)) fs = derive_fields (methods_of T fs xs) fs"
  by (rule derive_fields_cong) (auto simp: methods_of_Cons)

lemma codecs_encode:
  "\<lbrakk> codecs_ok T fs xs es; distinct (map fst fs) \<rbrakk> \<Longrightarrow> encodes (derive_fields (methods_of T fs xs) fs) es"
proof (induction T fs xs es rule: codecs_ok.induct)
  case (3 T i t f fs x xs e es)
  obtain j u where f: "f = (j, u)" by (cases f)
  have "encodes (derive_fields (methods_of T (f # fs) xs) (f # fs)) es" using 3 by simp
  moreover have "derive_fields (methods_of T ((i, t) # f # fs) (x # xs)) (f # fs)
      = derive_fields (methods_of T (f # fs) xs) (f # fs)"
    using "3.prems"(2) by (intro derive_fields_methods_Cons) simp
  ultimately show ?case
    using "3.prems"(1) by (simp add: f methods_of_hd)
qed (simp_all add: methods_of_hd)

lemma run_lets_reads:
  "\<lbrakk> codecs_ok T fs xs es; list_all (\<lambda>(i, t). \<not> captures i) fs \<rbrakk> \<Longrightarrow>
     run_lets T fs (pre @ concat es) (length pre) env = Ok (env(map fst fs [\<mapsto>] xs))"
proof (induction T fs xs es arbitrary: pre env rule: codecs_ok.induct)
  case (3 T i t f fs x xs e es)
  have "run_lets T (f # fs) ((pre @ e) @ concat es) (length (pre @ e)) (env(i \<mapsto> x))
      = Ok ((env(i \<mapsto> x))(map fst (f # fs) [\<mapsto>] xs))"
    using 3 by (intro "3.IH") simp_all
  then show ?case using "3.prems" by (simp del: run_lets.simps(2) add: run_lets.simps(2) [of T i])
qed simp_all

lemma build_updates:
  "\<lbrakk> distinct is; length xs = length is \<rbrakk> \<Longrightarrow> build is (env(is [\<mapsto>] xs)) = Ok xs"
proof (induction "is" arbitrary: xs env)
  case (Cons i "is")
  then obtain y ys where xs: "xs = y # ys" by (cases xs) auto
  have "build is ((env(i \<mapsto> y))(is [\<mapsto>] ys)) = Ok ys"
    by (rule Cons.IH) (use Cons.prems xs in simp_all)
  then show ?case using Cons.prems by (simp add: xs fun_upd_def)
qed simp

text \<open>C30: A derived \<open>Serialize\<close> is a round trip. For every struct with named or numbered fields (a unit struct has no expansion) whose fields are
  distinct, are not called \<open>bytes\<close> or \<open>offset\<close>, and round trip themselves, all but the last also with more bytes
  behind them, the generated \<open>serialize\<close> writes the encodings of the fields
  one after the other into a buffer of the generated size, and the generated \<open>deserialize\<close> reads the struct back.\<close>

theorem derived_struct_roundtrip:
  assumes "struct_rep_new input = Some r" and "distinct (map fst (sr_fields r))"
    and "codecs_ok T (sr_fields r) xs es" and "list_all (\<lambda>(i, t). \<not> captures i) (sr_fields r)"
  shows "\<exists>impl. serialize_derive_macro input = Some (Ok (Struct_Impl impl))
    \<and> size_value (methods_of T (sr_fields r) xs) (si_sized impl) = length (concat es)
    \<and> (\<forall>buf. length buf = length (concat es) \<longrightarrow>
         run_serialize (methods_of T (sr_fields r) xs) impl buf = Ok (concat es))
    \<and> run_deserialize T impl (concat es) = Ok xs"
proof -
  obtain impl where impl: "struct_serialization input = Ok impl" "si_deserialize impl = sr_fields r"
    "si_construct impl = map fst (sr_fields r)"
    using assms(1) by (simp add: struct_serialization_def split_beta Let_def)
  have m: "serialize_derive_macro input = Some (Ok (Struct_Impl impl))"
    using assms(1) impl(1)
    by (cases "in_data input") (simp_all add: serialize_derive_macro_def struct_rep_new_def)
  note enc = codecs_encode [OF assms(3,2)]
  note agree = expansion_agrees(1,2) [OF assms(1) impl(1), of "methods_of T (sr_fields r) xs"]
  have "run_lets T (sr_fields r) (concat es) 0 Map.empty = Ok (Map.empty(map fst (sr_fields r) [\<mapsto>] xs))"
    using run_lets_reads [OF assms(3,4), of "[]"] by simp
  then have "run_deserialize T impl (concat es) = Ok xs"
    using build_updates [OF assms(2), of xs] codecs_ok_lengths [OF assms(3)] by (simp add: run_deserialize_def impl)
  then show ?thesis
    using m agree enc by (auto simp: encodes_sized struct_serialize_concat)
qed

text \<open>The declaration \<open>struct S { id: [u8; 2], payload: Vec<u8> }\<close>.\<close>

definition demo_input :: derive_input where
  "demo_input = \<lparr>in_ident = ''S'', in_attrs = [],
     in_data = Data_Struct (Named_Fields [(''id'', ''[u8; 2]''), (''payload'', ''Vec<u8>'')])\<rparr>"

definition demo_codec :: "string \<Rightarrow> bytes codec" where
  "demo_codec t = (if t = ''Vec<u8>''
     then \<lparr>co_sized = vec_sized, co_write = vec_serialize, co_read = vec_deserialize\<rparr>
     else \<lparr>co_sized = arr_sized 2, co_write = arr_serialize 2, co_read = arr_deserialize 2\<rparr>)"

theorem derived_struct_roundtrip_witness:
  "\<exists>impl. serialize_derive_macro demo_input = Some (Ok (Struct_Impl impl))
    \<and> run_deserialize demo_codec impl [7, 8, 1, 2, 3] = Ok [[7, 8], [1, 2, 3]]"
proof -
  have "struct_rep_new demo_input
      = Some \<lparr>sr_ident = ''S'', sr_fields = [(Named_Field ''id'', ''[u8; 2]''), (Named_Field ''payload'', ''Vec<u8>'')]\<rparr>"
    by (simp add: struct_rep_new_def demo_input_def named_refs_def)
  from derived_struct_roundtrip [OF this, of demo_codec "[[7, 8], [1, 2, 3]]" "[[7, 8], [1, 2, 3]]"]
  show ?thesis
    by (auto simp: captures_def demo_codec_def vec_sized_def arr_sized_def arr_deserialize_def vec_deserialize_def writes_exact_last)
qed

section \<open>Enums\<close>

lemma variant_exprs_append:
  "\<exists>c' l'. variant_exprs c l (vs @ ws) = variant_exprs c l vs @ variant_exprs c' l' ws"
proof (induction c l vs rule: variant_exprs.induct)
  case (1 c l)
  then show ?case by auto
qed auto

lemma variant_exprs_names [simp]: "map fst (variant_exprs c l vs) = map fst vs"
  by (induction c l vs rule: variant_exprs.induct) simp_all

lemma run_ifs_append:
  "run_ifs (xs @ ys) tmp = (if \<exists>e\<in>fst ` set xs. tmp = word_of_int (expr_value e) then run_ifs xs tmp else run_ifs ys tmp)"
  by (induction xs tmp rule: run_ifs.induct) auto

lemma run_ifs_name: "run_ifs xs tmp = Ok v \<Longrightarrow> v \<in> snd ` set xs"
  by (induction xs tmp rule: run_ifs.induct) (auto split: if_splits)

text \<open>C39: The second of two variants without a discriminant is never read. The macro does not advance its counter, so
  the generated \<open>deserialize\<close> compares with the same number twice: whatever the bytes, it does not return the second
  variant. The integer type is any of the language.\<close>

theorem implicit_variant_unreadable:
  assumes "in_data input = Data_Enum (pre @ (u, None) # (v, None) # post)"
    and "v \<notin> fst ` set pre" "v \<noteq> u" "v \<notin> fst ` set post"
    and "enum_serialization input = Some (Ok impl)"
  shows "run_enum_deserialize ty impl bs \<noteq> Ok v"
proof -
  let ?vs = "pre @ (u, None) # (v, None) # post"
  obtain c l where rest: "variant_exprs 0 (Lit 0) ?vs
      = variant_exprs 0 (Lit 0) pre @ variant_exprs c l ((u, None) # (v, None) # post)"
    using variant_exprs_append by blast
  define e where "e = plus_counter l c"
  define swap where "swap = map (\<lambda>(i :: string, e :: expr). (e, i))"
  have ifs: "ei_ifs impl = swap (variant_exprs 0 (Lit 0) pre) @ (e, u) # (e, v) # swap (variant_exprs c l post)"
    using assms(1,5) rest
    by (auto simp: enum_serialization_def enum_rep_new_def swap_def e_def and_then_Ok_iff map_res_Ok_iff split: option.splits)
  have names: "snd ` set (swap (variant_exprs c' l' ws)) = fst ` set ws" for c' l' ws
  proof -
    have "snd ` set (swap xs) = fst ` set xs" for xs by (force simp: swap_def)
    moreover have "fst ` set (variant_exprs c' l' ws) = fst ` set ws"
      by (metis variant_exprs_names list.set_map)
    ultimately show ?thesis by simp
  qed
  have "run_ifs (ei_ifs impl) tmp \<noteq> Ok v" for tmp :: "'b::len word"
  proof
    assume "run_ifs (ei_ifs impl) tmp = Ok v"
    then have "run_ifs (swap (variant_exprs 0 (Lit 0) pre)) tmp = Ok v
        \<or> run_ifs (swap (variant_exprs c l post)) tmp = Ok v"
      using assms(3) by (auto simp: ifs run_ifs_append split: if_splits)
    then show False using run_ifs_name names assms(2,4) by blast
  qed
  then show ?thesis by (auto simp: run_enum_deserialize_def and_then_Ok_iff)
qed

text \<open>The end of \<open>ErrorType\<close>: a written discriminant and two without.\<close>

definition demo_enum :: derive_input where
  "demo_enum = \<lparr>in_ident = ''ErrorType'', in_attrs = [\<lparr>at_path = ''repr'', at_args = Some [Tok_Ident ''u8'']\<rparr>],
     in_data = Data_Enum [(''UnexpectedPacket'', Some (Lit 1)), (''IncomprehensiblePacket'', None),
       (''SessionDoesNotExist'', None)]\<rparr>"

lemma repr_idents_one: "repr_idents [Tok_Ident i] = Some [i]"
  by (simp add: repr_idents.simps)

theorem implicit_variant_unreadable_witness:
  "\<exists>impl. enum_serialization demo_enum = Some (Ok impl)
    \<and> run_enum_deserialize TYPE(8) impl [3] \<noteq> Ok ''SessionDoesNotExist''"
proof -
  obtain impl where impl: "enum_serialization demo_enum = Some (Ok impl)"
    by (simp add: enum_serialization_def enum_rep_new_def demo_enum_def serialize_as_def repr_idents_one INT_TYPES_def)
  have "run_enum_deserialize TYPE(8) impl [3] \<noteq> Ok ''SessionDoesNotExist''"
    by (rule implicit_variant_unreadable [OF _ _ _ _ impl, where pre = "[(''UnexpectedPacket'', Some (Lit 1))]"
          and u = "''IncomprehensiblePacket''" and post = "[]"])
      (simp_all add: demo_enum_def)
  then show ?thesis using impl by blast
qed

text \<open>A list in the \<open>repr\<close> attribute, such as \<open>repr(C, u8)\<close>, has a token that is no identifier: the expansion does not end.\<close>

lemma repr_idents_Some: "repr_idents ts = Some is \<Longrightarrow> ts = map Tok_Ident is"
proof (rule repr_idents.raw_induct [of "\<lambda>ts is. ts = map Tok_Ident is"])
  fix f ts "is"
  assume IH: "\<And>ts is. f ts = Some is \<Longrightarrow> ts = map Tok_Ident is"
    and body: "(case ts of [] \<Rightarrow> Some [] | Tok_Ident i # ts' \<Rightarrow> Option.bind (f ts') (\<lambda>is. Some (i # is))
      | Tok_Other x # ts' \<Rightarrow> Option.bind (f (Tok_Other x # ts')) Some) = Some is"
  show "ts = map Tok_Ident is"
    using body IH by (auto split: list.splits token.splits Option.bind_splits)
qed

theorem repr_list_never_expands:
  "find_serialize_as [\<lparr>at_path = ''repr'', at_args = Some [Tok_Ident ''C'', Tok_Other '','', Tok_Ident ''u8'']\<rparr>] = None"
proof -
  have "repr_idents [Tok_Ident ''C'', Tok_Other '','', Tok_Ident ''u8''] = None"
    using repr_idents_Some [of "[Tok_Ident ''C'', Tok_Other '','', Tok_Ident ''u8'']"]
    by (cases "repr_idents [Tok_Ident ''C'', Tok_Other '','', Tok_Ident ''u8'']") auto
  then show ?thesis by (simp add: serialize_as_def)
qed

end
