(* ===== verification/Lifecycle.thy ===== *)
theory Lifecycle imports Layers Api Session_Machine begin

text \<open>
  The life of the library in a process: what \<open>open\<close> of \<open>src/src/manager/routines/endpoints.rs\<close> and \<open>init\<close> of
  \<open>src/src/manager/mod.rs\<close> do to the statics \<open>PROTOCOL_OPEN\<close>, \<open>STATE\<close> and \<open>PROTOCOL_EPOCH\<close>, which outlive the manager.
  Each call of \<open>init\<close> makes its own channel to the packet processor, here a number: the routines of commands and packets
  are given its sender, the window of pending packets and the pruning of error correction keep the one they were
  made with. The layers are those of \<open>Layers\<close>, the state that of \<open>Protocol\<close>.
\<close>

section \<open>Opening\<close>

text \<open>\<open>OnceLock::set\<close>, whose result is ignored.\<close>

definition once_set :: "'a \<Rightarrow> 'a option \<Rightarrow> 'a option" where
  "once_set x o' = (case o' of None \<Rightarrow> Some x | Some y \<Rightarrow> Some y)"

text \<open>\<open>ps_open\<close> is \<open>PROTOCOL_OPEN\<close>; \<open>ps_api\<close> says whether there is an \<open>ApiInner\<close>.\<close>

record ('k, 's) process =
  ps_open :: bool
  ps_api :: bool
  ps_channels :: nat
  ps_state :: "(nat \<times> ('k, 's) protocol) option"
  ps_epoch :: "timestamp option"

definition process_new :: "('k, 's) process" where
  "process_new = \<lparr>ps_open = False, ps_api = False, ps_channels = 0, ps_state = None, ps_epoch = None\<rparr>"

text \<open>What the system gives a start: a runtime, the port, the socket of the transport layer, a first outbound socket.\<close>

record startup =
  su_app :: bytes
  su_port :: u16
  su_now :: timestamp
  su_runtime :: bool
  su_free :: bool
  su_listen :: "nat option"
  su_bound :: bool

text \<open>
  \<open>manager::init\<close> up to its select; a layer whose task ends before it signals its start is \<open>FailedToOpen\<close>.
\<close>

definition manager_start ::
  "bool \<Rightarrow> startup \<Rightarrow> ('k, 's) process \<Rightarrow> (api_errors, layers) res \<times> ('k, 's) process" where
  "manager_start dbg su p =
     (if \<not> su_free su then (Err (Api_PortAlreadyInUse (su_port su)), p)
      else let p = p\<lparr>ps_channels := Suc (ps_channels p),
                     ps_state := once_set (ps_channels p, protocol_new (su_app su)) (ps_state p),
                     ps_epoch := once_set (su_now su) (ps_epoch p)\<rparr>
           in (case start_layers dbg (su_port su) (su_free su) (su_listen su) (su_bound su) of
                 Ok l \<Rightarrow> Ok l
               | Err (Start_PortAlreadyInUse n) \<Rightarrow> Err (Api_PortAlreadyInUse n)
               | _ \<Rightarrow> Err Api_FailedToOpen, p))"

text \<open>
  \<open>endpoints::open\<close>: the thread of the manager reports whether it has a runtime and then runs \<open>init\<close>. The caller is
  told only of the runtime; the result of the thread is found in its handle.
\<close>

definition endpoints_open ::
  "bool \<Rightarrow> startup \<Rightarrow> ('k, 's) process
     \<Rightarrow> (api_errors, unit) res \<times> (api_errors, layers) res \<times> ('k, 's) process" where
  "endpoints_open dbg su p =
     (if su_runtime su then (case manager_start dbg su p of (r, p) \<Rightarrow> (Ok (), r, p))
      else (Err Api_FailedToBuildRuntime, Err (Api_ThreadFailed), p))"

text \<open>\<open>ApiInner::new\<close> with its effect on the process.\<close>

definition process_open ::
  "bool \<Rightarrow> startup \<Rightarrow> ('k, 's) process \<Rightarrow> (api_errors, api_state) res \<times> ('k, 's) process" where
  "process_open dbg su p =
     (if ps_open p then (Err Api_AlreadyOpen, p)
      else case endpoints_open dbg su p of
             (started, _, p) \<Rightarrow>
               (case api_inner_new started False of
                  (Ok a, flag) \<Rightarrow> (Ok a, p\<lparr>ps_open := flag, ps_api := True\<rparr>)
                | (r, flag) \<Rightarrow> (r, p\<lparr>ps_open := flag\<rparr>)))"

text \<open>\<open>close\<close> and the destructor, once the thread of the manager has ended.\<close>

definition process_close :: "('k, 's) process \<Rightarrow> ('k, 's) process" where
  "process_close p =
     (case api_inner_close True (ps_open p) api_state_new of
        Some (flag, _) \<Rightarrow> p\<lparr>ps_open := flag, ps_api := False\<rparr>
      | None \<Rightarrow> p)"

inductive process_step :: "('k, 's) process \<Rightarrow> ('k, 's) process \<Rightarrow> bool" where
  ps_opened: "process_step p (snd (process_open dbg su p))"
| ps_closed: "ps_api p \<Longrightarrow> process_step p (process_close p)"
| ps_runs: "\<lbrakk> ps_api p; ps_state p = Some (ch, st); step l st st' \<rbrakk>
    \<Longrightarrow> process_step p (p\<lparr>ps_state := Some (ch, st')\<rparr>)"

inductive_cases process_stepE: "process_step p p'"

section \<open>The state outlives the manager\<close>

lemma once_set_simps [simp]: "once_set x None = Some x" "once_set x (Some y) = Some y"
  by (simp_all add: once_set_def)

lemma process_open_fields:
  "ps_state p = Some s \<Longrightarrow> ps_state (snd (process_open dbg su p)) = Some s"
  "ps_channels p \<le> ps_channels (snd (process_open dbg su p))"
  by (auto simp: process_open_def endpoints_open_def manager_start_def api_inner_new_def Let_def split: res.splits)

lemma process_close_fields [simp]:
  "ps_state (process_close p) = ps_state p" "ps_channels (process_close p) = ps_channels p"
  by (simp_all add: process_close_def split: option.splits prod.splits)

text \<open>Channels are numbered as they are made.\<close>

definition channel_known :: "('k, 's) process \<Rightarrow> bool" where
  "channel_known p \<longleftrightarrow> (\<forall>ch st. ps_state p = Some (ch, st) \<longrightarrow> ch < ps_channels p)"

lemma channel_known_step: "\<lbrakk> process_step p p'; channel_known p \<rbrakk> \<Longrightarrow> channel_known p'"
proof (erule process_stepE)
  fix dbg su
  assume "channel_known p" and "p' = snd (process_open dbg su p)"
  then show "channel_known p'"
    by (cases "ps_state p")
      (auto simp: channel_known_def process_open_def endpoints_open_def manager_start_def api_inner_new_def Let_def
        split: res.splits)
qed (auto simp: channel_known_def)

lemma state_kept:
  assumes "process_step\<^sup>*\<^sup>* p p'" and "ps_state p = Some (ch, st)"
  shows "\<exists>st'. ps_state p' = Some (ch, st') \<and> (\<lambda>a b. \<exists>l. step l a b)\<^sup>*\<^sup>* st st'"
  using assms(1)
proof (induction rule: rtranclp_induct)
  case base
  then show ?case using assms(2) by blast
next
  case (step p1 p2)
  then obtain st' where st': "ps_state p1 = Some (ch, st')" "(\<lambda>a b. \<exists>l. step l a b)\<^sup>*\<^sup>* st st'" by blast
  from step.hyps(2) show ?case
  proof (rule process_stepE)
    fix ch' st1 l st2
    assume "p2 = p1\<lparr>ps_state := Some (ch', st2)\<rparr>" "ps_state p1 = Some (ch', st1)" "step l st1 st2"
    then show ?thesis using st' by (auto intro: rtranclp.rtrancl_into_rtrancl)
  qed (use st' process_open_fields(1) [OF st'(1)] in auto)
qed

text \<open>
  A second life runs on the state of the first. Whatever happens in the process, once a manager has started the
  state is the one made then, run on by the steps of all lives: a later start, with its own application, creates
  a channel of its own but finds the sessions, keys and handshakes of the life before, and the sender the windows
  were made with, which no packet processor reads any more.
\<close>

theorem second_life_inherits:
  assumes "process_step\<^sup>*\<^sup>* process_new p" and "ps_state p = Some (ch, st)" and "process_step\<^sup>*\<^sup>* p p'"
    and "\<not> ps_open p'" "su_runtime su" "su_free su"
  shows "\<exists>st'. fst (process_open dbg su p') = Ok api_state_new
    \<and> ps_state (snd (process_open dbg su p')) = Some (ch, st') \<and> (\<lambda>a b. \<exists>l. step l a b)\<^sup>*\<^sup>* st st'
    \<and> ch < ps_channels p' \<and> ps_channels (snd (process_open dbg su p')) = Suc (ps_channels p')"
proof -
  obtain st' where st': "ps_state p' = Some (ch, st')" "(\<lambda>a b. \<exists>l. step l a b)\<^sup>*\<^sup>* st st'"
    using state_kept [OF assms(3,2)] by blast
  have "process_step\<^sup>*\<^sup>* process_new p'" using assms(1,3) by (rule rtranclp_trans)
  then have "channel_known p'"
    by (induction rule: rtranclp_induct) (simp add: channel_known_def process_new_def, blast intro: channel_known_step)
  then have "ch < ps_channels p'" using st'(1) by (simp add: channel_known_def)
  moreover have "fst (process_open dbg su p') = Ok api_state_new"
    "ps_channels (snd (process_open dbg su p')) = Suc (ps_channels p')"
    using assms(4-6)
    by (simp_all add: process_open_def endpoints_open_def api_inner_new_def manager_start_def Let_def)
  ultimately show ?thesis using st' process_open_fields(1) [OF st'(1)] by blast
qed

text \<open>The port being taken is not reported: the caller of \<open>open\<close> gets a working handle.\<close>

lemma taken_port_unreported:
  "\<lbrakk> \<not> ps_open p; su_runtime su; \<not> su_free su \<rbrakk> \<Longrightarrow> fst (process_open dbg su p) = Ok api_state_new"
  by (simp add: process_open_def endpoints_open_def manager_start_def api_inner_new_def)

text \<open>A process in which building the runtime has failed once can never open the library again.\<close>

lemma no_runtime_final:
  assumes "process_step\<^sup>*\<^sup>* (snd (process_open dbg su p)) p'" and "\<not> su_runtime su" "\<not> ps_open p" "\<not> ps_api p"
  shows "fst (process_open dbg' su' p') = Err Api_AlreadyOpen"
proof -
  have "ps_open p' \<and> \<not> ps_api p'"
    using assms(1)
  proof (induction rule: rtranclp_induct)
    case base
    then show ?case using assms(2-4) by (simp add: process_open_def endpoints_open_def api_inner_new_def)
  next
    case (step p1 p2)
    from step.hyps(2) show ?case
      by (rule process_stepE) (use step.IH in \<open>auto simp: process_open_def\<close>)
  qed
  then show ?thesis by (simp add: process_open_def)
qed

section \<open>Joining the layers\<close>

text \<open>
  \<open>set_handles\<close> and \<open>join_layers\<close>: the handles are taken, so a second call panics a debug build and returns at once
  in a release build. The result of a join is ignored.
\<close>

definition set_handles :: "'h \<Rightarrow> 'h option \<Rightarrow> 'h option" where
  "set_handles new h = Some new"

definition panic_in_debug :: "bool \<Rightarrow> 'a option \<Rightarrow> 'a option ures" where
  "panic_in_debug dbg x = (if dbg \<and> x = None then Panic else Ok x)"

definition join_layers :: "bool \<Rightarrow> 'h option \<Rightarrow> 'h option ures \<times> 'h option" where
  "join_layers dbg h = (panic_in_debug dbg h, None)"

text \<open>The layers are joined once, by whoever comes first after they have been set.\<close>

lemma join_layers_once:
  "join_layers dbg (set_handles x h) = (Ok (Some x), None)"
  "join_layers dbg (snd (join_layers dbg h)) = (if dbg then Panic else Ok None, None)"
  by (simp_all add: join_layers_def set_handles_def panic_in_debug_def)

end
